(* ===== verification/Infonet_Prelude.thy ===== *)
theory Infonet_Prelude
  imports Main "HOL-Library.Product_Lexorder" "HOL-Library.AList" "HOL-Library.Multiset"
begin

section \<open>Shared vocabulary: exceptions, results, dictionaries, list lemmas\<close>

text \<open>
  The prelude holds what every component of the Infonet model shares:
  \<^item> the exceptions the Python code can raise (\<open>pyexc\<close>) and the result type
    \<open>'a res\<close>: \<open>Inl\<close> is a raised exception, \<open>Inr\<close> a returned value;
  \<^item> sequencing (\<open>rbind\<close>), the loop that may raise (\<open>mapR\<close>, \<open>foldR\<close>) and their lemmas;
  \<^item> Python dictionaries as association lists in insertion order (\<open>dict_get\<close>, \<open>dict_set\<close>);
  \<^item> the collections of rewrite rules that carry the component proofs.
\<close>

named_theorems res_simps \<open>rewrite rules for results and monadic loops\<close>
named_theorems float_simps \<open>rewrite rules for float arithmetic and comparisons\<close>
named_theorems chain_simps \<open>rewrite rules for event and chain accessors\<close>

subsection \<open>Exceptions\<close>

text \<open>
  The reason of an \<open>InvalidPetition\<close> is the tag of the \<open>raise\<close> statement that made it,
  with the key it names; the formatted message itself is not modelled.
\<close>

datatype petition_fault =
    NoSchema string
  | TypeMismatch string
  | BelowMinimum string
  | AboveMaximum string
  | NotInEnum string
  | InvariantMissingKey string
  | InvariantViolated string string
  | UnknownOperator string
  | SchemaIncomplete "string list"
  | SchemaExtra "string list"
  | PayloadNotObject
  | UnknownPayloadType
  | KeyNotString
  | KeyImmutable string
  | KeyUnknown string
  | MissingKeyOrValue
  | EmptyUpdates
  | BadUpdateEntry
  | DuplicateKey string
  | FeatureMissing
  | FeatureNotBoolean string

datatype pyexc =
    TypeError
  | ValueError
  | OverflowError
  | KeyError
  | AttributeError
  | ZeroDivisionError
  | IndexError
  | AssertionError
  | InvalidPetition petition_fault
  | InvalidAuthoritativeSnapshot
  | EventConstructionError string

type_synonym 'a res = "pyexc + 'a"

subsection \<open>Sequencing of results\<close>

fun rbind :: "'a res \<Rightarrow> ('a \<Rightarrow> 'b res) \<Rightarrow> 'b res" where
  "rbind (Inl e) f = Inl e"
| "rbind (Inr x) f = f x"

definition rmap :: "('a \<Rightarrow> 'b) \<Rightarrow> 'a res \<Rightarrow> 'b res" where
  "rmap f r = rbind r (\<lambda>x. Inr (f x))"

text \<open>A \<open>for\<close> loop that may raise: it stops at the first exception.\<close>

fun foldR :: "('a \<Rightarrow> 's \<Rightarrow> 's res) \<Rightarrow> 'a list \<Rightarrow> 's \<Rightarrow> 's res" where
  "foldR f [] s = Inr s"
| "foldR f (x # xs) s = rbind (f x s) (foldR f xs)"

fun mapR :: "('a \<Rightarrow> 'b res) \<Rightarrow> 'a list \<Rightarrow> 'b list res" where
  "mapR f [] = Inr []"
| "mapR f (x # xs) = rbind (f x) (\<lambda>y. rbind (mapR f xs) (\<lambda>ys. Inr (y # ys)))"

definition returns :: "'a res \<Rightarrow> bool" where
  "returns r \<longleftrightarrow> (case r of Inl _ \<Rightarrow> False | Inr _ \<Rightarrow> True)"

lemma rbind_Inr_iff [res_simps]: "rbind r f = Inr y \<longleftrightarrow> (\<exists>x. r = Inr x \<and> f x = Inr y)"
  by (cases r) auto

lemma rbind_Inl_iff [res_simps]:
  "rbind r f = Inl e \<longleftrightarrow> r = Inl e \<or> (\<exists>x. r = Inr x \<and> f x = Inl e)"
  by (cases r) auto

lemma rbind_assoc: "rbind (rbind r f) g = rbind r (\<lambda>x. rbind (f x) g)"
  by (cases r) auto

lemma rbind_return [simp]: "rbind r Inr = r"
  by (cases r) auto

lemma rmap_simps [simp]: "rmap f (Inl e) = Inl e" "rmap f (Inr x) = Inr (f x)"
  by (simp_all add: rmap_def)

lemma rmap_Inr_iff [res_simps]: "rmap f r = Inr y \<longleftrightarrow> (\<exists>x. r = Inr x \<and> f x = y)"
  by (auto simp: rmap_def res_simps)

lemma returns_simps [simp]: "returns (Inr x)" "\<not> returns (Inl e)"
  by (simp_all add: returns_def)

lemma returns_iff: "returns r \<longleftrightarrow> (\<exists>x. r = Inr x)"
  by (cases r) auto

text \<open>\<open>try: ... except (TypeError, ValueError)\<close>: \<open>None\<close> is the handler's branch.\<close>

fun catch_tv :: "'a res \<Rightarrow> 'a option res" where
  "catch_tv (Inr x) = Inr (Some x)"
| "catch_tv (Inl TypeError) = Inr None"
| "catch_tv (Inl ValueError) = Inr None"
| "catch_tv (Inl e) = Inl e"

lemma catch_tv_Some [res_simps]: "catch_tv r = Inr (Some x) \<longleftrightarrow> r = Inr x"
  by (cases r rule: catch_tv.cases) auto

lemma catch_tv_None [res_simps]: "catch_tv r = Inr None \<longleftrightarrow> r = Inl TypeError \<or> r = Inl ValueError"
  by (cases r rule: catch_tv.cases) auto

lemma catch_tv_Inl [res_simps]: "catch_tv r = Inl e \<longleftrightarrow> r = Inl e \<and> e \<noteq> TypeError \<and> e \<noteq> ValueError"
  by (cases r rule: catch_tv.cases) auto

text \<open>A handled exception or a missing value gives the default, otherwise the code goes on.\<close>

definition skipR :: "'a option res \<Rightarrow> 'b \<Rightarrow> ('a \<Rightarrow> 'b res) \<Rightarrow> 'b res" where
  "skipR r d f = rbind r (\<lambda>x. case x of None \<Rightarrow> Inr d | Some y \<Rightarrow> f y)"

lemma skipR_simps [simp]:
  "skipR (Inr None) d f = Inr d" "skipR (Inr (Some x)) d f = f x" "skipR (Inl e) d f = Inl e"
  by (simp_all add: skipR_def)

lemma skipR_Inr_iff [res_simps]:
  "skipR r d f = Inr y \<longleftrightarrow> r = Inr None \<and> y = d \<or> (\<exists>x. r = Inr (Some x) \<and> f x = Inr y)"
  by (cases r) (auto simp: skipR_def split: option.splits)

lemma skipR_Inl_iff [res_simps]:
  "skipR r d f = Inl e \<longleftrightarrow> r = Inl e \<or> (\<exists>x. r = Inr (Some x) \<and> f x = Inl e)"
  by (cases r) (auto simp: skipR_def split: option.splits)

lemma foldR_Nil_fun [simp]: "foldR f [] = Inr"
  by (rule ext) simp

lemma foldR_append: "foldR f (xs @ ys) s = rbind (foldR f xs s) (foldR f ys)"
proof (induction xs arbitrary: s)
  case Nil
  then show ?case by simp
next
  case (Cons x xs)
  have "foldR f (xs @ ys) = (\<lambda>s. rbind (foldR f xs s) (foldR f ys))"
    using Cons.IH by (rule ext)
  then show ?case by (simp add: rbind_assoc)
qed

lemma foldR_total: "(\<And>x s. f x s = Inr (g x s)) \<Longrightarrow> foldR f xs s = Inr (fold g xs s)"
  by (induction xs arbitrary: s) auto

lemma foldR_invariant:
  assumes "foldR f xs s = Inr t" and "P s"
    and "\<And>x s t. x \<in> set xs \<Longrightarrow> P s \<Longrightarrow> f x s = Inr t \<Longrightarrow> P t"
  shows "P t"
  using assms
proof (induction xs arbitrary: s)
  case Nil
  then show ?case by simp
next
  case (Cons x xs)
  from Cons.prems(1) obtain u where u: "f x s = Inr u" "foldR f xs u = Inr t"
    by (auto simp: res_simps)
  from Cons.prems(2,3) u(1) have "P u" by (meson list.set_intros(1))
  with u(2) show ?case using Cons.IH Cons.prems(3) by (meson list.set_intros(2))
qed

lemma foldR_returns:
  assumes "\<And>x s. x \<in> set xs \<Longrightarrow> P s \<Longrightarrow> \<exists>t. f x s = Inr t \<and> P t" and "P s"
  shows "\<exists>t. foldR f xs s = Inr t \<and> P t"
  using assms
proof (induction xs arbitrary: s)
  case Nil
  then show ?case by simp
next
  case (Cons x xs)
  from Cons.prems obtain t where "f x s = Inr t" "P t" by (meson list.set_intros(1))
  with Cons show ?case by simp
qed

lemma mapR_length: "mapR f xs = Inr ys \<Longrightarrow> length ys = length xs"
  by (induction xs arbitrary: ys) (auto simp: res_simps)

lemma mapR_Inr_iff: "mapR f xs = Inr ys \<longleftrightarrow> list_all2 (\<lambda>x y. f x = Inr y) xs ys"
proof (induction xs arbitrary: ys)
  case Nil
  then show ?case by auto
next
  case (Cons x xs)
  then show ?case by (cases ys) (auto simp: res_simps)
qed

lemma mapR_set: "mapR f xs = Inr ys \<Longrightarrow> y \<in> set ys \<Longrightarrow> \<exists>x \<in> set xs. f x = Inr y"
  by (induction xs arbitrary: ys) (auto simp: res_simps)

lemma mapR_mem: "mapR f xs = Inr ys \<Longrightarrow> x \<in> set xs \<Longrightarrow> \<exists>y \<in> set ys. f x = Inr y"
  by (induction xs arbitrary: ys) (auto simp: res_simps)

lemma mapR_image:
  "mapR f xs = Inr ys \<Longrightarrow> (\<And>x y. x \<in> set xs \<Longrightarrow> f x = Inr y \<Longrightarrow> g y = h x) \<Longrightarrow> map g ys = map h xs"
  by (induction xs arbitrary: ys) (auto simp: res_simps)

lemma mapR_total: "(\<And>x. x \<in> set xs \<Longrightarrow> f x = Inr (g x)) \<Longrightarrow> mapR f xs = Inr (map g xs)"
  by (induction xs) auto

subsection \<open>Dictionaries in insertion order\<close>

type_synonym ('k, 'v) dict = "('k \<times> 'v) list"

definition dict_get :: "('k, 'v) dict \<Rightarrow> 'k \<Rightarrow> 'v option" where
  "dict_get d k = map_of d k"

text \<open>\<open>d[k] = v\<close>: an existing key keeps its place, a new one goes to the end.\<close>

definition dict_set :: "('k, 'v) dict \<Rightarrow> 'k \<Rightarrow> 'v \<Rightarrow> ('k, 'v) dict" where
  "dict_set d k v = AList.update k v d"

definition dict_has :: "('k, 'v) dict \<Rightarrow> 'k \<Rightarrow> bool" where
  "dict_has d k \<longleftrightarrow> dict_get d k \<noteq> None"

definition get_or :: "'v option \<Rightarrow> 'v \<Rightarrow> 'v" where
  "get_or x d = (case x of None \<Rightarrow> d | Some v \<Rightarrow> v)"

lemma get_or_simps [simp]: "get_or None d = d" "get_or (Some v) d = v"
  by (simp_all add: get_or_def)

lemma dict_get_Nil [simp]: "dict_get [] k = None"
  by (simp add: dict_get_def)

lemma dict_get_set: "dict_get (dict_set d k v) k' = (if k' = k then Some v else dict_get d k')"
  by (simp add: dict_get_def dict_set_def update_conv')

lemma dict_get_set_same [simp]: "dict_get (dict_set d k v) k = Some v"
  by (simp add: dict_get_set)

lemma dict_get_set_other [simp]: "k' \<noteq> k \<Longrightarrow> dict_get (dict_set d k v) k' = dict_get d k'"
  by (simp add: dict_get_set)

lemma dict_keys_set: "set (map fst (dict_set d k v)) = insert k (set (map fst d))"
  by (induction d) (auto simp: dict_set_def)

lemma dict_set_mem: "(k', v') \<in> set (dict_set d k v) \<Longrightarrow> (k', v') \<in> set d \<or> k' = k \<and> v' = v"
  by (induction d) (auto simp: dict_set_def split: if_splits)

lemma dict_distinct_set: "distinct (map fst d) \<Longrightarrow> distinct (map fst (dict_set d k v))"
  by (simp add: dict_set_def distinct_update)

lemma dict_get_None_iff: "dict_get d k = None \<longleftrightarrow> k \<notin> set (map fst d)"
  by (simp add: dict_get_def map_of_eq_None_iff)

lemma dict_get_mem: "dict_get d k = Some v \<Longrightarrow> (k, v) \<in> set d"
  by (simp add: dict_get_def map_of_SomeD)

lemma dict_get_Some_iff: "distinct (map fst d) \<Longrightarrow> dict_get d k = Some v \<longleftrightarrow> (k, v) \<in> set d"
  by (simp add: dict_get_def)

subsection \<open>First entry per key\<close>

text \<open>
  Many loops of the source keep the first entry of each node and skip the later ones; \<open>nub_fst\<close>
  is that list.
\<close>

fun nub_fst :: "('k \<times> 'v) list \<Rightarrow> ('k \<times> 'v) list" where
  "nub_fst [] = []"
| "nub_fst (p # ps) = p # filter (\<lambda>q. fst q \<noteq> fst p) (nub_fst ps)"

lemma map_of_filter_neq: "map_of (filter (\<lambda>q. fst q \<noteq> k) ps) k' = (if k' = k then None else map_of ps k')"
  by (induction ps) auto

lemma map_of_nub_fst [simp]: "map_of (nub_fst ps) = map_of ps"
proof (induction ps)
  case Nil
  then show ?case by simp
next
  case (Cons p ps)
  then show ?case by (cases p) (auto simp: map_of_filter_neq)
qed

lemma distinct_nub_fst [simp]: "distinct (map fst (nub_fst ps))"
  by (induction ps) (auto simp: distinct_map_filter)

lemma set_nub_fst: "(k, v) \<in> set (nub_fst ps) \<longleftrightarrow> map_of ps k = Some v"
  using map_of_eq_Some_iff [OF distinct_nub_fst, of ps k v] by simp

lemma set_nub_fst_subset: "set (nub_fst ps) \<subseteq> set ps"
  by (induction ps) auto

lemma sorted_wrt_nub_fst: "sorted_wrt P ps \<Longrightarrow> sorted_wrt P (nub_fst ps)"
  using set_nub_fst_subset by (induction ps) (auto intro: sorted_wrt_filter)

lemma map_of_sorted_desc:
  assumes "sorted_wrt (\<lambda>p q. snd q \<le> snd p) ps" and "map_of ps k = Some v" and "(k, w) \<in> set ps"
  shows "w \<le> (v :: 'v :: linorder)"
  using assms by (induction ps) (auto split: if_splits)

lemma nub_fst_sorted_desc_unique:
  fixes ps qs :: "('k \<times> 'v :: linorder) list"
  assumes ps: "sorted_wrt (\<lambda>p q. snd q \<le> snd p) ps" and qs: "sorted_wrt (\<lambda>p q. snd q \<le> snd p) qs"
    and same: "set ps = set qs"
  shows "map snd (nub_fst ps) = map snd (nub_fst qs)"
proof -
  have le: "map_of xs k = Some v \<Longrightarrow> map_of ys k = Some v"
    if xs: "sorted_wrt (\<lambda>p q. snd q \<le> snd p) xs" and ys: "sorted_wrt (\<lambda>p q. snd q \<le> snd p) ys"
      and eq: "set xs = set ys" for xs ys :: "('k \<times> 'v) list" and k v
  proof -
    assume v: "map_of xs k = Some v"
    then have mem: "(k, v) \<in> set ys" using eq map_of_SomeD by fastforce
    then obtain w where w: "map_of ys k = Some w" using weak_map_of_SomeI by fastforce
    then have "(k, w) \<in> set xs" using eq map_of_SomeD by fastforce
    then have "w \<le> v" by (rule map_of_sorted_desc [OF xs v])
    moreover have "v \<le> w" by (rule map_of_sorted_desc [OF ys w mem])
    ultimately show ?thesis using w by simp
  qed
  have "map_of ps k = map_of qs k" for k
    using le [OF ps qs same] le [OF qs ps same [symmetric]] by (metis option.exhaust)
  then have "set (nub_fst ps) = set (nub_fst qs)" by (auto simp: set_nub_fst)
  moreover have "distinct (nub_fst xs)" for xs :: "('k \<times> 'v) list"
    using distinct_nub_fst [of xs] by (simp add: distinct_map)
  ultimately have "mset (nub_fst ps) = mset (nub_fst qs)" by (simp add: set_eq_iff_mset_eq_distinct)
  then have "mset (rev (map snd (nub_fst ps))) = mset (rev (map snd (nub_fst qs)))"
    by (metis mset_map mset_rev)
  moreover have "sorted (rev (map snd (nub_fst xs)))" if "sorted_wrt (\<lambda>p q. snd q \<le> snd p) xs"
    for xs :: "('k \<times> 'v) list"
    using sorted_wrt_nub_fst [OF that] by (simp add: sorted_wrt_rev sorted_wrt_map)
  ultimately have "rev (map snd (nub_fst ps)) = rev (map snd (nub_fst qs))"
    using ps qs by (metis properties_for_sort)
  then show ?thesis by simp
qed

subsection \<open>Sorting by a key without ties\<close>

lemma sort_key_unique:
  assumes "distinct (map f xs)" and "mset xs = mset ys"
  shows "sort_key f xs = sort_key f ys"
proof (rule map_sorted_distinct_set_unique)
  have set: "set xs = set ys" using assms(2) by (metis set_mset_mset)
  then show "inj_on f (set (sort_key f xs) \<union> set (sort_key f ys))"
    using assms(1) by (simp add: distinct_map)
  show "sorted (map f (sort_key f xs))" "sorted (map f (sort_key f ys))" by simp_all
  have "mset (map f (sort_key f ws)) = mset (map f ws)" for ws by simp
  then have same: "distinct (map f (sort_key f ws)) = distinct (map f ws)" for ws
    by (rule mset_eq_imp_distinct_iff)
  show "distinct (map f (sort_key f xs))" using same assms(1) by simp
  have "mset (map f ys) = mset (map f xs)" using assms(2) by simp
  then show "distinct (map f (sort_key f ys))"
    using same assms(1) mset_eq_imp_distinct_iff by blast
  show "set (sort_key f xs) = set (sort_key f ys)" using set by simp
qed

lemma set_map_filter: "y \<in> set (List.map_filter f xs) \<longleftrightarrow> (\<exists>x \<in> set xs. f x = Some y)"
  by (induction xs) (auto simp: List.map_filter_simps split: option.splits)

subsection \<open>Machines with an invariant\<close>

text \<open>
  The interface between a component that changes state and the clients that rely on its
  invariant: the start states satisfy it and every step keeps it, so every state of a run has it.
\<close>

locale invariant_machine =
  fixes start :: "'s \<Rightarrow> bool"
    and step :: "'s \<Rightarrow> 's \<Rightarrow> bool"
    and good :: "'s \<Rightarrow> bool"
  assumes start_good: "start s \<Longrightarrow> good s"
    and step_good: "good s \<Longrightarrow> step s t \<Longrightarrow> good t"
begin

lemma steps_good: "step\<^sup>*\<^sup>* s t \<Longrightarrow> good s \<Longrightarrow> good t"
  by (induction rule: rtranclp_induct) (auto intro: step_good)

lemma run_good: "start s \<Longrightarrow> step\<^sup>*\<^sup>* s t \<Longrightarrow> good t"
  by (blast intro: steps_good start_good)

end

end
