(* ===== verification/Py_Float.thy ===== *)
theory Py_Float
  imports Complex_Main Infonet_Prelude
begin

section \<open>Python floats: IEEE 754 binary64\<close>

text \<open>
  A Python \<open>float\<close> is a binary64 number. The finite ones are kept as the rational they denote;
  every arithmetic operation computes the exact rational and rounds it to nearest, ties to even,
  with the exponent range of binary64: subnormals below \<open>2 powi -1022\<close>, overflow to an infinity
  from \<open>2 ^ 1024\<close> on. NaN and the infinities are values of their own and comparisons with NaN are
  false, as in Python. The sign of zero is not kept: Python shows it in \<open>repr\<close> only.
\<close>

datatype pyfloat = Fin rat | PInf | NInf | NaN

subsection \<open>Rounding to an integer, ties to even\<close>

definition round_half_even :: "rat \<Rightarrow> int" where
  "round_half_even x =
     (let f = \<lfloor>x\<rfloor>; d = x - of_int f
      in if d < 1/2 then f else if 1/2 < d then f + 1 else if even f then f else f + 1)"

lemma rhe_of_int [simp]: "round_half_even (of_int n) = n"
  by (simp add: round_half_even_def)

lemma rhe_ge_floor: "\<lfloor>x\<rfloor> \<le> round_half_even x"
  by (simp add: round_half_even_def Let_def)

lemma rhe_le_floor_Suc: "round_half_even x \<le> \<lfloor>x\<rfloor> + 1"
  by (simp add: round_half_even_def Let_def)

lemma rhe_mono: "x \<le> y \<Longrightarrow> round_half_even x \<le> round_half_even y"
proof -
  assume le: "x \<le> y"
  show ?thesis
  proof (cases "\<lfloor>x\<rfloor> = \<lfloor>y\<rfloor>")
    case True
    with le show ?thesis
      by (auto simp: round_half_even_def Let_def)
  next
    case False
    with floor_mono [OF le] have "\<lfloor>x\<rfloor> + 1 \<le> \<lfloor>y\<rfloor>" by linarith
    then show ?thesis
      using rhe_le_floor_Suc [of x] rhe_ge_floor [of y] by linarith
  qed
qed

lemma rhe_minus: "round_half_even (- x) = - round_half_even x"
proof (cases "x = of_int \<lfloor>x\<rfloor>")
  case True
  then show ?thesis by (metis of_int_minus rhe_of_int)
next
  case False
  then have lt: "of_int \<lfloor>x\<rfloor> < x" using of_int_floor_le [of x] by linarith
  have fl: "\<lfloor>- x\<rfloor> = - \<lfloor>x\<rfloor> - 1"
  proof (rule floor_unique)
    show "of_int (- \<lfloor>x\<rfloor> - 1) \<le> - x"
      using floor_correct [of x] by (simp add: algebra_simps less_imp_le)
    show "- x < of_int (- \<lfloor>x\<rfloor> - 1) + 1"
      using lt by simp
  qed
  show ?thesis
    by (auto simp: round_half_even_def Let_def fl)
qed

lemma rhe_le_of_int: "x \<le> of_int n \<Longrightarrow> round_half_even x \<le> n"
  using rhe_mono [of x "of_int n"] by simp

lemma rhe_ge_of_int: "of_int n \<le> x \<Longrightarrow> n \<le> round_half_even x"
  using rhe_mono [of "of_int n" x] by simp

subsection \<open>The binary exponent of a positive rational\<close>

function ibitlen :: "int \<Rightarrow> int" where
  "ibitlen n = (if n \<le> 0 then 0 else 1 + ibitlen (n div 2))"
  by pat_completeness auto
termination
  by (relation "measure nat") auto

declare ibitlen.simps [simp del]

definition ilog2 :: "rat \<Rightarrow> int" where
  "ilog2 q = (case quotient_of q of (n, d) \<Rightarrow>
     (let e = ibitlen n - ibitlen d
      in if q < 2 powi e then e - 1 else e))"

lemma ibitlen_nonneg: "0 \<le> ibitlen n"
proof (induction n rule: ibitlen.induct)
  case (1 n)
  then show ?case by (subst ibitlen.simps) simp
qed

lemma ibitlen_pos: "0 < n \<Longrightarrow> 0 < ibitlen n"
  using ibitlen_nonneg [of "n div 2"] by (subst ibitlen.simps) simp

lemma ibitlen_int_bounds: "0 < n \<Longrightarrow> 2 ^ nat (ibitlen n - 1) \<le> n \<and> n < 2 ^ nat (ibitlen n)"
proof (induction n rule: ibitlen.induct)
  case (1 n)
  show ?case
  proof (cases "n = 1")
    case True
    then show ?thesis by (simp add: ibitlen.simps)
  next
    case False
    with "1.prems" have h: "0 < n div 2" by simp
    let ?k = "nat (ibitlen (n div 2) - 1)"
    have k: "nat (ibitlen (n div 2)) = Suc ?k" using ibitlen_pos [OF h] by simp
    have "nat (ibitlen n - 1) = Suc ?k" "nat (ibitlen n) = Suc (Suc ?k)"
      using "1.prems" ibitlen_pos [OF h] by (simp_all add: ibitlen.simps [of n])
    with "1.IH" [OF _ h] "1.prems" k show ?thesis by (simp del: nat_diff_distrib) linarith
  qed
qed

lemma ibitlen_bounds:
  assumes "0 < (n::int)"
  shows "(2::rat) powi (ibitlen n - 1) \<le> of_int n"
    and "of_int n < (2::rat) powi (ibitlen n)"
proof -
  note b = ibitlen_int_bounds [OF assms] and p = ibitlen_pos [OF assms]
  have "(2::rat) ^ nat (ibitlen n - 1) \<le> of_int n" "of_int n < (2::rat) ^ nat (ibitlen n)"
    using b by (metis of_int_le_iff of_int_numeral of_int_power,
        metis b of_int_less_iff of_int_numeral of_int_power)
  then show "(2::rat) powi (ibitlen n - 1) \<le> of_int n" "of_int n < (2::rat) powi (ibitlen n)"
    using p by (simp_all add: power_int_def)
qed

lemma ilog2_bounds:
  assumes "0 < q"
  shows "2 powi (ilog2 q) \<le> q" and "q < 2 powi (ilog2 q + 1)"
proof -
  obtain n d where nd: "quotient_of q = (n, d)" by (cases "quotient_of q")
  have d: "0 < d" using quotient_of_denom_pos [OF nd] .
  have q: "q = of_int n / of_int d" using quotient_of_div [OF nd] .
  have n: "0 < n" using assms d unfolding q by (simp add: zero_less_divide_iff)
  let ?a = "ibitlen n" and ?b = "ibitlen d"
  have split: "(2::rat) powi (i + j) = 2 powi i * 2 powi j" for i j
    by (simp add: power_int_add)
  note bn = ibitlen_bounds [OF n] and bd = ibitlen_bounds [OF d]
  have dpos: "0 < (of_int d :: rat)" using d by simp
  have "(2::rat) powi (?a - ?b - 1) * of_int d \<le> 2 powi (?a - ?b - 1) * 2 powi ?b"
    using bd(2) by (intro mult_left_mono) auto
  also have "\<dots> = 2 powi (?a - 1)" by (simp only: split [symmetric]) simp
  also have "\<dots> \<le> of_int n" by (rule bn(1))
  finally have lo: "2 powi (?a - ?b - 1) \<le> q"
    unfolding q using dpos by (simp add: pos_le_divide_eq)
  have "of_int n < (2::rat) powi ?a" by (rule bn(2))
  also have "\<dots> = 2 powi (?a - ?b + 1) * 2 powi (?b - 1)" by (simp flip: split)
  also have "\<dots> \<le> 2 powi (?a - ?b + 1) * of_int d"
    using bd(1) by (intro mult_left_mono) auto
  finally have hi: "q < 2 powi (?a - ?b + 1)"
    unfolding q using dpos by (simp add: pos_divide_less_eq)
  show "2 powi (ilog2 q) \<le> q" and "q < 2 powi (ilog2 q + 1)"
    using lo hi by (auto simp: ilog2_def nd Let_def)
qed

lemma powi2_pos [simp]: "0 < (2::rat) powi i"
  by (simp add: zero_less_power_int)

lemma powi2_le_iff [simp]: "(2::rat) powi i \<le> 2 powi j \<longleftrightarrow> i \<le> j"
  using power_int_increasing [of i j "2::rat"] power_int_strict_increasing [of j i "2::rat"]
  by force

lemma powi2_less_iff [simp]: "(2::rat) powi i < 2 powi j \<longleftrightarrow> i < j"
  using powi2_le_iff [of j i] by linarith

lemma powi2_add: "(2::rat) powi (i + j) = 2 powi i * 2 powi j"
  by (simp add: power_int_add)

lemma powi2_nat: "0 \<le> i \<Longrightarrow> (2::rat) powi i = of_int (2 ^ nat i)"
  by (simp add: power_int_def)

lemma ilog2_unique: "2 powi e \<le> q \<Longrightarrow> q < 2 powi (e + 1) \<Longrightarrow> ilog2 q = e"
proof -
  assume le: "2 powi e \<le> q" and less: "q < 2 powi (e + 1)"
  then have q: "0 < q" using powi2_pos [of e] by linarith
  note b = ilog2_bounds [OF q]
  from le b(2) have "2 powi e < (2::rat) powi (ilog2 q + 1)" by linarith
  moreover from b(1) less have "2 powi (ilog2 q) < (2::rat) powi (e + 1)" by linarith
  ultimately show ?thesis by simp
qed

lemma ilog2_mono: "0 < x \<Longrightarrow> x \<le> y \<Longrightarrow> ilog2 x \<le> ilog2 y"
proof -
  assume x: "0 < x" and le: "x \<le> y"
  then have y: "0 < y" by linarith
  from ilog2_bounds(1) [OF x] ilog2_bounds(2) [OF y] le
  have "2 powi (ilog2 x) < (2::rat) powi (ilog2 y + 1)" by linarith
  then show ?thesis by simp
qed

subsection \<open>Rounding a rational to 53 significant bits\<close>

definition fexp :: "rat \<Rightarrow> int" where
  "fexp q = max (ilog2 \<bar>q\<bar> - 52) (- 1074)"

definition fround :: "rat \<Rightarrow> rat" where
  "fround q =
     (if q = 0 then 0
      else of_int (round_half_even (q / 2 powi fexp q)) * 2 powi fexp q)"

definition rep64 :: "rat \<Rightarrow> bool" where
  "rep64 q \<longleftrightarrow> fround q = q"

lemma fround_0 [simp]: "fround 0 = 0"
  by (simp add: fround_def)

lemma fround_minus: "fround (- q) = - fround q"
proof -
  have "fexp (- q) = fexp q" by (simp add: fexp_def)
  moreover have "- q / 2 powi fexp q = - (q / 2 powi fexp q)" by simp
  ultimately show ?thesis by (simp add: fround_def rhe_minus del: minus_divide_left)
qed

lemma fround_nonneg: "0 \<le> q \<Longrightarrow> 0 \<le> fround q"
proof -
  assume q: "0 \<le> q"
  have "0 \<le> round_half_even (q / 2 powi fexp q)"
    using q by (intro rhe_ge_of_int) simp
  then show ?thesis by (simp add: fround_def)
qed

text \<open>The scaled significand stays below 53 bits.\<close>

lemma fround_mantissa:
  assumes "0 < q"
  shows "q / 2 powi fexp q < 2 ^ 53"
proof -
  have "q < 2 powi (ilog2 q + 1)" by (rule ilog2_bounds(2) [OF assms])
  also have "\<dots> \<le> 2 powi (fexp q + 53)"
    using assms by (simp add: fexp_def)
  also have "\<dots> = 2 ^ 53 * 2 powi fexp q" by (simp add: powi2_add)
  finally show ?thesis by (simp add: pos_divide_less_eq)
qed

lemma fround_le_mono_pos:
  assumes x: "0 < x" and le: "x \<le> y"
  shows "fround x \<le> fround y"
proof (cases "fexp x = fexp y")
  case True
  have "x / 2 powi fexp x \<le> y / 2 powi fexp x"
    using le by (intro divide_right_mono) auto
  then have "round_half_even (x / 2 powi fexp x) \<le> round_half_even (y / 2 powi fexp y)"
    using True by (metis rhe_mono)
  then have "of_int (round_half_even (x / 2 powi fexp x)) * (2::rat) powi fexp x
      \<le> of_int (round_half_even (y / 2 powi fexp y)) * 2 powi fexp x"
    by (intro mult_right_mono) auto
  with x le True show ?thesis by (simp add: fround_def)
next
  case False
  have y: "0 < y" using x le by linarith
  have "ilog2 x \<le> ilog2 y" by (rule ilog2_mono [OF x le])
  with x y False have less: "fexp x < fexp y" and ey: "fexp y = ilog2 y - 52"
    by (auto simp: fexp_def max_def split: if_splits)
  have "round_half_even (x / 2 powi fexp x) \<le> 2 ^ 53"
    using fround_mantissa [OF x] by (intro rhe_le_of_int) simp
  then have "(of_int (round_half_even (x / 2 powi fexp x)) :: rat) \<le> 2 ^ 53"
    by (metis of_int_le_iff of_int_numeral of_int_power)
  then have "fround x \<le> 2 ^ 53 * 2 powi fexp x"
    using x by (simp add: fround_def)
  also have "\<dots> = 2 powi (fexp x + 53)" by (simp add: powi2_add)
  also have "\<dots> \<le> 2 powi (fexp y + 52)" using less by simp
  also have "\<dots> = 2 ^ 52 * 2 powi fexp y" by (simp add: powi2_add)
  also have "\<dots> \<le> fround y"
  proof -
    have "2 powi (fexp y + 52) \<le> y" using ilog2_bounds(1) [OF y] ey by simp
    then have "(2 ^ 52 :: rat) \<le> y / 2 powi fexp y"
      by (simp add: pos_le_divide_eq powi2_add mult.commute)
    then have "(2 ^ 52 :: int) \<le> round_half_even (y / 2 powi fexp y)"
      by (intro rhe_ge_of_int) simp
    then have "(2 ^ 52 :: rat) \<le> of_int (round_half_even (y / 2 powi fexp y))"
      by (metis of_int_le_iff of_int_numeral of_int_power)
    then show ?thesis using y by (simp add: fround_def)
  qed
  finally show ?thesis .
qed

lemma fround_mono: "x \<le> y \<Longrightarrow> fround x \<le> fround y"
proof -
  assume le: "x \<le> y"
  consider "0 < x" | "y < 0" | "x \<le> 0" "0 \<le> y" by linarith
  then show ?thesis
  proof cases
    case 1
    with le show ?thesis by (rule fround_le_mono_pos [rotated -1])
  next
    case 2
    then have "fround (- y) \<le> fround (- x)"
      using le by (intro fround_le_mono_pos) auto
    then show ?thesis by (simp add: fround_minus)
  next
    case 3
    have "fround x \<le> 0"
      using 3(1) fround_nonneg [of "- x"] by (simp add: fround_minus)
    also have "0 \<le> fround y" by (rule fround_nonneg [OF 3(2)])
    finally show ?thesis .
  qed
qed

lemma fround_dyadic:
  assumes m: "\<bar>m\<bar> \<le> 2 ^ 53" and e: "- 1074 \<le> e"
  shows "fround (of_int m * 2 powi e) = of_int m * 2 powi e"
proof (cases "m = 0")
  case True
  then show ?thesis by simp
next
  case False
  let ?q = "of_int m * 2 powi e :: rat"
  have q: "0 < \<bar>?q\<bar>" using False by simp
  have absq: "\<bar>?q\<bar> = of_int \<bar>m\<bar> * 2 powi e" by (simp add: abs_mult)
  have "\<exists>k. ?q / 2 powi fexp ?q = of_int k"
  proof (cases "fexp ?q \<le> e")
    case True
    have "?q / 2 powi fexp ?q = of_int m * 2 powi (e - fexp ?q)"
      by (simp add: power_int_diff)
    also have "\<dots> = of_int (m * 2 ^ nat (e - fexp ?q))"
      using True by (simp add: powi2_nat)
    finally show ?thesis by blast
  next
    case False
    have "2 powi (ilog2 \<bar>?q\<bar>) \<le> \<bar>?q\<bar>" by (rule ilog2_bounds(1) [OF q])
    also have "\<dots> \<le> 2 ^ 53 * 2 powi e"
      using m unfolding absq
      by (intro mult_right_mono) (metis of_int_le_iff of_int_numeral of_int_power, simp)
    also have "\<dots> = 2 powi (e + 53)" by (simp add: powi2_add)
    finally have il: "ilog2 \<bar>?q\<bar> \<le> e + 53" by simp
    with False e have fe: "fexp ?q = e + 1" and ie: "ilog2 \<bar>?q\<bar> = e + 53"
      by (auto simp: fexp_def max_def split: if_splits)
    from ilog2_bounds(1) [OF q] ie have "2 powi (e + 53) \<le> \<bar>?q\<bar>" by simp
    then have "(2 ^ 53 :: rat) * 2 powi e \<le> of_int \<bar>m\<bar> * 2 powi e"
      unfolding absq by (simp add: powi2_add mult.commute)
    then have "(2 ^ 53 :: rat) \<le> of_int \<bar>m\<bar>" by (simp only: mult_le_cancel_right_pos powi2_pos)
    then have "(2 ^ 53 :: int) \<le> \<bar>m\<bar>"
      by (metis of_int_le_iff of_int_numeral of_int_power)
    with m have "\<bar>m\<bar> = 2 ^ 53" by linarith
    then have "m = 2 * (sgn m * 2 ^ 52)" by (simp add: abs_if sgn_if split: if_splits)
    then have "?q / 2 powi fexp ?q = of_int (sgn m * 2 ^ 52)"
      unfolding fe by (simp add: powi2_add)
    then show ?thesis by blast
  qed
  then obtain k where k: "?q / 2 powi fexp ?q = of_int k" ..
  then have "?q = of_int k * 2 powi fexp ?q"
    by (metis less_irrefl nonzero_eq_divide_eq powi2_pos)
  with k False show ?thesis by (simp add: fround_def)
qed

lemma fround_dyadic_form: "\<exists>m e. \<bar>m\<bar> \<le> 2 ^ 53 \<and> - 1074 \<le> e \<and> fround q = of_int m * 2 powi e"
proof -
  have pos: "\<exists>m e. \<bar>m\<bar> \<le> 2 ^ 53 \<and> - 1074 \<le> e \<and> fround x = of_int m * 2 powi e" if "0 < x" for x
  proof -
    let ?m = "round_half_even (x / 2 powi fexp x)"
    have "?m \<le> 2 ^ 53" using fround_mantissa [OF that] by (intro rhe_le_of_int) simp
    moreover have "0 \<le> ?m" using that by (intro rhe_ge_of_int) simp
    ultimately show ?thesis
      using that by (intro exI [of _ ?m] exI [of _ "fexp x"]) (simp add: fround_def fexp_def)
  qed
  consider "q = 0" | "0 < q" | "0 < - q" by linarith
  then show ?thesis
  proof cases
    case 1
    then show ?thesis by (intro exI [of _ 0]) auto
  next
    case 2
    then show ?thesis by (rule pos)
  next
    case 3
    from pos [OF 3] obtain m e where "\<bar>m\<bar> \<le> 2 ^ 53" "- 1074 \<le> e" "fround (- q) = of_int m * 2 powi e"
      by blast
    then show ?thesis by (intro exI [of _ "- m"] exI [of _ e]) (simp add: fround_minus)
  qed
qed

lemma rep64_fround [simp]: "rep64 (fround q)"
  using fround_dyadic_form [of q] fround_dyadic by (auto simp: rep64_def)

lemma fround_idem [simp]: "fround (fround q) = fround q"
  using rep64_fround [of q] by (simp add: rep64_def)

lemma rep64_double: "rep64 q \<Longrightarrow> rep64 (2 * q)"
proof -
  assume "rep64 q"
  then obtain m e where me: "\<bar>m\<bar> \<le> 2 ^ 53" "- 1074 \<le> e" "q = of_int m * 2 powi e"
    using fround_dyadic_form [of q] by (auto simp: rep64_def)
  then have "2 * q = of_int m * 2 powi (e + 1)" by (simp add: powi2_add)
  moreover have "rep64 (of_int m * 2 powi (e + 1))"
    using me fround_dyadic [of m "e + 1"] by (simp add: rep64_def)
  ultimately show ?thesis by simp
qed

lemma rep64_0 [simp]: "rep64 0"
  by (simp add: rep64_def)

lemma rep64_of_int: "\<bar>n\<bar> \<le> 2 ^ 53 \<Longrightarrow> rep64 (of_int n)"
  using fround_dyadic [of n 0] by (simp add: rep64_def)

lemma rep64_numeral [simp]: "(numeral k :: int) \<le> 2 ^ 53 \<Longrightarrow> rep64 (numeral k)"
  using rep64_of_int [of "numeral k"] by simp

lemma rep64_1 [simp]: "rep64 1"
  using rep64_of_int [of 1] by simp

lemma rep64_power2: "rep64 (2 ^ n)"
  by (induction n) (auto intro: rep64_double)

lemma rep64_minus [simp]: "rep64 (- q) \<longleftrightarrow> rep64 q"
  by (simp add: rep64_def fround_minus)

text \<open>Rounding never crosses a representable number.\<close>

lemma fround_le_rep: "x \<le> y \<Longrightarrow> rep64 y \<Longrightarrow> fround x \<le> y"
  using fround_mono [of x y] by (simp add: rep64_def)

lemma fround_ge_rep: "x \<le> y \<Longrightarrow> rep64 x \<Longrightarrow> x \<le> fround y"
  using fround_mono [of x y] by (simp add: rep64_def)

subsection \<open>Rounding into the range of binary64\<close>

definition round64 :: "rat \<Rightarrow> pyfloat" where
  "round64 q =
     (let r = fround q
      in if 2 ^ 1024 \<le> r then PInf else if r \<le> - (2 ^ 1024) then NInf else Fin r)"

fun valid64 :: "pyfloat \<Rightarrow> bool" where
  "valid64 (Fin q) \<longleftrightarrow> rep64 q \<and> \<bar>q\<bar> < 2 ^ 1024"
| "valid64 _ \<longleftrightarrow> True"

text \<open>The value a Python float object holds: the identity on binary64 values.\<close>

fun canon64 :: "pyfloat \<Rightarrow> pyfloat" where
  "canon64 (Fin q) = round64 q"
| "canon64 f = f"

lemma valid64_round64 [simp]: "valid64 (round64 q)"
  by (auto simp: round64_def Let_def abs_less_iff)

lemma canon64_valid: "valid64 f \<Longrightarrow> canon64 f = f"
  by (cases f) (auto simp: round64_def Let_def rep64_def abs_less_iff)

lemma valid64_canon64 [simp]: "valid64 (canon64 f)"
  by (cases f) auto

lemma round64_not_NaN [simp]: "round64 q \<noteq> NaN" "NaN \<noteq> round64 q"
  by (auto simp: round64_def Let_def)

lemma round64_rep: "rep64 q \<Longrightarrow> \<bar>q\<bar> < 2 ^ 1024 \<Longrightarrow> round64 q = Fin q"
  by (auto simp: round64_def Let_def rep64_def abs_less_iff)

lemma round64_overflow: "2 ^ 1024 \<le> q \<Longrightarrow> round64 q = PInf"
  using fround_ge_rep [OF _ rep64_power2, of 1024 q] by (simp add: round64_def Let_def)

lemma round64_0 [simp]: "round64 0 = Fin 0"
  by (simp add: round64_rep)

lemma round64_1 [simp]: "round64 1 = Fin 1"
  by (simp add: round64_rep)

lemma round64_Fin_eq: "round64 q = Fin r \<Longrightarrow> r = fround q"
  by (auto simp: round64_def Let_def split: if_splits)

lemma round64_of_int: "\<bar>n\<bar> \<le> 2 ^ 53 \<Longrightarrow> round64 (of_int n) = Fin (of_int n)"
proof -
  assume n: "\<bar>n\<bar> \<le> 2 ^ 53"
  then have "\<bar>of_int n :: rat\<bar> \<le> of_int (2 ^ 53)"
    by (simp only: of_int_abs [symmetric] of_int_le_iff)
  also have "\<dots> < (2 ^ 1024 :: rat)" by simp
  finally show ?thesis using n by (intro round64_rep rep64_of_int)
qed

subsection \<open>Evaluation on integers\<close>

text \<open>
  The code equation of \<open>round64\<close>: the same rounding computed on numerator and denominator, so
  that concrete floats evaluate by rewriting.
\<close>

function ipow2 :: "int \<Rightarrow> int" where
  "ipow2 e = (if e \<le> 0 then 1 else 2 * ipow2 (e - 1))"
  by pat_completeness auto
termination
  by (relation "measure nat") auto

declare ipow2.simps [simp del]

definition rdiv :: "int \<Rightarrow> int \<Rightarrow> int" where
  "rdiv a b =
     (let f = a div b; r = 2 * (a - f * b)
      in if r < b then f else if b < r then f + 1 else if even f then f else f + 1)"

definition ilog2_ratio :: "int \<Rightarrow> int \<Rightarrow> int" where
  "ilog2_ratio n d =
     (let e = ibitlen n - ibitlen d
      in if (if 0 \<le> e then n < ipow2 e * d else n * ipow2 (- e) < d) then e - 1 else e)"

definition round_ratio :: "int \<Rightarrow> int \<Rightarrow> int \<times> int" where
  "round_ratio n d =
     (let e = max (ilog2_ratio n d - 52) (- 1074)
      in (if 0 \<le> e then rdiv n (ipow2 e * d) else rdiv (ipow2 (- e) * n) d, e))"

lemma ipow2_eq: "ipow2 e = 2 ^ nat e"
proof (induction e rule: ipow2.induct)
  case (1 e)
  show ?case
  proof (cases "e \<le> 0")
    case True
    then show ?thesis by (simp add: ipow2.simps)
  next
    case False
    then have "nat e = Suc (nat (e - 1))" by simp
    with False 1 show ?thesis by (subst ipow2.simps) (simp del: nat_diff_distrib)
  qed
qed

lemma ipow2_powi: "0 \<le> e \<Longrightarrow> of_int (ipow2 e) = (2::rat) powi e"
  by (simp add: ipow2_eq powi2_nat)

lemma rhe_divide: "0 < b \<Longrightarrow> round_half_even (of_int a / of_int b) = rdiv a b"
proof -
  assume b: "0 < b"
  let ?f = "a div b"
  have fl: "\<lfloor>of_int a / of_int b :: rat\<rfloor> = ?f" by (rule floor_divide_of_int_eq)
  have d: "of_int a / of_int b - of_int ?f = (of_int (a - ?f * b) / of_int b :: rat)"
    using b by (simp add: field_simps)
  have "of_int (a - ?f * b) / of_int b < (1/2::rat) \<longleftrightarrow> 2 * (a - ?f * b) < b" for a
  proof -
    have "of_int (a - ?f * b) / of_int b < (1/2::rat) \<longleftrightarrow>
        of_int (2 * (a - ?f * b)) < (of_int b :: rat)"
      using b by (simp add: field_simps)
    then show ?thesis by (simp only: of_int_less_iff)
  qed
  moreover have "(1/2::rat) < of_int (a - ?f * b) / of_int b \<longleftrightarrow> b < 2 * (a - ?f * b)" for a
  proof -
    have "(1/2::rat) < of_int (a - ?f * b) / of_int b \<longleftrightarrow>
        of_int b < (of_int (2 * (a - ?f * b)) :: rat)"
      using b by (simp add: field_simps)
    then show ?thesis by (simp only: of_int_less_iff)
  qed
  ultimately show ?thesis
    unfolding round_half_even_def rdiv_def Let_def fl d by simp
qed

lemma ilog2_ratio: "0 < n \<Longrightarrow> 0 < d \<Longrightarrow> quotient_of q = (n, d) \<Longrightarrow> ilog2 q = ilog2_ratio n d"
proof -
  assume n: "0 < n" and d: "0 < d" and nd: "quotient_of q = (n, d)"
  let ?e = "ibitlen n - ibitlen d"
  have q: "q = of_int n / of_int d" using quotient_of_div [OF nd] .
  have "q < 2 powi ?e \<longleftrightarrow> (if 0 \<le> ?e then n < ipow2 ?e * d else n * ipow2 (- ?e) < d)"
  proof (cases "0 \<le> ?e")
    case True
    have "q < 2 powi ?e \<longleftrightarrow> of_int n < (of_int (ipow2 ?e * d) :: rat)"
      using d unfolding q by (simp add: pos_divide_less_eq ipow2_powi [OF True])
    with True show ?thesis by (simp only: of_int_less_iff if_True)
  next
    case False
    have "(2::rat) powi ?e = 1 / of_int (ipow2 (- ?e))"
      using False power_int_minus [of "2::rat" "- ?e"] by (simp add: ipow2_powi divide_inverse)
    moreover have "0 < (of_int (ipow2 (- ?e)) :: rat)" by (simp add: ipow2_eq)
    then have "of_int n / of_int d < 1 / (of_int (ipow2 (- ?e)) :: rat) \<longleftrightarrow>
        of_int n * of_int (ipow2 (- ?e)) < (of_int d :: rat)"
      using d by (simp add: pos_divide_less_eq pos_less_divide_eq)
    ultimately have "q < 2 powi ?e \<longleftrightarrow> of_int (n * ipow2 (- ?e)) < (of_int d :: rat)"
      unfolding q by simp
    with False show ?thesis by (simp only: of_int_less_iff if_False)
  qed
  then show ?thesis by (simp add: ilog2_def nd ilog2_ratio_def Let_def)
qed

lemma round_ratio:
  assumes "0 < q" and nd: "quotient_of q = (n, d)"
  shows "round_ratio n d = (round_half_even (q / 2 powi fexp q), fexp q)"
proof -
  have d: "0 < d" using quotient_of_denom_pos [OF nd] .
  have q: "q = of_int n / of_int d" using quotient_of_div [OF nd] .
  have n: "0 < n" using assms(1) d unfolding q by (simp add: zero_less_divide_iff)
  have e: "fexp q = max (ilog2_ratio n d - 52) (- 1074)"
    using assms(1) ilog2_ratio [OF n d nd] by (simp add: fexp_def)
  have "round_half_even (q / 2 powi fexp q) =
      (if 0 \<le> fexp q then rdiv n (ipow2 (fexp q) * d) else rdiv (ipow2 (- fexp q) * n) d)"
  proof (cases "0 \<le> fexp q")
    case True
    have "q / 2 powi fexp q = of_int n / of_int (ipow2 (fexp q) * d)"
      using d q True by (simp add: ipow2_powi)
    with True d show ?thesis by (simp add: rhe_divide ipow2_eq del: of_int_mult)
  next
    case False
    have "q / 2 powi fexp q = of_int (ipow2 (- fexp q) * n) / of_int d"
      using False power_int_minus [of "2::rat" "- fexp q"] q
      by (simp add: ipow2_powi divide_inverse mult.commute mult.left_commute)
    with False d show ?thesis by (simp add: rhe_divide del: of_int_mult)
  qed
  then show ?thesis by (simp only: round_ratio_def Let_def e [symmetric])
qed

lemma fround_overflow_iff:
  assumes "0 < q"
  shows "2 ^ 1024 \<le> fround q \<longleftrightarrow>
    971 < fexp q \<or> fexp q = 971 \<and> 2 ^ 53 \<le> round_half_even (q / 2 powi fexp q)"
proof -
  let ?e = "fexp q" and ?k = "round_half_even (q / 2 powi fexp q)"
  have fr: "fround q = of_int ?k * 2 powi ?e" using assms by (simp add: fround_def)
  have top: "(2::rat) ^ 1024 = 2 powi 1024" by simp
  have k_hi: "?k \<le> 2 ^ 53" using fround_mantissa [OF assms] by (intro rhe_le_of_int) simp
  have big: "2 ^ 1024 \<le> fround q"
    if "m \<le> of_int ?k" "(2::rat) powi 1024 \<le> m * 2 powi ?e" for m :: rat
  proof -
    have "m * 2 powi ?e \<le> of_int ?k * 2 powi ?e" using that(1) by (intro mult_right_mono) auto
    with that(2) show ?thesis unfolding fr top by linarith
  qed
  consider "971 < ?e" | "?e = 971" | "?e < 971" by linarith
  then show ?thesis
  proof cases
    case 1
    then have "?e = ilog2 q - 52" using assms by (simp add: fexp_def max_def split: if_splits)
    then have "2 powi (?e + 52) \<le> q" using ilog2_bounds(1) [OF assms] by simp
    then have "(2 ^ 52 :: rat) \<le> q / 2 powi ?e"
      by (simp add: pos_le_divide_eq powi2_add mult.commute)
    then have "(2 ^ 52 :: int) \<le> ?k" by (intro rhe_ge_of_int) simp
    then have "(2 ^ 52 :: rat) \<le> of_int ?k" by (metis of_int_le_iff of_int_numeral of_int_power)
    moreover have "(2::rat) powi 1024 \<le> 2 powi (?e + 52)" using 1 by (simp only: powi2_le_iff)
    moreover have "(2::rat) powi (?e + 52) = 2 ^ 52 * 2 powi ?e" by (simp add: powi2_add)
    ultimately have "2 ^ 1024 \<le> fround q" by (intro big [of "2 ^ 52"]) (simp_all only:)
    with 1 show ?thesis by simp
  next
    case 2
    have "2 ^ 1024 \<le> fround q \<longleftrightarrow> (2 ^ 53 :: rat) * 2 powi 971 \<le> of_int ?k * 2 powi 971"
      by (simp only: fr 2 top) (simp flip: powi2_add)
    also have "\<dots> \<longleftrightarrow> (2 ^ 53 :: rat) \<le> of_int ?k" by (simp only: mult_le_cancel_right_pos powi2_pos)
    also have "\<dots> \<longleftrightarrow> 2 ^ 53 \<le> ?k" by (metis of_int_le_iff of_int_numeral of_int_power)
    finally show ?thesis using 2 by simp
  next
    case 3
    have "fround q \<le> 2 ^ 53 * 2 powi ?e"
      unfolding fr using k_hi
      by (intro mult_right_mono) (metis of_int_le_iff of_int_numeral of_int_power, simp)
    also have "\<dots> = 2 powi (?e + 53)" by (simp add: powi2_add)
    also have "\<dots> < 2 powi 1024" using 3 by (simp only: powi2_less_iff)
    finally show ?thesis using 3 by simp
  qed
qed

definition round64_pos :: "int \<Rightarrow> int \<Rightarrow> rat option" where
  "round64_pos n d =
     (case round_ratio n d of (k, e) \<Rightarrow>
        if 971 < e \<or> e = 971 \<and> 2 ^ 53 \<le> k then None
        else Some (if 0 \<le> e then of_int (k * ipow2 e) else of_int k / of_int (ipow2 (- e))))"

lemma round64_pos:
  assumes "0 < q" and nd: "quotient_of q = (n, d)"
  shows "round64_pos n d = (if 2 ^ 1024 \<le> fround q then None else Some (fround q))"
proof -
  let ?e = "fexp q" and ?k = "round_half_even (q / 2 powi fexp q)"
  have "(if 0 \<le> ?e then of_int (?k * ipow2 ?e) else of_int ?k / of_int (ipow2 (- ?e)))
      = of_int ?k * (2::rat) powi ?e"
    using power_int_minus [of "2::rat" "- ?e"] by (simp add: ipow2_powi divide_inverse)
  moreover have "of_int ?k * (2::rat) powi ?e = fround q" using assms(1) by (simp add: fround_def)
  ultimately have "(if 0 \<le> ?e then of_int (?k * ipow2 ?e) else of_int ?k / of_int (ipow2 (- ?e)))
      = fround q" by (rule trans)
  then show ?thesis
    unfolding fround_overflow_iff [OF assms(1)]
    by (simp only: round64_pos_def round_ratio [OF assms] prod.case)
qed

lemma round64_code [code]:
  "round64 q =
     (case quotient_of q of (n, d) \<Rightarrow>
        if n = 0 then Fin 0
        else if 0 < n then (case round64_pos n d of None \<Rightarrow> PInf | Some r \<Rightarrow> Fin r)
        else (case round64_pos (- n) d of None \<Rightarrow> NInf | Some r \<Rightarrow> Fin (- r)))"
proof -
  obtain n d where nd: "quotient_of q = (n, d)" by (cases "quotient_of q")
  have d: "0 < d" using quotient_of_denom_pos [OF nd] .
  have q: "q = of_int n / of_int d" using quotient_of_div [OF nd] .
  consider "n = 0" | "0 < n" | "n < 0" by linarith
  then show ?thesis
  proof cases
    case 1
    then show ?thesis using q nd by simp
  next
    case 2
    then have "0 < q" using d q by simp
    moreover from this have "0 \<le> fround q" by (intro fround_nonneg) simp
    ultimately show ?thesis using 2 nd round64_pos [of q n d]
      by (simp add: round64_def Let_def)
  next
    case 3
    then have neg: "0 < - q" using d q by (simp add: divide_neg_pos)
    have nd': "quotient_of (- q) = (- n, d)" using nd by (simp add: rat_uminus_code)
    have "0 \<le> fround (- q)" using neg by (intro fround_nonneg) simp
    with 3 nd round64_pos [OF neg nd'] show ?thesis
      by (auto simp: round64_def Let_def fround_minus)
  qed
qed

subsection \<open>Arithmetic\<close>

fun fneg :: "pyfloat \<Rightarrow> pyfloat" where
  "fneg (Fin q) = Fin (- q)"
| "fneg PInf = NInf"
| "fneg NInf = PInf"
| "fneg NaN = NaN"

fun fadd :: "pyfloat \<Rightarrow> pyfloat \<Rightarrow> pyfloat" where
  "fadd (Fin a) (Fin b) = round64 (a + b)"
| "fadd NaN _ = NaN"
| "fadd _ NaN = NaN"
| "fadd PInf NInf = NaN"
| "fadd NInf PInf = NaN"
| "fadd PInf _ = PInf"
| "fadd _ PInf = PInf"
| "fadd NInf _ = NInf"
| "fadd _ NInf = NInf"

definition fsub :: "pyfloat \<Rightarrow> pyfloat \<Rightarrow> pyfloat" where
  "fsub a b = fadd a (fneg b)"

text \<open>\<open>fsign\<close> is the sign of a number that is not NaN.\<close>

fun fsign :: "pyfloat \<Rightarrow> rat" where
  "fsign (Fin q) = sgn q"
| "fsign PInf = 1"
| "fsign NInf = - 1"
| "fsign NaN = 0"

definition finf :: "rat \<Rightarrow> pyfloat" where
  "finf s = (if s = 0 then NaN else if 0 < s then PInf else NInf)"

fun fmul :: "pyfloat \<Rightarrow> pyfloat \<Rightarrow> pyfloat" where
  "fmul (Fin a) (Fin b) = round64 (a * b)"
| "fmul NaN _ = NaN"
| "fmul _ NaN = NaN"
| "fmul a b = finf (fsign a * fsign b)"

text \<open>Division by zero raises; an infinite divisor gives zero.\<close>

fun fdiv :: "pyfloat \<Rightarrow> pyfloat \<Rightarrow> pyfloat res" where
  "fdiv a (Fin b) =
     (if b = 0 then Inl ZeroDivisionError
      else case a of Fin x \<Rightarrow> Inr (round64 (x / b))
                   | NaN \<Rightarrow> Inr NaN
                   | _ \<Rightarrow> Inr (finf (fsign a * sgn b)))"
| "fdiv a NaN = Inr NaN"
| "fdiv a b = (case a of Fin _ \<Rightarrow> Inr (Fin 0) | _ \<Rightarrow> Inr NaN)"

text \<open>\<open>a / b\<close> of two integers: correctly rounded, OverflowError outside the floats.\<close>

definition int_div :: "int \<Rightarrow> int \<Rightarrow> pyfloat res" where
  "int_div a b =
     (if b = 0 then Inl ZeroDivisionError
      else case round64 (of_int a / of_int b) of Fin q \<Rightarrow> Inr (Fin q) | _ \<Rightarrow> Inl OverflowError)"

text \<open>\<open>math.floor\<close> of a float.\<close>

fun py_floor :: "pyfloat \<Rightarrow> int res" where
  "py_floor (Fin q) = Inr \<lfloor>q\<rfloor>"
| "py_floor NaN = Inl ValueError"
| "py_floor _ = Inl OverflowError"

subsection \<open>Comparisons\<close>

fun fle :: "pyfloat \<Rightarrow> pyfloat \<Rightarrow> bool" where
  "fle (Fin a) (Fin b) \<longleftrightarrow> a \<le> b"
| "fle NaN _ \<longleftrightarrow> False"
| "fle _ NaN \<longleftrightarrow> False"
| "fle NInf _ \<longleftrightarrow> True"
| "fle _ PInf \<longleftrightarrow> True"
| "fle _ _ \<longleftrightarrow> False"

fun flt :: "pyfloat \<Rightarrow> pyfloat \<Rightarrow> bool" where
  "flt (Fin a) (Fin b) \<longleftrightarrow> a < b"
| "flt NaN _ \<longleftrightarrow> False"
| "flt _ NaN \<longleftrightarrow> False"
| "flt NInf NInf \<longleftrightarrow> False"
| "flt PInf PInf \<longleftrightarrow> False"
| "flt NInf _ \<longleftrightarrow> True"
| "flt _ PInf \<longleftrightarrow> True"
| "flt _ _ \<longleftrightarrow> False"

definition feq :: "pyfloat \<Rightarrow> pyfloat \<Rightarrow> bool" where
  "feq a b \<longleftrightarrow> a = b \<and> a \<noteq> NaN"

fun isfinite :: "pyfloat \<Rightarrow> bool" where
  "isfinite (Fin _) \<longleftrightarrow> True"
| "isfinite _ \<longleftrightarrow> False"

text \<open>Python's two-argument \<open>max\<close> and \<open>min\<close> keep the first unless the second is strictly better.\<close>

definition fmax2 :: "pyfloat \<Rightarrow> pyfloat \<Rightarrow> pyfloat" where
  "fmax2 a b = (if flt a b then b else a)"

definition fmin2 :: "pyfloat \<Rightarrow> pyfloat \<Rightarrow> pyfloat" where
  "fmin2 a b = (if flt b a then b else a)"

text \<open>\<open>sum\<close> of floats: left to right from 0 (CPython 3.11, without compensation).\<close>

definition fsum :: "pyfloat list \<Rightarrow> pyfloat" where
  "fsum xs = fold (\<lambda>x s. fadd s x) xs (Fin 0)"

subsection \<open>Laws of the comparisons\<close>

lemma fle_refl [simp]: "fle a a \<longleftrightarrow> a \<noteq> NaN"
  by (cases a) auto

lemma fle_trans: "fle a b \<Longrightarrow> fle b c \<Longrightarrow> fle a c"
  by (cases a; cases b; cases c) auto

lemma fle_antisym: "fle a b \<Longrightarrow> fle b a \<Longrightarrow> a = b"
  by (cases a; cases b) auto

lemma fle_total: "a \<noteq> NaN \<Longrightarrow> b \<noteq> NaN \<Longrightarrow> fle a b \<or> fle b a"
  by (cases a; cases b) auto

lemma fle_not_NaN: "fle a b \<Longrightarrow> a \<noteq> NaN \<and> b \<noteq> NaN"
  by (cases a; cases b) auto

lemma flt_iff: "flt a b \<longleftrightarrow> fle a b \<and> a \<noteq> b"
  by (cases a; cases b) auto

lemma flt_irrefl [simp]: "\<not> flt a a"
  by (simp add: flt_iff)

lemma flt_fle: "flt a b \<Longrightarrow> fle a b"
  by (simp add: flt_iff)

lemma not_flt: "a \<noteq> NaN \<Longrightarrow> b \<noteq> NaN \<Longrightarrow> \<not> flt a b \<longleftrightarrow> fle b a"
  by (cases a; cases b) auto

lemma not_fle: "a \<noteq> NaN \<Longrightarrow> b \<noteq> NaN \<Longrightarrow> \<not> fle a b \<longleftrightarrow> flt b a"
  by (cases a; cases b) auto

lemma fle_flt_trans: "fle a b \<Longrightarrow> flt b c \<Longrightarrow> flt a c"
  by (cases a; cases b; cases c) auto

lemma flt_fle_trans: "flt a b \<Longrightarrow> fle b c \<Longrightarrow> flt a c"
  by (cases a; cases b; cases c) auto

lemma flt_asym: "flt a b \<Longrightarrow> \<not> fle b a"
  by (cases a; cases b) auto

lemma compare_NaN [simp]: "\<not> fle NaN a" "\<not> fle a NaN" "\<not> flt NaN a" "\<not> flt a NaN"
  by (cases a; simp)+

lemma isfinite_iff: "isfinite a \<longleftrightarrow> (\<exists>q. a = Fin q)"
  by (cases a) auto

lemma flt_Fin_PInf [simp]: "flt (Fin a) PInf" "flt NInf (Fin a)" "fle (Fin a) PInf" "fle NInf (Fin a)"
  by simp_all

text \<open>
  The order Python's sort uses on float keys, made total by putting NaN last: Python leaves the
  order of a list with NaN keys to the sorting algorithm, and no theorem depends on it.
\<close>

instantiation pyfloat :: linorder
begin

definition less_eq_pyfloat :: "pyfloat \<Rightarrow> pyfloat \<Rightarrow> bool" where
  "less_eq_pyfloat a b \<longleftrightarrow> b = NaN \<or> fle a b"

definition less_pyfloat :: "pyfloat \<Rightarrow> pyfloat \<Rightarrow> bool" where
  "less_pyfloat a b \<longleftrightarrow> a \<noteq> NaN \<and> (b = NaN \<or> flt a b)"

instance
proof
  fix a b c :: pyfloat
  show "a < b \<longleftrightarrow> a \<le> b \<and> \<not> b \<le> a"
    by (cases a; cases b) (auto simp: less_eq_pyfloat_def less_pyfloat_def)
  show "a \<le> a" by (auto simp: less_eq_pyfloat_def)
  show "a \<le> b \<Longrightarrow> b \<le> c \<Longrightarrow> a \<le> c"
    by (auto simp: less_eq_pyfloat_def dest: fle_trans)
  show "a \<le> b \<Longrightarrow> b \<le> a \<Longrightarrow> a = b"
    by (auto simp: less_eq_pyfloat_def dest: fle_antisym)
  show "a \<le> b \<or> b \<le> a"
    using fle_total [of a b] by (auto simp: less_eq_pyfloat_def)
qed

end

lemma le_iff_fle: "a \<noteq> NaN \<Longrightarrow> b \<noteq> NaN \<Longrightarrow> a \<le> b \<longleftrightarrow> fle a b"
  by (simp add: less_eq_pyfloat_def)

subsection \<open>Laws of the arithmetic\<close>

lemma round64_mono: "a \<le> b \<Longrightarrow> fle (round64 a) (round64 b)"
  using fround_mono [of a b] by (auto simp: round64_def Let_def)

lemma round64_ge: "rep64 a \<Longrightarrow> \<bar>a\<bar> < 2 ^ 1024 \<Longrightarrow> a \<le> b \<Longrightarrow> fle (Fin a) (round64 b)"
  using round64_mono [of a b] by (simp add: round64_rep)

lemma round64_le: "rep64 b \<Longrightarrow> \<bar>b\<bar> < 2 ^ 1024 \<Longrightarrow> a \<le> b \<Longrightarrow> fle (round64 a) (Fin b)"
  using round64_mono [of a b] by (simp add: round64_rep)

lemma round64_nonneg [simp]: "0 \<le> q \<Longrightarrow> fle (Fin 0) (round64 q)"
  using round64_mono [of 0 q] by simp

lemma round64_not_NInf: "0 \<le> q \<Longrightarrow> round64 q \<noteq> NInf"
  using round64_nonneg [of q] by (cases "round64 q") auto

lemma fadd_nonneg: "fle (Fin 0) a \<Longrightarrow> fle (Fin 0) b \<Longrightarrow> fle (Fin 0) (fadd a b)"
  by (cases a; cases b) auto

lemma fadd_increasing: "valid64 a \<Longrightarrow> a \<noteq> NaN \<Longrightarrow> a \<noteq> NInf \<Longrightarrow> fle (Fin 0) b \<Longrightarrow> fle a (fadd a b)"
  by (cases a; cases b) (auto intro: round64_ge)

lemma fadd_zero [simp]: "valid64 a \<Longrightarrow> fadd a (Fin 0) = a" "valid64 a \<Longrightarrow> fadd (Fin 0) a = a"
  by (cases a; auto intro: round64_rep)+

lemma fle_round64_inf [simp]: "fle (round64 q) PInf" "fle NInf (round64 q)"
  using round64_not_NaN [of q] by (cases "round64 q"; simp)+

lemma fadd_mono: "fle a b \<Longrightarrow> fadd a c \<noteq> NaN \<Longrightarrow> fadd b c \<noteq> NaN \<Longrightarrow> fle (fadd a c) (fadd b c)"
  by (cases a; cases b; cases c) (auto intro: round64_mono)

lemma fadd_comm: "fadd a b = fadd b a"
  by (cases a; cases b) (auto simp: add.commute)

lemma valid64_fadd [simp]: "valid64 (fadd a b)"
  by (cases a; cases b) auto

lemma valid64_fsub [simp]: "valid64 (fsub a b)"
  by (simp add: fsub_def)

lemma valid64_finf [simp]: "valid64 (finf s)"
  by (simp add: finf_def)

lemma valid64_fmul [simp]: "valid64 (fmul a b)"
  by (cases a; cases b) auto

lemma fsub_finite:
  assumes "fle (Fin 0) (Fin b)" "fle (Fin b) (Fin a)" "valid64 (Fin a)"
  shows "\<exists>c. fsub (Fin a) (Fin b) = Fin c \<and> 0 \<le> c \<and> c \<le> a \<and> rep64 c"
proof -
  let ?r = "round64 (a - b)"
  have lo: "fle (Fin 0) ?r" using assms by simp
  have hi: "fle ?r (Fin a)" using assms by (intro round64_le) auto
  obtain c where c: "?r = Fin c" using lo hi by (cases ?r) auto
  moreover have "rep64 c" using valid64_round64 [of "a - b"] c by simp
  ultimately show ?thesis using lo hi by (auto simp: fsub_def)
qed

lemma fmul_fraction:
  assumes "0 \<le> a" "valid64 (Fin a)" "0 \<le> p" "p \<le> 1"
  shows "\<exists>c. fmul (Fin a) (Fin p) = Fin c \<and> 0 \<le> c \<and> c \<le> a \<and> rep64 c"
proof -
  let ?r = "round64 (a * p)"
  have le: "a * p \<le> a" using assms by (simp add: mult_left_le)
  have lo: "fle (Fin 0) ?r" using assms by simp
  have hi: "fle ?r (Fin a)" using assms le by (intro round64_le) auto
  obtain c where c: "?r = Fin c" using lo hi by (cases ?r) auto
  moreover have "rep64 c" using valid64_round64 [of "a * p"] c by simp
  ultimately show ?thesis using lo hi by auto
qed

lemma fmul_nonneg: "0 \<le> a \<Longrightarrow> 0 \<le> b \<Longrightarrow> fle (Fin 0) (fmul (Fin a) (Fin b))"
  by simp

lemma fdiv_fraction:
  assumes "0 \<le> a" "a \<le> b" "0 < b"
  shows "\<exists>c. fdiv (Fin a) (Fin b) = Inr (Fin c) \<and> 0 \<le> c \<and> c \<le> 1"
proof -
  let ?r = "round64 (a / b)"
  have lo: "fle (Fin 0) ?r" using assms by simp
  have hi: "fle ?r (Fin 1)" using assms by (intro round64_le) (auto simp: rep64_1)
  then show ?thesis using assms lo hi by (cases ?r) auto
qed

lemma fsum_fold_ge:
  "valid64 s \<Longrightarrow> fle (Fin 0) s \<Longrightarrow> (\<And>x. x \<in> set xs \<Longrightarrow> fle (Fin 0) x) \<Longrightarrow>
    fle s (fold (\<lambda>x s. fadd s x) xs s)"
proof (induction xs arbitrary: s)
  case Nil
  then show ?case by (auto dest: fle_not_NaN)
next
  case (Cons x xs)
  from Cons.prems have x: "fle (Fin 0) x" by simp
  have "fle s (fadd s x)"
    using Cons.prems x by (intro fadd_increasing) auto
  moreover have "fle (fadd s x) (fold (\<lambda>x s. fadd s x) xs (fadd s x))"
    using Cons.prems x by (intro Cons.IH) (auto intro: fadd_nonneg)
  ultimately show ?case by (auto intro: fle_trans)
qed

lemma fsum_nonneg: "(\<And>x. x \<in> set xs \<Longrightarrow> fle (Fin 0) x) \<Longrightarrow> fle (Fin 0) (fsum xs)"
  using fsum_fold_ge [of "Fin 0" xs] by (simp add: fsum_def)

lemma fsum_not_NaN: "(\<And>x. x \<in> set xs \<Longrightarrow> fle (Fin 0) x) \<Longrightarrow> fsum xs \<noteq> NaN \<and> fsum xs \<noteq> NInf"
  using fsum_nonneg [of xs] by (cases "fsum xs") auto

lemma valid64_fsum [simp]: "valid64 (fsum xs)"
  unfolding fsum_def
  by (rule fold_invariant [where Q = "\<lambda>_. True" and P = valid64]) auto

lemma fsum_Nil [simp]: "fsum [] = Fin 0"
  by (simp add: fsum_def)

text \<open>One member of a sum of non-negative floats is at most the sum.\<close>

lemma fsum_fold_member:
  assumes "x \<in> set xs" "valid64 s" "fle (Fin 0) s"
    and "\<And>y. y \<in> set xs \<Longrightarrow> fle (Fin 0) y \<and> valid64 y"
  shows "fle x (fold (\<lambda>x s. fadd s x) xs s)"
  using assms
proof (induction xs arbitrary: s)
  case Nil
  then show ?case by simp
next
  case (Cons y ys)
  have y: "fle (Fin 0) y" "valid64 y" using Cons.prems by auto
  then have ny: "y \<noteq> NaN" "y \<noteq> NInf" by (cases y; simp)+
  have step: "valid64 (fadd s y)" "fle (Fin 0) (fadd s y)"
    using Cons.prems y by (auto intro: fadd_nonneg)
  show ?case
  proof (cases "x = y")
    case True
    have "fle y (fadd y s)" using Cons.prems(3) y ny by (intro fadd_increasing)
    then have "fle y (fadd s y)" by (simp add: fadd_comm)
    also have "fle (fadd s y) (fold (\<lambda>x s. fadd s x) ys (fadd s y))"
      using Cons.prems step by (intro fsum_fold_ge) auto
    finally (fle_trans) show ?thesis using True by simp
  next
    case False
    with Cons.prems step show ?thesis by (auto intro!: Cons.IH)
  qed
qed

lemma fsum_member:
  "x \<in> set xs \<Longrightarrow> (\<And>y. y \<in> set xs \<Longrightarrow> fle (Fin 0) y \<and> valid64 y) \<Longrightarrow> fle x (fsum xs)"
  unfolding fsum_def by (rule fsum_fold_member) auto

end
