(* ===== verification/Py_Value.thy ===== *)
theory Py_Value
  imports Py_Float "HOL-Library.Char_ord" "HOL-Library.List_Lexorder"
begin

section \<open>Python values, conversions and chain events\<close>

text \<open>
  Chain events are JSON-like dictionaries whose fields have no static type, so the model keeps
  Python's dynamic values (\<open>pyval\<close>) and writes out what \<open>float()\<close>, \<open>int()\<close>, \<open>str()\<close>, truth testing
  and \<open>.get\<close> do on each kind of value, the exceptions included. Strings are sequences of code
  points below 256 (\<open>string\<close>); dictionary keys are strings, as in JSON.
\<close>

datatype pyval =
    VNone
  | VBool bool
  | VInt int
  | VFloat pyfloat
  | VStr string
  | VList "pyval list"
  | VDict "(string \<times> pyval) list"

type_synonym event = "(string \<times> pyval) list"

subsection \<open>Characters and digit strings\<close>

definition is_digit :: "char \<Rightarrow> bool" where
  "is_digit c \<longleftrightarrow> 48 \<le> (of_char c :: int) \<and> (of_char c :: int) \<le> 57"

definition digit_val :: "char \<Rightarrow> int" where
  "digit_val c = of_char c - 48"

definition digit_char :: "int \<Rightarrow> char" where
  "digit_char n = char_of (48 + n)"

text \<open>The white space of \<open>str.strip\<close> among the first 256 code points.\<close>

definition is_space :: "char \<Rightarrow> bool" where
  "is_space c \<longleftrightarrow> (let n = (of_char c :: int) in
     9 \<le> n \<and> n \<le> 13 \<or> 28 \<le> n \<and> n \<le> 32 \<or> n = 133 \<or> n = 160)"

definition py_strip :: "string \<Rightarrow> string" where
  "py_strip s = rev (dropWhile is_space (rev (dropWhile is_space s)))"

definition ascii_lower :: "string \<Rightarrow> string" where
  "ascii_lower s = map (\<lambda>c. let n = (of_char c :: int) in
     if 65 \<le> n \<and> n \<le> 90 then char_of (n + 32) else c) s"

text \<open>The digits of a non-negative integer.\<close>

function nat_digits :: "int \<Rightarrow> string" where
  "nat_digits n =
     (if n < 10 then [digit_char n] else nat_digits (n div 10) @ [digit_char (n mod 10)])"
  by pat_completeness auto
termination
  by (relation "measure nat") auto

declare nat_digits.simps [simp del]

definition int_str :: "int \<Rightarrow> string" where
  "int_str n = (if n < 0 then ''-'' @ nat_digits (- n) else nat_digits n)"

text \<open>
  \<open>digitpart\<close> reads digits with single underscores between them and returns the digits and the
  rest of the string.
\<close>

fun digit_tail :: "string \<Rightarrow> string \<times> string" where
  "digit_tail [] = ([], [])"
| "digit_tail [c] = (if is_digit c then ([c], []) else ([], [c]))"
| "digit_tail (c # d # cs) =
     (if is_digit c then (case digit_tail (d # cs) of (ds, r) \<Rightarrow> (c # ds, r))
      else if c = CHR ''_'' \<and> is_digit d then
        (case digit_tail cs of (ds, r) \<Rightarrow> (d # ds, r))
      else ([], c # d # cs))"

fun digitpart :: "string \<Rightarrow> string \<times> string" where
  "digitpart [] = ([], [])"
| "digitpart (c # cs) =
     (if is_digit c then (case digit_tail cs of (ds, r) \<Rightarrow> (c # ds, r)) else ([], c # cs))"

definition digits_val :: "string \<Rightarrow> int" where
  "digits_val ds = fold (\<lambda>c n. 10 * n + digit_val c) ds 0"

fun take_sign :: "string \<Rightarrow> int \<times> string" where
  "take_sign [] = (1, [])"
| "take_sign (c # cs) =
     (if c = CHR ''-'' then (- 1, cs) else if c = CHR ''+'' then (1, cs) else (1, c # cs))"

subsection \<open>float() and int() of a string\<close>

definition parse_exponent :: "string \<Rightarrow> int option" where
  "parse_exponent r =
     (case r of
        [] \<Rightarrow> Some 0
      | c # cs \<Rightarrow>
          (if c = CHR ''e'' \<or> c = CHR ''E'' then
             (case take_sign cs of (sg, cs') \<Rightarrow>
                (case digitpart cs' of (ds, rest) \<Rightarrow>
                   if ds = [] \<or> rest \<noteq> [] then None else Some (sg * digits_val ds)))
           else None))"

definition parse_decimal :: "int \<Rightarrow> string \<Rightarrow> pyfloat option" where
  "parse_decimal sg s =
     (case digitpart s of (ip, r1) \<Rightarrow>
        (case (case r1 of c # cs \<Rightarrow> if c = CHR ''.'' then digitpart cs else ([], r1)
                        | [] \<Rightarrow> ([], [])) of (fp, r2) \<Rightarrow>
           if ip = [] \<and> fp = [] then None
           else (case parse_exponent r2 of
                   None \<Rightarrow> None
                 | Some e \<Rightarrow>
                     Some (round64 (of_int (sg * digits_val (ip @ fp))
                                    * 10 powi (e - int (length fp)))))))"

definition float_of_str :: "string \<Rightarrow> pyfloat option" where
  "float_of_str s =
     (case take_sign (py_strip s) of (sg, r) \<Rightarrow>
        let w = ascii_lower r
        in if w = ''inf'' \<or> w = ''infinity'' then Some (if 0 < sg then PInf else NInf)
           else if w = ''nan'' then Some NaN
           else parse_decimal sg r)"

text \<open>\<open>int\<close> refuses strings of more than 4300 digits since CPython 3.11.\<close>

definition int_of_str :: "string \<Rightarrow> int option" where
  "int_of_str s =
     (case take_sign (py_strip s) of (sg, r) \<Rightarrow>
        (case digitpart r of (ds, rest) \<Rightarrow>
           if ds = [] \<or> rest \<noteq> [] \<or> 4300 < length ds then None else Some (sg * digits_val ds)))"

subsection \<open>Conversions\<close>

definition trunc_rat :: "rat \<Rightarrow> int" where
  "trunc_rat q = (if 0 \<le> q then \<lfloor>q\<rfloor> else \<lceil>q\<rceil>)"

definition int_to_float :: "int \<Rightarrow> pyfloat res" where
  "int_to_float n =
     (case round64 (of_int n) of Fin q \<Rightarrow> Inr (Fin q) | _ \<Rightarrow> Inl OverflowError)"

fun py_float :: "pyval \<Rightarrow> pyfloat res" where
  "py_float VNone = Inl TypeError"
| "py_float (VBool b) = Inr (Fin (if b then 1 else 0))"
| "py_float (VInt n) = int_to_float n"
| "py_float (VFloat f) = Inr (canon64 f)"
| "py_float (VStr s) = (case float_of_str s of None \<Rightarrow> Inl ValueError | Some f \<Rightarrow> Inr f)"
| "py_float (VList _) = Inl TypeError"
| "py_float (VDict _) = Inl TypeError"

fun py_int :: "pyval \<Rightarrow> int res" where
  "py_int VNone = Inl TypeError"
| "py_int (VBool b) = Inr (if b then 1 else 0)"
| "py_int (VInt n) = Inr n"
| "py_int (VFloat (Fin q)) = Inr (trunc_rat q)"
| "py_int (VFloat NaN) = Inl ValueError"
| "py_int (VFloat _) = Inl OverflowError"
| "py_int (VStr s) = (case int_of_str s of None \<Rightarrow> Inl ValueError | Some n \<Rightarrow> Inr n)"
| "py_int (VList _) = Inl TypeError"
| "py_int (VDict _) = Inl TypeError"

fun truthy :: "pyval \<Rightarrow> bool" where
  "truthy VNone \<longleftrightarrow> False"
| "truthy (VBool b) \<longleftrightarrow> b"
| "truthy (VInt n) \<longleftrightarrow> n \<noteq> 0"
| "truthy (VFloat f) \<longleftrightarrow> f \<noteq> Fin 0"
| "truthy (VStr s) \<longleftrightarrow> s \<noteq> []"
| "truthy (VList xs) \<longleftrightarrow> xs \<noteq> []"
| "truthy (VDict d) \<longleftrightarrow> d \<noteq> []"

definition py_or :: "pyval \<Rightarrow> pyval \<Rightarrow> pyval" where
  "py_or a b = (if truthy a then a else b)"

text \<open>Values usable as set elements and dictionary keys; the others raise TypeError there.\<close>

definition hashable :: "pyval \<Rightarrow> bool" where
  "hashable v = (case v of VList _ \<Rightarrow> False | VDict _ \<Rightarrow> False | _ \<Rightarrow> True)"

text \<open>The number a value compares as: exact, since Python compares int with float exactly.\<close>

fun num_of :: "pyval \<Rightarrow> pyfloat option" where
  "num_of (VBool b) = Some (Fin (if b then 1 else 0))"
| "num_of (VInt n) = Some (Fin (of_int n))"
| "num_of (VFloat f) = Some f"
| "num_of _ = None"

subsection \<open>repr() and str()\<close>

definition hex_digit :: "int \<Rightarrow> char" where
  "hex_digit n = (if n < 10 then char_of (48 + n) else char_of (87 + n))"

definition hex_byte :: "int \<Rightarrow> string" where
  "hex_byte n = [hex_digit (n div 16), hex_digit (n mod 16)]"

definition repr_char :: "char \<Rightarrow> char \<Rightarrow> string" where
  "repr_char qt c =
     (let n = (of_char c :: int) in
      if c = qt \<or> n = 92 then [char_of (92::int), c]
      else if n = 10 then [char_of (92::int), CHR ''n'']
      else if n = 13 then [char_of (92::int), CHR ''r'']
      else if n = 9 then [char_of (92::int), CHR ''t'']
      else if n < 32 \<or> 127 \<le> n \<and> n \<le> 160 \<or> n = 173
        then [char_of (92::int), CHR ''x''] @ hex_byte n
      else [c])"

definition repr_str :: "string \<Rightarrow> string" where
  "repr_str s =
     (let sq = char_of (39::int); dq = char_of (34::int);
          qt = (if sq \<in> set s \<and> dq \<notin> set s then dq else sq)
      in [qt] @ concat (map (repr_char qt) s) @ [qt])"

text \<open>
  \<open>repr\<close> of a finite float: the shortest decimal significand (at most 17 digits) that reads back
  as the same float, the nearest one if two have that length.
\<close>

definition dec_candidate :: "rat \<Rightarrow> int \<Rightarrow> nat \<Rightarrow> int option" where
  "dec_candidate q e n =
     (let s = e - int n + 1; x = q / 10 powi s; lo = \<lfloor>x\<rfloor>;
          ok = (\<lambda>m. round64 (of_int m * 10 powi s) = Fin q);
          near = round_half_even x; far = (if near = lo then lo + 1 else lo)
      in if ok near then Some near else if ok far then Some far else None)"

definition dec_exponent :: "rat \<Rightarrow> int" where
  "dec_exponent q =
     (let e0 = \<lfloor>of_int (ilog2 q) * (30103 / 100000) :: rat\<rfloor>
      in if q < 10 powi e0 then e0 - 1 else if q < 10 powi (e0 + 1) then e0 else e0 + 1)"

fun shortest_from :: "nat \<Rightarrow> rat \<Rightarrow> int \<Rightarrow> nat \<Rightarrow> int \<times> nat" where
  "shortest_from 0 q e n = (round_half_even (q / 10 powi (e - int n + 1)), n)"
| "shortest_from (Suc k) q e n =
     (case dec_candidate q e n of Some m \<Rightarrow> (m, n) | None \<Rightarrow> shortest_from k q e (Suc n))"

definition pad_left :: "nat \<Rightarrow> string \<Rightarrow> string" where
  "pad_left n s = replicate (n - length s) (CHR ''0'') @ s"

definition strip_zeros :: "string \<Rightarrow> string" where
  "strip_zeros s = rev (dropWhile (\<lambda>c. c = CHR ''0'') (rev s))"

text \<open>\<open>digs\<close> are the significant digits, the first one worth \<open>10 powi e\<close>.\<close>

definition format_repr :: "string \<Rightarrow> int \<Rightarrow> string" where
  "format_repr digs e =
     (if - 4 \<le> e \<and> e < 16 then
        (if e < 0 then ''0.'' @ replicate (nat (- e - 1)) (CHR ''0'') @ digs
         else (let k = nat e + 1 in
           if length digs \<le> k
           then digs @ replicate (k - length digs) (CHR ''0'') @ ''.0''
           else take k digs @ ''.'' @ drop k digs))
      else hd digs # (if tl digs = [] then [] else ''.'' @ tl digs) @ ''e''
           @ (if e < 0 then ''-'' else ''+'') @ pad_left 2 (nat_digits \<bar>e\<bar>))"

definition repr_pos :: "rat \<Rightarrow> string" where
  "repr_pos q =
     (let e = dec_exponent q in
      case shortest_from 16 q e 1 of (m, n) \<Rightarrow>
        let ds = nat_digits m
        in format_repr (let z = strip_zeros ds in if z = [] then ''0'' else z)
             (e + int (length ds) - int n))"

fun repr_float :: "pyfloat \<Rightarrow> string" where
  "repr_float NaN = ''nan''"
| "repr_float PInf = ''inf''"
| "repr_float NInf = ''-inf''"
| "repr_float (Fin q) =
     (if q = 0 then ''0.0'' else if q < 0 then ''-'' @ repr_pos (- q) else repr_pos q)"

fun join :: "string \<Rightarrow> string list \<Rightarrow> string" where
  "join sep [] = []"
| "join sep [x] = x"
| "join sep (x # y # xs) = x @ sep @ join sep (y # xs)"

fun py_repr :: "pyval \<Rightarrow> string"
  and py_reprs :: "pyval list \<Rightarrow> string list"
  and py_repr_items :: "(string \<times> pyval) list \<Rightarrow> string list" where
  "py_repr VNone = ''None''"
| "py_repr (VBool b) = (if b then ''True'' else ''False'')"
| "py_repr (VInt n) = int_str n"
| "py_repr (VFloat f) = repr_float f"
| "py_repr (VStr s) = repr_str s"
| "py_repr (VList xs) = ''['' @ join '', '' (py_reprs xs) @ '']''"
| "py_repr (VDict d) = [char_of (123::int)] @ join '', '' (py_repr_items d) @ [char_of (125::int)]"
| "py_reprs [] = []"
| "py_reprs (x # xs) = py_repr x # py_reprs xs"
| "py_repr_items [] = []"
| "py_repr_items ((k, v) # d) = (repr_str k @ '': '' @ py_repr v) # py_repr_items d"

definition py_str :: "pyval \<Rightarrow> string" where
  "py_str v = (case v of VStr s \<Rightarrow> s | _ \<Rightarrow> py_repr v)"

end
