(* ===== verification/Chain_Events.thy ===== *)
theory Chain_Events
  imports Py_Value
begin

section \<open>Events of the hashchain and their accessors\<close>

text \<open>
  Models \<open>services/infonet/markets/event_selection.py\<close> and the idioms every other module
  repeats: keep the dictionaries of the chain, read a field with \<open>.get\<close>, take the payload, sort
  by \<open>(float(timestamp or 0.0), int(sequence or 0))\<close>. A chain is a list of Python values in
  append order, oldest first.
\<close>

type_synonym chain = "pyval list"

subsection \<open>Reading fields\<close>

definition eget :: "event \<Rightarrow> string \<Rightarrow> pyval" where
  "eget e k = get_or (map_of e k) VNone"

definition ehas :: "event \<Rightarrow> string \<Rightarrow> bool" where
  "ehas e k \<longleftrightarrow> map_of e k \<noteq> None"

definition payload :: "event \<Rightarrow> event" where
  "payload e = (case eget e ''payload'' of VDict d \<Rightarrow> d | _ \<Rightarrow> [])"

definition etype :: "event \<Rightarrow> string \<Rightarrow> bool" where
  "etype e t \<longleftrightarrow> eget e ''event_type'' = VStr t"

text \<open>\<open>[e for e in chain if isinstance(e, dict)]\<close>\<close>

fun dict_events :: "chain \<Rightarrow> event list" where
  "dict_events [] = []"
| "dict_events (VDict d # vs) = d # dict_events vs"
| "dict_events (_ # vs) = dict_events vs"

text \<open>\<open>isinstance(v, str) and v\<close>: a non-empty string, as the identifiers must be.\<close>

definition nonempty_str :: "pyval \<Rightarrow> string option" where
  "nonempty_str v = (case v of VStr s \<Rightarrow> if s = [] then None else Some s | _ \<Rightarrow> None)"

text \<open>\<open>isinstance(v, str) and v.strip()\<close>: a string that is not blank.\<close>

definition nonblank_str :: "pyval \<Rightarrow> bool" where
  "nonblank_str v = (case v of VStr s \<Rightarrow> py_strip s \<noteq> [] | _ \<Rightarrow> False)"

lemma nonempty_str_Some [chain_simps]: "nonempty_str v = Some s \<longleftrightarrow> v = VStr s \<and> s \<noteq> []"
  by (cases v) (auto simp: nonempty_str_def)

lemma nonempty_str_VStr [simp]: "nonempty_str (VStr s) = (if s = [] then None else Some s)"
  by (simp add: nonempty_str_def)

lemma dict_events_append [simp]: "dict_events (xs @ ys) = dict_events xs @ dict_events ys"
  by (induction xs rule: dict_events.induct) auto

lemma dict_events_map [simp]: "dict_events (map VDict es) = es"
  by (induction es) auto

lemma dict_events_set: "e \<in> set (dict_events c) \<longleftrightarrow> VDict e \<in> set c"
  by (induction c rule: dict_events.induct) auto

lemma dict_events_mset: "mset c = mset c' \<Longrightarrow> mset (dict_events c) = mset (dict_events c')"
proof -
  have eq: "dict_events c = map (\<lambda>v. case v of VDict d \<Rightarrow> d | _ \<Rightarrow> [])
      (filter (\<lambda>v. case v of VDict d \<Rightarrow> True | _ \<Rightarrow> False) c)" for c
    by (induction c rule: dict_events.induct) auto
  assume "mset c = mset c'"
  then show ?thesis by (simp add: eq)
qed

subsection \<open>markets/event\_selection.py\<close>

definition market_id :: "event \<Rightarrow> string" where
  "market_id e = py_str (py_or (eget (payload e) ''market_id'') (VStr []))"

definition finite_float :: "pyval \<Rightarrow> pyfloat option" where
  "finite_float v =
     (case py_float v of Inl _ \<Rightarrow> None | Inr f \<Rightarrow> if isfinite f then Some f else None)"

definition safe_int :: "pyval \<Rightarrow> int option" where
  "safe_int v = (case py_int v of Inl _ \<Rightarrow> None | Inr n \<Rightarrow> Some n)"

definition has_valid_ordering :: "event \<Rightarrow> bool" where
  "has_valid_ordering e \<longleftrightarrow>
     finite_float (eget e ''timestamp'') \<noteq> None \<and> safe_int (eget e ''sequence'') \<noteq> None"

definition events_for_market :: "string \<Rightarrow> chain \<Rightarrow> event list" where
  "events_for_market mid c = filter (\<lambda>e. market_id e = mid) (dict_events c)"

definition first_authoritative_event :: "event list \<Rightarrow> string \<Rightarrow> event option" where
  "first_authoritative_event es t = List.find (\<lambda>e. etype e t) es"

text \<open>
  The exceptions \<open>float\<close> and \<open>int\<close> raise are exactly those \<open>finite_float\<close> and \<open>safe_int\<close> catch,
  so the two functions never raise.
\<close>

lemma py_float_raises: "py_float v = Inl e \<Longrightarrow> e \<in> {TypeError, ValueError, OverflowError}"
  by (cases v) (auto simp: int_to_float_def split: option.splits pyfloat.splits)

lemma py_int_raises: "py_int v = Inl e \<Longrightarrow> e \<in> {TypeError, ValueError, OverflowError}"
  by (cases v rule: py_int.cases) (auto split: option.splits)

lemma valid64_float_of_str: "float_of_str s = Some f \<Longrightarrow> valid64 f"
  by (auto simp: float_of_str_def parse_decimal_def Let_def split: prod.splits if_splits option.splits list.splits)

lemma valid64_py_float: "py_float v = Inr f \<Longrightarrow> valid64 f"
proof (cases v)
  case (VBool b)
  then show "py_float v = Inr f \<Longrightarrow> valid64 f" by auto
next
  case (VInt n)
  then show "py_float v = Inr f \<Longrightarrow> valid64 f"
    using valid64_round64 [of "of_int n"] by (auto simp: int_to_float_def split: pyfloat.splits)
qed (auto split: option.splits dest: valid64_float_of_str)

lemma finite_float_Some: "finite_float v = Some f \<longleftrightarrow> py_float v = Inr f \<and> isfinite f"
  by (auto simp: finite_float_def split: sum.splits)

lemma finite_float_Fin: "finite_float v = Some f \<Longrightarrow> \<exists>q. f = Fin q \<and> rep64 q \<and> \<bar>q\<bar> < 2 ^ 1024"
  using valid64_py_float [of v f] by (auto simp: finite_float_Some isfinite_iff)

lemma first_authoritative_event_Some:
  "first_authoritative_event es t = Some e \<Longrightarrow> e \<in> set es \<and> etype e t"
  by (auto simp: first_authoritative_event_def find_Some_iff)

lemma first_authoritative_event_None:
  "first_authoritative_event es t = None \<longleftrightarrow> (\<forall>e \<in> set es. \<not> etype e t)"
  by (auto simp: first_authoritative_event_def find_None_iff)

text \<open>
  Appending to the chain never changes which event is authoritative once there is one.
\<close>

lemma first_authoritative_event_append:
  "first_authoritative_event es t = Some e \<Longrightarrow> first_authoritative_event (es @ fs) t = Some e"
  unfolding first_authoritative_event_def by (induction es) (auto split: if_splits)

lemma find_append_iff: "List.find P (xs @ ys) = (case List.find P xs of None \<Rightarrow> List.find P ys | Some x \<Rightarrow> Some x)"
  by (induction xs) auto

lemma events_for_market_append:
  "events_for_market mid (c @ c') = events_for_market mid c @ events_for_market mid c'"
  by (simp add: events_for_market_def)

subsection \<open>Chain order\<close>

text \<open>
  The key \<open>(float(e.get("timestamp") or 0.0), int(e.get("sequence") or 0))\<close>; either conversion
  may raise.
\<close>

definition event_ts :: "event \<Rightarrow> pyfloat res" where
  "event_ts e = py_float (py_or (eget e ''timestamp'') (VFloat (Fin 0)))"

definition event_seq :: "event \<Rightarrow> int res" where
  "event_seq e = py_int (py_or (eget e ''sequence'') (VInt 0))"

definition order_key :: "event \<Rightarrow> (pyfloat \<times> int) res" where
  "order_key e = rbind (event_ts e) (\<lambda>t. rbind (event_seq e) (\<lambda>n. Inr (t, n)))"

definition sort_onR :: "('a \<Rightarrow> ('k::linorder) res) \<Rightarrow> 'a list \<Rightarrow> 'a list res" where
  "sort_onR f xs = rbind (mapR f xs) (\<lambda>ks. Inr (map snd (sort_key fst (zip ks xs))))"

definition chain_sort :: "event list \<Rightarrow> event list res" where
  "chain_sort es = sort_onR order_key es"

lemma sort_onR_mset: "sort_onR f xs = Inr ys \<Longrightarrow> mset ys = mset xs"
proof -
  assume "sort_onR f xs = Inr ys"
  then obtain ks where ks: "mapR f xs = Inr ks" "ys = map snd (sort_key fst (zip ks xs))"
    by (auto simp: sort_onR_def res_simps)
  have "mset ys = mset (map snd (zip ks xs))" by (simp add: ks)
  also have "map snd (zip ks xs) = xs" using mapR_length [OF ks(1)] by simp
  finally show ?thesis .
qed

lemma sort_onR_set: "sort_onR f xs = Inr ys \<Longrightarrow> set ys = set xs"
  using sort_onR_mset by (metis set_mset_mset)

lemma chain_sort_mset: "chain_sort es = Inr fs \<Longrightarrow> mset fs = mset es"
  by (simp add: chain_sort_def sort_onR_mset)

lemma chain_sort_set: "chain_sort es = Inr fs \<Longrightarrow> set fs = set es"
  by (simp add: chain_sort_def sort_onR_set)

lemma sort_onR_total:
  assumes "\<And>x. x \<in> set xs \<Longrightarrow> f x = Inr (g x)"
  shows "sort_onR f xs = Inr (sort_key g xs)"
proof -
  have "mapR f xs = Inr (map g xs)" using assms by (rule mapR_total)
  moreover have "map snd (sort_key fst (zip (map g xs) xs)) = sort_key g xs"
  proof -
    have z: "zip (map g xs) xs = map (\<lambda>x. (g x, x)) xs" by (induction xs) auto
    have "sort_key fst (map (\<lambda>x. (g x, x)) zs) = map (\<lambda>x. (g x, x)) (sort_key g zs)" for zs
    proof (induction zs)
      case Nil
      then show ?case by simp
    next
      case (Cons z zs)
      have "insort_key fst (g z, z) (map (\<lambda>x. (g x, x)) ws) = map (\<lambda>x. (g x, x)) (insort_key g z ws)" for ws
        by (induction ws) auto
      with Cons show ?case by simp
    qed
    then show ?thesis by (simp add: z comp_def)
  qed
  ultimately show ?thesis by (simp add: sort_onR_def)
qed

lemma mapR_projr: "mapR f xs = Inr ks \<Longrightarrow> x \<in> set xs \<Longrightarrow> f x = Inr (projr (f x))"
  by (induction xs arbitrary: ks) (auto simp: res_simps)

lemma sort_onR_eq: "mapR f xs = Inr ks \<Longrightarrow> sort_onR f xs = Inr (sort_key (\<lambda>x. projr (f x)) xs)"
  using mapR_projr by (intro sort_onR_total) fastforce

lemma sort_onR_sorted:
  "sort_onR f xs = Inr ys \<Longrightarrow> \<exists>ks. mapR f ys = Inr ks \<and> sorted ks"
proof -
  assume ys: "sort_onR f xs = Inr ys"
  then obtain ks where ks: "mapR f xs = Inr ks" by (auto simp: sort_onR_def res_simps)
  then have "ys = sort_key (\<lambda>x. projr (f x)) xs" using ys sort_onR_eq by fastforce
  moreover have "mapR f ys = Inr (map (\<lambda>x. projr (f x)) ys)"
    using mapR_projr [OF ks] sort_onR_set [OF ys] by (intro mapR_total) blast
  ultimately show ?thesis by simp
qed

text \<open>Without ties, the sorted list does not depend on the order the elements came in.\<close>

lemma sort_onR_perm:
  assumes "mapR f xs = Inr ks" "distinct ks" "mset ys = mset xs"
  shows "sort_onR f ys = sort_onR f xs"
proof -
  let ?g = "\<lambda>x. projr (f x)"
  have "f x = Inr (?g x)" if "x \<in> set xs" for x using mapR_projr [OF assms(1) that] .
  then have total: "sort_onR f zs = Inr (sort_key ?g zs)" if "set zs = set xs" for zs
    using that by (intro sort_onR_total) blast
  have "ks = map ?g xs"
    using mapR_total [of xs f ?g] mapR_projr [OF assms(1)] assms(1) by fastforce
  then have "sort_key ?g xs = sort_key ?g ys" using assms(2,3) by (intro sort_key_unique) simp_all
  moreover have "set ys = set xs" using assms(3) by (metis set_mset_mset)
  ultimately show ?thesis by (simp add: total)
qed

text \<open>Descending and stable, as \<open>sort(key=..., reverse=True)\<close>.\<close>

definition sort_desc :: "('a \<Rightarrow> 'k::linorder) \<Rightarrow> 'a list \<Rightarrow> 'a list" where
  "sort_desc f xs = rev (sort_key f (rev xs))"

lemma mset_sort_desc [simp]: "mset (sort_desc f xs) = mset xs"
  by (simp add: sort_desc_def)

lemma set_sort_desc [simp]: "set (sort_desc f xs) = set xs"
  by (metis mset_sort_desc set_mset_mset)

lemma sorted_sort_desc: "sorted (rev (map f (sort_desc f xs)))"
  by (simp add: sort_desc_def rev_map)

end
