(* ===== verification/Config.thy ===== *)
theory Config
  imports Chain_Events
begin

section \<open>Constitutional and amendable parameters\<close>

text \<open>
  Models \<open>services/infonet/config.py\<close>: the immutable principles, the baseline of the amendable
  parameters, the schema of bounds, the cross-field invariants and the validators. \<open>CONFIG\<close> is a
  module-level dictionary in the source; here it is the state every reader takes as an argument
  (\<open>config\<close>) and the governance executor returns updated.
\<close>

type_synonym config = "(string, pyval) dict"

datatype schema_type = TInt | TFloat | TBool | TStr

record schema_entry =
  s_type :: schema_type
  s_min :: "pyval option"
  s_max :: "pyval option"
  s_enum :: "pyval list option"

abbreviation range_entry :: "schema_type \<Rightarrow> pyval \<Rightarrow> pyval \<Rightarrow> schema_entry" where
  "range_entry t lo hi \<equiv> \<lparr>s_type = t, s_min = Some lo, s_max = Some hi, s_enum = None\<rparr>"

abbreviation enum_entry :: "schema_type \<Rightarrow> pyval list \<Rightarrow> schema_entry" where
  "enum_entry t vs \<equiv> \<lparr>s_type = t, s_min = None, s_max = None, s_enum = Some vs\<rparr>"

abbreviation plain_entry :: "schema_type \<Rightarrow> schema_entry" where
  "plain_entry t \<equiv> \<lparr>s_type = t, s_min = None, s_max = None, s_enum = None\<rparr>"

subsection \<open>The tables\<close>

definition IMMUTABLE_PRINCIPLES :: "(string \<times> pyval) list" where
  "IMMUTABLE_PRINCIPLES =
    [(''oracle_rep_source'', VStr ''predictions_only''),
     (''hashchain_append_only'', VBool True),
     (''audit_public'', VBool True),
     (''identity_permissionless'', VBool True),
     (''signature_required'', VBool True),
     (''redemption_path_exists'', VBool True),
     (''coin_governance_firewall'', VBool True),
     (''protocol_version'', VStr ''0.1.0'')]"

definition BASELINE_CONFIG :: config where
  "BASELINE_CONFIG =
    [(''vote_decay_days'', VInt 90),
     (''min_rep_to_vote'', VInt 3),
     (''min_rep_to_create_gate'', VInt 10),
     (''bootstrap_threshold'', VInt 1000),
     (''weekly_vote_base'', VInt 5),
     (''weekly_vote_per_oracle'', VInt 10),
     (''daily_vote_limit_per_target'', VInt 1),
     (''oracle_min_earned'', VFloat (round64 (1 / 100))),
     (''farming_soft_threshold'', VFloat (round64 (3 / 5))),
     (''farming_hard_threshold'', VFloat (round64 (4 / 5))),
     (''farming_easy_bet_cutoff'', VFloat (round64 (4 / 5))),
     (''subjective_oracle_rep_mint'', VBool False),
     (''min_market_participants'', VInt 5),
     (''min_market_total_stake'', VFloat (round64 10)),
     (''evidence_window_hours'', VInt 48),
     (''resolution_window_hours'', VInt 72),
     (''evidence_bond_cost'', VFloat (round64 2)),
     (''evidence_first_bonus'', VFloat (round64 (1 / 2))),
     (''resolution_supermajority'', VFloat (round64 (3 / 4))),
     (''min_resolution_stake_total'', VFloat (round64 20)),
     (''resolution_loser_burn_pct'', VFloat (round64 (1 / 50))),
     (''data_unavailable_threshold'', VFloat (round64 (33 / 100))),
     (''resolution_stalemate_burn_pct'', VFloat (round64 (1 / 50))),
     (''governance_decay_days'', VInt 90),
     (''governance_decay_factor'', VFloat (round64 (1 / 2))),
     (''max_future_event_drift_sec'', VInt 300),
     (''phase_boundary_stale_reject'', VBool True),
     (''rotation_blocked_during_stakes'', VBool True),
     (''vcs_min_weight'', VFloat (round64 (1 / 10))),
     (''clustering_min_weight'', VFloat (round64 (1 / 5))),
     (''temporal_burst_window_sec'', VInt 300),
     (''temporal_burst_min_upreps'', VInt 5),
     (''progressive_penalty_base'', VFloat (round64 1)),
     (''common_rep_weight_factor'', VFloat (round64 (1 / 10))),
     (''progressive_penalty_threshold'', VFloat (round64 0)),
     (''gate_ratification_rep'', VInt 50),
     (''gate_lock_cost_per_member'', VInt 10),
     (''gate_lock_min_members'', VInt 5),
     (''gate_creation_rate_limit'', VInt 5),
     (''truth_stake_min_days'', VInt 1),
     (''truth_stake_max_days'', VInt 7),
     (''truth_stake_grace_hours'', VInt 24),
     (''truth_stake_max_extensions'', VInt 3),
     (''truth_stake_tie_burn_pct'', VFloat (round64 (1 / 5))),
     (''truth_stake_self_stake'', VBool False),
     (''dispute_window_days'', VInt 7),
     (''dispute_common_rep_stakeable'', VBool True),
     (''monthly_mint_amount'', VInt 100000),
     (''ubi_share_pct'', VFloat (round64 (1 / 2))),
     (''oracle_dividend_pct'', VFloat (round64 (1 / 2))),
     (''citizenship_sacrifice_cost'', VInt 10),
     (''year1_max_coins_per_node'', VInt 10000),
     (''petition_filing_cost'', VInt 15),
     (''petition_signature_threshold'', VFloat (round64 (1 / 4))),
     (''petition_signature_window_days'', VInt 14),
     (''petition_vote_window_days'', VInt 7),
     (''petition_supermajority'', VFloat (round64 (67 / 100))),
     (''petition_quorum'', VFloat (round64 (3 / 10))),
     (''challenge_filing_cost'', VInt 25),
     (''challenge_window_hours'', VInt 48),
     (''upgrade_filing_cost'', VInt 25),
     (''upgrade_signature_threshold'', VFloat (round64 (1 / 4))),
     (''upgrade_signature_window_days'', VInt 14),
     (''upgrade_vote_window_days'', VInt 14),
     (''upgrade_supermajority'', VFloat (round64 (4 / 5))),
     (''upgrade_quorum'', VFloat (round64 (2 / 5))),
     (''upgrade_activation_threshold'', VFloat (round64 (67 / 100))),
     (''upgrade_activation_window_days'', VInt 30),
     (''upgrade_challenge_window_hours'', VInt 48),
     (''gate_suspend_filing_cost'', VInt 15),
     (''gate_shutdown_filing_cost'', VInt 25),
     (''gate_suspend_supermajority'', VFloat (round64 (67 / 100))),
     (''gate_suspend_locked_supermajority'', VFloat (round64 (3 / 4))),
     (''gate_shutdown_supermajority'', VFloat (round64 (3 / 4))),
     (''gate_shutdown_locked_supermajority'', VFloat (round64 (4 / 5))),
     (''gate_shutdown_quorum'', VFloat (round64 (3 / 10))),
     (''gate_suspend_duration_days'', VInt 30),
     (''gate_shutdown_execution_delay_days'', VInt 7),
     (''gate_shutdown_cooldown_days'', VInt 90),
     (''gate_shutdown_fail_penalty_days'', VInt 30),
     (''gate_shutdown_appeal_filing_cost'', VInt 20),
     (''gate_shutdown_appeal_window_hours'', VInt 48),
     (''gate_shutdown_appeal_vote_window_days'', VInt 7),
     (''gate_shutdown_appeal_supermajority'', VFloat (round64 (67 / 100))),
     (''gate_shutdown_appeal_locked_supermajority'', VFloat (round64 (3 / 4))),
     (''gate_shutdown_appeal_quorum'', VFloat (round64 (3 / 10))),
     (''market_creation_bond'', VInt 3),
     (''market_creation_bond_return_threshold'', VInt 5),
     (''bootstrap_market_count'', VInt 100),
     (''bootstrap_evidence_bond_cost'', VInt 0),
     (''bootstrap_resolution_mode'', VStr ''eligible_node_one_vote''),
     (''bootstrap_resolution_supermajority'', VFloat (round64 (3 / 4))),
     (''bootstrap_min_identity_age_days'', VInt 3),
     (''bootstrap_pow_algorithm'', VStr ''argon2id''),
     (''bootstrap_pow_argon2id_version'', VInt 19),
     (''bootstrap_pow_argon2id_m'', VInt 65536),
     (''bootstrap_pow_argon2id_t'', VInt 3),
     (''bootstrap_pow_argon2id_p'', VInt 1),
     (''bootstrap_pow_argon2id_output_len'', VInt 32),
     (''bootstrap_pow_difficulty'', VInt 16),
     (''ramp_staked_resolution_threshold'', VInt 1000),
     (''ramp_petitions_threshold'', VInt 2000),
     (''ramp_upgrade_threshold'', VInt 5000),
     (''ramp_commoncoin_threshold'', VInt 10000)]"

definition CONFIG_SCHEMA :: "(string \<times> schema_entry) list" where
  "CONFIG_SCHEMA =
    [(''vote_decay_days'', range_entry TInt (VInt 7) (VInt 365)),
     (''min_rep_to_vote'', range_entry TInt (VInt 0) (VInt 100)),
     (''min_rep_to_create_gate'', range_entry TInt (VInt 1) (VInt 1000)),
     (''bootstrap_threshold'', range_entry TInt (VInt 100) (VInt 100000)),
     (''weekly_vote_base'', range_entry TInt (VInt 1) (VInt 100)),
     (''weekly_vote_per_oracle'', range_entry TInt (VInt 1) (VInt 1000)),
     (''daily_vote_limit_per_target'', range_entry TInt (VInt 1) (VInt 10)),
     (''oracle_min_earned'', range_entry TFloat (VFloat (round64 (1 / 1000))) (VFloat (round64 1))),
     (''farming_soft_threshold'', range_entry TFloat (VFloat (round64 (1 / 10))) (VFloat (round64 (19 / 20)))),
     (''farming_hard_threshold'', range_entry TFloat (VFloat (round64 (1 / 5))) (VFloat (round64 (99 / 100)))),
     (''farming_easy_bet_cutoff'', range_entry TFloat (VFloat (round64 (1 / 2))) (VFloat (round64 (99 / 100)))),
     (''subjective_oracle_rep_mint'', plain_entry TBool),
     (''min_market_participants'', range_entry TInt (VInt 2) (VInt 100)),
     (''min_market_total_stake'', range_entry TFloat (VFloat (round64 1)) (VFloat (round64 1000))),
     (''evidence_window_hours'', range_entry TInt (VInt 12) (VInt 168)),
     (''resolution_window_hours'', range_entry TInt (VInt 24) (VInt 336)),
     (''evidence_bond_cost'', range_entry TFloat (VFloat (round64 (1 / 2))) (VFloat (round64 50))),
     (''evidence_first_bonus'', range_entry TFloat (VFloat (round64 0)) (VFloat (round64 10))),
     (''resolution_supermajority'', range_entry TFloat (VFloat (round64 (51 / 100))) (VFloat (round64 (19 / 20)))),
     (''min_resolution_stake_total'', range_entry TFloat (VFloat (round64 5)) (VFloat (round64 500))),
     (''resolution_loser_burn_pct'', range_entry TFloat (VFloat (round64 0)) (VFloat (round64 (1 / 10)))),
     (''data_unavailable_threshold'', range_entry TFloat (VFloat (round64 (1 / 10))) (VFloat (round64 (1 / 2)))),
     (''resolution_stalemate_burn_pct'', range_entry TFloat (VFloat (round64 0)) (VFloat (round64 (1 / 10)))),
     (''governance_decay_days'', range_entry TInt (VInt 7) (VInt 365)),
     (''governance_decay_factor'', range_entry TFloat (VFloat (round64 (1 / 10))) (VFloat (round64 (99 / 100)))),
     (''max_future_event_drift_sec'', range_entry TInt (VInt 30) (VInt 3600)),
     (''phase_boundary_stale_reject'', plain_entry TBool),
     (''rotation_blocked_during_stakes'', plain_entry TBool),
     (''vcs_min_weight'', range_entry TFloat (VFloat (round64 0)) (VFloat (round64 1))),
     (''clustering_min_weight'', range_entry TFloat (VFloat (round64 0)) (VFloat (round64 1))),
     (''temporal_burst_window_sec'', range_entry TInt (VInt 30) (VInt 3600)),
     (''temporal_burst_min_upreps'', range_entry TInt (VInt 2) (VInt 100)),
     (''progressive_penalty_base'', range_entry TFloat (VFloat (round64 (1 / 10))) (VFloat (round64 100))),
     (''common_rep_weight_factor'', range_entry TFloat (VFloat (round64 0)) (VFloat (round64 1))),
     (''progressive_penalty_threshold'', range_entry TFloat (VFloat (round64 0)) (VFloat (round64 1))),
     (''gate_ratification_rep'', range_entry TInt (VInt 1) (VInt 10000)),
     (''gate_lock_cost_per_member'', range_entry TInt (VInt 1) (VInt 1000)),
     (''gate_lock_min_members'', range_entry TInt (VInt 2) (VInt 1000)),
     (''gate_creation_rate_limit'', range_entry TInt (VInt 1) (VInt 100)),
     (''truth_stake_min_days'', range_entry TInt (VInt 1) (VInt 30)),
     (''truth_stake_max_days'', range_entry TInt (VInt 1) (VInt 90)),
     (''truth_stake_grace_hours'', range_entry TInt (VInt 1) (VInt 168)),
     (''truth_stake_max_extensions'', range_entry TInt (VInt 0) (VInt 10)),
     (''truth_stake_tie_burn_pct'', range_entry TFloat (VFloat (round64 0)) (VFloat (round64 (1 / 2)))),
     (''truth_stake_self_stake'', plain_entry TBool),
     (''dispute_window_days'', range_entry TInt (VInt 1) (VInt 30)),
     (''dispute_common_rep_stakeable'', plain_entry TBool),
     (''monthly_mint_amount'', range_entry TInt (VInt 1) (VInt 1000000000)),
     (''ubi_share_pct'', range_entry TFloat (VFloat (round64 0)) (VFloat (round64 1))),
     (''oracle_dividend_pct'', range_entry TFloat (VFloat (round64 0)) (VFloat (round64 1))),
     (''citizenship_sacrifice_cost'', range_entry TInt (VInt 1) (VInt 1000)),
     (''year1_max_coins_per_node'', range_entry TInt (VInt 1) (VInt 1000000000)),
     (''petition_filing_cost'', range_entry TInt (VInt 1) (VInt 100)),
     (''petition_signature_threshold'', range_entry TFloat (VFloat (round64 (1 / 20))) (VFloat (round64 (1 / 2)))),
     (''petition_signature_window_days'', range_entry TInt (VInt 1) (VInt 60)),
     (''petition_vote_window_days'', range_entry TInt (VInt 1) (VInt 30)),
     (''petition_supermajority'', range_entry TFloat (VFloat (round64 (51 / 100))) (VFloat (round64 (19 / 20)))),
     (''petition_quorum'', range_entry TFloat (VFloat (round64 (1 / 10))) (VFloat (round64 (4 / 5)))),
     (''challenge_filing_cost'', range_entry TInt (VInt 1) (VInt 200)),
     (''challenge_window_hours'', range_entry TInt (VInt 12) (VInt 168)),
     (''upgrade_filing_cost'', range_entry TInt (VInt 1) (VInt 200)),
     (''upgrade_signature_threshold'', range_entry TFloat (VFloat (round64 (1 / 20))) (VFloat (round64 (1 / 2)))),
     (''upgrade_signature_window_days'', range_entry TInt (VInt 1) (VInt 60)),
     (''upgrade_vote_window_days'', range_entry TInt (VInt 1) (VInt 60)),
     (''upgrade_supermajority'', range_entry TFloat (VFloat (round64 (51 / 100))) (VFloat (round64 (99 / 100)))),
     (''upgrade_quorum'', range_entry TFloat (VFloat (round64 (1 / 10))) (VFloat (round64 (19 / 20)))),
     (''upgrade_activation_threshold'', range_entry TFloat (VFloat (round64 (51 / 100))) (VFloat (round64 (99 / 100)))),
     (''upgrade_activation_window_days'', range_entry TInt (VInt 1) (VInt 90)),
     (''upgrade_challenge_window_hours'', range_entry TInt (VInt 12) (VInt 168)),
     (''gate_suspend_filing_cost'', range_entry TInt (VInt 1) (VInt 200)),
     (''gate_shutdown_filing_cost'', range_entry TInt (VInt 1) (VInt 200)),
     (''gate_suspend_supermajority'', range_entry TFloat (VFloat (round64 (51 / 100))) (VFloat (round64 (19 / 20)))),
     (''gate_suspend_locked_supermajority'', range_entry TFloat (VFloat (round64 (51 / 100))) (VFloat (round64 (19 / 20)))),
     (''gate_shutdown_supermajority'', range_entry TFloat (VFloat (round64 (51 / 100))) (VFloat (round64 (99 / 100)))),
     (''gate_shutdown_locked_supermajority'', range_entry TFloat (VFloat (round64 (51 / 100))) (VFloat (round64 (99 / 100)))),
     (''gate_shutdown_quorum'', range_entry TFloat (VFloat (round64 (1 / 10))) (VFloat (round64 (4 / 5)))),
     (''gate_suspend_duration_days'', range_entry TInt (VInt 1) (VInt 365)),
     (''gate_shutdown_execution_delay_days'', range_entry TInt (VInt 1) (VInt 90)),
     (''gate_shutdown_cooldown_days'', range_entry TInt (VInt 7) (VInt 365)),
     (''gate_shutdown_fail_penalty_days'', range_entry TInt (VInt 0) (VInt 365)),
     (''gate_shutdown_appeal_filing_cost'', range_entry TInt (VInt 1) (VInt 200)),
     (''gate_shutdown_appeal_window_hours'', range_entry TInt (VInt 12) (VInt 168)),
     (''gate_shutdown_appeal_vote_window_days'', range_entry TInt (VInt 1) (VInt 30)),
     (''gate_shutdown_appeal_supermajority'', range_entry TFloat (VFloat (round64 (51 / 100))) (VFloat (round64 (19 / 20)))),
     (''gate_shutdown_appeal_locked_supermajority'', range_entry TFloat (VFloat (round64 (51 / 100))) (VFloat (round64 (19 / 20)))),
     (''gate_shutdown_appeal_quorum'', range_entry TFloat (VFloat (round64 (1 / 10))) (VFloat (round64 (4 / 5)))),
     (''market_creation_bond'', range_entry TInt (VInt 0) (VInt 1000)),
     (''market_creation_bond_return_threshold'', range_entry TInt (VInt 1) (VInt 1000)),
     (''bootstrap_market_count'', range_entry TInt (VInt 0) (VInt 100000)),
     (''bootstrap_evidence_bond_cost'', range_entry TFloat (VFloat (round64 0)) (VFloat (round64 50))),
     (''bootstrap_resolution_mode'', enum_entry TStr [VStr ''eligible_node_one_vote'']),
     (''bootstrap_resolution_supermajority'', range_entry TFloat (VFloat (round64 (51 / 100))) (VFloat (round64 (19 / 20)))),
     (''bootstrap_min_identity_age_days'', range_entry TInt (VInt 0) (VInt 365)),
     (''bootstrap_pow_algorithm'', enum_entry TStr [VStr ''argon2id'']),
     (''bootstrap_pow_argon2id_version'', enum_entry TInt [VInt 19]),
     (''bootstrap_pow_argon2id_m'', range_entry TInt (VInt 8192) (VInt 1048576)),
     (''bootstrap_pow_argon2id_t'', range_entry TInt (VInt 1) (VInt 100)),
     (''bootstrap_pow_argon2id_p'', range_entry TInt (VInt 1) (VInt 16)),
     (''bootstrap_pow_argon2id_output_len'', enum_entry TInt [VInt 32]),
     (''bootstrap_pow_difficulty'', range_entry TInt (VInt 1) (VInt 64)),
     (''ramp_staked_resolution_threshold'', range_entry TInt (VInt 1) (VInt 10000000)),
     (''ramp_petitions_threshold'', range_entry TInt (VInt 1) (VInt 10000000)),
     (''ramp_upgrade_threshold'', range_entry TInt (VInt 1) (VInt 10000000)),
     (''ramp_commoncoin_threshold'', range_entry TInt (VInt 1) (VInt 10000000))]"

definition CROSS_FIELD_INVARIANTS :: "(string \<times> string \<times> string) list" where
  "CROSS_FIELD_INVARIANTS =
    [(''petition_supermajority'', ''>'', ''petition_quorum''),
     (''resolution_supermajority'', ''>'', ''data_unavailable_threshold''),
     (''upgrade_supermajority'', ''>'', ''upgrade_quorum''),
     (''gate_shutdown_supermajority'', ''>'', ''gate_shutdown_quorum''),
     (''gate_suspend_supermajority'', ''>'', ''gate_shutdown_quorum''),
     (''farming_hard_threshold'', ''>'', ''farming_soft_threshold''),
     (''truth_stake_max_days'', ''>'', ''truth_stake_min_days''),
     (''upgrade_filing_cost'', ''>'', ''petition_filing_cost''),
     (''ramp_petitions_threshold'', ''>'', ''ramp_staked_resolution_threshold''),
     (''ramp_upgrade_threshold'', ''>'', ''ramp_petitions_threshold''),
     (''ramp_commoncoin_threshold'', ''>'', ''ramp_upgrade_threshold'')]"

subsection \<open>Validators\<close>

text \<open>
  \<open>a < b\<close> on the values the validators compare: numbers of any type exactly, strings
  lexicographically, anything else raises. Containers are never compared by this code.
\<close>

definition py_lt :: "pyval \<Rightarrow> pyval \<Rightarrow> bool res" where
  "py_lt a b =
     (case (num_of a, num_of b) of
        (Some x, Some y) \<Rightarrow> Inr (flt x y)
      | _ \<Rightarrow> (case (a, b) of (VStr s, VStr t) \<Rightarrow> Inr (s < t) | _ \<Rightarrow> Inl TypeError))"

definition is_int_val :: "pyval \<Rightarrow> bool" where
  "is_int_val v = (case v of VInt _ \<Rightarrow> True | _ \<Rightarrow> False)"

definition is_number_val :: "pyval \<Rightarrow> bool" where
  "is_number_val v = (case v of VInt _ \<Rightarrow> True | VFloat _ \<Rightarrow> True | _ \<Rightarrow> False)"

text \<open>The \<open>isinstance\<close> chain: \<open>bool\<close> is a subclass of \<open>int\<close> and is excluded by hand.\<close>

fun type_matches :: "schema_type \<Rightarrow> pyval \<Rightarrow> bool" where
  "type_matches TBool v = (case v of VBool _ \<Rightarrow> True | _ \<Rightarrow> False)"
| "type_matches TInt v = is_int_val v"
| "type_matches TFloat v = is_number_val v"
| "type_matches TStr v = (case v of VStr _ \<Rightarrow> True | _ \<Rightarrow> False)"

text \<open>\<open>v in (a, b, ...)\<close> for the scalar members the schema lists.\<close>

definition scalar_eq :: "pyval \<Rightarrow> pyval \<Rightarrow> bool" where
  "scalar_eq a b =
     (case (num_of a, num_of b) of
        (Some x, Some y) \<Rightarrow> feq x y
      | _ \<Rightarrow> (case (a, b) of (VStr s, VStr t) \<Rightarrow> s = t | (VNone, VNone) \<Rightarrow> True | _ \<Rightarrow> False))"

definition check_min :: "string \<Rightarrow> pyval \<Rightarrow> schema_entry \<Rightarrow> unit res" where
  "check_min key v s =
     (case s_min s of None \<Rightarrow> Inr ()
      | Some m \<Rightarrow> rbind (py_lt v m) (\<lambda>b. if b then Inl (InvalidPetition (BelowMinimum key)) else Inr ()))"

definition check_max :: "string \<Rightarrow> pyval \<Rightarrow> schema_entry \<Rightarrow> unit res" where
  "check_max key v s =
     (case s_max s of None \<Rightarrow> Inr ()
      | Some m \<Rightarrow> rbind (py_lt m v) (\<lambda>b. if b then Inl (InvalidPetition (AboveMaximum key)) else Inr ()))"

definition check_enum :: "string \<Rightarrow> pyval \<Rightarrow> schema_entry \<Rightarrow> unit res" where
  "check_enum key v s =
     (case s_enum s of None \<Rightarrow> Inr ()
      | Some vs \<Rightarrow> if list_ex (scalar_eq v) vs then Inr () else Inl (InvalidPetition (NotInEnum key)))"

definition validate_entry :: "string \<Rightarrow> pyval \<Rightarrow> schema_entry \<Rightarrow> unit res" where
  "validate_entry key v s =
     (if \<not> type_matches (s_type s) v then Inl (InvalidPetition (TypeMismatch key))
      else rbind (check_min key v s) (\<lambda>_. rbind (check_max key v s) (\<lambda>_. check_enum key v s)))"

definition validate_petition_value :: "string \<Rightarrow> pyval \<Rightarrow> unit res" where
  "validate_petition_value key v =
     (case map_of CONFIG_SCHEMA key of
        None \<Rightarrow> Inl (InvalidPetition (NoSchema key))
      | Some s \<Rightarrow> validate_entry key v s)"

definition check_invariant :: "config \<Rightarrow> string \<times> string \<times> string \<Rightarrow> unit res" where
  "check_invariant cfg i =
     (case i of (l, oper, r) \<Rightarrow>
        (case (dict_get cfg l, dict_get cfg r) of
           (None, _) \<Rightarrow> Inl (InvalidPetition (InvariantMissingKey l))
         | (_, None) \<Rightarrow> Inl (InvalidPetition (InvariantMissingKey r))
         | (Some a, Some b) \<Rightarrow>
             if oper = ''>'' then
               rbind (py_lt b a) (\<lambda>ok. if ok then Inr () else Inl (InvalidPetition (InvariantViolated l r)))
             else Inl (InvalidPetition (UnknownOperator oper))))"

definition validate_cross_field_invariants :: "config \<Rightarrow> unit res" where
  "validate_cross_field_invariants cfg = foldR (\<lambda>i _. check_invariant cfg i) CROSS_FIELD_INVARIANTS ()"

definition validate_config_schema_completeness :: "config \<Rightarrow> unit res" where
  "validate_config_schema_completeness cfg =
     (let ck = map fst cfg; sk = map fst CONFIG_SCHEMA;
          missing = sort (filter (\<lambda>k. k \<notin> set sk) ck);
          extra = sort (filter (\<lambda>k. k \<notin> set ck) sk)
      in if missing \<noteq> [] then Inl (InvalidPetition (SchemaIncomplete missing))
         else if extra \<noteq> [] then Inl (InvalidPetition (SchemaExtra extra))
         else Inr ())"

subsection \<open>Reading a parameter\<close>

definition cfg_get :: "config \<Rightarrow> string \<Rightarrow> pyval res" where
  "cfg_get cfg k = (case dict_get cfg k of None \<Rightarrow> Inl KeyError | Some v \<Rightarrow> Inr v)"

definition cfg_float :: "config \<Rightarrow> string \<Rightarrow> pyfloat res" where
  "cfg_float cfg k = rbind (cfg_get cfg k) py_float"

definition cfg_int :: "config \<Rightarrow> string \<Rightarrow> int res" where
  "cfg_int cfg k = rbind (cfg_get cfg k) py_int"

subsection \<open>Facts about the tables\<close>

text \<open>
  The keys of the schema are pairwise distinct; a hash into the integers makes the check cheap.
\<close>

definition key_hash :: "string \<Rightarrow> int" where
  "key_hash k = fold (\<lambda>c n. 2 * n + of_char c) k 0"

definition CONFIG_KEYS :: "string list" where
  "CONFIG_KEYS =
    [''vote_decay_days'', ''min_rep_to_vote'', ''min_rep_to_create_gate'',
     ''bootstrap_threshold'', ''weekly_vote_base'', ''weekly_vote_per_oracle'',
     ''daily_vote_limit_per_target'', ''oracle_min_earned'', ''farming_soft_threshold'',
     ''farming_hard_threshold'', ''farming_easy_bet_cutoff'', ''subjective_oracle_rep_mint'',
     ''min_market_participants'', ''min_market_total_stake'', ''evidence_window_hours'',
     ''resolution_window_hours'', ''evidence_bond_cost'', ''evidence_first_bonus'',
     ''resolution_supermajority'', ''min_resolution_stake_total'',
     ''resolution_loser_burn_pct'', ''data_unavailable_threshold'',
     ''resolution_stalemate_burn_pct'', ''governance_decay_days'', ''governance_decay_factor'',
     ''max_future_event_drift_sec'', ''phase_boundary_stale_reject'',
     ''rotation_blocked_during_stakes'', ''vcs_min_weight'', ''clustering_min_weight'',
     ''temporal_burst_window_sec'', ''temporal_burst_min_upreps'', ''progressive_penalty_base'',
     ''common_rep_weight_factor'', ''progressive_penalty_threshold'', ''gate_ratification_rep'',
     ''gate_lock_cost_per_member'', ''gate_lock_min_members'', ''gate_creation_rate_limit'',
     ''truth_stake_min_days'', ''truth_stake_max_days'', ''truth_stake_grace_hours'',
     ''truth_stake_max_extensions'', ''truth_stake_tie_burn_pct'', ''truth_stake_self_stake'',
     ''dispute_window_days'', ''dispute_common_rep_stakeable'', ''monthly_mint_amount'',
     ''ubi_share_pct'', ''oracle_dividend_pct'', ''citizenship_sacrifice_cost'',
     ''year1_max_coins_per_node'', ''petition_filing_cost'', ''petition_signature_threshold'',
     ''petition_signature_window_days'', ''petition_vote_window_days'',
     ''petition_supermajority'', ''petition_quorum'', ''challenge_filing_cost'',
     ''challenge_window_hours'', ''upgrade_filing_cost'', ''upgrade_signature_threshold'',
     ''upgrade_signature_window_days'', ''upgrade_vote_window_days'', ''upgrade_supermajority'',
     ''upgrade_quorum'', ''upgrade_activation_threshold'', ''upgrade_activation_window_days'',
     ''upgrade_challenge_window_hours'', ''gate_suspend_filing_cost'',
     ''gate_shutdown_filing_cost'', ''gate_suspend_supermajority'',
     ''gate_suspend_locked_supermajority'', ''gate_shutdown_supermajority'',
     ''gate_shutdown_locked_supermajority'', ''gate_shutdown_quorum'',
     ''gate_suspend_duration_days'', ''gate_shutdown_execution_delay_days'',
     ''gate_shutdown_cooldown_days'', ''gate_shutdown_fail_penalty_days'',
     ''gate_shutdown_appeal_filing_cost'', ''gate_shutdown_appeal_window_hours'',
     ''gate_shutdown_appeal_vote_window_days'', ''gate_shutdown_appeal_supermajority'',
     ''gate_shutdown_appeal_locked_supermajority'', ''gate_shutdown_appeal_quorum'',
     ''market_creation_bond'', ''market_creation_bond_return_threshold'',
     ''bootstrap_market_count'', ''bootstrap_evidence_bond_cost'',
     ''bootstrap_resolution_mode'', ''bootstrap_resolution_supermajority'',
     ''bootstrap_min_identity_age_days'', ''bootstrap_pow_algorithm'',
     ''bootstrap_pow_argon2id_version'', ''bootstrap_pow_argon2id_m'',
     ''bootstrap_pow_argon2id_t'', ''bootstrap_pow_argon2id_p'',
     ''bootstrap_pow_argon2id_output_len'', ''bootstrap_pow_difficulty'',
     ''ramp_staked_resolution_threshold'', ''ramp_petitions_threshold'',
     ''ramp_upgrade_threshold'', ''ramp_commoncoin_threshold'']"

lemma schema_keys: "map fst CONFIG_SCHEMA = CONFIG_KEYS"
  by (simp add: CONFIG_SCHEMA_def CONFIG_KEYS_def)

lemma baseline_keys: "map fst BASELINE_CONFIG = CONFIG_KEYS"
  by (simp add: BASELINE_CONFIG_def CONFIG_KEYS_def)

lemma distinct_keys: "distinct CONFIG_KEYS"
proof -
  have "distinct (map key_hash CONFIG_KEYS)" by code_simp
  then show ?thesis using distinct_map [of key_hash CONFIG_KEYS] by blast
qed

lemma distinct_schema: "distinct (map fst CONFIG_SCHEMA)"
  by (simp add: schema_keys distinct_keys)

lemma not_flt_round64: "b \<le> a \<Longrightarrow> \<not> flt (round64 a) (round64 b)"
  using round64_mono [of b a] flt_asym by blast

lemma flt_round64_bounds:
  "1 \<le> a \<Longrightarrow> \<not> flt (round64 a) (Fin 1)"
  "0 \<le> a \<Longrightarrow> \<not> flt (round64 a) (Fin 0)"
  "a \<le> 1 \<Longrightarrow> \<not> flt (Fin 1) (round64 a)"
  "a \<le> 0 \<Longrightarrow> \<not> flt (Fin 0) (round64 a)"
  using not_flt_round64 [of 1 a] not_flt_round64 [of 0 a] not_flt_round64 [of a 1]
    not_flt_round64 [of a 0] by simp_all

lemma baseline_entries_valid:
  "list_all2 (\<lambda>b s. validate_entry (fst b) (snd b) (snd s) = Inr ()) BASELINE_CONFIG CONFIG_SCHEMA"
  unfolding BASELINE_CONFIG_def CONFIG_SCHEMA_def
  by (simp add: validate_entry_def check_min_def check_max_def check_enum_def py_lt_def scalar_eq_def
      feq_def is_int_val_def is_number_val_def not_flt_round64 flt_round64_bounds)

lemma bool_entries_plain:
  "list_all (\<lambda>s. s_type (snd s) = TBool \<longrightarrow> snd s = plain_entry TBool) CONFIG_SCHEMA"
  by (simp add: CONFIG_SCHEMA_def)

lemma baseline_value_valid:
  assumes "dict_get BASELINE_CONFIG k = Some v"
  shows "validate_petition_value k v = Inr ()"
proof -
  from assms have "(k, v) \<in> set BASELINE_CONFIG" by (rule dict_get_mem)
  then obtain i where i: "i < length BASELINE_CONFIG" "BASELINE_CONFIG ! i = (k, v)"
    by (auto simp: in_set_conv_nth)
  have len: "length BASELINE_CONFIG = length CONFIG_SCHEMA"
    using baseline_keys schema_keys by (metis length_map)
  have "fst (BASELINE_CONFIG ! i) = fst (CONFIG_SCHEMA ! i)"
    using baseline_keys schema_keys i len by (metis nth_map)
  then have "fst (CONFIG_SCHEMA ! i) = k" using i by simp
  then have mem: "(k, snd (CONFIG_SCHEMA ! i)) \<in> set CONFIG_SCHEMA"
    using i len by (metis nth_mem prod.collapse)
  from mem distinct_schema have "map_of CONFIG_SCHEMA k = Some (snd (CONFIG_SCHEMA ! i))" by simp
  moreover have "validate_entry k v (snd (CONFIG_SCHEMA ! i)) = Inr ()"
    using list_all2_nthD [OF baseline_entries_valid i(1)] i(2) by simp
  ultimately show ?thesis by (simp add: validate_petition_value_def)
qed

lemma flt_literals:
  "flt (round64 (3 / 10)) (round64 (67 / 100))"
  "flt (round64 (33 / 100)) (round64 (3 / 4))"
  "flt (round64 (2 / 5)) (round64 (4 / 5))"
  "flt (round64 (3 / 10)) (round64 (3 / 4))"
  "flt (round64 (3 / 5)) (round64 (4 / 5))"
  by code_simp+

text \<open>
  Lookup rules for the two tables, one rewrite rule per key, derived from the distinctness of the
  keys so that no proof walks a table.
\<close>

definition baseline_has :: "string \<Rightarrow> pyval \<Rightarrow> bool" where
  "baseline_has k v \<longleftrightarrow> dict_get BASELINE_CONFIG k = Some v"

definition schema_has :: "string \<Rightarrow> schema_entry \<Rightarrow> bool" where
  "schema_has k s \<longleftrightarrow> map_of CONFIG_SCHEMA k = Some s"

lemma baseline_lookup_all: "list_all (\<lambda>b. baseline_has (fst b) (snd b)) BASELINE_CONFIG"
  using distinct_keys baseline_keys
  by (auto simp: list_all_iff baseline_has_def dict_get_Some_iff)

lemma schema_lookup_all: "list_all (\<lambda>b. schema_has (fst b) (snd b)) CONFIG_SCHEMA"
  using distinct_schema by (auto simp: list_all_iff schema_has_def)

lemmas baseline_has = baseline_lookup_all
  [unfolded BASELINE_CONFIG_def list.pred_inject fst_conv snd_conv]

lemmas schema_has = schema_lookup_all
  [unfolded CONFIG_SCHEMA_def list.pred_inject fst_conv snd_conv]

lemmas baseline_lookup = baseline_has [unfolded baseline_has_def]

lemmas schema_lookup = schema_has [unfolded schema_has_def]

lemma baseline_cross_field: "validate_cross_field_invariants BASELINE_CONFIG = Inr ()"
  by (simp add: validate_cross_field_invariants_def CROSS_FIELD_INVARIANTS_def check_invariant_def
      baseline_lookup py_lt_def flt_literals)

lemma bool_entry_plain:
  "map_of CONFIG_SCHEMA k = Some s \<Longrightarrow> s_type s = TBool \<Longrightarrow> s = plain_entry TBool"
  using bool_entries_plain by (auto simp: list_all_iff dest!: map_of_SomeD)

subsection \<open>What a validated value satisfies\<close>

lemma validate_TFloat_range:
  assumes "map_of CONFIG_SCHEMA k = Some (range_entry TFloat lo hi)"
    and "validate_petition_value k v = Inr ()"
    and "num_of lo = Some l" and "num_of hi = Some h"
    and "num_of v = Some x" and "x \<noteq> NaN" and "l \<noteq> NaN" and "h \<noteq> NaN"
  shows "fle l x \<and> fle x h"
  using assms
  by (auto simp: validate_petition_value_def validate_entry_def check_min_def check_max_def py_lt_def
      res_simps not_flt split: if_splits)

lemma validate_TInt_range:
  assumes "map_of CONFIG_SCHEMA k = Some (range_entry TInt (VInt lo) (VInt hi))"
    and "validate_petition_value k v = Inr ()"
  shows "\<exists>n. v = VInt n \<and> lo \<le> n \<and> n \<le> hi"
  using assms
  by (auto simp: validate_petition_value_def validate_entry_def check_min_def check_max_def py_lt_def
      res_simps is_int_val_def split: if_splits pyval.splits)

lemma validate_TFloat_number:
  assumes "map_of CONFIG_SCHEMA k = Some (range_entry TFloat lo hi)"
    and "validate_petition_value k v = Inr ()"
  shows "(\<exists>n. v = VInt n) \<or> (\<exists>f. v = VFloat f)"
  using assms
  by (auto simp: validate_petition_value_def validate_entry_def is_number_val_def
      split: if_splits pyval.splits)

lemma py_lt_True_NaN: "py_lt a b = Inr True \<Longrightarrow> a \<noteq> VFloat NaN \<and> b \<noteq> VFloat NaN"
  by (auto simp: py_lt_def split: option.splits pyval.splits)

end
