(* ===== verification/Governance_DSL.thy ===== *)
theory Governance_DSL
  imports Config
begin

section \<open>The declarative petition executor\<close>

text \<open>
  Models \<open>services/infonet/governance/dsl_executor.py\<close>: the switch over the four payload types,
  each handler with its guards in the source's order, and the transaction around them: handlers
  update a candidate copy, the cross-field invariants are checked on the final candidate, and the
  candidate is returned only if nothing raised.
\<close>

record dsl_result =
  new_config :: config
  changed_keys :: "string list"

subsection \<open>Guards\<close>

definition ALLOWED_PAYLOAD_TYPES :: "string list" where
  "ALLOWED_PAYLOAD_TYPES =
    [''UPDATE_PARAM'', ''BATCH_UPDATE_PARAMS'', ''ENABLE_FEATURE'', ''DISABLE_FEATURE'']"

text \<open>Membership in a frozenset hashes the value first: lists and dictionaries raise TypeError.\<close>

definition check_payload_shape :: "pyval \<Rightarrow> string res" where
  "check_payload_shape p =
     (case p of
        VDict d \<Rightarrow>
          (let t = eget d ''type'' in
           if \<not> hashable t then Inl TypeError
           else (case t of
                   VStr s \<Rightarrow> if s \<in> set ALLOWED_PAYLOAD_TYPES then Inr s
                             else Inl (InvalidPetition UnknownPayloadType)
                 | _ \<Rightarrow> Inl (InvalidPetition UnknownPayloadType)))
      | _ \<Rightarrow> Inl (InvalidPetition PayloadNotObject))"

definition check_key_writeable :: "pyval \<Rightarrow> string res" where
  "check_key_writeable v =
     (case nonempty_str v of
        None \<Rightarrow> Inl (InvalidPetition KeyNotString)
      | Some k \<Rightarrow>
          if k \<in> set (map fst CONFIG_SCHEMA) then Inr k
          else if k \<in> set (map fst IMMUTABLE_PRINCIPLES) then Inl (InvalidPetition (KeyImmutable k))
          else Inl (InvalidPetition (KeyUnknown k)))"

subsection \<open>Handlers\<close>

definition apply_update_param :: "event \<Rightarrow> config \<Rightarrow> (config \<times> string list) res" where
  "apply_update_param p cand =
     (case (map_of p ''key'', map_of p ''value'') of
        (Some kv, Some v) \<Rightarrow>
          rbind (check_key_writeable kv) (\<lambda>k.
          rbind (validate_petition_value k v) (\<lambda>_.
          Inr (dict_set cand k v, [k])))
      | _ \<Rightarrow> Inl (InvalidPetition MissingKeyOrValue))"

text \<open>
  One entry of a batch; the state is the candidate, the keys seen and the keys changed. Keys are
  put into the \<open>seen\<close> set before they are checked, and the set test hashes them.
\<close>

definition batch_entry ::
  "pyval \<Rightarrow> config \<times> string list \<times> string list \<Rightarrow> (config \<times> string list \<times> string list) res" where
  "batch_entry u st =
     (case st of (cand, seen, changed) \<Rightarrow>
        (case u of
           VDict d \<Rightarrow>
             (case (map_of d ''key'', map_of d ''value'') of
                (Some kv, Some v) \<Rightarrow>
                  if \<not> hashable kv then Inl TypeError
                  else if \<exists>s \<in> set seen. kv = VStr s
                  then Inl (InvalidPetition (DuplicateKey (py_str kv)))
                  else rbind (check_key_writeable kv) (\<lambda>k.
                       rbind (validate_petition_value k v) (\<lambda>_.
                       Inr (dict_set cand k v, k # seen, changed @ [k])))
              | _ \<Rightarrow> Inl (InvalidPetition BadUpdateEntry))
         | _ \<Rightarrow> Inl (InvalidPetition BadUpdateEntry)))"

definition apply_batch_update :: "event \<Rightarrow> config \<Rightarrow> (config \<times> string list) res" where
  "apply_batch_update p cand =
     (case eget p ''updates'' of
        VList us \<Rightarrow>
          if us = [] then Inl (InvalidPetition EmptyUpdates)
          else rbind (foldR batch_entry us (cand, [], [])) (\<lambda>(cand', seen, changed).
               Inr (cand', changed))
      | _ \<Rightarrow> Inl (InvalidPetition EmptyUpdates))"

definition apply_feature_toggle :: "event \<Rightarrow> config \<Rightarrow> bool \<Rightarrow> (config \<times> string list) res" where
  "apply_feature_toggle p cand enable =
     (case nonempty_str (eget p ''feature'') of
        None \<Rightarrow> Inl (InvalidPetition FeatureMissing)
      | Some f \<Rightarrow>
          rbind (check_key_writeable (VStr f)) (\<lambda>k.
          case map_of CONFIG_SCHEMA k of
            None \<Rightarrow> Inl (InvalidPetition (FeatureNotBoolean k))
          | Some s \<Rightarrow>
              if s_type s \<noteq> TBool then Inl (InvalidPetition (FeatureNotBoolean k))
              else Inr (dict_set cand k (VBool enable), [k])))"

definition dispatch_payload :: "string \<Rightarrow> event \<Rightarrow> config \<Rightarrow> (config \<times> string list) res" where
  "dispatch_payload t d cfg =
     (if t = ''UPDATE_PARAM'' then apply_update_param d cfg
      else if t = ''BATCH_UPDATE_PARAMS'' then apply_batch_update d cfg
      else if t = ''ENABLE_FEATURE'' then apply_feature_toggle d cfg True
      else apply_feature_toggle d cfg False)"

definition apply_petition_payload :: "pyval \<Rightarrow> config \<Rightarrow> dsl_result res" where
  "apply_petition_payload p cfg =
     rbind (check_payload_shape p) (\<lambda>t.
     rbind (dispatch_payload t (case p of VDict d \<Rightarrow> d | _ \<Rightarrow> []) cfg) (\<lambda>(cand, changed).
     rbind (validate_cross_field_invariants cand) (\<lambda>_.
     Inr \<lparr>new_config = cand, changed_keys = changed\<rparr>)))"

subsection \<open>The abstract specification: the updates a payload asks for\<close>

definition apply_updates :: "config \<Rightarrow> (string \<times> pyval) list \<Rightarrow> config" where
  "apply_updates cfg us = fold (\<lambda>u c. dict_set c (fst u) (snd u)) us cfg"

definition entry_request :: "pyval \<Rightarrow> (string \<times> pyval) option" where
  "entry_request u =
     (case u of
        VDict d \<Rightarrow> (case (map_of d ''key'', map_of d ''value'') of
                      (Some (VStr k), Some v) \<Rightarrow> Some (k, v) | _ \<Rightarrow> None)
      | _ \<Rightarrow> None)"

definition requested_updates :: "pyval \<Rightarrow> (string \<times> pyval) list option" where
  "requested_updates p =
     (case p of
        VDict d \<Rightarrow>
          (case eget d ''type'' of
             VStr t \<Rightarrow>
               if t = ''UPDATE_PARAM'' then map_option (\<lambda>u. [u]) (entry_request p)
               else if t = ''BATCH_UPDATE_PARAMS'' then
                 (case eget d ''updates'' of VList us \<Rightarrow> those (map entry_request us) | _ \<Rightarrow> None)
               else if t = ''ENABLE_FEATURE'' then
                 (case eget d ''feature'' of VStr f \<Rightarrow> Some [(f, VBool True)] | _ \<Rightarrow> None)
               else if t = ''DISABLE_FEATURE'' then
                 (case eget d ''feature'' of VStr f \<Rightarrow> Some [(f, VBool False)] | _ \<Rightarrow> None)
               else None
           | _ \<Rightarrow> None)
      | _ \<Rightarrow> None)"

definition valid_update :: "string \<times> pyval \<Rightarrow> bool" where
  "valid_update u \<longleftrightarrow> validate_petition_value (fst u) (snd u) = Inr ()"

definition admissible_updates :: "(string \<times> pyval) list \<Rightarrow> bool" where
  "admissible_updates us \<longleftrightarrow>
     us \<noteq> [] \<and> distinct (map fst us) \<and> (\<forall>u \<in> set us. valid_update u)"

subsection \<open>The handlers implement it\<close>

lemma schema_key_nonempty: "k \<in> set (map fst CONFIG_SCHEMA) \<Longrightarrow> k \<noteq> []"
  by (auto simp: CONFIG_SCHEMA_def)

lemma valid_update_in_schema: "valid_update (k, v) \<Longrightarrow> k \<in> set (map fst CONFIG_SCHEMA)"
  by (auto simp: valid_update_def validate_petition_value_def dest!: map_of_SomeD split: option.splits)
     force

lemma check_key_Inr: "check_key_writeable v = Inr k \<longleftrightarrow> v = VStr k \<and> k \<in> set (map fst CONFIG_SCHEMA)"
proof (cases "nonempty_str v")
  case None
  then have "v \<noteq> VStr k \<or> k = []" by (auto simp: nonempty_str_def split: if_splits)
  with None show ?thesis using schema_key_nonempty [of k] by (auto simp: check_key_writeable_def)
next
  case (Some s)
  then show ?thesis by (auto simp: check_key_writeable_def chain_simps)
qed

lemma unit_Inr: "(x :: unit res) = Inr y \<longleftrightarrow> x = Inr ()"
  by simp

lemma apply_update_param_iff:
  "apply_update_param d cand = Inr (c, ks) \<longleftrightarrow>
     (\<exists>u. entry_request (VDict d) = Some u \<and> valid_update u \<and> c = apply_updates cand [u] \<and> ks = [fst u])"
proof
  assume "apply_update_param d cand = Inr (c, ks)"
  then obtain kv v k where "map_of d ''key'' = Some kv" "map_of d ''value'' = Some v"
    "check_key_writeable kv = Inr k" "validate_petition_value k v = Inr ()"
    "c = dict_set cand k v" "ks = [k]"
    by (auto simp: apply_update_param_def res_simps split: option.splits)
  then show "\<exists>u. entry_request (VDict d) = Some u \<and> valid_update u \<and> c = apply_updates cand [u] \<and> ks = [fst u]"
    by (intro exI [of _ "(k, v)"])
       (auto simp: entry_request_def check_key_Inr valid_update_def apply_updates_def)
next
  assume "\<exists>u. entry_request (VDict d) = Some u \<and> valid_update u \<and> c = apply_updates cand [u] \<and> ks = [fst u]"
  then obtain k v where kv: "map_of d ''key'' = Some (VStr k)" "map_of d ''value'' = Some v"
    "valid_update (k, v)" "c = dict_set cand k v" "ks = [k]"
    by (auto simp: entry_request_def apply_updates_def split: option.splits pyval.splits)
  have "check_key_writeable (VStr k) = Inr k"
    using valid_update_in_schema [OF kv(3)] by (simp only: check_key_Inr simp_thms)
  with kv show "apply_update_param d cand = Inr (c, ks)"
    by (simp add: apply_update_param_def valid_update_def)
qed

lemma batch_entry_iff:
  "batch_entry u (cand, seen, changed) = Inr st \<longleftrightarrow>
     (\<exists>k v. entry_request u = Some (k, v) \<and> k \<notin> set seen \<and> valid_update (k, v) \<and>
        st = (dict_set cand k v, k # seen, changed @ [k]))"
proof
  assume "batch_entry u (cand, seen, changed) = Inr st"
  then obtain d kv v k where "u = VDict d" "map_of d ''key'' = Some kv" "map_of d ''value'' = Some v"
    "\<not> (\<exists>s \<in> set seen. kv = VStr s)" "check_key_writeable kv = Inr k"
    "validate_petition_value k v = Inr ()" "st = (dict_set cand k v, k # seen, changed @ [k])"
    by (auto simp: batch_entry_def res_simps split: option.splits pyval.splits if_splits)
  then show "\<exists>k v. entry_request u = Some (k, v) \<and> k \<notin> set seen \<and> valid_update (k, v) \<and>
        st = (dict_set cand k v, k # seen, changed @ [k])"
    by (intro exI [of _ k] exI [of _ v]) (auto simp: entry_request_def check_key_Inr valid_update_def)
next
  assume "\<exists>k v. entry_request u = Some (k, v) \<and> k \<notin> set seen \<and> valid_update (k, v) \<and>
        st = (dict_set cand k v, k # seen, changed @ [k])"
  then obtain d k v where kv: "u = VDict d" "map_of d ''key'' = Some (VStr k)"
    "map_of d ''value'' = Some v" "k \<notin> set seen" "valid_update (k, v)"
    "st = (dict_set cand k v, k # seen, changed @ [k])"
    by (auto simp: entry_request_def split: option.splits pyval.splits)
  have "check_key_writeable (VStr k) = Inr k"
    using valid_update_in_schema [OF kv(5)] by (simp only: check_key_Inr simp_thms)
  with kv show "batch_entry u (cand, seen, changed) = Inr st"
    by (simp add: batch_entry_def valid_update_def hashable_def)
qed

lemma batch_loop_iff:
  "foldR batch_entry us (cand, seen, changed) = Inr (cand', seen', changed') \<longleftrightarrow>
     (\<exists>rs. those (map entry_request us) = Some rs \<and> (\<forall>r \<in> set rs. valid_update r) \<and>
        distinct (map fst rs) \<and> set (map fst rs) \<inter> set seen = {} \<and>
        cand' = apply_updates cand rs \<and> seen' = rev (map fst rs) @ seen \<and>
        changed' = changed @ map fst rs)"
proof (induction us arbitrary: cand seen changed)
  case Nil
  then show ?case by (auto simp: apply_updates_def)
next
  case (Cons u us)
  show ?case
    by (auto simp: res_simps batch_entry_iff Cons.IH apply_updates_def split: option.splits prod.splits)
qed

lemma apply_batch_update_iff:
  "apply_batch_update d cand = Inr (c, ks) \<longleftrightarrow>
     (\<exists>us rs. eget d ''updates'' = VList us \<and> us \<noteq> [] \<and> those (map entry_request us) = Some rs \<and>
        (\<forall>r \<in> set rs. valid_update r) \<and> distinct (map fst rs) \<and>
        c = apply_updates cand rs \<and> ks = map fst rs)"
  by (cases "eget d ''updates''")
     (auto simp: apply_batch_update_def res_simps batch_loop_iff split: prod.splits)

lemma apply_feature_toggle_iff:
  "apply_feature_toggle d cand b = Inr (c, ks) \<longleftrightarrow>
     (\<exists>f. eget d ''feature'' = VStr f \<and> valid_update (f, VBool b) \<and>
        c = apply_updates cand [(f, VBool b)] \<and> ks = [f])"
proof -
  have valid: "valid_update (f, VBool b) \<longleftrightarrow> (\<exists>s. map_of CONFIG_SCHEMA f = Some s \<and> s_type s = TBool)" for f
  proof (cases "map_of CONFIG_SCHEMA f")
    case None
    then show ?thesis by (simp add: valid_update_def validate_petition_value_def)
  next
    case (Some s)
    then show ?thesis
      using bool_entry_plain [OF Some]
      by (cases "s_type s")
         (auto simp: valid_update_def validate_petition_value_def validate_entry_def is_int_val_def
           is_number_val_def check_min_def check_max_def check_enum_def)
  qed
  show ?thesis
  proof (cases "nonempty_str (eget d ''feature'')")
    case None
    then have "\<And>f. eget d ''feature'' = VStr f \<Longrightarrow> f = []"
      by (auto simp: nonempty_str_def split: if_splits)
    moreover have "\<not> valid_update ([], VBool b)"
      using valid_update_in_schema [of "[]"] schema_key_nonempty by blast
    ultimately show ?thesis using None by (auto simp: apply_feature_toggle_def)
  next
    case (Some f)
    then have f: "eget d ''feature'' = VStr f" by (simp add: chain_simps)
    show ?thesis
      unfolding apply_feature_toggle_def Some
      by (auto simp: res_simps check_key_Inr valid f apply_updates_def
          split: option.splits if_splits dest!: map_of_SomeD) (force dest: weak_map_of_SomeI)+
  qed
qed

lemma those_length: "those xs = Some ys \<Longrightarrow> length ys = length xs"
  by (induction xs arbitrary: ys) (auto split: option.splits)

lemma dispatch_payload_iff:
  assumes t: "eget d ''type'' = VStr t" and mem: "t \<in> set ALLOWED_PAYLOAD_TYPES"
  shows "dispatch_payload t d cfg = Inr (c, ks) \<longleftrightarrow>
     (\<exists>us. requested_updates (VDict d) = Some us \<and> admissible_updates us \<and>
        c = apply_updates cfg us \<and> ks = map fst us)"
proof -
  from mem consider "t = ''UPDATE_PARAM''" | "t = ''BATCH_UPDATE_PARAMS''" | "t = ''ENABLE_FEATURE''"
    | "t = ''DISABLE_FEATURE''"
    by (simp only: ALLOWED_PAYLOAD_TYPES_def list.set insert_iff empty_iff) blast
  then show ?thesis
  proof cases
    case 1
    then have "requested_updates (VDict d) = map_option (\<lambda>u. [u]) (entry_request (VDict d))"
      using t by (simp add: requested_updates_def)
    moreover have "dispatch_payload t d cfg = apply_update_param d cfg"
      using 1 by (simp add: dispatch_payload_def)
    ultimately show ?thesis by (auto simp: apply_update_param_iff admissible_updates_def)
  next
    case 2
    then have "requested_updates (VDict d) =
        (case eget d ''updates'' of VList us \<Rightarrow> those (map entry_request us) | _ \<Rightarrow> None)"
      using t by (simp add: requested_updates_def)
    moreover have "dispatch_payload t d cfg = apply_batch_update d cfg"
      using 2 by (simp add: dispatch_payload_def)
    moreover have "us \<noteq> [] \<longleftrightarrow> rs \<noteq> []" if "those (map entry_request us) = Some rs" for us rs
      using those_length [OF that] by auto
    ultimately show ?thesis
      by (cases "eget d ''updates''") (auto simp: apply_batch_update_iff admissible_updates_def)
  next
    case 3
    then have "requested_updates (VDict d) =
        (case eget d ''feature'' of VStr f \<Rightarrow> Some [(f, VBool True)] | _ \<Rightarrow> None)"
      using t by (simp add: requested_updates_def)
    moreover have "dispatch_payload t d cfg = apply_feature_toggle d cfg True"
      using 3 by (simp add: dispatch_payload_def)
    ultimately show ?thesis
      by (cases "eget d ''feature''") (auto simp: apply_feature_toggle_iff admissible_updates_def)
  next
    case 4
    then have "requested_updates (VDict d) =
        (case eget d ''feature'' of VStr f \<Rightarrow> Some [(f, VBool False)] | _ \<Rightarrow> None)"
      using t by (simp add: requested_updates_def)
    moreover have "dispatch_payload t d cfg = apply_feature_toggle d cfg False"
      using 4 by (simp add: dispatch_payload_def)
    ultimately show ?thesis
      by (cases "eget d ''feature''") (auto simp: apply_feature_toggle_iff admissible_updates_def)
  qed
qed

lemma apply_petition_payload_iff:
  "apply_petition_payload p cfg = Inr r \<longleftrightarrow>
     (\<exists>us. requested_updates p = Some us \<and> admissible_updates us \<and>
        validate_cross_field_invariants (apply_updates cfg us) = Inr () \<and>
        r = \<lparr>new_config = apply_updates cfg us, changed_keys = map fst us\<rparr>)"
proof (cases "\<exists>d t. p = VDict d \<and> eget d ''type'' = VStr t \<and> t \<in> set ALLOWED_PAYLOAD_TYPES")
  case False
  then have "check_payload_shape p \<noteq> Inr t" for t
    by (auto simp: check_payload_shape_def Let_def split: pyval.splits if_splits)
  then have "apply_petition_payload p cfg \<noteq> Inr r"
    by (auto simp: apply_petition_payload_def res_simps)
  moreover have "requested_updates p = None"
    using False by (auto simp: requested_updates_def ALLOWED_PAYLOAD_TYPES_def split: pyval.splits)
  ultimately show ?thesis by simp
next
  case True
  then obtain d t where p: "p = VDict d" and t: "eget d ''type'' = VStr t"
    and mem: "t \<in> set ALLOWED_PAYLOAD_TYPES" by blast
  have "check_payload_shape p = Inr t"
    using mem by (simp add: p t check_payload_shape_def hashable_def)
  then have "apply_petition_payload p cfg = Inr r \<longleftrightarrow>
      (\<exists>c ks. dispatch_payload t d cfg = Inr (c, ks) \<and> validate_cross_field_invariants c = Inr () \<and>
         r = \<lparr>new_config = c, changed_keys = ks\<rparr>)"
    by (auto simp: apply_petition_payload_def p res_simps)
  then show ?thesis unfolding dispatch_payload_iff [OF t mem] p by blast
qed

subsection \<open>The invariant of the governed configuration\<close>

definition config_ok :: "config \<Rightarrow> bool" where
  "config_ok cfg \<longleftrightarrow>
     distinct (map fst cfg) \<and> set (map fst cfg) = set CONFIG_KEYS \<and>
     (\<forall>k v. dict_get cfg k = Some v \<longrightarrow> validate_petition_value k v = Inr ()) \<and>
     validate_cross_field_invariants cfg = Inr ()"

definition config_step :: "config \<Rightarrow> config \<Rightarrow> bool" where
  "config_step cfg cfg' \<longleftrightarrow> (\<exists>p r. apply_petition_payload p cfg = Inr r \<and> new_config r = cfg')"

lemma dict_get_apply_updates_other:
  "k \<notin> set (map fst us) \<Longrightarrow> dict_get (apply_updates cfg us) k = dict_get cfg k"
  by (induction us arbitrary: cfg) (auto simp: apply_updates_def)

lemma dict_get_apply_updates:
  "distinct (map fst us) \<Longrightarrow> dict_get (apply_updates cfg us) k =
     (case map_of us k of Some v \<Rightarrow> Some v | None \<Rightarrow> dict_get cfg k)"
proof (induction us arbitrary: cfg)
  case Nil
  then show ?case by (simp add: apply_updates_def)
next
  case (Cons u us)
  have "apply_updates cfg (u # us) = apply_updates (dict_set cfg (fst u) (snd u)) us"
    by (simp add: apply_updates_def)
  moreover have "map_of us (fst u) = None" using Cons.prems by (simp add: map_of_eq_None_iff)
  ultimately show ?case using Cons by (cases u) (auto split: option.splits)
qed

lemma apply_updates_keys:
  "set (map fst (apply_updates cfg us)) = set (map fst us) \<union> set (map fst cfg)"
  "distinct (map fst cfg) \<Longrightarrow> distinct (map fst (apply_updates cfg us))"
proof -
  have step: "apply_updates cfg (u # us) = apply_updates (dict_set cfg (fst u) (snd u)) us" for u us cfg
    by (simp add: apply_updates_def)
  show "set (map fst (apply_updates cfg us)) = set (map fst us) \<union> set (map fst cfg)"
  proof (induction us arbitrary: cfg)
    case Nil
    then show ?case by (simp add: apply_updates_def)
  next
    case (Cons u us)
    then show ?case unfolding step by (simp only: dict_keys_set Cons) auto
  qed
  show "distinct (map fst cfg) \<Longrightarrow> distinct (map fst (apply_updates cfg us))"
  proof (induction us arbitrary: cfg)
    case Nil
    then show ?case by (simp add: apply_updates_def)
  next
    case (Cons u us)
    then show ?case unfolding step by (blast intro: dict_distinct_set)
  qed
qed

lemma config_ok_baseline: "config_ok BASELINE_CONFIG"
  unfolding config_ok_def
  using baseline_value_valid baseline_cross_field by (auto simp: baseline_keys distinct_keys)

lemma config_ok_step: "config_ok cfg \<Longrightarrow> config_step cfg cfg' \<Longrightarrow> config_ok cfg'"
proof -
  assume ok: "config_ok cfg" and "config_step cfg cfg'"
  then obtain us where adm: "admissible_updates us" and cfg': "cfg' = apply_updates cfg us"
    and cross: "validate_cross_field_invariants cfg' = Inr ()"
    by (auto simp: config_step_def apply_petition_payload_iff)
  have keys: "set (map fst us) \<subseteq> set CONFIG_KEYS"
    using adm valid_update_in_schema schema_keys by (auto simp: admissible_updates_def)
  have "validate_petition_value k v = Inr ()" if "dict_get cfg' k = Some v" for k v
    using that ok adm
    by (auto simp: cfg' dict_get_apply_updates admissible_updates_def config_ok_def valid_update_def
        split: option.splits dest!: map_of_SomeD)
  then show ?thesis
    using ok cross keys apply_updates_keys [of cfg us] unfolding config_ok_def cfg' by auto
qed

interpretation governed: invariant_machine "\<lambda>c. c = BASELINE_CONFIG" config_step config_ok
  by unfold_locales (auto simp: config_ok_baseline intro: config_ok_step)

text \<open>Evaluation of a payload through its specification.\<close>

lemma apply_payloadI:
  assumes "requested_updates p = Some us" and "admissible_updates us"
    and "validate_cross_field_invariants (apply_updates cfg us) = Inr ()"
  shows "apply_petition_payload p cfg = Inr \<lparr>new_config = apply_updates cfg us, changed_keys = map fst us\<rparr>"
  using assms by (auto simp: apply_petition_payload_iff)

definition update_payload :: "string \<Rightarrow> pyval \<Rightarrow> pyval" where
  "update_payload k v = VDict [(''type'', VStr ''UPDATE_PARAM''), (''key'', VStr k), (''value'', v)]"

lemma requested_update_payload: "requested_updates (update_payload k v) = Some [(k, v)]"
  by (simp add: update_payload_def requested_updates_def entry_request_def eget_def)

subsection \<open>Which exceptions escape\<close>

definition unhashable_name :: "pyval \<Rightarrow> bool" where
  "unhashable_name p \<longleftrightarrow>
     (case p of
        VDict d \<Rightarrow> \<not> hashable (eget d ''type'') \<or>
          (case eget d ''updates'' of
             VList us \<Rightarrow> list_ex (\<lambda>u. case u of VDict e \<Rightarrow> \<not> hashable (eget e ''key'') | _ \<Rightarrow> False) us
           | _ \<Rightarrow> False)
      | _ \<Rightarrow> False)"

definition invalid_petition :: "pyexc \<Rightarrow> bool" where
  "invalid_petition e \<longleftrightarrow> (case e of InvalidPetition _ \<Rightarrow> True | _ \<Rightarrow> False)"

lemma invalid_petition_simps [simp]:
  "invalid_petition (InvalidPetition f)" "\<not> invalid_petition TypeError" "\<not> invalid_petition KeyError"
  by (simp_all add: invalid_petition_def)

definition numeric_bound :: "pyval option \<Rightarrow> bool" where
  "numeric_bound b \<longleftrightarrow> (case b of None \<Rightarrow> True | Some v \<Rightarrow> num_of v \<noteq> None)"

lemma schema_bounds_numeric:
  "list_all (\<lambda>s. (s_type (snd s) \<in> {TInt, TFloat} \<or> s_min (snd s) = None \<and> s_max (snd s) = None) \<and>
     numeric_bound (s_min (snd s)) \<and> numeric_bound (s_max (snd s))) CONFIG_SCHEMA"
  by (simp add: CONFIG_SCHEMA_def numeric_bound_def)

lemma type_matches_num: "type_matches t v \<Longrightarrow> t \<in> {TInt, TFloat} \<Longrightarrow> num_of v \<noteq> None"
  by (cases v) (auto simp: is_int_val_def is_number_val_def)

lemma py_lt_num: "num_of a \<noteq> None \<Longrightarrow> num_of b \<noteq> None \<Longrightarrow> \<exists>r. py_lt a b = Inr r"
  by (auto simp: py_lt_def)

lemma validate_petition_value_raises:
  assumes "validate_petition_value k v = Inl e"
  shows "invalid_petition e"
proof (cases "map_of CONFIG_SCHEMA k")
  case None
  with assms show ?thesis by (auto simp: validate_petition_value_def)
next
  case (Some s)
  then have "(k, s) \<in> set CONFIG_SCHEMA" by (rule map_of_SomeD)
  with schema_bounds_numeric have s: "s_type s \<in> {TInt, TFloat} \<or> s_min s = None \<and> s_max s = None"
    "numeric_bound (s_min s)" "numeric_bound (s_max s)"
    by (auto simp: list_all_iff)
  have lt: "py_lt v m \<noteq> Inl e' \<and> py_lt m v \<noteq> Inl e'"
    if "type_matches (s_type s) v" "s_min s = Some m \<or> s_max s = Some m" for m e'
  proof -
    from s that have "num_of v \<noteq> None" "num_of m \<noteq> None"
      using type_matches_num by (auto simp: numeric_bound_def split: option.splits)
    then show ?thesis using py_lt_num [of v m] py_lt_num [of m v] by auto
  qed
  from assms Some lt show ?thesis
    by (auto simp: validate_petition_value_def validate_entry_def check_min_def check_max_def
        check_enum_def res_simps split: if_splits option.splits)
qed

lemma check_key_raises: "check_key_writeable v = Inl e \<Longrightarrow> invalid_petition e"
  by (auto simp: check_key_writeable_def split: option.splits if_splits)

lemma batch_loop_raises:
  "foldR batch_entry us st = Inl e \<Longrightarrow> invalid_petition e \<or>
     e = TypeError \<and> list_ex (\<lambda>u. case u of VDict d \<Rightarrow> \<not> hashable (eget d ''key'') | _ \<Rightarrow> False) us"
proof (induction us arbitrary: st)
  case Nil
  then show ?case by simp
next
  case (Cons u us)
  obtain cand seen changed where st: "st = (cand, seen, changed)" by (cases st)
  from Cons.prems consider "batch_entry u st = Inl e" | st' where "foldR batch_entry us st' = Inl e"
    by (auto simp: res_simps)
  then show ?case
  proof cases
    case 1
    then show ?thesis
      by (auto simp: batch_entry_def st res_simps eget_def
          split: pyval.splits option.splits if_splits
          dest: check_key_raises validate_petition_value_raises)
  next
    case 2
    from Cons.IH [OF this] show ?thesis by auto
  qed
qed

lemma feature_toggle_raises: "apply_feature_toggle d cand b = Inl e \<Longrightarrow> invalid_petition e"
  by (auto simp: apply_feature_toggle_def res_simps
      split: option.splits if_splits dest: check_key_raises)

lemma dispatch_payload_raises:
  "dispatch_payload t d cfg = Inl e \<Longrightarrow>
     invalid_petition e \<or> e = TypeError \<and> unhashable_name (VDict d)"
proof -
  assume "dispatch_payload t d cfg = Inl e"
  then consider "apply_update_param d cfg = Inl e" | "apply_batch_update d cfg = Inl e"
    | b where "apply_feature_toggle d cfg b = Inl e"
    by (auto simp: dispatch_payload_def split: if_splits)
  then show ?thesis
  proof cases
    case 1
    then show ?thesis
      by (auto simp: apply_update_param_def res_simps split: option.splits
          dest: check_key_raises validate_petition_value_raises)
  next
    case 2
    then show ?thesis
      by (cases "eget d ''updates''")
         (auto simp: apply_batch_update_def res_simps unhashable_name_def
           split: if_splits prod.splits dest: batch_loop_raises)
  next
    case 3
    then show ?thesis by (auto dest: feature_toggle_raises)
  qed
qed

text \<open>Every invariant compares two numeric parameters of the schema with the one operator.\<close>

definition numeric_key :: "string \<Rightarrow> bool" where
  "numeric_key k \<longleftrightarrow>
     (case map_of CONFIG_SCHEMA k of None \<Rightarrow> False | Some s \<Rightarrow> s_type s \<in> {TInt, TFloat})"

lemma invariants_numeric:
  "list_all (\<lambda>i. numeric_key (fst i) \<and> fst (snd i) = ''>'' \<and> numeric_key (snd (snd i)))
     CROSS_FIELD_INVARIANTS"
  by (simp add: CROSS_FIELD_INVARIANTS_def numeric_key_def schema_lookup)

lemma valid_numeric_value:
  "numeric_key k \<Longrightarrow> validate_petition_value k v = Inr () \<Longrightarrow> num_of v \<noteq> None"
  using type_matches_num
  by (auto simp: numeric_key_def validate_petition_value_def validate_entry_def
      split: option.splits if_splits)

lemma check_invariant_raises:
  assumes "i \<in> set CROSS_FIELD_INVARIANTS" and "check_invariant cfg i = Inl e"
    and valid: "\<And>k v. dict_get cfg k = Some v \<Longrightarrow> validate_petition_value k v = Inr ()"
  shows "invalid_petition e"
proof -
  obtain l oper r where i: "i = (l, oper, r)" by (cases i)
  with assms(1) invariants_numeric have num: "numeric_key l" "oper = ''>''" "numeric_key r"
    by (auto simp: list_all_iff)
  show ?thesis
  proof (cases "dict_get cfg l = None \<or> dict_get cfg r = None")
    case True
    with assms(2) i show ?thesis
      by (auto simp: check_invariant_def split: option.splits)
  next
    case False
    then obtain a b where ab: "dict_get cfg l = Some a" "dict_get cfg r = Some b" by auto
    then obtain x where "py_lt b a = Inr x"
      using valid_numeric_value num valid py_lt_num by metis
    with assms(2) i ab num show ?thesis
      by (auto simp: check_invariant_def split: if_splits)
  qed
qed

lemma foldR_raises: "foldR f xs s = Inl e \<Longrightarrow> \<exists>x \<in> set xs. \<exists>s. f x s = Inl e"
  by (induction xs arbitrary: s) (auto simp: res_simps)

lemma updated_values_valid:
  assumes "config_ok cfg" and "admissible_updates us" and "dict_get (apply_updates cfg us) k = Some v"
  shows "validate_petition_value k v = Inr ()"
  using assms
  by (auto simp: dict_get_apply_updates admissible_updates_def config_ok_def valid_update_def
      split: option.splits dest!: map_of_SomeD)

lemma executor_raises:
  assumes "config_ok cfg" and "apply_petition_payload p cfg = Inl e"
  shows "invalid_petition e \<or> e = TypeError \<and> unhashable_name p"
proof -
  from assms(2) consider "check_payload_shape p = Inl e"
    | t d where "p = VDict d" "eget d ''type'' = VStr t" "t \<in> set ALLOWED_PAYLOAD_TYPES"
        "dispatch_payload t d cfg = Inl e"
    | t d c ks where "p = VDict d" "eget d ''type'' = VStr t" "t \<in> set ALLOWED_PAYLOAD_TYPES"
        "dispatch_payload t d cfg = Inr (c, ks)" "validate_cross_field_invariants c = Inl e"
    by (auto simp: apply_petition_payload_def check_payload_shape_def Let_def res_simps
        split: pyval.splits if_splits)
  then show ?thesis
  proof cases
    case 1
    then show ?thesis
      by (auto simp: check_payload_shape_def Let_def unhashable_name_def split: pyval.splits if_splits)
  next
    case 2
    then show ?thesis using dispatch_payload_raises by blast
  next
    case 3
    then obtain us where us: "admissible_updates us" "c = apply_updates cfg us"
      using dispatch_payload_iff by blast
    from 3(5) obtain i where "i \<in> set CROSS_FIELD_INVARIANTS" "check_invariant c i = Inl e"
      unfolding validate_cross_field_invariants_def by (blast dest: foldR_raises)
    then have "invalid_petition e"
      by (rule check_invariant_raises) (use updated_values_valid assms(1) us in blast)
    then show ?thesis ..
  qed
qed

subsection \<open>Properties\<close>

text \<open>
  C1: The executor implements its specification exactly. It returns a result if and only if the
  payload is one of the four typed variants, the updates it asks for are non-empty, on pairwise
  distinct keys, each passing the schema, and the configuration with all of them applied satisfies
  every cross-field invariant; the result is then that configuration with the keys in order.
  In every other case it raises and returns no configuration.
\<close>

theorem petition_executor_refines_spec:
  "apply_petition_payload p cfg = Inr r \<longleftrightarrow>
     (\<exists>us. requested_updates p = Some us \<and> admissible_updates us \<and>
        validate_cross_field_invariants (apply_updates cfg us) = Inr () \<and>
        r = \<lparr>new_config = apply_updates cfg us, changed_keys = map fst us\<rparr>)"
  by (rule apply_petition_payload_iff)

text \<open>
  C2: Every configuration governance can reach from the baseline is valid: it has exactly the keys
  of the schema, every value passes the schema and every cross-field invariant holds.
\<close>

theorem governed_config_valid: "config_step\<^sup>*\<^sup>* BASELINE_CONFIG cfg \<Longrightarrow> config_ok cfg"
  by (rule governed.run_good) simp_all

lemma decay_petition_step:
  "config_step BASELINE_CONFIG (apply_updates BASELINE_CONFIG [(''vote_decay_days'', VInt 30)])"
proof -
  have "admissible_updates [(''vote_decay_days'', VInt 30)]"
    by (simp add: admissible_updates_def valid_update_def validate_petition_value_def schema_lookup
        validate_entry_def check_min_def check_max_def check_enum_def py_lt_def is_int_val_def)
  moreover have "validate_cross_field_invariants
      (apply_updates BASELINE_CONFIG [(''vote_decay_days'', VInt 30)]) = Inr ()"
    by (simp add: validate_cross_field_invariants_def CROSS_FIELD_INVARIANTS_def check_invariant_def
        apply_updates_def dict_get_set baseline_lookup py_lt_def flt_literals)
  ultimately show ?thesis
    unfolding config_step_def
    using apply_payloadI [OF requested_update_payload] by (metis dsl_result.select_convs(1))
qed

theorem governed_config_valid_witness:
  "config_ok (apply_updates BASELINE_CONFIG [(''vote_decay_days'', VInt 30)])"
  by (rule governed_config_valid, rule r_into_rtranclp, rule decay_petition_step)

text \<open>
  A petition changes only the keys it lists, and those are keys of the schema: no other
  parameter and no constitutional principle is ever written.
\<close>

theorem petition_changes_only_listed:
  assumes "apply_petition_payload p cfg = Inr r"
    and "dict_get (new_config r) k \<noteq> dict_get cfg k"
  shows "k \<in> set (changed_keys r) \<and> k \<in> set CONFIG_KEYS \<and> k \<notin> set (map fst IMMUTABLE_PRINCIPLES)"
proof -
  from assms(1) obtain us where us: "admissible_updates us" "new_config r = apply_updates cfg us"
    "changed_keys r = map fst us" by (auto simp: apply_petition_payload_iff)
  with assms(2) have k: "k \<in> set (map fst us)"
    using dict_get_apply_updates_other [of k us cfg] by auto
  then obtain v where "(k, v) \<in> set us" by auto
  with us(1) have "valid_update (k, v)" by (auto simp: admissible_updates_def)
  then have "k \<in> set CONFIG_KEYS" using valid_update_in_schema schema_keys by simp
  moreover have "list_all (\<lambda>k. k \<notin> set (map fst IMMUTABLE_PRINCIPLES)) CONFIG_KEYS"
    by (simp add: CONFIG_KEYS_def IMMUTABLE_PRINCIPLES_def)
  ultimately show ?thesis using k us(3) by (auto simp: list_all_iff)
qed

theorem petition_changes_only_listed_witness:
  "''vote_decay_days'' \<in> set [''vote_decay_days''] \<and> ''vote_decay_days'' \<in> set CONFIG_KEYS \<and>
   ''vote_decay_days'' \<notin> set (map fst IMMUTABLE_PRINCIPLES)"
proof -
  let ?us = "[(''vote_decay_days'', VInt 30)]"
  from decay_petition_step obtain p r where r: "apply_petition_payload p BASELINE_CONFIG = Inr r"
    "new_config r = apply_updates BASELINE_CONFIG ?us" by (auto simp: config_step_def)
  have "dict_get (new_config r) ''vote_decay_days'' \<noteq> dict_get BASELINE_CONFIG ''vote_decay_days''"
    by (simp add: r(2) apply_updates_def baseline_lookup)
  from petition_changes_only_listed [OF r(1) this] show ?thesis by simp
qed

text \<open>
  Starting from a valid configuration the executor raises nothing but \<open>InvalidPetition\<close>, with
  one exception: a payload that puts a list or a dictionary where a type name or a key name
  belongs escapes with \<open>TypeError\<close>, because the value is hashed for a set test before its type
  is checked.
\<close>

theorem petition_executor_raises:
  assumes "config_ok cfg" and "apply_petition_payload p cfg = Inl e"
  shows "invalid_petition e \<or> e = TypeError \<and> unhashable_name p"
  using assms by (rule executor_raises)

theorem petition_executor_raises_witness:
  "invalid_petition TypeError \<or> TypeError = TypeError \<and> unhashable_name (VDict [(''type'', VList [])])"
  by (rule petition_executor_raises [OF config_ok_baseline])
     (simp add: apply_petition_payload_def check_payload_shape_def eget_def hashable_def)

text \<open>
  The schema does not keep NaN out. NaN is neither below a minimum nor above a maximum, so a
  petition that sets the resolution burn percentage to NaN is accepted on the baseline and the
  resulting configuration holds NaN where the schema promises a number between 0 and 0.10.
\<close>

theorem nan_passes_schema_bounds:
  "\<exists>r. apply_petition_payload (update_payload ''resolution_loser_burn_pct'' (VFloat NaN)) BASELINE_CONFIG
        = Inr r \<and> dict_get (new_config r) ''resolution_loser_burn_pct'' = Some (VFloat NaN)"
proof -
  let ?us = "[(''resolution_loser_burn_pct'', VFloat NaN)]"
  have "admissible_updates ?us"
    by (simp add: admissible_updates_def valid_update_def validate_petition_value_def schema_lookup
        validate_entry_def check_min_def check_max_def check_enum_def py_lt_def is_number_val_def)
  moreover have "validate_cross_field_invariants (apply_updates BASELINE_CONFIG ?us) = Inr ()"
    by (simp add: validate_cross_field_invariants_def CROSS_FIELD_INVARIANTS_def check_invariant_def
        apply_updates_def dict_get_set baseline_lookup py_lt_def flt_literals)
  moreover have "dict_get (apply_updates BASELINE_CONFIG ?us) ''resolution_loser_burn_pct'' = Some (VFloat NaN)"
    by (simp add: apply_updates_def)
  ultimately show ?thesis
    using apply_payloadI [OF requested_update_payload] by fastforce
qed

end
