(* ===== verification/Time_Validity.thy ===== *)
theory Time_Validity
  imports Config
begin

section \<open>Chain time\<close>

text \<open>
  Models \<open>services/infonet/time_validity.py\<close>: the majority time of a chain (the median of the
  newest timestamps of distinct nodes), the drift gate and the phase window. The theorems bound
  the median by the honest timestamps and show that it does not depend on the order in which a
  node received the events.
\<close>

subsection \<open>The sample\<close>

text \<open>Events with a finite timestamp, with it; then newest first, stable.\<close>

fun stamped_events :: "event list \<Rightarrow> (pyfloat \<times> event) list" where
  "stamped_events [] = []"
| "stamped_events (e # es) =
     (case finite_float (eget e ''timestamp'') of
        None \<Rightarrow> stamped_events es
      | Some t \<Rightarrow> (t, e) # stamped_events es)"

text \<open>
  The loop over the sorted events: skip events without a node, skip nodes already seen, stop
  once \<open>n\<close> timestamps are collected. \<open>seen\<close> and \<open>acc\<close> are the loop's variables.
\<close>

fun sample_loop :: "int \<Rightarrow> (pyfloat \<times> event) list \<Rightarrow> string list \<Rightarrow> (string \<times> pyfloat) list \<Rightarrow>
    (string \<times> pyfloat) list" where
  "sample_loop n [] seen acc = acc"
| "sample_loop n ((t, e) # es) seen acc =
     (case nonempty_str (eget e ''node_id'') of
        None \<Rightarrow> sample_loop n es seen acc
      | Some node \<Rightarrow>
          if node \<in> set seen then sample_loop n es seen acc
          else (let acc' = acc @ [(node, t)]
                in if n \<le> int (length acc') then acc' else sample_loop n es (node # seen) acc'))"

definition majority_sample :: "int \<Rightarrow> chain \<Rightarrow> (string \<times> pyfloat) list" where
  "majority_sample n c = sample_loop n (sort_desc fst (stamped_events (dict_events c))) [] []"

text \<open>\<open>statistics.median\<close>: the middle element, or half the sum of the two middle ones.\<close>

definition median :: "pyfloat list \<Rightarrow> pyfloat" where
  "median xs =
     (let ys = sort xs; k = length ys div 2
      in if odd (length ys) then ys ! k
         else fmul (fadd (ys ! (k - 1)) (ys ! k)) (Fin (1/2)))"

definition DEFAULT_MEDIAN_N :: int where
  "DEFAULT_MEDIAN_N = 11"

definition chain_majority_time_n :: "int \<Rightarrow> chain \<Rightarrow> pyfloat res" where
  "chain_majority_time_n n c =
     (if n \<le> 0 then Inl ValueError
      else let ts = map snd (majority_sample n c)
           in if ts = [] then Inr (Fin 0) else Inr (median ts))"

definition chain_majority_time :: "chain \<Rightarrow> pyfloat" where
  "chain_majority_time c =
     (case chain_majority_time_n DEFAULT_MEDIAN_N c of Inl _ \<Rightarrow> Fin 0 | Inr t \<Rightarrow> t)"

definition is_event_too_future :: "config \<Rightarrow> event \<Rightarrow> chain option \<Rightarrow> pyfloat option \<Rightarrow> bool res" where
  "is_event_too_future cfg e c ct =
     rbind (case ct of Some t \<Rightarrow> Inr t
            | None \<Rightarrow> (case c of None \<Rightarrow> Inl ValueError
                        | Some c' \<Rightarrow> chain_majority_time_n DEFAULT_MEDIAN_N c')) (\<lambda>now.
     case finite_float (eget e ''timestamp'') of
       None \<Rightarrow> Inr True
     | Some ts \<Rightarrow> rbind (cfg_float cfg ''max_future_event_drift_sec'') (\<lambda>drift.
         Inr (flt (fadd now drift) ts)))"

definition event_meets_phase_window :: "pyfloat \<Rightarrow> pyfloat \<Rightarrow> pyfloat \<Rightarrow> bool res" where
  "event_meets_phase_window ts start win =
     (if flt win (Fin 0) then Inl ValueError
      else Inr (fle start ts \<and> fle ts (fadd start win)))"

subsection \<open>The sample is the newest timestamp per node\<close>

fun node_stamps :: "(pyfloat \<times> event) list \<Rightarrow> (string \<times> pyfloat) list" where
  "node_stamps [] = []"
| "node_stamps ((t, e) # es) =
     (case nonempty_str (eget e ''node_id'') of
        None \<Rightarrow> node_stamps es
      | Some node \<Rightarrow> (node, t) # node_stamps es)"

lemma sample_loop_eq:
  "int (length acc) < n \<Longrightarrow> sample_loop n es seen acc =
     acc @ take (nat n - length acc) (filter (\<lambda>p. fst p \<notin> set seen) (nub_fst (node_stamps es)))"
proof (induction es arbitrary: seen acc)
  case Nil
  then show ?case by simp
next
  case (Cons p es)
  obtain t e where p: "p = (t, e)" by (cases p)
  show ?case
  proof (cases "nonempty_str (eget e ''node_id'')")
    case None
    then show ?thesis using Cons p by simp
  next
    case (Some node)
    let ?rest = "nub_fst (node_stamps es)"
    show ?thesis
    proof (cases "node \<in> set seen")
      case True
      then have "filter (\<lambda>p. fst p \<notin> set seen) (filter (\<lambda>q. fst q \<noteq> node) ?rest)
          = filter (\<lambda>p. fst p \<notin> set seen) ?rest"
        by (auto simp: intro!: filter_cong)
      with Cons Some True p show ?thesis by simp
    next
      case False
      have flt: "filter (\<lambda>p. fst p \<notin> set seen) (filter (\<lambda>q. fst q \<noteq> node) ?rest)
          = filter (\<lambda>p. fst p \<notin> set (node # seen)) ?rest"
        by (auto intro!: filter_cong)
      show ?thesis
      proof (cases "n \<le> int (length (acc @ [(node, t)]))")
        case True
        with Cons.prems have "nat n - length acc = 1" by simp
        with Some False True p show ?thesis by simp
      next
        case more: False
        then have "nat n - length acc = Suc (nat n - length (acc @ [(node, t)]))"
          using Cons.prems by simp
        with Cons.IH [of "acc @ [(node, t)]" "node # seen"] more Some False p flt show ?thesis
          by simp
      qed
    qed
  qed
qed

lemma majority_sample_eq:
  "0 < n \<Longrightarrow> majority_sample n c =
     take (nat n) (nub_fst (node_stamps (sort_desc fst (stamped_events (dict_events c)))))"
  by (simp add: majority_sample_def sample_loop_eq)

lemma stamped_events_mset:
  "mset es = mset fs \<Longrightarrow> mset (stamped_events es) = mset (stamped_events fs)"
proof -
  have eq: "stamped_events es = map (\<lambda>e. (the (finite_float (eget e ''timestamp'')), e))
      (filter (\<lambda>e. finite_float (eget e ''timestamp'') \<noteq> None) es)" for es
    by (induction es) (auto split: option.splits)
  assume "mset es = mset fs"
  then show ?thesis by (simp add: eq)
qed

lemma set_node_stamps:
  "(node, t) \<in> set (node_stamps es) \<longleftrightarrow> (\<exists>e. (t, e) \<in> set es \<and> nonempty_str (eget e ''node_id'') = Some node)"
  by (induction es rule: node_stamps.induct) (auto split: option.splits)

lemma sorted_node_stamps:
  "sorted_wrt (\<lambda>p q. fst q \<le> fst p) es \<Longrightarrow> sorted_wrt (\<lambda>p q. snd q \<le> snd p) (node_stamps es)"
proof (induction es rule: node_stamps.induct)
  case 1
  then show ?case by simp
next
  case (2 t e es)
  then show ?case by (fastforce simp: set_node_stamps split: option.splits)
qed

lemma sorted_desc_pairs: "sorted_wrt (\<lambda>p q. fst q \<le> fst p) (sort_desc fst xs)"
  using sorted_sort_desc [of fst xs] by (simp add: sorted_wrt_rev sorted_wrt_map)

lemma majority_stamps_order_independent:
  assumes "mset c = mset c'"
  shows "map snd (majority_sample n c) = map snd (majority_sample n c')"
proof (cases "0 < n")
  case True
  let ?P = "\<lambda>c. node_stamps (sort_desc fst (stamped_events (dict_events c)))"
  have "set (stamped_events (dict_events c)) = set (stamped_events (dict_events c'))"
    using stamped_events_mset [OF dict_events_mset [OF assms]] by (metis set_mset_mset)
  then have "set (?P c) = set (?P c')" by (auto simp: set_node_stamps)
  then have "map snd (nub_fst (?P c)) = map snd (nub_fst (?P c'))"
    by (intro nub_fst_sorted_desc_unique sorted_node_stamps sorted_desc_pairs)
  with True show ?thesis by (simp add: majority_sample_eq flip: take_map)
next
  case False
  text \<open>With a non-positive bound the loop takes the first timestamp only.\<close>
  have one: "sample_loop n es [] [] = take 1 (nub_fst (node_stamps es))" if "n \<le> 0" for es
    using that by (induction es rule: node_stamps.induct) (auto split: option.splits)
  let ?P = "\<lambda>c. node_stamps (sort_desc fst (stamped_events (dict_events c)))"
  have "set (stamped_events (dict_events c)) = set (stamped_events (dict_events c'))"
    using stamped_events_mset [OF dict_events_mset [OF assms]] by (metis set_mset_mset)
  then have "set (?P c) = set (?P c')" by (auto simp: set_node_stamps)
  then have "map snd (nub_fst (?P c)) = map snd (nub_fst (?P c'))"
    by (intro nub_fst_sorted_desc_unique sorted_node_stamps sorted_desc_pairs)
  with False show ?thesis by (simp add: majority_sample_def one flip: take_map)
qed

subsection \<open>The median between honest timestamps\<close>

lemma sorted_nth_count_less:
  fixes ys :: "'a :: linorder list"
  assumes "sorted ys" "k < length ys" "ys ! k < v"
  shows "k < length (filter (\<lambda>y. y < v) ys)"
proof -
  have "\<forall>y \<in> set (take (Suc k) ys). y < v"
  proof
    fix y assume "y \<in> set (take (Suc k) ys)"
    then obtain i where "i < Suc k" "y = ys ! i" using assms(2) by (auto simp: in_set_conv_nth)
    then have "y \<le> ys ! k" using assms(1,2) by (simp add: sorted_nth_mono)
    with assms(3) show "y < v" by simp
  qed
  then have "filter (\<lambda>y. y < v) (take (Suc k) ys) = take (Suc k) ys" by (simp add: filter_id_conv)
  then have "filter (\<lambda>y. y < v) ys = take (Suc k) ys @ filter (\<lambda>y. y < v) (drop (Suc k) ys)"
    by (metis append_take_drop_id filter_append)
  then show ?thesis using assms(2) by simp
qed

lemma sorted_nth_count_greater:
  fixes ys :: "'a :: linorder list"
  assumes "sorted ys" "k < length ys" "v < ys ! k"
  shows "length ys - k \<le> length (filter (\<lambda>y. v < y) ys)"
proof -
  have "\<forall>y \<in> set (drop k ys). v < y"
  proof
    fix y assume "y \<in> set (drop k ys)"
    then obtain i where "i < length ys - k" "y = ys ! (k + i)" by (auto simp: in_set_conv_nth)
    then have "ys ! k \<le> y" using assms(1) by (simp add: sorted_nth_mono)
    with assms(3) show "v < y" by (rule less_le_trans)
  qed
  then have "filter (\<lambda>y. v < y) (drop k ys) = drop k ys" by (simp add: filter_id_conv)
  then have "filter (\<lambda>y. v < y) ys = filter (\<lambda>y. v < y) (take k ys) @ drop k ys"
    by (metis append_take_drop_id filter_append)
  then show ?thesis by simp
qed

lemma midpoint_bounds:
  assumes "rep64 lo" "rep64 hi" "\<bar>lo\<bar> < 2 ^ 1023" "\<bar>hi\<bar> < 2 ^ 1023"
    and "lo \<le> a" "lo \<le> b" "a \<le> hi" "b \<le> hi"
  shows "fle (Fin lo) (fmul (fadd (Fin a) (Fin b)) (Fin (1/2))) \<and>
         fle (fmul (fadd (Fin a) (Fin b)) (Fin (1/2))) (Fin hi)"
proof -
  have big: "\<bar>2 * x\<bar> < 2 ^ 1024" if "\<bar>x\<bar> < 2 ^ 1023" for x :: rat
    using that by (simp add: abs_mult)
  have lo2: "fle (Fin (2 * lo)) (round64 (a + b))"
    using assms by (intro round64_ge rep64_double big) auto
  have hi2: "fle (round64 (a + b)) (Fin (2 * hi))"
    using assms by (intro round64_le rep64_double big) auto
  obtain s where s: "round64 (a + b) = Fin s" using lo2 hi2 by (cases "round64 (a + b)") auto
  with lo2 hi2 have "lo \<le> s * (1/2)" "s * (1/2) \<le> hi" by auto
  moreover have "\<bar>lo\<bar> < 2 ^ 1024" "\<bar>hi\<bar> < 2 ^ 1024"
    using assms(3,4) by (simp_all add: less_trans [OF _ power_strict_increasing])
  ultimately show ?thesis using assms(1,2) by (auto simp: s intro: round64_ge round64_le)
qed

lemma length_filter_imp:
  "(\<And>x. x \<in> set xs \<Longrightarrow> P x \<Longrightarrow> Q x) \<Longrightarrow> length (filter P xs) \<le> length (filter Q xs)"
  by (induction xs) auto

lemma median_bounds:
  assumes bounds: "rep64 lo" "rep64 hi" "\<bar>lo\<bar> < 2 ^ 1023" "\<bar>hi\<bar> < 2 ^ 1023"
    and below: "2 * length (filter (\<lambda>t. t < Fin lo) ts) < length ts"
    and above: "2 * length (filter (\<lambda>t. Fin hi < t) ts) < length ts"
  shows "fle (Fin lo) (median ts) \<and> fle (median ts) (Fin hi)"
proof -
  let ?ys = "sort ts" and ?m = "length ts"
  have cnt: "length (filter P ?ys) = length (filter P ts)" for P
    by (metis mset_filter mset_sort size_mset)
  have mid: "fle (Fin lo) (?ys ! k) \<and> fle (?ys ! k) (Fin hi)"
    if k: "k < ?m" "?m \<le> 2 * (k + 1)" "2 * k \<le> ?m" for k
  proof -
    have "\<not> ?ys ! k < Fin lo"
      using sorted_nth_count_less [of ?ys k "Fin lo"] k below by (auto simp: cnt)
    moreover have "\<not> Fin hi < ?ys ! k"
      using sorted_nth_count_greater [of ?ys k "Fin hi"] k above by (auto simp: cnt)
    ultimately show ?thesis by (auto simp: not_less less_eq_pyfloat_def)
  qed
  show ?thesis
  proof (cases "odd ?m")
    case True
    then show ?thesis using mid [of "?m div 2"] by (auto simp: median_def Let_def elim!: oddE)
  next
    case False
    with below obtain j where m: "?m = 2 * j" "0 < j" by (auto elim!: evenE)
    have mj: "fle (Fin lo) (?ys ! (j - 1)) \<and> fle (?ys ! (j - 1)) (Fin hi)"
      "fle (Fin lo) (?ys ! j) \<and> fle (?ys ! j) (Fin hi)"
      using m by (intro mid; arith)+
    then obtain a b where ab: "?ys ! (j - 1) = Fin a" "?ys ! j = Fin b"
      by (cases "?ys ! (j - 1)"; cases "?ys ! j") auto
    with mj have "lo \<le> a" "lo \<le> b" "a \<le> hi" "b \<le> hi" by auto
    with midpoint_bounds [OF bounds this] m ab False show ?thesis
      by (simp add: median_def Let_def)
  qed
qed

lemma majority_time_between:
  assumes n: "0 < n" and s: "majority_sample n c = s"
    and majority: "length s < 2 * length (filter (\<lambda>p. honest (fst p)) s)"
    and honest: "\<And>node t. (node, t) \<in> set s \<Longrightarrow> honest node \<Longrightarrow> fle (Fin lo) t \<and> fle t (Fin hi)"
    and bounds: "rep64 lo" "rep64 hi" "\<bar>lo\<bar> < 2 ^ 1023" "\<bar>hi\<bar> < 2 ^ 1023"
  shows "\<exists>t. chain_majority_time_n n c = Inr t \<and> fle (Fin lo) t \<and> fle t (Fin hi)"
proof -
  let ?dis = "filter (\<lambda>p. \<not> honest (fst p)) s"
  have dis: "2 * length ?dis < length s"
    using majority sum_length_filter_compl [of "\<lambda>p. honest (fst p)" s] by simp
  have inside: "\<not> snd p < Fin lo \<and> \<not> Fin hi < snd p" if "p \<in> set s" "honest (fst p)" for p
    using honest [of "fst p" "snd p"] that
    by (auto simp: less_pyfloat_def dest: flt_asym)
  have "length (filter (\<lambda>t. t < Fin lo) (map snd s)) \<le> length ?dis"
    using inside by (auto simp: filter_map comp_def intro!: length_filter_imp)
  moreover have "length (filter (\<lambda>t. Fin hi < t) (map snd s)) \<le> length ?dis"
    using inside by (auto simp: filter_map comp_def intro!: length_filter_imp)
  ultimately have "fle (Fin lo) (median (map snd s)) \<and> fle (median (map snd s)) (Fin hi)"
    using dis by (intro median_bounds [OF bounds]) auto
  moreover have "s \<noteq> []" using majority by auto
  ultimately show ?thesis using n s by (simp add: chain_majority_time_n_def)
qed

subsection \<open>Properties\<close>

text \<open>
  Chain time does not depend on the order in which a node holds the events: two chains with
  the same events, in any order, give the same result (or the same exception) for every sample
  size, ties between timestamps and repeated nodes included.
\<close>

theorem majority_time_order_independent:
  assumes "mset c = mset c'"
  shows "chain_majority_time_n n c = chain_majority_time_n n c'"
  using majority_stamps_order_independent [OF assms, of n] by (simp add: chain_majority_time_n_def)

definition stamp_event :: "string \<Rightarrow> int \<Rightarrow> pyval" where
  "stamp_event node t = VDict [(''node_id'', VStr node), (''timestamp'', VInt t)]"

theorem majority_time_order_independent_witness:
  "chain_majority_time_n 11 [stamp_event ''a'' 5, stamp_event ''b'' 5, stamp_event ''a'' 9] =
   chain_majority_time_n 11 [stamp_event ''a'' 9, stamp_event ''a'' 5, stamp_event ''b'' 5]"
  by (rule majority_time_order_independent) simp

text \<open>
  C19: Chain time resists a minority of nodes. If more than half of the sampled nodes are honest
  and the sampled timestamps of the honest ones lie between two representable numbers of ordinary
  size, then the chain time exists and lies between them, whatever timestamps the others wrote;
  the rounding of the midpoint is included.
\<close>

theorem majority_time_robust:
  assumes "0 < n" and "majority_sample n c = s"
    and "length s < 2 * length (filter (\<lambda>p. honest (fst p)) s)"
    and "\<And>node t. (node, t) \<in> set s \<Longrightarrow> honest node \<Longrightarrow> fle (Fin lo) t \<and> fle t (Fin hi)"
    and "rep64 lo" "rep64 hi" "\<bar>lo\<bar> < 2 ^ 1023" "\<bar>hi\<bar> < 2 ^ 1023"
  shows "\<exists>t. chain_majority_time_n n c = Inr t \<and> fle (Fin lo) t \<and> fle t (Fin hi)"
  using assms by (rule majority_time_between)

definition three_node_chain :: chain where
  "three_node_chain =
     [stamp_event ''a'' 100, stamp_event ''b'' 110, stamp_event ''evil'' 999999]"

lemma three_node_sample:
  "majority_sample 11 three_node_chain =
     [(''evil'', Fin 999999), (''b'', Fin 110), (''a'', Fin 100)]"
  by code_simp

theorem majority_time_robust_witness:
  "\<exists>t. chain_majority_time_n 11 three_node_chain = Inr t \<and> fle (Fin 100) t \<and> fle t (Fin 110)"
  by (rule majority_time_robust [OF _ three_node_sample, where honest = "\<lambda>k. k \<noteq> ''evil''"]) auto

text \<open>
  The drift gate measures against that time. An event it does not flag has a finite timestamp
  at most the configured drift after the chain time; with an honest majority in the sample it is
  therefore at most the drift after the newest honest timestamp. Events without a finite timestamp
  are always flagged.
\<close>

theorem drift_gate_sound:
  assumes gate: "is_event_too_future cfg e (Some c) None = Inr False"
    and drift: "cfg_float cfg ''max_future_event_drift_sec'' = Inr (Fin d)"
    and "majority_sample DEFAULT_MEDIAN_N c = s"
    and "length s < 2 * length (filter (\<lambda>p. honest (fst p)) s)"
    and "\<And>node t. (node, t) \<in> set s \<Longrightarrow> honest node \<Longrightarrow> fle (Fin lo) t \<and> fle t (Fin hi)"
    and "rep64 lo" "rep64 hi" "\<bar>lo\<bar> < 2 ^ 1023" "\<bar>hi\<bar> < 2 ^ 1023"
  shows "\<exists>ts. finite_float (eget e ''timestamp'') = Some ts \<and> fle ts (fadd (Fin hi) (Fin d))"
proof -
  have "0 < DEFAULT_MEDIAN_N" by (simp add: DEFAULT_MEDIAN_N_def)
  then have "\<exists>now. chain_majority_time_n DEFAULT_MEDIAN_N c = Inr now \<and>
      fle (Fin lo) now \<and> fle now (Fin hi)"
    using assms(3-9) by (rule majority_time_between)
  then obtain now where now: "chain_majority_time_n DEFAULT_MEDIAN_N c = Inr now"
    "fle (Fin lo) now" "fle now (Fin hi)" by blast
  then obtain x where x: "now = Fin x" by (cases now) auto
  from gate now drift obtain ts where ts: "finite_float (eget e ''timestamp'') = Some ts"
    "\<not> flt (fadd now (Fin d)) ts"
    by (auto simp: is_event_too_future_def res_simps split: option.splits)
  then obtain q where q: "ts = Fin q" using finite_float_Fin by blast
  have "fle ts (fadd now (Fin d))" using ts(2) by (simp add: x q not_flt)
  moreover have "fle (fadd now (Fin d)) (fadd (Fin hi) (Fin d))"
    using now(3) by (intro fadd_mono) (auto simp: x)
  ultimately show ?thesis using ts(1) by (blast intro: fle_trans)
qed

theorem drift_gate_sound_witness:
  "\<exists>ts. finite_float (eget [(''timestamp'', VInt 300)] ''timestamp'') = Some ts \<and>
     fle ts (fadd (Fin 110) (Fin 300))"
proof (rule drift_gate_sound [where cfg = "[(''max_future_event_drift_sec'', VInt 300)]"
      and honest = "\<lambda>k. k \<noteq> ''evil''" and c = three_node_chain and lo = 100 and hi = 110
      and s = "[(''evil'', Fin 999999), (''b'', Fin 110), (''a'', Fin 100)]"])
  show "is_event_too_future [(''max_future_event_drift_sec'', VInt 300)] [(''timestamp'', VInt 300)]
      (Some three_node_chain) None = Inr False" by code_simp
  show "cfg_float [(''max_future_event_drift_sec'', VInt 300)] ''max_future_event_drift_sec''
      = Inr (Fin 300)" by code_simp
  show "majority_sample DEFAULT_MEDIAN_N three_node_chain =
      [(''evil'', Fin 999999), (''b'', Fin 110), (''a'', Fin 100)]"
    by (simp add: DEFAULT_MEDIAN_N_def three_node_sample)
qed (auto intro: rep64_of_int [of 100, simplified] rep64_of_int [of 110, simplified])

end
