(* ===== verification/Py_Hashlib.thy ===== *)
theory Py_Hashlib
  imports Py_Value "HOL-Library.Word"
begin

section \<open>SHA-256, UTF-8 and canonical JSON\<close>

text \<open>
  The standard-library functions the canonical hashes are built from: \<open>str.encode("utf-8")\<close>,
  \<open>json.dumps(..., sort_keys=True, separators=(",", ":"), ensure_ascii=False)\<close> and
  \<open>hashlib.sha256(...).hexdigest()\<close> (FIPS 180-4, on 32-bit words).
\<close>

unbundle bit_operations_syntax

subsection \<open>UTF-8\<close>

definition utf8_char :: "char \<Rightarrow> int list" where
  "utf8_char c = (let n = (of_char c :: int) in
     if n < 128 then [n] else [192 + n div 64, 128 + n mod 64])"

definition utf8 :: "string \<Rightarrow> int list" where
  "utf8 s = concat (map utf8_char s)"

subsection \<open>SHA-256\<close>

type_synonym w32 = "32 word"

definition sha_k :: "w32 list" where
  "sha_k =
    [1116352408, 1899447441, 3049323471, 3921009573, 961987163, 1508970993, 2453635748, 2870763221,
     3624381080, 310598401, 607225278, 1426881987, 1925078388, 2162078206, 2614888103, 3248222580,
     3835390401, 4022224774, 264347078, 604807628, 770255983, 1249150122, 1555081692, 1996064986,
     2554220882, 2821834349, 2952996808, 3210313671, 3336571891, 3584528711, 113926993, 338241895,
     666307205, 773529912, 1294757372, 1396182291, 1695183700, 1986661051, 2177026350, 2456956037,
     2730485921, 2820302411, 3259730800, 3345764771, 3516065817, 3600352804, 4094571909, 275423344,
     430227734, 506948616, 659060556, 883997877, 958139571, 1322822218, 1537002063, 1747873779,
     1955562222, 2024104815, 2227730452, 2361852424, 2428436474, 2756734187, 3204031479, 3329325298]"

definition sha_init :: "w32 list" where
  "sha_init =
    [1779033703, 3144134277, 1013904242, 2773480762, 1359893119, 2600822924, 528734635, 1541459225]"

definition rotr :: "nat \<Rightarrow> w32 \<Rightarrow> w32" where
  "rotr n w = word_rotr n w"

definition sha_pad :: "int list \<Rightarrow> int list" where
  "sha_pad bs =
     (let l = length bs; z = (119 - l mod 64) mod 64
      in bs @ [128] @ replicate z 0
         @ map (\<lambda>i. (8 * int l div 256 ^ (7 - i)) mod 256) [0..<8])"

fun be_words :: "int list \<Rightarrow> w32 list" where
  "be_words (a # b # c # d # bs) =
     word_of_int (((a * 256 + b) * 256 + c) * 256 + d) # be_words bs"
| "be_words _ = []"

text \<open>The message schedule, newest word first: \<open>w\<^sub>t\<close> from \<open>w\<^sub>t\<^sub>-\<^sub>2\<close>, \<open>w\<^sub>t\<^sub>-\<^sub>7\<close>, \<open>w\<^sub>t\<^sub>-\<^sub>1\<^sub>5\<close>, \<open>w\<^sub>t\<^sub>-\<^sub>1\<^sub>6\<close>.\<close>

definition sigma0 :: "w32 \<Rightarrow> w32" where
  "sigma0 x = rotr 7 x XOR rotr 18 x XOR drop_bit 3 x"

definition sigma1 :: "w32 \<Rightarrow> w32" where
  "sigma1 x = rotr 17 x XOR rotr 19 x XOR drop_bit 10 x"

fun sha_extend :: "nat \<Rightarrow> w32 list \<Rightarrow> w32 list" where
  "sha_extend 0 ws = rev ws"
| "sha_extend (Suc n) ws =
     sha_extend n ((sigma1 (ws ! 1) + ws ! 6 + sigma0 (ws ! 14) + ws ! 15) # ws)"

definition sha_round :: "w32 \<times> w32 \<Rightarrow> w32 list \<Rightarrow> w32 list" where
  "sha_round kw st =
     (case (kw, st) of
        ((k, w), [a, b, c, d, e, f, g, h]) \<Rightarrow>
          let s1 = rotr 6 e XOR rotr 11 e XOR rotr 25 e;
              ch = (e AND f) XOR (NOT e AND g);
              t1 = h + s1 + ch + k + w;
              s0 = rotr 2 a XOR rotr 13 a XOR rotr 22 a;
              maj = (a AND b) XOR (a AND c) XOR (b AND c);
              t2 = s0 + maj
          in [t1 + t2, a, b, c, d + t1, e, f, g]
      | _ \<Rightarrow> st)"

definition sha_block :: "w32 list \<Rightarrow> w32 list \<Rightarrow> w32 list" where
  "sha_block blk h =
     map2 (+) h (fold sha_round (zip sha_k (sha_extend 48 (rev blk))) h)"

fun sha_blocks :: "nat \<Rightarrow> w32 list \<Rightarrow> w32 list \<Rightarrow> w32 list" where
  "sha_blocks 0 ws h = h"
| "sha_blocks (Suc n) ws h = sha_blocks n (drop 16 ws) (sha_block (take 16 ws) h)"

definition hex_word :: "w32 \<Rightarrow> string" where
  "hex_word w = concat (map (\<lambda>i. hex_byte ((uint w div 256 ^ (3 - i)) mod 256)) [0..<4])"

definition sha256_bytes :: "int list \<Rightarrow> w32 list" where
  "sha256_bytes bs = (let ws = be_words (sha_pad bs) in sha_blocks (length ws div 16) ws sha_init)"

text \<open>\<open>hashlib.sha256(s.encode("utf-8")).hexdigest()\<close>\<close>

definition sha256_hex :: "string \<Rightarrow> string" where
  "sha256_hex s = concat (map hex_word (sha256_bytes (utf8 s)))"

lemma length_sha_round: "length st = 8 \<Longrightarrow> length (sha_round kw st) = 8"
  by (auto simp: sha_round_def Let_def split: prod.splits list.splits)

lemma length_fold_sha_round: "length st = 8 \<Longrightarrow> length (fold sha_round kws st) = 8"
  by (induction kws arbitrary: st) (auto simp: length_sha_round)

lemma length_sha_blocks: "length h = 8 \<Longrightarrow> length (sha_blocks n ws h) = 8"
  by (induction n ws h rule: sha_blocks.induct) (auto simp: sha_block_def length_fold_sha_round)

lemma length_concat_const: "(\<And>x. x \<in> set xs \<Longrightarrow> length (f x) = n) \<Longrightarrow> length (concat (map f xs)) = n * length xs"
  by (induction xs) auto

lemma length_sha256_hex [simp]: "length (sha256_hex s) = 64"
proof -
  have "length (hex_word w) = 8" for w
    by (simp add: hex_word_def upt_rec hex_byte_def)
  moreover have "length (sha256_bytes (utf8 s)) = 8"
    by (simp add: sha256_bytes_def Let_def length_sha_blocks sha_init_def)
  ultimately show ?thesis by (simp add: sha256_hex_def length_concat_const [where n = 8])
qed

lemma sha256_hex_nonempty [simp]: "sha256_hex s \<noteq> []"
  using length_sha256_hex [of s] by (metis list.size(3) zero_neq_numeral)

subsection \<open>Canonical JSON\<close>

definition json_char :: "char \<Rightarrow> string" where
  "json_char c =
     (let n = (of_char c :: int); bs = char_of (92::int) in
      if n = 34 \<or> n = 92 then [bs, c]
      else if n = 10 then [bs, CHR ''n'']
      else if n = 13 then [bs, CHR ''r'']
      else if n = 9 then [bs, CHR ''t'']
      else if n = 12 then [bs, CHR ''f'']
      else if n = 8 then [bs, CHR ''b'']
      else if n < 32 then [bs] @ ''u00'' @ hex_byte n
      else [c])"

definition json_str :: "string \<Rightarrow> string" where
  "json_str s = [char_of (34::int)] @ concat (map json_char s) @ [char_of (34::int)]"

fun json_float :: "pyfloat \<Rightarrow> string" where
  "json_float NaN = ''NaN''"
| "json_float PInf = ''Infinity''"
| "json_float NInf = ''-Infinity''"
| "json_float f = repr_float f"

fun json_dumps :: "pyval \<Rightarrow> string"
  and json_list :: "pyval list \<Rightarrow> string list"
  and json_items :: "(string \<times> pyval) list \<Rightarrow> (string \<times> string) list" where
  "json_dumps VNone = ''null''"
| "json_dumps (VBool b) = (if b then ''true'' else ''false'')"
| "json_dumps (VInt n) = int_str n"
| "json_dumps (VFloat f) = json_float f"
| "json_dumps (VStr s) = json_str s"
| "json_dumps (VList xs) = ''['' @ join '','' (json_list xs) @ '']''"
| "json_dumps (VDict d) = [char_of (123::int)]
     @ join '','' (map (\<lambda>(k, t). json_str k @ '':'' @ t) (sort_key fst (json_items d)))
     @ [char_of (125::int)]"
| "json_list [] = []"
| "json_list (x # xs) = json_dumps x # json_list xs"
| "json_items [] = []"
| "json_items ((k, v) # d) = (k, json_dumps v) # json_items d"

lemma json_items_eq: "json_items d = map (\<lambda>(k, v). (k, json_dumps v)) d"
  by (induction d) auto

text \<open>
  Two dictionaries that hold the same entries have the same canonical text, whatever the order
  in which their keys were inserted.
\<close>

lemma json_dumps_insertion_order:
  assumes "distinct (map fst d)" and "mset d = mset d'"
  shows "json_dumps (VDict d) = json_dumps (VDict d')"
proof -
  let ?g = "\<lambda>(k, v). (k, json_dumps v)"
  have keys: "map fst (map ?g d) = map fst d" by (simp add: comp_def split_def)
  have "sort_key fst (map ?g d) = sort_key fst (map ?g d')"
  proof (rule sort_key_unique)
    show "distinct (map fst (map ?g d))" unfolding keys by (rule assms(1))
    show "mset (map ?g d) = mset (map ?g d')" using assms(2) by (simp only: mset_map)
  qed
  then show ?thesis by (simp add: json_items_eq)
qed

end
