(* ===== verification/Market_Snapshot.thy ===== *)
theory Market_Snapshot
  imports Chain_Events Py_Hashlib
begin

section \<open>The market snapshot\<close>

text \<open>
  Models \<open>services/infonet/markets/snapshot.py\<close>: the counts frozen when a market leaves
  PREDICTING, their canonical hash and the lookup of the authoritative snapshot.
\<close>

subsection \<open>Building the snapshot\<close>

text \<open>The local variables of \<open>build_snapshot\<close>; \<open>seen_predictors\<close> is the set of \<open>predictor_ids\<close>.\<close>

record tally =
  predictor_ids :: "string list"
  yes_weight :: pyfloat
  no_weight :: pyfloat
  total_stake :: pyfloat

definition empty_tally :: tally where
  "empty_tally = \<lparr>predictor_ids = [], yes_weight = Fin 0, no_weight = Fin 0, total_stake = Fin 0\<rparr>"

text \<open>The weight of a prediction and what it stakes: a free pick weighs 1 and stakes nothing.\<close>

definition prediction_weight :: "pyval \<Rightarrow> (pyfloat \<times> pyfloat) option" where
  "prediction_weight stake =
     (if stake = VNone then Some (Fin 1, Fin 0)
      else case finite_float stake of
        None \<Rightarrow> None
      | Some s \<Rightarrow> if fle s (Fin 0) then None else Some (s, s))"

definition count_prediction :: "string \<Rightarrow> bool \<Rightarrow> pyfloat \<Rightarrow> pyfloat \<Rightarrow> tally \<Rightarrow> tally" where
  "count_prediction node yes w stake t =
     t\<lparr>predictor_ids := (if node \<in> set (predictor_ids t) then predictor_ids t
                         else predictor_ids t @ [node]),
       yes_weight := (if yes then fadd (yes_weight t) w else yes_weight t),
       no_weight := (if yes then no_weight t else fadd (no_weight t) w),
       total_stake := fadd (total_stake t) stake\<rparr>"

definition valid_prediction :: "event \<Rightarrow> (string \<times> bool \<times> pyfloat \<times> pyfloat) option" where
  "valid_prediction e =
     (if \<not> etype e ''prediction_place'' then None
      else case nonempty_str (eget e ''node_id'') of
        None \<Rightarrow> None
      | Some node \<Rightarrow>
          let side = eget (payload e) ''side'' in
          if side \<noteq> VStr ''yes'' \<and> side \<noteq> VStr ''no'' then None
          else case prediction_weight (eget (payload e) ''stake_amount'') of
            None \<Rightarrow> None
          | Some (w, stake) \<Rightarrow> Some (node, side = VStr ''yes'', w, stake))"

definition tally_event :: "event \<Rightarrow> tally \<Rightarrow> tally" where
  "tally_event e t =
     (case valid_prediction e of
        None \<Rightarrow> t
      | Some (node, yes, w, stake) \<Rightarrow> count_prediction node yes w stake t)"

definition tally_market :: "string \<Rightarrow> chain \<Rightarrow> tally" where
  "tally_market mid c = fold tally_event (events_for_market mid c) empty_tally"

definition yes_probability :: "tally \<Rightarrow> pyfloat res" where
  "yes_probability t =
     (let pool = fadd (yes_weight t) (no_weight t)
      in if flt (Fin 0) pool then fdiv (yes_weight t) pool else Inr (Fin (1/2)))"

definition build_snapshot :: "string \<Rightarrow> chain \<Rightarrow> pyfloat \<Rightarrow> event res" where
  "build_snapshot mid c frozen_at =
     (case finite_float (VFloat frozen_at) of
        None \<Rightarrow> Inl ValueError
      | Some fa \<Rightarrow>
          let t = tally_market mid c in
          rbind (yes_probability t) (\<lambda>yes_p.
          Inr [(''market_id'', VStr mid),
               (''frozen_participant_count'', VInt (int (length (predictor_ids t)))),
               (''frozen_total_stake'', VFloat (total_stake t)),
               (''frozen_predictor_ids'', VList (map VStr (predictor_ids t))),
               (''frozen_probability_state'',
                  VDict [(''yes'', VFloat yes_p), (''no'', VFloat (fsub (Fin 1) yes_p))]),
               (''frozen_at'', VFloat fa)]))"

subsection \<open>Its hash and its lookup\<close>

definition compute_snapshot_event_hash :: "event \<Rightarrow> string \<Rightarrow> string \<Rightarrow> int \<Rightarrow> string" where
  "compute_snapshot_event_hash snap mid creator seqn =
     sha256_hex (json_dumps (VDict
       [(''event_type'', VStr ''market_snapshot''), (''market_id'', VStr mid),
        (''node_id'', VStr creator), (''sequence'', VInt seqn), (''payload'', VDict snap)]))"

definition find_snapshot :: "string \<Rightarrow> chain \<Rightarrow> event option res" where
  "find_snapshot mid c =
     (case first_authoritative_event (events_for_market mid c) ''market_snapshot'' of
        None \<Rightarrow> Inr None
      | Some e \<Rightarrow> if has_valid_ordering e then Inr (Some (payload e))
                  else Inl InvalidAuthoritativeSnapshot)"

subsection \<open>What is counted\<close>

lemma prediction_weight_Some:
  "prediction_weight v = Some (w, s) \<Longrightarrow> \<exists>q r. w = Fin q \<and> s = Fin r \<and> 0 < q \<and> 0 \<le> r \<and> rep64 q \<and> rep64 r"
  using finite_float_Fin
  by (fastforce simp: prediction_weight_def split: if_splits option.splits)

text \<open>Weights and stakes are sums of non-negative floats, hence non-negative (possibly infinite).\<close>

definition tally_ok :: "tally \<Rightarrow> bool" where
  "tally_ok t \<longleftrightarrow> distinct (predictor_ids t) \<and> fle (Fin 0) (yes_weight t) \<and> fle (Fin 0) (no_weight t) \<and>
     fle (Fin 0) (total_stake t) \<and> valid64 (yes_weight t) \<and> valid64 (no_weight t)"

lemma tally_event_ok: "tally_ok t \<Longrightarrow> tally_ok (tally_event e t)"
  by (auto simp: tally_ok_def tally_event_def valid_prediction_def count_prediction_def Let_def
      split: option.splits if_splits dest!: prediction_weight_Some intro!: fadd_nonneg)

lemma tally_fold_ok: "tally_ok t \<Longrightarrow> tally_ok (fold tally_event es t)"
  by (induction es arbitrary: t) (auto intro: tally_event_ok)

lemma tally_market_ok: "tally_ok (tally_market mid c)"
  unfolding tally_market_def by (rule tally_fold_ok) (simp add: tally_ok_def empty_tally_def)

lemma tally_predictors: "set (predictor_ids (fold tally_event es t)) =
    set (predictor_ids t) \<union> {n. \<exists>e \<in> set es. \<exists>rest. valid_prediction e = Some (n, rest)}"
proof (induction es arbitrary: t)
  case Nil
  then show ?case by simp
next
  case (Cons e es)
  have "set (predictor_ids (tally_event e t)) =
      set (predictor_ids t) \<union> {n. \<exists>rest. valid_prediction e = Some (n, rest)}"
    by (auto simp: tally_event_def count_prediction_def split: option.splits)
  with Cons show ?case by auto
qed

lemma fdiv_total: "flt (Fin 0) y \<Longrightarrow> \<exists>z. fdiv x y = Inr z"
  by (cases x; cases y) (auto split: if_splits)

lemma yes_probability_total: "\<exists>p. yes_probability t = Inr p"
  using fdiv_total by (auto simp: yes_probability_def Let_def)

lemma yes_probability_bounds:
  assumes ok: "tally_ok t" and fin: "isfinite (fadd (yes_weight t) (no_weight t))"
    and p: "yes_probability t = Inr p"
  shows "fle (Fin 0) p \<and> fle p (Fin 1)"
proof (cases "flt (Fin 0) (fadd (yes_weight t) (no_weight t))")
  case False
  then show ?thesis using p by (auto simp: yes_probability_def Let_def)
next
  case True
  let ?pool = "fadd (yes_weight t) (no_weight t)"
  have "fle (yes_weight t) ?pool"
    using ok by (intro fadd_increasing) (auto simp: tally_ok_def)
  with fin ok True obtain y z where "yes_weight t = Fin y" "?pool = Fin z" "0 \<le> y" "y \<le> z" "0 < z"
    by (cases "yes_weight t"; cases ?pool) (auto simp: tally_ok_def)
  then show ?thesis using p fdiv_fraction [of y z] True
    by (auto simp: yes_probability_def Let_def)
qed

text \<open>The nodes with at least one valid prediction on the market.\<close>

definition predictors_of :: "string \<Rightarrow> chain \<Rightarrow> string set" where
  "predictors_of mid c =
     {n. \<exists>e \<in> set (events_for_market mid c). \<exists>rest. valid_prediction e = Some (n, rest)}"

lemma tally_market_predictors: "set (predictor_ids (tally_market mid c)) = predictors_of mid c"
  by (simp add: tally_market_def tally_predictors predictors_of_def empty_tally_def)

lemma eget_simps [chain_simps]:
  "eget [] k = VNone"
  "eget ((k', v) # e) k = (if k = k' then v else eget e k)"
  by (simp_all add: eget_def)

lemma build_snapshot_fields:
  assumes "build_snapshot mid c fa = Inr s"
  shows "eget s ''frozen_participant_count'' = VInt (int (length (predictor_ids (tally_market mid c))))"
    and "eget s ''frozen_total_stake'' = VFloat (total_stake (tally_market mid c))"
    and "eget s ''frozen_predictor_ids'' = VList (map VStr (predictor_ids (tally_market mid c)))"
    and "eget s ''market_id'' = VStr mid"
    and "\<exists>p. yes_probability (tally_market mid c) = Inr p \<and>
           eget s ''frozen_probability_state'' = VDict [(''yes'', VFloat p), (''no'', VFloat (fsub (Fin 1) p))]"
  using assms
  by (auto simp: build_snapshot_def Let_def res_simps chain_simps split: option.splits)

lemma fsub_one: "fle (Fin 0) p \<Longrightarrow> fle p (Fin 1) \<Longrightarrow> fle (Fin 0) (fsub (Fin 1) p) \<and> fle (fsub (Fin 1) p) (Fin 1)"
  using fsub_finite [of _ 1] by (cases p) force+

subsection \<open>Properties\<close>

lemma build_snapshot_total: "finite_float (VFloat fa) \<noteq> None \<Longrightarrow> \<exists>s. build_snapshot mid c fa = Inr s"
  using yes_probability_total [of "tally_market mid c"] by (auto simp: build_snapshot_def Let_def)

lemma finite_float_5: "finite_float (VFloat (Fin 5)) = Some (Fin 5)"
  by code_simp

text \<open>
  C20: What a snapshot freezes. The predictor list holds exactly the nodes with a valid prediction
  on the market, each once, the participant count is their number, the frozen total stake is not
  negative, and the two frozen probabilities lie between 0 and 1 whenever the weights do not
  overflow.
\<close>

theorem snapshot_freezes_predictors:
  assumes "build_snapshot mid c fa = Inr s"
  shows "(\<exists>ns. eget s ''frozen_predictor_ids'' = VList (map VStr ns) \<and> distinct ns \<and>
            set ns = predictors_of mid c) \<and>
         eget s ''frozen_participant_count'' = VInt (int (card (predictors_of mid c))) \<and>
         (\<exists>t. eget s ''frozen_total_stake'' = VFloat t \<and> fle (Fin 0) t) \<and>
         (isfinite (fadd (yes_weight (tally_market mid c)) (no_weight (tally_market mid c))) \<longrightarrow>
          (\<exists>y n. eget s ''frozen_probability_state'' = VDict [(''yes'', VFloat y), (''no'', VFloat n)] \<and>
             fle (Fin 0) y \<and> fle y (Fin 1) \<and> fle (Fin 0) n \<and> fle n (Fin 1)))"
proof -
  note ok = tally_market_ok [of mid c]
  note fields = build_snapshot_fields [OF assms]
  have count: "card (predictors_of mid c) = length (predictor_ids (tally_market mid c))"
    using ok distinct_card by (fastforce simp: tally_ok_def simp flip: tally_market_predictors)
  have probs: "\<exists>y n. eget s ''frozen_probability_state'' = VDict [(''yes'', VFloat y), (''no'', VFloat n)] \<and>
      fle (Fin 0) y \<and> fle y (Fin 1) \<and> fle (Fin 0) n \<and> fle n (Fin 1)"
    if "isfinite (fadd (yes_weight (tally_market mid c)) (no_weight (tally_market mid c)))"
    using fields(5) yes_probability_bounds [OF ok that] fsub_one by fastforce
  show ?thesis
    using ok fields(1-3) probs by (auto simp: tally_ok_def count tally_market_predictors)
qed

definition place_event :: "string \<Rightarrow> string \<Rightarrow> pyval \<Rightarrow> pyval" where
  "place_event node side stake = VDict
     [(''event_type'', VStr ''prediction_place''), (''node_id'', VStr node),
      (''payload'', VDict [(''market_id'', VStr ''m''), (''side'', VStr side), (''stake_amount'', stake)])]"

theorem snapshot_freezes_predictors_witness:
  "predictors_of ''m'' [place_event ''a'' ''yes'' VNone, place_event ''b'' ''no'' (VInt 3)] = {''a'', ''b''} \<and>
   (\<exists>s. build_snapshot ''m'' [place_event ''a'' ''yes'' VNone, place_event ''b'' ''no'' (VInt 3)] (Fin 5) = Inr s \<and>
     eget s ''frozen_participant_count'' = VInt (int (card {''a'', ''b''})))"
proof -
  let ?c = "[place_event ''a'' ''yes'' VNone, place_event ''b'' ''no'' (VInt 3)]"
  have "set (predictor_ids (tally_market ''m'' ?c)) = {''a'', ''b''}" by code_simp
  then have ps: "predictors_of ''m'' ?c = {''a'', ''b''}" by (simp add: tally_market_predictors)
  moreover obtain s where s: "build_snapshot ''m'' ?c (Fin 5) = Inr s"
    using build_snapshot_total finite_float_5 by blast
  ultimately show ?thesis using snapshot_freezes_predictors [OF s] by (simp only:) blast
qed

text \<open>
  The snapshot is a commitment. Emitted with usable ordering metadata as the market's first
  snapshot event, what was built is what every later reader finds, whatever is appended to the
  chain afterwards, later snapshot events of the same market included.
\<close>

theorem snapshot_commitment:
  assumes built: "build_snapshot mid c fa = Inr s"
    and first: "find_snapshot mid c = Inr None"
    and event: "etype e ''market_snapshot''" "payload e = s" "has_valid_ordering e"
  shows "find_snapshot mid (c @ VDict e # later) = Inr (Some s)"
proof -
  have mid: "market_id e = mid"
    using event(2) build_snapshot_fields(4) [OF built]
    by (simp add: market_id_def py_or_def py_str_def)
  have "first_authoritative_event (events_for_market mid c) ''market_snapshot'' = None"
    using first by (auto simp: find_snapshot_def split: option.splits if_splits)
  then have "first_authoritative_event (events_for_market mid (c @ VDict e # later)) ''market_snapshot'' = Some e"
    using event(1) mid by (simp add: events_for_market_def first_authoritative_event_def find_append_iff)
  then show ?thesis using event(2,3) by (simp add: find_snapshot_def)
qed

definition snapshot_event :: "event \<Rightarrow> event" where
  "snapshot_event s = [(''event_type'', VStr ''market_snapshot''), (''timestamp'', VInt 7),
     (''sequence'', VInt 1), (''payload'', VDict s)]"

theorem snapshot_commitment_witness:
  "\<exists>s. find_snapshot ''m'' ([place_event ''a'' ''yes'' VNone] @ VDict (snapshot_event s) #
        [VDict (snapshot_event [(''market_id'', VStr ''m'')])]) = Inr (Some s)"
proof -
  obtain s where s: "build_snapshot ''m'' [place_event ''a'' ''yes'' VNone] (Fin 5) = Inr s"
    using build_snapshot_total finite_float_5 by blast
  have empty: "find_snapshot ''m'' [place_event ''a'' ''yes'' VNone] = Inr None" by code_simp
  have event: "etype (snapshot_event s) ''market_snapshot''" "payload (snapshot_event s) = s"
    by (simp_all add: snapshot_event_def etype_def payload_def chain_simps)
  have "eget (snapshot_event s) ''timestamp'' = VInt 7" "eget (snapshot_event s) ''sequence'' = VInt 1"
    by (simp_all add: snapshot_event_def chain_simps)
  moreover have "finite_float (VInt 7) \<noteq> None" "safe_int (VInt 1) \<noteq> None" by code_simp+
  ultimately have "has_valid_ordering (snapshot_event s)" by (simp add: has_valid_ordering_def)
  with empty event show ?thesis by (intro exI [of _ s] snapshot_commitment [OF s])
qed

lemma two_big_stakes:
  assumes b: "rep64 b" "0 < b" "b < 2 ^ 1024" "2 ^ 1024 \<le> b + b"
  shows "rbind (build_snapshot ''m'' [place_event ''a'' ''yes'' (VFloat (Fin b)),
                                      place_event ''b'' ''yes'' (VFloat (Fin b))] (Fin 5))
     (\<lambda>s. Inr (eget s ''frozen_probability_state'')) =
   Inr (VDict [(''yes'', VFloat NaN), (''no'', VFloat NaN)])"
proof -
  have "canon64 (Fin b) = Fin b" using b by (simp add: round64_rep abs_less_iff)
  then have "finite_float (VFloat (Fin b)) = Some (Fin b)" by (simp add: finite_float_def)
  moreover have "round64 b = Fin b" "round64 (b + b) = PInf"
    using b by (simp_all add: round64_rep round64_overflow)
  ultimately show ?thesis using b
    by (simp add: build_snapshot_def finite_float_5 tally_market_def events_for_market_def
        place_event_def market_id_def payload_def chain_simps py_or_def py_str_def tally_event_def
        valid_prediction_def etype_def prediction_weight_def count_prediction_def empty_tally_def
        yes_probability_def fsub_def)
qed

text \<open>
  Overflowing stakes poison the frozen probabilities. There is a finite stake, accepted by the
  tally, such that two yes predictions with it sum to infinity; the frozen probability of yes is
  then infinity divided by infinity, NaN, and so is the probability of no.
\<close>

theorem snapshot_probability_overflow:
  "\<exists>b. valid64 (Fin b) \<and>
     rbind (build_snapshot ''m'' [place_event ''a'' ''yes'' (VFloat (Fin b)),
                                  place_event ''b'' ''yes'' (VFloat (Fin b))] (Fin 5))
       (\<lambda>s. Inr (eget s ''frozen_probability_state'')) =
     Inr (VDict [(''yes'', VFloat NaN), (''no'', VFloat NaN)])"
proof -
  obtain b :: rat where b: "b = 2 ^ 1023" by blast
  have "rep64 b" unfolding b by (rule rep64_power2)
  moreover have "0 < b" by (simp add: b)
  moreover have "b < 2 ^ 1024" "2 ^ 1024 \<le> b + b" by (simp_all add: b)
  ultimately show ?thesis using two_big_stakes [of b] by (intro exI [of _ b]) auto
qed

text \<open>
  The snapshot hash commits to the contents of the payload and not to the order in which its
  fields were inserted, so every producer of the same snapshot publishes the same salt.
\<close>

theorem snapshot_hash_field_order:
  assumes "distinct (map fst snap)" and "mset snap = mset snap'"
  shows "compute_snapshot_event_hash snap mid creator n = compute_snapshot_event_hash snap' mid creator n"
proof -
  have "json_dumps (VDict (es @ [(k, v)])) = json_dumps (VDict (es @ [(k, v')]))"
    if "json_dumps v = json_dumps v'" for es k v v'
    by (simp add: json_items_eq that)
  from this [OF json_dumps_insertion_order [OF assms],
      where es = "[(''event_type'', VStr ''market_snapshot''), (''market_id'', VStr mid),
        (''node_id'', VStr creator), (''sequence'', VInt n)]" and k = "''payload''"]
  show ?thesis by (simp only: compute_snapshot_event_hash_def append.simps)
qed

theorem snapshot_hash_field_order_witness:
  "compute_snapshot_event_hash [(''b'', VInt 1), (''a'', VNone)] ''m'' ''n'' 4 =
   compute_snapshot_event_hash [(''a'', VNone), (''b'', VInt 1)] ''m'' ''n'' 4"
  by (rule snapshot_hash_field_order) simp_all

end
