(* ===== verification/Market_Lifecycle.thy ===== *)
theory Market_Lifecycle
  imports Market_Snapshot Config
begin

section \<open>The market lifecycle\<close>

text \<open>
  Models \<open>services/infonet/markets/lifecycle.py\<close>: the status of a market is a function of the
  chain and of chain time; it is never stored. The theorems show that it only moves forward when
  the chain grows and time passes, that the terminal states are absorbing, and how the heartbeat
  function \<open>should_advance_phase\<close> relates to it.
\<close>

datatype market_status = PREDICTING | EVIDENCE | RESOLVING | FINAL | INVALID

definition SECONDS_PER_HOUR :: pyfloat where
  "SECONDS_PER_HOUR = Fin 3600"

text \<open>\<open>raw in (None, "", 0, 0.0)\<close>: equality with zero also holds for \<open>False\<close>.\<close>

definition absent_timestamp :: "pyval \<Rightarrow> bool" where
  "absent_timestamp v \<longleftrightarrow> v = VNone \<or> v = VStr [] \<or> num_of v = Some (Fin 0)"

definition snapshot_time :: "event \<Rightarrow> pyfloat option" where
  "snapshot_time e =
     (if \<not> has_valid_ordering e then None
      else if absent_timestamp (eget e ''timestamp'') then finite_float (eget (payload e) ''frozen_at'')
      else finite_float (eget e ''timestamp''))"

definition window_end :: "config \<Rightarrow> string \<Rightarrow> pyfloat \<Rightarrow> pyfloat res" where
  "window_end cfg key start =
     rbind (cfg_float cfg key) (\<lambda>h. Inr (fadd start (fmul h SECONDS_PER_HOUR)))"

definition snapshot_status :: "config \<Rightarrow> event list \<Rightarrow> pyfloat \<Rightarrow> market_status res" where
  "snapshot_status cfg es now =
     (case first_authoritative_event es ''market_snapshot'' of
        None \<Rightarrow> Inr PREDICTING
      | Some snap \<Rightarrow>
          (case snapshot_time snap of
             None \<Rightarrow> Inr PREDICTING
           | Some ts \<Rightarrow> rbind (window_end cfg ''evidence_window_hours'' ts) (\<lambda>close.
               Inr (if flt now close then EVIDENCE else RESOLVING))))"

definition compute_market_status :: "config \<Rightarrow> string \<Rightarrow> chain \<Rightarrow> pyfloat \<Rightarrow> market_status res" where
  "compute_market_status cfg mid c now =
     (let es = events_for_market mid c in
      if es = [] then Inr PREDICTING
      else case first_authoritative_event es ''prediction_create'' of
        None \<Rightarrow> Inr PREDICTING
      | Some create \<Rightarrow>
          if \<not> has_valid_ordering create then Inr PREDICTING
          else case first_authoritative_event es ''resolution_finalize'' of
            None \<Rightarrow> snapshot_status cfg es now
          | Some fin \<Rightarrow>
              if has_valid_ordering fin
              then Inr (if eget (payload fin) ''outcome'' = VStr ''invalid'' then INVALID else FINAL)
              else snapshot_status cfg es now)"

definition should_advance_phase ::
  "config \<Rightarrow> string \<Rightarrow> chain \<Rightarrow> pyfloat \<Rightarrow> (market_status \<times> market_status) option res" where
  "should_advance_phase cfg mid c now =
     (let es = events_for_market mid c in
      if es = [] then Inr None
      else case first_authoritative_event es ''prediction_create'' of
        None \<Rightarrow> Inr None
      | Some create \<Rightarrow>
          if \<not> has_valid_ordering create then Inr None
          else if first_authoritative_event es ''resolution_finalize'' \<noteq> None then Inr None
          else let trigger = finite_float (eget (payload create) ''trigger_date'') in
            (case first_authoritative_event es ''market_snapshot'' of
               None \<Rightarrow>
                 (case trigger of
                    None \<Rightarrow> Inr None
                  | Some t \<Rightarrow> Inr (if fle t now then Some (PREDICTING, EVIDENCE) else None))
             | Some snap \<Rightarrow>
                 (case snapshot_time snap of
                    None \<Rightarrow> Inr None
                  | Some ts \<Rightarrow>
                      rbind (window_end cfg ''evidence_window_hours'' ts) (\<lambda>evidence_close.
                      rbind (window_end cfg ''resolution_window_hours'' evidence_close) (\<lambda>resolution_close.
                      Inr (if flt now evidence_close then None
                           else if flt now resolution_close then Some (EVIDENCE, RESOLVING)
                           else Some (RESOLVING, FINAL)))))))"

subsection \<open>Progress of the status\<close>

fun phase :: "market_status \<Rightarrow> nat" where
  "phase PREDICTING = 0"
| "phase EVIDENCE = 1"
| "phase RESOLVING = 2"
| "phase FINAL = 3"
| "phase INVALID = 3"

definition terminal :: "market_status \<Rightarrow> bool" where
  "terminal s \<longleftrightarrow> s = FINAL \<or> s = INVALID"

lemma terminal_iff_phase: "terminal s \<longleftrightarrow> phase s = 3"
  by (cases s) (auto simp: terminal_def)

lemma snapshot_status_phase: "snapshot_status cfg es now = Inr s \<Longrightarrow> phase s \<le> 2"
  by (auto simp: snapshot_status_def res_simps split: option.splits)

lemma first_authoritative_Nil [simp]: "first_authoritative_event [] t = None"
  by (simp add: first_authoritative_event_def)

text \<open>The status by the three authoritative events; the emptiness test is subsumed.\<close>

lemma compute_market_status_cases:
  "compute_market_status cfg mid c now =
     (let es = events_for_market mid c in
      case first_authoritative_event es ''prediction_create'' of
        None \<Rightarrow> Inr PREDICTING
      | Some create \<Rightarrow>
          if \<not> has_valid_ordering create then Inr PREDICTING
          else case first_authoritative_event es ''resolution_finalize'' of
            None \<Rightarrow> snapshot_status cfg es now
          | Some fin \<Rightarrow>
              if has_valid_ordering fin
              then Inr (if eget (payload fin) ''outcome'' = VStr ''invalid'' then INVALID else FINAL)
              else snapshot_status cfg es now)"
  by (auto simp: compute_market_status_def Let_def)

lemma snapshot_status_mono:
  assumes s: "snapshot_status cfg es now = Inr s"
    and t: "snapshot_status cfg (es @ es') later = Inr t" and le: "fle now later"
  shows "phase s \<le> phase t"
proof (cases "first_authoritative_event es ''market_snapshot''")
  case None
  then show ?thesis using s by (simp add: snapshot_status_def)
next
  case (Some snap)
  then have snap': "first_authoritative_event (es @ es') ''market_snapshot'' = Some snap"
    by (rule first_authoritative_event_append)
  have trans: "flt later x \<Longrightarrow> flt now x" for x
    using le by (cases now; cases later; cases x) auto
  from Some s t snap' show ?thesis
    by (auto simp: snapshot_status_def res_simps split: option.splits if_splits dest: trans)
qed

lemma compute_market_status_mono:
  assumes s: "compute_market_status cfg mid c now = Inr s"
    and t: "compute_market_status cfg mid (c @ c') later = Inr t" and le: "fle now later"
  shows "phase s \<le> phase t \<and> (terminal s \<longrightarrow> t = s)"
proof (cases "\<exists>create. first_authoritative_event (events_for_market mid c) ''prediction_create'' = Some create \<and>
    has_valid_ordering create")
  case False
  then have "s = PREDICTING" using s
    by (auto simp: compute_market_status_cases Let_def split: option.splits if_splits)
  then show ?thesis by (simp add: terminal_def)
next
  case True
  let ?es = "events_for_market mid c" and ?es' = "events_for_market mid c'"
  from True obtain create where create: "first_authoritative_event ?es ''prediction_create'' = Some create"
    "has_valid_ordering create" by blast
  have create': "first_authoritative_event (?es @ ?es') ''prediction_create'' = Some create"
    using create(1) by (rule first_authoritative_event_append)
  note unfold = compute_market_status_cases Let_def events_for_market_append create create'
  show ?thesis
  proof (cases "first_authoritative_event ?es ''resolution_finalize''")
    case None
    then have s': "snapshot_status cfg ?es now = Inr s" using s by (simp add: unfold)
    have "phase s \<le> phase t"
    proof (cases "terminal t")
      case True
      then show ?thesis using snapshot_status_phase [OF s'] by (simp add: terminal_iff_phase)
    next
      case False
      then have "snapshot_status cfg (?es @ ?es') later = Inr t"
        using t by (auto simp: unfold terminal_def split: option.splits if_splits)
      then show ?thesis using snapshot_status_mono [OF s' _ le] by blast
    qed
    then show ?thesis using snapshot_status_phase [OF s'] by (simp add: terminal_iff_phase)
  next
    case (Some fin)
    then have fin': "first_authoritative_event (?es @ ?es') ''resolution_finalize'' = Some fin"
      by (rule first_authoritative_event_append)
    show ?thesis
    proof (cases "has_valid_ordering fin")
      case True
      then show ?thesis using s t Some fin' by (auto simp: unfold)
    next
      case False
      then have "snapshot_status cfg ?es now = Inr s" "snapshot_status cfg (?es @ ?es') later = Inr t"
        using s t Some fin' by (simp_all add: unfold)
      then show ?thesis
        using snapshot_status_mono [OF _ _ le] snapshot_status_phase
        by (fastforce simp: terminal_iff_phase)
    qed
  qed
qed

subsection \<open>Runs of a market\<close>

text \<open>
  What happens to a market: an event, of any type and any content, is appended to the chain, or
  chain time moves on.
\<close>

inductive market_step :: "chain \<times> pyfloat \<Rightarrow> chain \<times> pyfloat \<Rightarrow> bool" where
  append_event: "market_step (c, now) (c @ [e], now)"
| tick: "fle now later \<Longrightarrow> market_step (c, now) (c, later)"

inductive_cases market_stepE: "market_step (c, now) st"

lemma market_run_extends:
  assumes "market_step\<^sup>*\<^sup>* (c, now) (c', later)" and "now \<noteq> NaN"
  shows "(\<exists>d. c' = c @ d) \<and> fle now later"
  using assms(1)
proof (induction rule: rtranclp_induct2)
  case refl
  then show ?case using assms(2) by (cases now) auto
next
  case (step c1 t1 c2 t2)
  from step.hyps(2) step.IH show ?case
    by (elim market_stepE) (auto intro: fle_trans)
qed

subsection \<open>Properties\<close>

text \<open>
  C21: A market never moves backwards. Along every run, whatever events are appended and however
  time passes, its phase does not decrease, and once it is FINAL or INVALID it keeps exactly that
  status: a later finalize, snapshot or create event cannot replace the first one.
\<close>

theorem market_never_regresses:
  assumes run: "market_step\<^sup>*\<^sup>* (c, now) (c', later)" and now: "now \<noteq> NaN"
    and before: "compute_market_status cfg mid c now = Inr s"
    and after: "compute_market_status cfg mid c' later = Inr t"
  shows "phase s \<le> phase t \<and> (terminal s \<longrightarrow> t = s)"
  using market_run_extends [OF run now] compute_market_status_mono [OF before] after by blast

definition market_event :: "string \<Rightarrow> int \<Rightarrow> string \<Rightarrow> pyval" where
  "market_event t ts outcome = VDict
     [(''event_type'', VStr t), (''timestamp'', VInt ts), (''sequence'', VInt 1),
      (''payload'', VDict [(''market_id'', VStr ''m''), (''outcome'', VStr outcome),
                            (''trigger_date'', VInt 0)])]"

definition final_market :: chain where
  "final_market = [market_event ''prediction_create'' 1 [], market_event ''market_snapshot'' 2 [],
     market_event ''resolution_finalize'' 3 ''yes'']"

text \<open>A second, contradicting finalize event after the first leaves the market FINAL.\<close>

abbreviation refinalized_market :: chain where
  "refinalized_market \<equiv> final_market @ [market_event ''resolution_finalize'' 9 ''invalid'']"

theorem market_never_regresses_witness:
  "case compute_market_status [] ''m'' refinalized_market (Fin 10) of
     Inr t \<Rightarrow> phase FINAL \<le> phase t \<and> t = FINAL | Inl _ \<Rightarrow> False"
proof -
  have "market_step (final_market, Fin 9) (refinalized_market, Fin 9)" by (rule append_event)
  moreover have "market_step (refinalized_market, Fin 9) (refinalized_market, Fin 10)"
    by (rule tick) simp
  ultimately have run: "market_step\<^sup>*\<^sup>* (final_market, Fin 9) (refinalized_market, Fin 10)"
    by (rule converse_rtranclp_into_rtranclp [OF _ r_into_rtranclp])
  have before: "compute_market_status [] ''m'' final_market (Fin 9) = Inr FINAL" by code_simp
  have "terminal FINAL" by code_simp
  moreover have "returns (compute_market_status [] ''m'' refinalized_market (Fin 10))" by code_simp
  then have "\<exists>t. compute_market_status [] ''m'' refinalized_market (Fin 10) = Inr t"
    by (simp only: returns_iff)
  ultimately show ?thesis using market_never_regresses [OF run _ before] by fastforce
qed

text \<open>
  What the heartbeat reports. An advance is reported only out of a phase that is not terminal
  and always to the next phase. Reports out of PREDICTING and out of RESOLVING name the current
  status; the report EVIDENCE to RESOLVING is made exactly while the status function already
  returns RESOLVING and the resolution window is open, never while it returns EVIDENCE.
\<close>

theorem advance_reports_next_phase:
  assumes advance: "should_advance_phase cfg mid c now = Inr (Some (a, b))"
    and status: "compute_market_status cfg mid c now = Inr s"
  shows "\<not> terminal s \<and> phase b = Suc (phase a) \<and>
         s = (if a = EVIDENCE then RESOLVING else a)"
proof -
  have "flt now x \<Longrightarrow> \<not> flt now x \<Longrightarrow> False" for x by simp
  then show ?thesis using advance status
    by (auto simp: should_advance_phase_def compute_market_status_def snapshot_status_def Let_def
        res_simps terminal_def split: option.splits if_splits)
qed

theorem advance_reports_next_phase_witness:
  "\<not> terminal RESOLVING \<and> phase RESOLVING = Suc (phase EVIDENCE) \<and>
   RESOLVING = (if EVIDENCE = EVIDENCE then RESOLVING else EVIDENCE)"
proof (rule advance_reports_next_phase)
  let ?cfg = "[(''evidence_window_hours'', VInt 1), (''resolution_window_hours'', VInt 1)]"
  let ?c = "[market_event ''prediction_create'' 1 [], market_event ''market_snapshot'' 2 []]"
  show "should_advance_phase ?cfg ''m'' ?c (Fin 3602) = Inr (Some (EVIDENCE, RESOLVING))" by code_simp
  show "compute_market_status ?cfg ''m'' ?c (Fin 3602) = Inr RESOLVING" by code_simp
qed

end
