(* ===== verification/Market_Evidence.thy ===== *)
theory Market_Evidence
  imports Chain_Events Py_Hashlib Config
begin

section \<open>Evidence bundles\<close>

text \<open>
  Models \<open>services/infonet/markets/evidence.py\<close>: the content and submission hashes and the
  walk over the evidence of a market that marks the first submitter of each side. NFC
  normalisation is the identity on the code points below 256 the model's strings hold.
\<close>

subsection \<open>Hashes\<close>

definition is_outcome :: "pyval \<Rightarrow> bool" where
  "is_outcome v \<longleftrightarrow> v = VStr ''yes'' \<or> v = VStr ''no''"

definition evidence_content_hash :: "string \<Rightarrow> string \<Rightarrow> string list \<Rightarrow> string \<Rightarrow> string res" where
  "evidence_content_hash mid outcome hashes descr =
     (if \<not> is_outcome (VStr outcome) then Inl ValueError
      else Inr (sha256_hex (join ''|''
        [''evidence_content'', mid, outcome, join '','' (sort hashes), descr])))"

definition submission_hash :: "string \<Rightarrow> string \<Rightarrow> pyfloat \<Rightarrow> string" where
  "submission_hash content node ts =
     sha256_hex (join ''|'' [''evidence_submission'', content, node, repr_float ts])"

subsection \<open>Collecting the bundles\<close>

record evidence_bundle =
  b_node :: string
  b_market :: string
  b_outcome :: string
  b_hashes :: "string list"
  b_description :: string
  b_bond :: pyfloat
  b_timestamp :: pyfloat
  b_sequence :: int
  b_content_hash :: string
  b_submission_hash :: string
  b_first :: bool

text \<open>
  The loop's variables: the content hashes seen per side (values, as a producer may supply any
  JSON value), whether the side's first submitter is already set, and the bundles so far.
\<close>

record evidence_state =
  seen_content :: "string \<Rightarrow> pyval list"
  first_set :: "string \<Rightarrow> bool"
  bundles :: "evidence_bundle list"

definition evidence_start :: evidence_state where
  "evidence_start = \<lparr>seen_content = (\<lambda>_. []), first_set = (\<lambda>_. False), bundles = []\<rparr>"

definition evidence_events :: "string \<Rightarrow> event list \<Rightarrow> event list" where
  "evidence_events mid es =
     filter (\<lambda>e. etype e ''evidence_submit'' \<and> eget (payload e) ''market_id'' = VStr mid) es"

definition bond_value :: "pyval \<Rightarrow> pyfloat res" where
  "bond_value v =
     (if v = VNone then Inr (Fin 0)
      else rbind (catch_tv (py_float v)) (\<lambda>f. Inr (get_or f (Fin 0))))"

text \<open>
  A content hash that is present and truthy is taken as it is, otherwise it is computed; using an
  unhashable one as a set element raises TypeError.
\<close>

definition content_hash_of :: "string \<Rightarrow> string \<Rightarrow> pyval list \<Rightarrow> pyval \<Rightarrow> event \<Rightarrow> pyval res" where
  "content_hash_of mid outcome evhashes descr p =
     (let given = eget p ''evidence_content_hash'' in
      if truthy given then Inr given
      else rbind (evidence_content_hash mid outcome (map py_str evhashes) (py_str descr)) (\<lambda>h. Inr (VStr h)))"

definition record_bundle :: "string \<Rightarrow> pyval \<Rightarrow> evidence_bundle \<Rightarrow> evidence_state \<Rightarrow> evidence_state" where
  "record_bundle side chash b st =
     (let first = \<not> list_ex (scalar_eq chash) (seen_content st side) \<and> \<not> first_set st side
      in st\<lparr>seen_content := (seen_content st)(side := chash # seen_content st side),
            first_set := (first_set st)(side := first_set st side \<or> first),
            bundles := bundles st @ [b\<lparr>b_first := first\<rparr>]\<rparr>)"

definition evidence_step :: "string \<Rightarrow> event \<Rightarrow> evidence_state \<Rightarrow> evidence_state res" where
  "evidence_step mid e st =
     (let p = payload e; evh = py_or (eget p ''evidence_hashes'') (VList []);
          descr = py_or (eget p ''source_description'') (VStr []) in
      case nonempty_str (eget e ''node_id'') of
        None \<Rightarrow> Inr st
      | Some node \<Rightarrow>
          (case eget p ''claimed_outcome'' of
             VStr side \<Rightarrow>
               if \<not> is_outcome (VStr side) then Inr st
               else (case evh of
                 VList hs \<Rightarrow>
                   rbind (bond_value (eget p ''bond'')) (\<lambda>bond.
                   rbind (event_ts e) (\<lambda>ts.
                   rbind (event_seq e) (\<lambda>seqn.
                   rbind (content_hash_of mid side hs descr p) (\<lambda>chash.
                   let shash = py_or (eget p ''submission_hash'')
                                 (VStr (submission_hash (py_str chash) node ts)) in
                   if \<not> hashable chash then Inl TypeError
                   else Inr (record_bundle side chash
                     \<lparr>b_node = node, b_market = mid, b_outcome = side, b_hashes = map py_str hs,
                      b_description = py_str descr, b_bond = bond, b_timestamp = ts,
                      b_sequence = seqn, b_content_hash = py_str chash,
                      b_submission_hash = py_str shash, b_first = False\<rparr> st)))))
               | _ \<Rightarrow> Inr st)
           | _ \<Rightarrow> Inr st))"

definition collect_evidence :: "string \<Rightarrow> chain \<Rightarrow> evidence_bundle list res" where
  "collect_evidence mid c =
     rbind (chain_sort (evidence_events mid (dict_events c))) (\<lambda>es.
     rbind (foldR (evidence_step mid) es evidence_start) (\<lambda>st. Inr (bundles st)))"

definition is_first_for_side :: "string \<Rightarrow> string \<Rightarrow> string \<Rightarrow> chain \<Rightarrow> bool res" where
  "is_first_for_side mid outcome candidate c =
     (if \<not> is_outcome (VStr outcome) then Inr False
      else rbind (collect_evidence mid c) (\<lambda>bs. Inr (\<not> list_ex (\<lambda>b. b_outcome b = outcome) bs)))"

subsection \<open>Who is first\<close>

text \<open>
  The invariant of the loop: a side's first submitter is set as soon as the side has a bundle, a
  hash is only ever seen on a side that has one, and the marked bundles are the first of their
  side.
\<close>

definition first_marked :: "evidence_bundle list \<Rightarrow> bool" where
  "first_marked bs \<longleftrightarrow>
     (\<forall>i < length bs. b_first (bs ! i) \<longleftrightarrow> (\<forall>j < i. b_outcome (bs ! j) \<noteq> b_outcome (bs ! i)))"

definition evidence_inv :: "evidence_state \<Rightarrow> bool" where
  "evidence_inv st \<longleftrightarrow> first_marked (bundles st) \<and>
     (\<forall>side. first_set st side \<longleftrightarrow> (\<exists>b \<in> set (bundles st). b_outcome b = side)) \<and>
     (\<forall>side. seen_content st side \<noteq> [] \<longrightarrow> first_set st side) \<and>
     (\<forall>b \<in> set (bundles st). is_outcome (VStr (b_outcome b)) \<and> b_node b \<noteq> [] \<and> valid64 (b_timestamp b))"

lemma first_marked_snoc:
  "first_marked (bs @ [b]) \<longleftrightarrow> first_marked bs \<and> (b_first b \<longleftrightarrow> (\<forall>b' \<in> set bs. b_outcome b' \<noteq> b_outcome b))"
proof -
  have "(\<forall>i < Suc (length bs). P i) \<longleftrightarrow> (\<forall>i < length bs. P i) \<and> P (length bs)" for P
    by (auto simp: less_Suc_eq)
  then show ?thesis
    by (auto simp: first_marked_def nth_append all_set_conv_all_nth)
qed

lemma record_bundle_inv:
  assumes "evidence_inv st" "is_outcome (VStr side)" "b_outcome b = side" "b_node b \<noteq> []"
    "valid64 (b_timestamp b)"
  shows "evidence_inv (record_bundle side chash b st)"
proof -
  have fresh: "first_set st side \<or> seen_content st side = []"
    using assms(1) by (auto simp: evidence_inv_def)
  have "(\<not> list_ex (scalar_eq chash) (seen_content st side) \<and> \<not> first_set st side) \<longleftrightarrow> \<not> first_set st side"
    using fresh by auto
  then show ?thesis using assms
    by (auto simp: evidence_inv_def record_bundle_def Let_def first_marked_snoc)
qed

lemma valid64_event_ts: "event_ts e = Inr t \<Longrightarrow> valid64 t"
  by (auto simp: event_ts_def dest: valid64_py_float)

lemma evidence_step_inv:
  "evidence_inv st \<Longrightarrow> evidence_step mid e st = Inr st' \<Longrightarrow> evidence_inv st'"
  by (auto simp: evidence_step_def Let_def res_simps chain_simps
      split: option.splits pyval.splits if_splits intro!: record_bundle_inv dest: valid64_event_ts)

lemma collect_evidence_inv: "collect_evidence mid c = Inr bs \<Longrightarrow> \<exists>st. bundles st = bs \<and> evidence_inv st"
proof -
  assume "collect_evidence mid c = Inr bs"
  then obtain es st where "foldR (evidence_step mid) es evidence_start = Inr st" "bundles st = bs"
    by (auto simp: collect_evidence_def res_simps)
  moreover have "evidence_inv evidence_start"
    by (simp add: evidence_inv_def evidence_start_def first_marked_def)
  ultimately show ?thesis
    using foldR_invariant [of _ es _ _ evidence_inv] evidence_step_inv by blast
qed

lemma collect_evidence_first: "collect_evidence mid c = Inr bs \<Longrightarrow> first_marked bs"
  using collect_evidence_inv by (auto simp: evidence_inv_def)

lemma collect_evidence_outcome:
  "collect_evidence mid c = Inr bs \<Longrightarrow> b \<in> set bs \<Longrightarrow> b_outcome b = ''yes'' \<or> b_outcome b = ''no''"
  using collect_evidence_inv by (fastforce simp: evidence_inv_def is_outcome_def)

subsection \<open>Chain order of the bundles\<close>

definition bundle_key :: "evidence_bundle \<Rightarrow> pyfloat \<times> int" where
  "bundle_key b = (b_timestamp b, b_sequence b)"

lemma evidence_step_key:
  "evidence_step mid e st = Inr st' \<Longrightarrow>
   bundles st' = bundles st \<or> (\<exists>b. bundles st' = bundles st @ [b] \<and> order_key e = Inr (bundle_key b))"
  by (auto simp: evidence_step_def Let_def res_simps chain_simps record_bundle_def bundle_key_def
      order_key_def split: option.splits pyval.splits if_splits)

lemma evidence_fold_sorted:
  assumes "foldR (evidence_step mid) es st = Inr st'" and "mapR order_key es = Inr ks" and "sorted ks"
  shows "\<exists>bs. bundles st' = bundles st @ bs \<and> sorted (map bundle_key bs) \<and> bundle_key ` set bs \<subseteq> set ks"
  using assms
proof (induction es arbitrary: st ks)
  case Nil
  then show ?case by simp
next
  case (Cons e es)
  from Cons.prems(1) obtain st1 where st1: "evidence_step mid e st = Inr st1"
    "foldR (evidence_step mid) es st1 = Inr st'" by (auto simp: res_simps)
  from Cons.prems(2) obtain k ks' where ks: "order_key e = Inr k" "mapR order_key es = Inr ks'" "ks = k # ks'"
    by (auto simp: res_simps)
  from Cons.prems(3) ks(3) have sorted: "sorted ks'" "\<forall>x \<in> set ks'. k \<le> x" by auto
  obtain bs where bs: "bundles st' = bundles st1 @ bs" "sorted (map bundle_key bs)"
    "bundle_key ` set bs \<subseteq> set ks'"
    using Cons.IH [OF st1(2) ks(2) sorted(1)] by blast
  from evidence_step_key [OF st1(1)] show ?case
  proof
    assume "bundles st1 = bundles st"
    then show ?thesis using bs ks(3) by auto
  next
    assume "\<exists>b. bundles st1 = bundles st @ [b] \<and> order_key e = Inr (bundle_key b)"
    then obtain b where b: "bundles st1 = bundles st @ [b]" "bundle_key b = k" using ks(1) by auto
    then have "sorted (map bundle_key (b # bs))" using bs(2,3) sorted(2) by auto
    then show ?thesis using b bs ks(3) by (intro exI [of _ "b # bs"]) auto
  qed
qed

lemma collect_evidence_sorted: "collect_evidence mid c = Inr bs \<Longrightarrow> sorted (map bundle_key bs)"
proof -
  assume "collect_evidence mid c = Inr bs"
  then obtain es st where es: "chain_sort (evidence_events mid (dict_events c)) = Inr es"
    "foldR (evidence_step mid) es evidence_start = Inr st" "bundles st = bs"
    by (auto simp: collect_evidence_def res_simps)
  from sort_onR_sorted [OF es(1) [unfolded chain_sort_def]]
  obtain ks where "mapR order_key es = Inr ks" "sorted ks" by blast
  from evidence_fold_sorted [OF es(2) this] es(3) show ?thesis by (auto simp: evidence_start_def)
qed

subsection \<open>Properties\<close>

text \<open>
  First submitters. The bundles are in chain order (timestamp, then sequence), and a bundle is
  marked as first for its side exactly if no earlier bundle claims that side: every side with
  evidence has exactly one first submitter, the earliest one. Content hashes play no part in it.
\<close>

theorem first_submitter_is_earliest:
  assumes "collect_evidence mid c = Inr bs"
  shows "(\<forall>i < length bs. b_first (bs ! i) \<longleftrightarrow> (\<forall>j < i. b_outcome (bs ! j) \<noteq> b_outcome (bs ! i))) \<and>
         (\<forall>i j. i \<le> j \<longrightarrow> j < length bs \<longrightarrow> bundle_key (bs ! i) \<le> bundle_key (bs ! j))"
  using collect_evidence_first [OF assms] collect_evidence_sorted [OF assms]
  by (auto simp: first_marked_def sorted_iff_nth_mono)

definition evidence_event :: "string \<Rightarrow> int \<Rightarrow> string \<Rightarrow> string \<Rightarrow> pyval" where
  "evidence_event node ts side h = VDict
     [(''event_type'', VStr ''evidence_submit''), (''node_id'', VStr node), (''timestamp'', VInt ts),
      (''sequence'', VInt 1),
      (''payload'', VDict [(''market_id'', VStr ''m''), (''claimed_outcome'', VStr side),
         (''evidence_content_hash'', VStr h), (''submission_hash'', VStr h), (''bond'', VInt 2)])]"

lemma two_submitters:
  "rbind (collect_evidence ''m'' [evidence_event ''late'' 9 ''yes'' ''h'', evidence_event ''early'' 3 ''yes'' ''h''])
     (\<lambda>bs. Inr (map b_node bs, map b_first bs)) = Inr ([''early'', ''late''], [True, False])"
  by code_simp

theorem first_submitter_is_earliest_witness:
  "\<exists>bs. collect_evidence ''m'' [evidence_event ''late'' 9 ''yes'' ''h'', evidence_event ''early'' 3 ''yes'' ''h''] = Inr bs \<and>
     map b_node bs = [''early'', ''late''] \<and> (\<forall>i \<le> 1. bundle_key (bs ! i) \<le> bundle_key (bs ! 1))"
proof -
  obtain bs where bs: "collect_evidence ''m''
      [evidence_event ''late'' 9 ''yes'' ''h'', evidence_event ''early'' 3 ''yes'' ''h''] = Inr bs"
    "map b_node bs = [''early'', ''late'']" using two_submitters by (auto simp: res_simps)
  moreover have "length bs = 2" using bs(2) by (metis length_map list.size(3,4) numeral_2_eq_2 plus_1_eq_Suc One_nat_def add.commute)
  ultimately show ?thesis using first_submitter_is_earliest [OF bs(1)] by auto
qed

text \<open>
  Agreement on evidence. Two nodes that hold the same events in different orders, with no two
  evidence events of the market at the same timestamp and sequence, collect the same bundles and
  mark the same first submitters.
\<close>

theorem evidence_order_independent:
  assumes "mset c' = mset c"
    and "mapR order_key (evidence_events mid (dict_events c)) = Inr ks" and "distinct ks"
  shows "collect_evidence mid c' = collect_evidence mid c"
proof -
  have "mset (evidence_events mid (dict_events c')) = mset (evidence_events mid (dict_events c))"
    using dict_events_mset [OF assms(1)] by (simp add: evidence_events_def mset_filter)
  then have "chain_sort (evidence_events mid (dict_events c')) = chain_sort (evidence_events mid (dict_events c))"
    unfolding chain_sort_def by (rule sort_onR_perm [OF assms(2,3)])
  then show ?thesis by (simp add: collect_evidence_def)
qed

theorem evidence_order_independent_witness:
  "collect_evidence ''m'' [evidence_event ''late'' 9 ''yes'' ''h'', evidence_event ''early'' 3 ''yes'' ''h''] =
   collect_evidence ''m'' [evidence_event ''early'' 3 ''yes'' ''h'', evidence_event ''late'' 9 ''yes'' ''h'']"
proof (rule evidence_order_independent)
  show "mapR order_key (evidence_events ''m'' (dict_events
      [evidence_event ''early'' 3 ''yes'' ''h'', evidence_event ''late'' 9 ''yes'' ''h''])) =
    Inr [(Fin 3, 1), (Fin 9, 1)]" by code_simp
qed simp_all

text \<open>
  The content hash does not separate its inputs. The evidence hashes are joined with commas
  without escaping, so one hash containing a comma and the two hashes around it have the same
  content hash, and duplicate detection confuses the two bundles.
\<close>

theorem evidence_hash_ambiguous:
  "evidence_content_hash mid outcome [a @ '','' @ a] d = evidence_content_hash mid outcome [a, a] d"
  by (simp add: evidence_content_hash_def)

end
