(* ===== verification/Settlement.thy ===== *)
theory Settlement
  imports Chain_Events Config
begin

section \<open>Ledgers of payouts and the stalemate burn\<close>

text \<open>
  The interface of a payout ledger (what the code writes \<open>d[k] = d.get(k, 0.0) + v\<close>) with the
  laws its clients use, its interpretation on the insertion-ordered dictionary, and the model of
  \<open>services/infonet/markets/stalemate_burn.py\<close>.
\<close>

subsection \<open>The ledger interface\<close>

locale payout_ledger =
  fixes fresh :: 'd
    and balance :: "'d \<Rightarrow> 'k \<Rightarrow> pyfloat"
    and holders :: "'d \<Rightarrow> 'k set"
    and credit :: "'d \<Rightarrow> 'k \<Rightarrow> pyfloat \<Rightarrow> 'd"
  assumes balance_fresh: "balance fresh k = Fin 0"
    and balance_credit: "balance (credit d k v) k' = (if k' = k then fadd (balance d k) v else balance d k')"
    and holders_fresh: "holders fresh = {}"
    and holders_credit: "holders (credit d k v) = insert k (holders d)"
begin

lemma holders_credits: "holders (fold (\<lambda>(k, v) d. credit d k v) kvs d) = holders d \<union> fst ` set kvs"
  by (induction kvs arbitrary: d) (auto simp: holders_credit)

lemma balance_credits:
  "balance (fold (\<lambda>(k, v) d. credit d k v) kvs d) k =
   fold (\<lambda>v s. fadd s v) (map snd (filter (\<lambda>kv. fst kv = k) kvs)) (balance d k)"
  by (induction kvs arbitrary: d) (auto simp: balance_credit)

lemma balance_credits_fresh:
  "balance (fold (\<lambda>(k, v) d. credit d k v) kvs fresh) k = fsum (map snd (filter (\<lambda>kv. fst kv = k) kvs))"
  by (simp add: balance_credits balance_fresh fsum_def)

lemma balance_credits_nonneg:
  "(\<And>k v. (k, v) \<in> set kvs \<Longrightarrow> fle (Fin 0) v) \<Longrightarrow>
   fle (Fin 0) (balance (fold (\<lambda>(k, v) d. credit d k v) kvs fresh) k)"
  unfolding balance_credits_fresh by (rule fsum_nonneg) auto

lemma balance_credits_none:
  "k \<notin> fst ` set kvs \<Longrightarrow> balance (fold (\<lambda>(k, v) d. credit d k v) kvs d) k = balance d k"
  by (induction kvs arbitrary: d) (auto simp: balance_credit)

end

definition ledger_get :: "('k, pyfloat) dict \<Rightarrow> 'k \<Rightarrow> pyfloat" where
  "ledger_get d k = get_or (dict_get d k) (Fin 0)"

definition ledger_add :: "('k, pyfloat) dict \<Rightarrow> 'k \<Rightarrow> pyfloat \<Rightarrow> ('k, pyfloat) dict" where
  "ledger_add d k v = dict_set d k (fadd (ledger_get d k) v)"

definition ledger_add_all :: "('k, pyfloat) dict \<Rightarrow> ('k \<times> pyfloat) list \<Rightarrow> ('k, pyfloat) dict" where
  "ledger_add_all d kvs = fold (\<lambda>(k, v) d. ledger_add d k v) kvs d"

interpretation ledger: payout_ledger "[]" ledger_get "\<lambda>d. set (map fst d)" ledger_add
proof unfold_locales
  show "ledger_get [] k = Fin 0" for k :: 'a by (simp add: ledger_get_def)
  show "ledger_get (ledger_add d k v) k' = (if k' = k then fadd (ledger_get d k) v else ledger_get d k')"
    for d :: "('a, pyfloat) dict" and k v k'
    by (simp add: ledger_get_def ledger_add_def dict_get_set)
  show "set (map fst (ledger_add d k v)) = insert k (set (map fst d))" for d :: "('a, pyfloat) dict" and k v
    by (simp add: ledger_add_def dict_keys_set del: set_map)
qed simp

lemma ledger_add_all_append: "ledger_add_all d (xs @ ys) = ledger_add_all (ledger_add_all d xs) ys"
  by (simp add: ledger_add_all_def)

lemma ledger_add_all_Nil [simp]: "ledger_add_all d [] = d"
  by (simp add: ledger_add_all_def)

lemmas ledger_keys = ledger.holders_credits [folded ledger_add_all_def]
  and ledger_sum = ledger.balance_credits_fresh [folded ledger_add_all_def]
  and ledger_balance = ledger.balance_credits [folded ledger_add_all_def]
  and ledger_nonneg = ledger.balance_credits_nonneg [folded ledger_add_all_def]
  and ledger_untouched = ledger.balance_credits_none [folded ledger_add_all_def]

subsection \<open>markets/stalemate\_burn.py\<close>

text \<open>This module's \<open>_finite_float\<close> does not catch OverflowError.\<close>

definition finite_float_tv :: "pyval \<Rightarrow> pyfloat option res" where
  "finite_float_tv v =
     rbind (catch_tv (py_float v)) (\<lambda>r.
     Inr (case r of None \<Rightarrow> None | Some f \<Rightarrow> if isfinite f then Some f else None))"

definition required_finite :: "pyval \<Rightarrow> pyfloat res" where
  "required_finite v =
     rbind (finite_float_tv v) (\<lambda>r. case r of None \<Rightarrow> Inl ValueError | Some f \<Rightarrow> Inr f)"

definition stalemate_burn_pct :: "config \<Rightarrow> pyfloat res" where
  "stalemate_burn_pct cfg = rbind (cfg_get cfg ''resolution_stalemate_burn_pct'') required_finite"

definition burn_pct_or_default :: "config \<Rightarrow> pyfloat option \<Rightarrow> pyfloat res" where
  "burn_pct_or_default cfg pct =
     rbind (case pct of None \<Rightarrow> stalemate_burn_pct cfg | Some p \<Rightarrow> Inr p) (\<lambda>p. required_finite (VFloat p))"

definition burn_split :: "pyfloat \<Rightarrow> pyfloat \<Rightarrow> pyfloat \<times> pyfloat" where
  "burn_split amt pct =
     (if fle pct (Fin 0) then (Fin 0, amt)
      else if fle (Fin 1) pct then (amt, Fin 0)
      else (fmul amt pct, fsub amt (fmul amt pct)))"

definition split_burn_and_return ::
  "config \<Rightarrow> pyval \<Rightarrow> pyfloat option \<Rightarrow> (pyfloat \<times> pyfloat) res" where
  "split_burn_and_return cfg amount pct =
     skipR (finite_float_tv amount) (Fin 0, Fin 0) (\<lambda>amt.
         if fle amt (Fin 0) then Inr (Fin 0, Fin 0)
         else rbind (burn_pct_or_default cfg pct) (\<lambda>p. Inr (burn_split amt p)))"

type_synonym payout_key = "string \<times> string"

definition is_rep_type :: "pyval \<Rightarrow> bool" where
  "is_rep_type v \<longleftrightarrow> v = VStr ''oracle'' \<or> v = VStr ''common''"

definition burn_stake ::
  "config \<Rightarrow> pyfloat \<Rightarrow> event \<Rightarrow> (payout_key, pyfloat) dict \<times> pyfloat \<Rightarrow> ((payout_key, pyfloat) dict \<times> pyfloat) res" where
  "burn_stake cfg pct s acc =
     (case acc of (returned, burned) \<Rightarrow>
        rbind (finite_float_tv (eget s ''amount'')) (\<lambda>r.
        case (r, eget s ''node_id'', eget s ''rep_type'') of
          (Some amt, VStr node, VStr rep) \<Rightarrow>
            if fle amt (Fin 0) \<or> \<not> is_rep_type (VStr rep) then Inr acc
            else rbind (split_burn_and_return cfg (VFloat amt) (Some pct)) (\<lambda>(burn, ret).
              Inr (if flt (Fin 0) ret then ledger_add returned (node, rep) ret else returned,
                   fadd burned burn))
        | _ \<Rightarrow> Inr acc))"

definition apply_to_stakes ::
  "config \<Rightarrow> event list \<Rightarrow> pyfloat option \<Rightarrow> ((payout_key, pyfloat) dict \<times> pyfloat) res" where
  "apply_to_stakes cfg stakes pct =
     rbind (burn_pct_or_default cfg pct) (\<lambda>p. foldR (burn_stake cfg p) stakes ([], Fin 0))"

subsection \<open>The burn never creates value\<close>

lemma finite_float_tv_Some:
  "finite_float_tv v = Inr (Some f) \<longleftrightarrow> py_float v = Inr f \<and> isfinite f"
  by (auto simp: finite_float_tv_def res_simps split: option.splits if_splits)

lemma finite_float_tv_Fin: "finite_float_tv v = Inr (Some f) \<Longrightarrow> \<exists>q. f = Fin q \<and> rep64 q \<and> \<bar>q\<bar> < 2 ^ 1024"
  using valid64_py_float [of v f] by (auto simp: finite_float_tv_Some isfinite_iff)

lemma required_finite_Fin: "required_finite v = Inr f \<Longrightarrow> \<exists>q. f = Fin q \<and> rep64 q \<and> \<bar>q\<bar> < 2 ^ 1024"
  using finite_float_tv_Fin by (auto simp: required_finite_def res_simps split: option.splits)

lemma burn_split_bounds:
  assumes "0 < a" "valid64 (Fin a)"
  shows "\<exists>b r. burn_split (Fin a) (Fin p) = (Fin b, Fin r) \<and> 0 \<le> b \<and> b \<le> a \<and> 0 \<le> r \<and> r \<le> a \<and>
    rep64 b \<and> rep64 r"
proof -
  consider "p \<le> 0" | "1 \<le> p" | "0 < p" "p < 1" by linarith
  then show ?thesis
  proof cases
    case 3
    obtain b where b: "fmul (Fin a) (Fin p) = Fin b" "0 \<le> b" "b \<le> a" "rep64 b"
      using fmul_fraction [of a p] assms 3 by auto
    obtain r where "fsub (Fin a) (Fin b) = Fin r" "0 \<le> r" "r \<le> a" "rep64 r"
      using fsub_finite [of b a] assms b by auto
    then show ?thesis using 3 b by (simp add: burn_split_def)
  qed (use assms in \<open>auto simp: burn_split_def\<close>)
qed

end
