(* ===== verification/Identity_Rotation.thy ===== *)
theory Identity_Rotation
  imports Chain_Events
begin

section \<open>Identity rotation\<close>

text \<open>
  Models \<open>services/infonet/identity_rotation.py\<close>: the stakes that block a rotation and the
  depth-first search for the identities a node has rotated into. Python sets of strings are lists
  without repetitions here; the search is proved to compute the transitive closure, so the order
  in which a set is iterated does not matter.
\<close>

subsection \<open>Settled obligations\<close>

definition event_id_field :: "string \<Rightarrow> event \<Rightarrow> string option" where
  "event_id_field k e = nonempty_str (eget (payload e) k)"

definition market_status_lookup :: "event list \<Rightarrow> (string, string) dict" where
  "market_status_lookup es =
     fold (\<lambda>e st. if \<not> etype e ''resolution_finalize'' then st
        else case event_id_field ''market_id'' e of
          None \<Rightarrow> st
        | Some mid \<Rightarrow> dict_set st mid
            (if eget (payload e) ''outcome'' = VStr ''invalid'' then ''invalid'' else ''final'')) es []"

definition dispute_status_lookup :: "event list \<Rightarrow> (string, string) dict" where
  "dispute_status_lookup es =
     fold (\<lambda>e st. if \<not> etype e ''dispute_resolve'' then st
        else case event_id_field ''dispute_id'' e of
          None \<Rightarrow> st
        | Some did \<Rightarrow> dict_set st did ''resolved'') es []"

definition truth_stake_resolved_messages :: "event list \<Rightarrow> string list" where
  "truth_stake_resolved_messages es =
     fold (\<lambda>e ms. if \<not> etype e ''truth_stake_resolve'' then ms
        else case event_id_field ''message_id'' e of
          None \<Rightarrow> ms
        | Some m \<Rightarrow> List.insert m ms) es []"

subsection \<open>Active stakes\<close>

definition active_resolution_stakes :: "string \<Rightarrow> event list \<Rightarrow> string list" where
  "active_resolution_stakes node es =
     (let status = market_status_lookup es in
      List.map_filter (\<lambda>e.
        if \<not> etype e ''resolution_stake'' \<or> eget e ''node_id'' \<noteq> VStr node then None
        else case event_id_field ''market_id'' e of
          None \<Rightarrow> None
        | Some mid \<Rightarrow> if dict_has status mid then None else Some mid) es)"

definition active_dispute_stakes :: "string \<Rightarrow> event list \<Rightarrow> string list" where
  "active_dispute_stakes node es =
     (let status = dispute_status_lookup es in
      List.map_filter (\<lambda>e.
        if \<not> etype e ''dispute_stake'' \<or> eget e ''node_id'' \<noteq> VStr node then None
        else case event_id_field ''dispute_id'' e of
          None \<Rightarrow> None
        | Some did \<Rightarrow> if dict_has status did then None else Some did) es)"

text \<open>
  The expiry of a truth stake; the conversions inside the \<open>try\<close> drop the stake, the product with
  the day length is outside it and overflows for enormous durations.
\<close>

definition truth_expiry :: "event \<Rightarrow> pyfloat option res" where
  "truth_expiry e =
     rbind (catch_tv (rbind (event_ts e) (\<lambda>t.
              rbind (py_int (py_or (eget (payload e) ''duration_days'') (VInt 0))) (\<lambda>d. Inr (t, d))))) (\<lambda>r.
     case r of
       None \<Rightarrow> Inr None
     | Some (t, d) \<Rightarrow> rbind (int_to_float d) (\<lambda>df. Inr (Some (fadd t (fmul df (Fin 86400))))))"

definition truth_stake_step :: "string \<Rightarrow> string list \<Rightarrow> pyfloat \<Rightarrow> event \<Rightarrow> string list \<Rightarrow> string list res" where
  "truth_stake_step node resolved now e out =
     (if \<not> etype e ''truth_stake_place'' \<or> eget e ''node_id'' \<noteq> VStr node then Inr out
      else case event_id_field ''message_id'' e of
        None \<Rightarrow> Inr out
      | Some mid \<Rightarrow>
          if mid \<in> set resolved then Inr out
          else rbind (truth_expiry e) (\<lambda>r.
            case r of
              None \<Rightarrow> Inr out
            | Some expires \<Rightarrow> Inr (if flt now expires then out @ [mid] else out)))"

definition active_truth_stakes :: "string \<Rightarrow> event list \<Rightarrow> pyfloat \<Rightarrow> string list res" where
  "active_truth_stakes node es now =
     foldR (truth_stake_step node (truth_stake_resolved_messages es) now) es []"

subsection \<open>The gate\<close>

record rotation_blocker =
  rb_kind :: string
  rb_count :: int
  rb_sample :: "string list"

record rotation_decision =
  accepted :: bool
  blockers :: "rotation_blocker list"

definition blocker :: "string \<Rightarrow> string list \<Rightarrow> rotation_blocker list" where
  "blocker kind ids =
     (if ids = [] then []
      else [\<lparr>rb_kind = kind, rb_count = int (length ids), rb_sample = take 5 ids\<rparr>])"

definition validate_rotation :: "event \<Rightarrow> chain \<Rightarrow> pyfloat \<Rightarrow> rotation_decision res" where
  "validate_rotation ev c now =
     (if \<not> etype ev ''identity_rotate'' then Inl ValueError
      else case nonempty_str (eget (payload ev) ''old_node_id'') of
        None \<Rightarrow> Inl ValueError
      | Some old \<Rightarrow>
          let es = dict_events c in
          rbind (active_truth_stakes old es now) (\<lambda>tru.
          let bs = blocker ''resolution_stake'' (active_resolution_stakes old es)
                 @ blocker ''dispute_stake'' (active_dispute_stakes old es)
                 @ blocker ''truth_stake'' tru
          in Inr \<lparr>accepted = (bs = []), blockers = bs\<rparr>))"

subsection \<open>Descendants\<close>

definition rotation_edge :: "event \<Rightarrow> (string \<times> string) option" where
  "rotation_edge e =
     (if \<not> etype e ''identity_rotate'' then None
      else case (nonempty_str (eget (payload e) ''old_node_id''), nonempty_str (eget e ''node_id'')) of
        (Some old, Some new) \<Rightarrow> if old = new then None else Some (old, new)
      | _ \<Rightarrow> None)"

definition successors :: "(string, string list) dict \<Rightarrow> string \<Rightarrow> string list" where
  "successors fwd n = get_or (dict_get fwd n) []"

definition add_rotation :: "event \<Rightarrow> (string, string list) dict \<Rightarrow> (string, string list) dict" where
  "add_rotation e fwd =
     (case rotation_edge e of
        None \<Rightarrow> fwd
      | Some (old, new) \<Rightarrow>
          let ns = successors fwd old
          in dict_set fwd old (if new \<in> set ns then ns else ns @ [new]))"

definition forward_map :: "event list \<Rightarrow> (string, string list) dict" where
  "forward_map es = fold add_rotation es []"

text \<open>
  The search: the stack has its top at the head, \<open>out\<close> is the set of identities found. Each round
  either drops the top or adds it to \<open>out\<close> and pushes its successors.
\<close>

definition pending :: "(string, string list) dict \<Rightarrow> string list \<Rightarrow> string list \<Rightarrow> string set" where
  "pending fwd st out = (set st \<union> \<Union> (set ` snd ` set fwd)) - set out"

lemma successors_subset: "set (successors fwd n) \<subseteq> \<Union> (set ` snd ` set fwd)"
  by (cases "dict_get fwd n") (auto simp: successors_def dest!: dict_get_mem)

function descend :: "(string, string list) dict \<Rightarrow> string list \<Rightarrow> string list \<Rightarrow> string list" where
  "descend fwd [] out = out"
| "descend fwd (cur # st) out =
     (if cur \<in> set out then descend fwd st out
      else descend fwd (rev (filter (\<lambda>n. n \<notin> set (cur # out)) (successors fwd cur)) @ st) (cur # out))"
  by pat_completeness auto
termination
proof (relation "measures [\<lambda>(fwd, st, out). card (pending fwd st out), \<lambda>(fwd, st, out). length st]", goal_cases)
  case 1
  show ?case by simp
next
  case (2 fwd cur st out)
  then have "pending fwd (cur # st) out = pending fwd st out" by (auto simp: pending_def)
  then show ?case by simp
next
  case (3 fwd cur st out)
  let ?st = "rev (filter (\<lambda>n. n \<notin> set (cur # out)) (successors fwd cur)) @ st"
  have "pending fwd ?st (cur # out) \<subset> pending fwd (cur # st) out"
    using 3 successors_subset [of fwd cur] by (auto simp: pending_def)
  moreover have "finite (pending fwd (cur # st) out)" by (simp add: pending_def)
  ultimately have "card (pending fwd ?st (cur # out)) < card (pending fwd (cur # st) out)"
    by (rule psubset_card_mono [rotated])
  then show ?case by simp
qed

definition rotation_descendants :: "string \<Rightarrow> chain \<Rightarrow> string list" where
  "rotation_descendants node c =
     (let fwd = forward_map (dict_events c) in descend fwd (rev (successors fwd node)) [])"

subsection \<open>The search computes the transitive closure\<close>

definition rotations :: "event list \<Rightarrow> (string \<times> string) set" where
  "rotations es = {(old, new). \<exists>e \<in> set es. rotation_edge e = Some (old, new)}"

definition edges :: "(string, string list) dict \<Rightarrow> (string \<times> string) set" where
  "edges fwd = {(a, b). b \<in> set (successors fwd a)}"

lemma successors_add: "set (successors (add_rotation e fwd) a) =
    set (successors fwd a) \<union> {b. rotation_edge e = Some (a, b)}"
  by (auto simp: add_rotation_def successors_def Let_def dict_get_set split: option.splits)

lemma edges_fold: "edges (fold add_rotation es fwd) = edges fwd \<union> rotations es"
proof (induction es arbitrary: fwd)
  case Nil
  then show ?case by (auto simp: rotations_def)
next
  case (Cons e es)
  have "edges (add_rotation e fwd) = edges fwd \<union> {(a, b). rotation_edge e = Some (a, b)}"
    by (auto simp: edges_def successors_add)
  with Cons show ?case by (auto simp: rotations_def)
qed

lemma edges_forward_map: "edges (forward_map es) = rotations es"
proof -
  have "edges [] = {}" by (simp add: edges_def successors_def)
  then show ?thesis by (simp add: forward_map_def edges_fold)
qed

lemma descend_sound:
  "x \<in> set (descend fwd st out) \<Longrightarrow> x \<in> set out \<or> (\<exists>s \<in> set st. (s, x) \<in> (edges fwd)\<^sup>*)"
proof (induction fwd st out rule: descend.induct)
  case (1 fwd out)
  then show ?case by simp
next
  case (2 fwd cur st out)
  show ?case
  proof (cases "cur \<in> set out")
    case True
    then show ?thesis using 2 by auto
  next
    case False
    have step: "(cur, n) \<in> edges fwd" if "n \<in> set (successors fwd cur)" for n
      using that by (simp add: edges_def)
    show ?thesis using False 2 by (auto dest: step intro: converse_rtrancl_into_rtrancl)
  qed
qed

lemma descend_closed:
  "\<forall>x \<in> set out. \<forall>y. (x, y) \<in> edges fwd \<longrightarrow> y \<in> set out \<union> set st \<Longrightarrow>
   set out \<subseteq> set (descend fwd st out) \<and> set st \<subseteq> set (descend fwd st out) \<and>
   (\<forall>x y. x \<in> set (descend fwd st out) \<longrightarrow> (x, y) \<in> edges fwd \<longrightarrow> y \<in> set (descend fwd st out))"
proof (induction fwd st out rule: descend.induct)
  case (1 fwd out)
  then show ?case by auto
next
  case (2 fwd cur st out)
  show ?case
  proof (cases "cur \<in> set out")
    case True
    then have "\<forall>x \<in> set out. \<forall>y. (x, y) \<in> edges fwd \<longrightarrow> y \<in> set out \<union> set st"
      using 2(3) by auto
    with 2(1) True show ?thesis by auto
  next
    case False
    let ?st = "rev (filter (\<lambda>n. n \<notin> set (cur # out)) (successors fwd cur)) @ st"
    have "\<forall>x \<in> set (cur # out). \<forall>y. (x, y) \<in> edges fwd \<longrightarrow> y \<in> set (cur # out) \<union> set ?st"
      using 2(3) by (auto simp: edges_def)
    from 2(2) [OF False this] show ?thesis using False by simp
  qed
qed

lemma rtrancl_closed: "(a, b) \<in> R\<^sup>* \<Longrightarrow> a \<in> S \<Longrightarrow> (\<And>x y. x \<in> S \<Longrightarrow> (x, y) \<in> R \<Longrightarrow> y \<in> S) \<Longrightarrow> b \<in> S"
  by (induction rule: rtrancl_induct) auto

lemma rotation_descendants_set:
  "set (rotation_descendants node c) = {x. (node, x) \<in> (rotations (dict_events c))\<^sup>+}"
proof -
  let ?fwd = "forward_map (dict_events c)"
  let ?out = "descend ?fwd (rev (successors ?fwd node)) []"
  have closed: "set (successors ?fwd node) \<subseteq> set ?out"
    "\<And>x y. x \<in> set ?out \<Longrightarrow> (x, y) \<in> edges ?fwd \<Longrightarrow> y \<in> set ?out"
    using descend_closed [of "[]" ?fwd "rev (successors ?fwd node)"] by auto
  have "x \<in> set ?out \<longleftrightarrow> (node, x) \<in> (edges ?fwd)\<^sup>+" for x
  proof
    assume "x \<in> set ?out"
    then obtain s where "s \<in> set (successors ?fwd node)" "(s, x) \<in> (edges ?fwd)\<^sup>*"
      using descend_sound by fastforce
    then show "(node, x) \<in> (edges ?fwd)\<^sup>+"
      by (auto simp: edges_def intro: rtrancl_into_trancl2)
  next
    assume "(node, x) \<in> (edges ?fwd)\<^sup>+"
    then obtain s where "(node, s) \<in> edges ?fwd" "(s, x) \<in> (edges ?fwd)\<^sup>*"
      by (meson tranclD)
    then show "x \<in> set ?out" using closed
      by (auto simp: edges_def intro: rtrancl_closed)
  qed
  then show ?thesis by (auto simp: rotation_descendants_def Let_def edges_forward_map)
qed

lemma rotations_append: "rotations (es @ es') = rotations es \<union> rotations es'"
  by (auto simp: rotations_def)

subsection \<open>What the gate checks\<close>

definition settled :: "string \<Rightarrow> string \<Rightarrow> string \<Rightarrow> event list \<Rightarrow> bool" where
  "settled t k i es \<longleftrightarrow> (\<exists>e \<in> set es. etype e t \<and> event_id_field k e = Some i)"

lemma keys_fold_lookup:
  assumes "\<And>e st. i \<in> dom (dict_get (f e st)) \<longleftrightarrow> P e \<or> i \<in> dom (dict_get st)"
  shows "i \<in> dom (dict_get (fold f es st)) \<longleftrightarrow> (\<exists>e \<in> set es. P e) \<or> i \<in> dom (dict_get st)"
  using assms by (induction es arbitrary: st) auto

lemma market_settled: "dict_has (market_status_lookup es) i \<longleftrightarrow> settled ''resolution_finalize'' ''market_id'' i es"
proof -
  have "i \<in> dom (dict_get (market_status_lookup es)) \<longleftrightarrow>
      (\<exists>e \<in> set es. etype e ''resolution_finalize'' \<and> event_id_field ''market_id'' e = Some i) \<or>
      i \<in> dom (dict_get ([] :: (string, string) dict))"
    unfolding market_status_lookup_def
    by (rule keys_fold_lookup) (auto simp: dict_get_set split: option.splits if_splits)
  then show ?thesis by (auto simp: dict_has_def settled_def)
qed

lemma dispute_settled: "dict_has (dispute_status_lookup es) i \<longleftrightarrow> settled ''dispute_resolve'' ''dispute_id'' i es"
proof -
  have "i \<in> dom (dict_get (dispute_status_lookup es)) \<longleftrightarrow>
      (\<exists>e \<in> set es. etype e ''dispute_resolve'' \<and> event_id_field ''dispute_id'' e = Some i) \<or>
      i \<in> dom (dict_get ([] :: (string, string) dict))"
    unfolding dispute_status_lookup_def
    by (rule keys_fold_lookup) (auto simp: dict_get_set split: option.splits if_splits)
  then show ?thesis by (auto simp: dict_has_def settled_def)
qed

lemma truth_settled: "i \<in> set (truth_stake_resolved_messages es) \<longleftrightarrow> settled ''truth_stake_resolve'' ''message_id'' i es"
proof -
  have "i \<in> set (fold (\<lambda>e ms. if \<not> etype e ''truth_stake_resolve'' then ms
        else case event_id_field ''message_id'' e of None \<Rightarrow> ms | Some m \<Rightarrow> List.insert m ms) es ms)
      \<longleftrightarrow> settled ''truth_stake_resolve'' ''message_id'' i es \<or> i \<in> set ms" for ms
    by (induction es arbitrary: ms) (auto simp: settled_def split: option.splits)
  then show ?thesis by (simp add: truth_stake_resolved_messages_def)
qed

text \<open>A stake event of \<open>node\<close> on the open obligation \<open>i\<close>.\<close>

definition open_stake :: "string \<Rightarrow> string \<Rightarrow> string \<Rightarrow> string \<Rightarrow> event list \<Rightarrow> event \<Rightarrow> bool" where
  "open_stake node stake k closing es e \<longleftrightarrow>
     etype e stake \<and> eget e ''node_id'' = VStr node \<and>
     (\<exists>i. event_id_field k e = Some i \<and> \<not> settled closing k i es)"

lemma map_filter_Nil: "List.map_filter f xs = [] \<longleftrightarrow> (\<forall>x \<in> set xs. f x = None)"
  by (induction xs) (auto simp: List.map_filter_simps split: option.splits)

lemma no_resolution_stakes: "active_resolution_stakes node es = [] \<longleftrightarrow>
    (\<forall>e \<in> set es. \<not> open_stake node ''resolution_stake'' ''market_id'' ''resolution_finalize'' es e)"
  by (auto simp: active_resolution_stakes_def Let_def map_filter_Nil market_settled open_stake_def
      split: option.splits if_splits)

lemma no_dispute_stakes: "active_dispute_stakes node es = [] \<longleftrightarrow>
    (\<forall>e \<in> set es. \<not> open_stake node ''dispute_stake'' ''dispute_id'' ''dispute_resolve'' es e)"
  by (auto simp: active_dispute_stakes_def Let_def map_filter_Nil dispute_settled open_stake_def
      split: option.splits if_splits)

definition unexpired :: "pyfloat \<Rightarrow> event \<Rightarrow> bool" where
  "unexpired now e \<longleftrightarrow> (\<exists>x. truth_expiry e = Inr (Some x) \<and> flt now x)"

lemma truth_stake_step_Inr:
  assumes "truth_stake_step node (truth_stake_resolved_messages all) now e out = Inr out'"
  shows "out' = [] \<longleftrightarrow> out = [] \<and>
    \<not> (open_stake node ''truth_stake_place'' ''message_id'' ''truth_stake_resolve'' all e \<and> unexpired now e)"
  using assms
  by (auto simp: truth_stake_step_def truth_settled open_stake_def unexpired_def res_simps
      split: if_splits option.splits)

lemma no_truth_stakes:
  assumes "foldR (truth_stake_step node (truth_stake_resolved_messages all) now) es out = Inr out'"
  shows "out' = [] \<longleftrightarrow> out = [] \<and> (\<forall>e \<in> set es.
    \<not> (open_stake node ''truth_stake_place'' ''message_id'' ''truth_stake_resolve'' all e \<and> unexpired now e))"
  using assms
proof (induction es arbitrary: out)
  case Nil
  then show ?case by auto
next
  case (Cons e es)
  from Cons.prems obtain mid where mid:
    "truth_stake_step node (truth_stake_resolved_messages all) now e out = Inr mid"
    "foldR (truth_stake_step node (truth_stake_resolved_messages all) now) es mid = Inr out'"
    by (auto simp: res_simps)
  show ?case using Cons.IH [OF mid(2)] truth_stake_step_Inr [OF mid(1)] by auto
qed

subsection \<open>Properties\<close>

text \<open>
  C25: The descendants of an identity are exactly the identities reachable from it by one or more
  rotations on the chain, whatever the order in which sets are iterated. The origin itself is
  among them exactly if a cycle of rotations leads back to it.
\<close>

theorem rotation_descendants_closure:
  "set (rotation_descendants node c) = {x. (node, x) \<in> (rotations (dict_events c))\<^sup>+}"
  by (rule rotation_descendants_set)

text \<open>
  Descent is never forgotten. Events appended to the chain only add descendants, so an
  identity excluded through its ancestors stays excluded.
\<close>

theorem rotation_descendants_grow:
  "set (rotation_descendants node c) \<subseteq> set (rotation_descendants node (c @ c'))"
  unfolding rotation_descendants_set dict_events_append rotations_append
  by (auto elim: trancl_mono)

text \<open>
  The documentation of the search promises a set without the origin. Two rotations that form a
  cycle, from a to b and back to a, put a among its own descendants.
\<close>

theorem rotation_cycle_contains_origin:
  "''a'' \<in> set (rotation_descendants ''a''
     [VDict [(''event_type'', VStr ''identity_rotate''), (''node_id'', VStr ''b''),
             (''payload'', VDict [(''old_node_id'', VStr ''a'')])],
      VDict [(''event_type'', VStr ''identity_rotate''), (''node_id'', VStr ''a''),
             (''payload'', VDict [(''old_node_id'', VStr ''b'')])]])"
  by code_simp

text \<open>
  C26: The rotation gate. A rotation that is decided is accepted exactly if the old identity has no
  resolution stake on a market without a finalize event, no dispute stake on a dispute without a
  resolve event, and no truth stake that is still running and whose message is unresolved.
\<close>

theorem rotation_gate_exact:
  assumes "validate_rotation ev c now = Inr d"
  shows "\<exists>old. eget (payload ev) ''old_node_id'' = VStr old \<and>
    (accepted d \<longleftrightarrow> (\<forall>e \<in> set (dict_events c).
       \<not> open_stake old ''resolution_stake'' ''market_id'' ''resolution_finalize'' (dict_events c) e \<and>
       \<not> open_stake old ''dispute_stake'' ''dispute_id'' ''dispute_resolve'' (dict_events c) e \<and>
       \<not> (open_stake old ''truth_stake_place'' ''message_id'' ''truth_stake_resolve'' (dict_events c) e \<and>
          unexpired now e)))"
proof -
  from assms obtain old tru where old: "eget (payload ev) ''old_node_id'' = VStr old"
    and tru: "active_truth_stakes old (dict_events c) now = Inr tru"
    and d: "accepted d \<longleftrightarrow> active_resolution_stakes old (dict_events c) = [] \<and>
      active_dispute_stakes old (dict_events c) = [] \<and> tru = []"
    by (auto simp: validate_rotation_def Let_def res_simps chain_simps blocker_def
        split: if_splits option.splits)
  show ?thesis
    using old d no_truth_stakes [OF tru [unfolded active_truth_stakes_def]]
    by (auto simp: no_resolution_stakes no_dispute_stakes)
qed

definition stake_on :: "string \<Rightarrow> pyval" where
  "stake_on mid = VDict [(''event_type'', VStr ''resolution_stake''), (''node_id'', VStr ''a''),
     (''payload'', VDict [(''market_id'', VStr mid)])]"

theorem rotation_gate_exact_witness:
  "validate_rotation [(''event_type'', VStr ''identity_rotate''), (''payload'', VDict [(''old_node_id'', VStr ''a'')])]
     [stake_on ''m''] (Fin 0)
   = Inr \<lparr>accepted = False, blockers = [\<lparr>rb_kind = ''resolution_stake'', rb_count = 1, rb_sample = [''m'']\<rparr>]\<rparr> \<and>
   \<not> (\<forall>e \<in> set (dict_events [stake_on ''m'']).
       \<not> open_stake ''a'' ''resolution_stake'' ''market_id'' ''resolution_finalize'' (dict_events [stake_on ''m'']) e)"
proof -
  have run: "validate_rotation
      [(''event_type'', VStr ''identity_rotate''), (''payload'', VDict [(''old_node_id'', VStr ''a'')])]
      [stake_on ''m''] (Fin 0)
    = Inr \<lparr>accepted = False, blockers = [\<lparr>rb_kind = ''resolution_stake'', rb_count = 1, rb_sample = [''m'']\<rparr>]\<rparr>"
    by code_simp
  have "settled ''resolution_finalize'' k i (dict_events [stake_on ''m'']) = False"
    "settled ''dispute_resolve'' k i (dict_events [stake_on ''m'']) = False"
    "etype e ''dispute_stake'' = False" "etype e ''truth_stake_place'' = False"
    if "e \<in> set (dict_events [stake_on ''m''])" for e k i
    using that by (auto simp: settled_def stake_on_def etype_def eget_def)
  then show ?thesis using rotation_gate_exact [OF run] run
    by (auto simp: open_stake_def eget_def payload_def)
qed

end
