(* ===== verification/Resolution_Stakes.thy ===== *)
theory Resolution_Stakes
  imports Identity_Rotation Market_Snapshot
begin

section \<open>Predictor exclusion and resolution stakes\<close>

text \<open>
  Models the first half of \<open>services/infonet/markets/resolution.py\<close>: the set of identities that
  may not resolve a market they predicted on, and the collection of the stakes that count.
\<close>

subsection \<open>Excluded predictors\<close>

definition frozen_predictors :: "event \<Rightarrow> string list" where
  "frozen_predictors snap =
     (case py_or (eget snap ''frozen_predictor_ids'') (VList []) of
        VList vs \<Rightarrow> List.map_filter nonempty_str vs
      | _ \<Rightarrow> [])"

text \<open>The set is a list; only membership is ever asked of it.\<close>

definition excluded_predictor_ids :: "string \<Rightarrow> chain \<Rightarrow> string list res" where
  "excluded_predictor_ids mid c =
     rbind (find_snapshot mid c) (\<lambda>s.
     case s of
       None \<Rightarrow> Inr []
     | Some snap \<Rightarrow>
         let base = frozen_predictors snap
         in Inr (base @ concat (map (\<lambda>n. rotation_descendants n c) base)))"

definition is_predictor_excluded :: "string \<Rightarrow> string \<Rightarrow> chain \<Rightarrow> bool res" where
  "is_predictor_excluded node mid c =
     rbind (excluded_predictor_ids mid c) (\<lambda>ex. Inr (node \<in> set ex))"

subsection \<open>Stakes\<close>

record resolution_stake =
  rs_node :: string
  rs_side :: string
  rs_amount :: pyfloat
  rs_rep :: string
  rs_timestamp :: pyfloat
  rs_sequence :: int

definition resolution_sides :: "string list" where
  "resolution_sides = [''yes'', ''no'', ''data_unavailable'']"

definition rep_types :: "string list" where
  "rep_types = [''oracle'', ''common'']"

definition one_of :: "string list \<Rightarrow> pyval \<Rightarrow> string option" where
  "one_of ss v = (case v of VStr s \<Rightarrow> if s \<in> set ss then Some s else None | _ \<Rightarrow> None)"

lemma one_of_Some: "one_of ss v = Some s \<longleftrightarrow> v = VStr s \<and> s \<in> set ss"
  by (auto simp: one_of_def split: pyval.splits if_splits)

definition stake_amount :: "pyval \<Rightarrow> pyfloat option res" where
  "stake_amount v =
     (if v = VNone then Inr (Some (Fin 0)) else catch_tv (py_float v))"

definition stake_of :: "string \<Rightarrow> string list \<Rightarrow> event \<Rightarrow> resolution_stake option res" where
  "stake_of mid excluded e =
     (let p = payload e in
      if \<not> etype e ''resolution_stake'' \<or> eget p ''market_id'' \<noteq> VStr mid then Inr None
      else case nonempty_str (eget e ''node_id'') of
        None \<Rightarrow> Inr None
      | Some node \<Rightarrow>
          if node \<in> set excluded then Inr None
          else case one_of resolution_sides (eget p ''side'') of
            None \<Rightarrow> Inr None
          | Some side \<Rightarrow>
              skipR (stake_amount (eget p ''amount'')) None (\<lambda>amt.
                  if fle amt (Fin 0) then Inr None
                  else case one_of rep_types (eget p ''rep_type'') of
                    None \<Rightarrow> Inr None
                  | Some rep \<Rightarrow>
                      rbind (event_ts e) (\<lambda>ts. rbind (event_seq e) (\<lambda>seqn.
                      Inr (Some \<lparr>rs_node = node, rs_side = side, rs_amount = amt, rs_rep = rep,
                                 rs_timestamp = ts, rs_sequence = seqn\<rparr>)))))"

definition collect_resolution_stakes :: "string \<Rightarrow> chain \<Rightarrow> bool \<Rightarrow> resolution_stake list res" where
  "collect_resolution_stakes mid c exclude =
     rbind (if exclude then excluded_predictor_ids mid c else Inr []) (\<lambda>ex.
     rbind (mapR (stake_of mid ex) (dict_events c)) (\<lambda>os.
     Inr (sort_key (\<lambda>s. (rs_timestamp s, rs_sequence s)) (List.map_filter id os))))"

subsection \<open>What counts\<close>

definition good_stake :: "string list \<Rightarrow> resolution_stake \<Rightarrow> bool" where
  "good_stake ex s \<longleftrightarrow> rs_node s \<noteq> [] \<and> rs_node s \<notin> set ex \<and> rs_side s \<in> set resolution_sides \<and>
     rs_rep s \<in> set rep_types \<and> \<not> fle (rs_amount s) (Fin 0) \<and> valid64 (rs_amount s)"

lemma stake_of_good: "stake_of mid ex e = Inr (Some s) \<Longrightarrow> good_stake ex s"
  by (auto simp: stake_of_def Let_def good_stake_def res_simps chain_simps one_of_Some stake_amount_def
      split: if_splits option.splits dest: valid64_py_float)

lemma collect_set:
  assumes "collect_resolution_stakes mid c b = Inr ss" "s \<in> set ss"
  shows "\<exists>ex. (if b then excluded_predictor_ids mid c else Inr []) = Inr ex \<and>
    (\<exists>e \<in> set (dict_events c). stake_of mid ex e = Inr (Some s))"
proof -
  from assms obtain ex os where ex: "(if b then excluded_predictor_ids mid c else Inr []) = Inr ex"
    and os: "mapR (stake_of mid ex) (dict_events c) = Inr os" and "Some s \<in> set os"
    by (auto simp: collect_resolution_stakes_def res_simps set_map_filter)
  then show ?thesis using mapR_set [OF os] by blast
qed

lemma collect_good:
  assumes "collect_resolution_stakes mid c True = Inr ss" "excluded_predictor_ids mid c = Inr ex" "s \<in> set ss"
  shows "good_stake ex s"
  using collect_set [OF assms(1,3)] assms(2) stake_of_good by auto

lemma excluded_set:
  assumes "find_snapshot mid c = Inr (Some snap)"
  shows "\<exists>ex. excluded_predictor_ids mid c = Inr ex \<and>
    set ex = {x. \<exists>n \<in> set (frozen_predictors snap). (n, x) \<in> (rotations (dict_events c))\<^sup>*}"
proof -
  let ?base = "frozen_predictors snap"
  have "set (?base @ concat (map (\<lambda>n. rotation_descendants n c) ?base)) =
      {x. \<exists>n \<in> set ?base. (n, x) \<in> (rotations (dict_events c))\<^sup>*}"
    by (auto simp: rotation_descendants_set rtrancl_eq_or_trancl)
  then show ?thesis using assms by (simp add: excluded_predictor_ids_def Let_def)
qed

subsection \<open>Properties\<close>

text \<open>
  C27: Predictors cannot resolve their own market. Once a snapshot exists, a stake that counts is
  never signed by a frozen predictor nor by an identity reachable from one through rotations, and
  it has a known side, a known reputation type and an amount that is not zero or negative.
\<close>

theorem predictors_cannot_resolve:
  assumes "find_snapshot mid c = Inr (Some snap)"
    and "collect_resolution_stakes mid c True = Inr ss" and "s \<in> set ss"
    and "n \<in> set (frozen_predictors snap)"
  shows "(n, rs_node s) \<notin> (rotations (dict_events c))\<^sup>* \<and> rs_side s \<in> set resolution_sides \<and>
    rs_rep s \<in> set rep_types \<and> \<not> fle (rs_amount s) (Fin 0)"
proof -
  obtain ex where ex: "excluded_predictor_ids mid c = Inr ex"
    "set ex = {x. \<exists>n \<in> set (frozen_predictors snap). (n, x) \<in> (rotations (dict_events c))\<^sup>*}"
    using excluded_set [OF assms(1)] by blast
  then show ?thesis using collect_good [OF assms(2) ex(1) assms(3)] assms(4)
    by (auto simp: good_stake_def)
qed

definition resolution_stake_event :: "string \<Rightarrow> string \<Rightarrow> int \<Rightarrow> pyval" where
  "resolution_stake_event node side amt = VDict
     [(''event_type'', VStr ''resolution_stake''), (''node_id'', VStr node), (''timestamp'', VInt 9),
      (''sequence'', VInt 1),
      (''payload'', VDict [(''market_id'', VStr ''m''), (''side'', VStr side), (''amount'', VInt amt),
         (''rep_type'', VStr ''oracle'')])]"

definition frozen_snapshot :: event where
  "frozen_snapshot = [(''market_id'', VStr ''m''), (''frozen_predictor_ids'', VList [VStr ''p''])]"

definition excluded_chain :: chain where
  "excluded_chain = [VDict (snapshot_event frozen_snapshot),
     VDict [(''event_type'', VStr ''identity_rotate''), (''node_id'', VStr ''q''),
            (''payload'', VDict [(''old_node_id'', VStr ''p'')])],
     resolution_stake_event ''q'' ''yes'' 5, resolution_stake_event ''r'' ''no'' 5]"

theorem predictors_cannot_resolve_witness:
  "(''p'', ''r'') \<notin> (rotations (dict_events excluded_chain))\<^sup>* \<and> ''no'' \<in> set resolution_sides \<and>
   ''oracle'' \<in> set rep_types \<and> \<not> fle (Fin 5) (Fin 0)"
proof -
  let ?s = "\<lparr>rs_node = ''r'', rs_side = ''no'', rs_amount = Fin 5, rs_rep = ''oracle'',
     rs_timestamp = Fin 9, rs_sequence = 1\<rparr>"
  have "find_snapshot ''m'' excluded_chain = Inr (Some frozen_snapshot)" by code_simp
  moreover have "collect_resolution_stakes ''m'' excluded_chain True = Inr [?s]" by code_simp
  moreover have "frozen_predictors frozen_snapshot = [''p'']" by code_simp
  ultimately show ?thesis
    using predictors_cannot_resolve [of "''m''" excluded_chain frozen_snapshot "[?s]" ?s "''p''"] by simp
qed

end
