(* ===== verification/Bootstrap_Votes.thy ===== *)
theory Bootstrap_Votes
  imports Resolution_Stakes Config
begin

section \<open>Bootstrap resolution: eligibility and one vote per node\<close>

text \<open>
  Models \<open>services/infonet/bootstrap/eligibility.py\<close> and \<open>one_vote_dedup.py\<close>: who may vote on a
  bootstrap market, and which of several votes of one node counts.
\<close>

subsection \<open>Identity age\<close>

text \<open>
  The loop keeps the earliest \<open>node_register\<close> timestamp and the earliest timestamp of any event of
  the node; a NaN once taken is never replaced, since nothing compares below it.
\<close>

definition earlier :: "pyfloat option \<Rightarrow> pyfloat \<Rightarrow> pyfloat option" where
  "earlier best ts =
     (case best of None \<Rightarrow> Some ts | Some b \<Rightarrow> if flt ts b then Some ts else Some b)"

definition created_step ::
  "string \<Rightarrow> event \<Rightarrow> pyfloat option \<times> pyfloat option \<Rightarrow> (pyfloat option \<times> pyfloat option) res" where
  "created_step node e st =
     (if eget e ''node_id'' \<noteq> VStr node then Inr st
      else skipR (catch_tv (event_ts e)) st (\<lambda>ts.
        Inr (if etype e ''node_register'' then earlier (fst st) ts else fst st, earlier (snd st) ts)))"

definition node_created_at :: "string \<Rightarrow> chain \<Rightarrow> pyfloat option res" where
  "node_created_at node c =
     rbind (foldR (created_step node) (dict_events c) (None, None)) (\<lambda>(reg, any).
     Inr (if reg \<noteq> None then reg else any))"

definition is_identity_age_eligible :: "config \<Rightarrow> string \<Rightarrow> string \<Rightarrow> chain \<Rightarrow> pyfloat option \<Rightarrow> bool res" where
  "is_identity_age_eligible cfg node mid c min_age =
     rbind (find_snapshot mid c) (\<lambda>s.
     case s of
       None \<Rightarrow> Inr False
     | Some snap \<Rightarrow>
         skipR (catch_tv (py_float (py_or (eget snap ''frozen_at'') (VFloat (Fin 0))))) False (\<lambda>frozen_at.
         skipR (node_created_at node c) False (\<lambda>created.
         rbind (case min_age of Some d \<Rightarrow> Inr d
                | None \<Rightarrow> cfg_float cfg ''bootstrap_min_identity_age_days'') (\<lambda>days.
         Inr (fle (fadd created (fmul days (Fin 86400))) frozen_at)))))"

record eligibility_decision =
  eligible :: bool
  elig_reason :: string

definition validate_bootstrap_eligibility ::
  "config \<Rightarrow> string \<Rightarrow> string \<Rightarrow> chain \<Rightarrow> eligibility_decision res" where
  "validate_bootstrap_eligibility cfg node mid c =
     rbind (find_snapshot mid c) (\<lambda>s.
     if s = None then Inr \<lparr>eligible = False, elig_reason = ''snapshot_missing''\<rparr>
     else rbind (is_identity_age_eligible cfg node mid c None) (\<lambda>old_enough.
     if \<not> old_enough then Inr \<lparr>eligible = False, elig_reason = ''identity_age_too_young''\<rparr>
     else rbind (excluded_predictor_ids mid c) (\<lambda>ex.
     if node \<in> set ex then Inr \<lparr>eligible = False, elig_reason = ''predictor_excluded''\<rparr>
     else Inr \<lparr>eligible = True, elig_reason = ''ok''\<rparr>)))"

subsection \<open>One vote per node\<close>

definition canonical_event_hash :: "event \<Rightarrow> string" where
  "canonical_event_hash e = sha256_hex (json_dumps (VDict e))"

definition vote_node :: "string \<Rightarrow> event \<Rightarrow> string option" where
  "vote_node mid e =
     (if \<not> etype e ''bootstrap_resolution_vote'' \<or> eget (payload e) ''market_id'' \<noteq> VStr mid then None
      else nonempty_str (eget e ''node_id''))"

definition add_candidate ::
  "string \<Rightarrow> event \<Rightarrow> (string, (string \<times> event) list) dict \<Rightarrow> (string, (string \<times> event) list) dict" where
  "add_candidate mid e d =
     (case vote_node mid e of
        None \<Rightarrow> d
      | Some node \<Rightarrow> dict_set d node (get_or (dict_get d node) [] @ [(canonical_event_hash e, e)]))"

definition candidates_per_node :: "string \<Rightarrow> event list \<Rightarrow> (string, (string \<times> event) list) dict" where
  "candidates_per_node mid es = fold (add_candidate mid) es []"

definition candidate_key :: "string \<times> event \<Rightarrow> (string \<times> int) res" where
  "candidate_key he = rbind (event_seq (snd he)) (\<lambda>n. Inr (fst he, n))"

definition lowest_candidate :: "(string \<times> event) list \<Rightarrow> event res" where
  "lowest_candidate cs = rbind (sort_onR candidate_key cs) (\<lambda>ds. Inr (snd (hd ds)))"

definition vote_key :: "event \<Rightarrow> string \<times> string" where
  "vote_key e = (case py_or (eget e ''node_id'') (VStr []) of VStr s \<Rightarrow> s | _ \<Rightarrow> [], canonical_event_hash e)"

definition deduplicate_votes :: "string \<Rightarrow> chain \<Rightarrow> event list res" where
  "deduplicate_votes mid c =
     rbind (mapR (\<lambda>(node, cs). lowest_candidate cs) (candidates_per_node mid (dict_events c))) (\<lambda>vs.
     Inr (sort_key vote_key vs))"

subsection \<open>Lemmas on the grouping\<close>

definition votes_of :: "string \<Rightarrow> string \<Rightarrow> event list \<Rightarrow> event list" where
  "votes_of mid node es = filter (\<lambda>e. vote_node mid e = Some node) es"

lemma votes_of_simps [simp]:
  "votes_of mid node [] = []"
  "votes_of mid node (e # es) =
     (if vote_node mid e = Some node then e # votes_of mid node es else votes_of mid node es)"
  by (simp_all add: votes_of_def)

lemma candidates_get:
  "get_or (dict_get (fold (add_candidate mid) es d) node) [] =
   get_or (dict_get d node) [] @ map (\<lambda>e. (canonical_event_hash e, e)) (votes_of mid node es)"
  by (induction es arbitrary: d) (auto simp: add_candidate_def dict_get_set split: option.splits)

lemma candidates_keys:
  "set (map fst (fold (add_candidate mid) es d)) = set (map fst d) \<union> {n. votes_of mid n es \<noteq> []}"
  by (induction es arbitrary: d) (auto simp: add_candidate_def dict_keys_set simp del: set_map split: option.splits)

lemma candidates_distinct:
  "distinct (map fst d) \<Longrightarrow> distinct (map fst (fold (add_candidate mid) es d))"
  by (induction es arbitrary: d) (auto simp: add_candidate_def dict_distinct_set split: option.splits)

lemma candidates_entries:
  "(node, cs) \<in> set (candidates_per_node mid es) \<longleftrightarrow>
   votes_of mid node es \<noteq> [] \<and> cs = map (\<lambda>e. (canonical_event_hash e, e)) (votes_of mid node es)"
proof -
  let ?d = "candidates_per_node mid es"
  have dist: "distinct (map fst ?d)"
    by (simp add: candidates_per_node_def candidates_distinct)
  have keys: "node \<in> set (map fst ?d) \<longleftrightarrow> votes_of mid node es \<noteq> []"
    using candidates_keys [of mid es "[]"] by (auto simp: candidates_per_node_def simp del: set_map)
  have get: "get_or (dict_get ?d node) [] = map (\<lambda>e. (canonical_event_hash e, e)) (votes_of mid node es)"
    using candidates_get [of mid es "[]" node] by (simp add: candidates_per_node_def)
  show ?thesis
    using dict_get_Some_iff [OF dist, of node cs] keys get dict_get_None_iff [of ?d node]
    by (cases "dict_get ?d node") (auto simp: dist)
qed

lemma sort_onR_hd:
  assumes "sort_onR f xs = Inr ys" "xs \<noteq> []"
  shows "hd ys \<in> set xs \<and> (\<exists>k. f (hd ys) = Inr k \<and> (\<forall>x \<in> set xs. \<exists>k'. f x = Inr k' \<and> k \<le> k'))"
proof -
  obtain ks where ks: "mapR f ys = Inr ks" "sorted ks" using sort_onR_sorted [OF assms(1)] by blast
  have set: "set ys = set xs" by (rule sort_onR_set [OF assms(1)])
  then obtain y ys' where y: "ys = y # ys'" using assms(2) by (cases ys) auto
  then obtain k ks' where k: "f y = Inr k" "mapR f ys' = Inr ks'" "ks = k # ks'"
    using ks(1) by (auto simp: res_simps)
  have "\<exists>k'. f x = Inr k' \<and> k \<le> k'" if "x \<in> set ys" for x
  proof -
    from mapR_mem [OF ks(1) that] obtain k' where "k' \<in> set ks" "f x = Inr k'" by blast
    then show ?thesis using ks(2) k(3) by auto
  qed
  then show ?thesis using y k(1) set by auto
qed

text \<open>The chosen vote: among the candidates, with the lowest hash.\<close>

lemma lowest_candidate_spec:
  assumes "lowest_candidate (map (\<lambda>e. (canonical_event_hash e, e)) es) = Inr v" "es \<noteq> []"
  shows "v \<in> set es \<and> (\<forall>e \<in> set es. canonical_event_hash v \<le> canonical_event_hash e)"
proof -
  let ?cs = "map (\<lambda>e. (canonical_event_hash e, e)) es"
  obtain ds where ds: "sort_onR candidate_key ?cs = Inr ds" "v = snd (hd ds)"
    using assms(1) by (auto simp: lowest_candidate_def res_simps)
  from sort_onR_hd [OF ds(1)] assms(2) obtain k where hd: "hd ds \<in> set ?cs" "candidate_key (hd ds) = Inr k"
    and min: "\<forall>x \<in> set ?cs. \<exists>k'. candidate_key x = Inr k' \<and> k \<le> k'" by auto
  have "canonical_event_hash v \<le> canonical_event_hash e" if "e \<in> set es" for e
  proof -
    from that min obtain k' where "candidate_key (canonical_event_hash e, e) = Inr k'" "k \<le> k'" by auto
    then show ?thesis using hd ds(2)
      by (auto simp: candidate_key_def res_simps less_eq_prod_def)
  qed
  then show ?thesis using hd(1) ds(2) by auto
qed

lemma lowest_candidate_returns:
  assumes "\<And>e. e \<in> set es \<Longrightarrow> \<exists>n. event_seq e = Inr n"
  shows "\<exists>v. lowest_candidate (map (\<lambda>e. (canonical_event_hash e, e)) es) = Inr v"
proof -
  let ?cs = "map (\<lambda>e. (canonical_event_hash e, e)) es"
  have "candidate_key x = Inr (projr (candidate_key x))" if "x \<in> set ?cs" for x
    using assms that by (force simp: candidate_key_def)
  then have "mapR candidate_key ?cs = Inr (map (\<lambda>x. projr (candidate_key x)) ?cs)"
    by (rule mapR_total)
  then show ?thesis by (simp add: lowest_candidate_def sort_onR_def)
qed

lemma lowest_candidate_seq:
  assumes "lowest_candidate (map (\<lambda>e. (canonical_event_hash e, e)) es) = Inr v" "e \<in> set es"
  shows "\<exists>n. event_seq e = Inr n"
proof -
  obtain ks where "mapR candidate_key (map (\<lambda>e. (canonical_event_hash e, e)) es) = Inr ks"
    using assms(1) by (auto simp: lowest_candidate_def sort_onR_def res_simps)
  from mapR_projr [OF this, of "(canonical_event_hash e, e)"] assms(2) show ?thesis
    by (cases "event_seq e") (auto simp: candidate_key_def)
qed

subsection \<open>What deduplication returns\<close>

lemma votes_of_mem: "v \<in> set (votes_of mid node es) \<longleftrightarrow> v \<in> set es \<and> vote_node mid v = Some node"
  by (auto simp: votes_of_def)

lemma dedup_spec:
  assumes "deduplicate_votes mid c = Inr vs"
  shows "\<forall>v \<in> set vs. \<exists>node. v \<in> set (votes_of mid node (dict_events c)) \<and>
      (\<forall>e \<in> set (votes_of mid node (dict_events c)). canonical_event_hash v \<le> canonical_event_hash e)"
    and "\<forall>node. votes_of mid node (dict_events c) \<noteq> [] \<longrightarrow> (\<exists>v \<in> set vs. vote_node mid v = Some node)"
    and "distinct (map (vote_node mid) vs)"
    and "\<forall>node. \<forall>e \<in> set (votes_of mid node (dict_events c)). \<exists>n. event_seq e = Inr n"
    and "sort_key vote_key vs = vs"
proof -
  let ?es = "dict_events c" and ?d = "candidates_per_node mid (dict_events c)"
  let ?pick = "\<lambda>(node :: string, cs). lowest_candidate cs"
  obtain ws where ws: "mapR ?pick ?d = Inr ws" and vs: "vs = sort_key vote_key ws"
    using assms by (auto simp: deduplicate_votes_def res_simps)
  have spec: "v \<in> set (votes_of mid node ?es) \<and>
      (\<forall>e \<in> set (votes_of mid node ?es). canonical_event_hash v \<le> canonical_event_hash e)"
    if "(node, cs) \<in> set ?d" "lowest_candidate cs = Inr v" for node cs v
    using that lowest_candidate_spec by (simp add: candidates_entries)
  have set: "set vs = set ws" by (simp add: vs)
  have mem: "\<exists>node cs. (node, cs) \<in> set ?d \<and> lowest_candidate cs = Inr v" if "v \<in> set ws" for v
    using mapR_set [OF ws that] by auto
  then show "\<forall>v \<in> set vs. \<exists>node. v \<in> set (votes_of mid node ?es) \<and>
      (\<forall>e \<in> set (votes_of mid node ?es). canonical_event_hash v \<le> canonical_event_hash e)"
    using spec unfolding set by blast
  have chosen: "\<exists>v \<in> set ws. lowest_candidate cs = Inr v" if "(node, cs) \<in> set ?d" for node cs
    using mapR_mem [OF ws that] by auto
  then show "\<forall>node. votes_of mid node ?es \<noteq> [] \<longrightarrow> (\<exists>v \<in> set vs. vote_node mid v = Some node)"
    using spec unfolding set by (fastforce simp: candidates_entries votes_of_mem)
  show "\<forall>node. \<forall>e \<in> set (votes_of mid node ?es). \<exists>n. event_seq e = Inr n"
  proof (intro allI ballI)
    fix node e assume e: "e \<in> set (votes_of mid node ?es)"
    then have "votes_of mid node ?es \<noteq> []" by auto
    then have "(node, map (\<lambda>e. (canonical_event_hash e, e)) (votes_of mid node ?es)) \<in> set ?d"
      by (simp add: candidates_entries)
    then show "\<exists>n. event_seq e = Inr n" using chosen lowest_candidate_seq e by blast
  qed
  have "map (vote_node mid) ws = map (\<lambda>p. Some (fst p)) ?d"
  proof (rule mapR_image [OF ws])
    fix p v assume p: "p \<in> set ?d" "?pick p = Inr v"
    obtain node cs where "p = (node, cs)" by (cases p)
    then show "vote_node mid v = Some (fst p)" using spec [of node cs v] p by (auto simp: votes_of_mem)
  qed
  moreover have "distinct (map fst ?d)" by (simp add: candidates_per_node_def candidates_distinct)
  then have "distinct (map (\<lambda>p. Some (fst p)) ?d)"
    by (simp add: distinct_map inj_on_def)
  ultimately have "distinct (map (vote_node mid) ws)" by simp
  moreover have "mset (map (vote_node mid) vs) = mset (map (vote_node mid) ws)" by (simp add: vs)
  ultimately show "distinct (map (vote_node mid) vs)" by (metis mset_eq_imp_distinct_iff)
  show "sort_key vote_key vs = vs" by (simp add: vs sorted_sort_key sort_key_id_if_sorted)
qed

lemma vote_key_node: "vote_node mid v = Some node \<Longrightarrow> fst (vote_key v) = node"
  by (auto simp: vote_node_def vote_key_def py_or_def chain_simps split: if_splits)

lemma dedup_sets_agree:
  assumes vs: "deduplicate_votes mid c = Inr vs" and ws: "deduplicate_votes mid c' = Inr ws"
    and same: "set (dict_events c) = set (dict_events c')"
    and inj: "inj_on canonical_event_hash {e \<in> set (dict_events c). vote_node mid e \<noteq> None}"
    and v: "v \<in> set vs"
  shows "v \<in> set ws"
proof -
  have votes: "set (votes_of mid node (dict_events c')) = set (votes_of mid node (dict_events c))" for node
    using same by (auto simp: votes_of_mem)
  obtain node where node: "v \<in> set (votes_of mid node (dict_events c))"
    "\<forall>e \<in> set (votes_of mid node (dict_events c)). canonical_event_hash v \<le> canonical_event_hash e"
    using dedup_spec(1) [OF vs] v by blast
  then have "votes_of mid node (dict_events c') \<noteq> []" using votes [of node] by auto
  then obtain w where w: "w \<in> set ws" "vote_node mid w = Some node" using dedup_spec(2) [OF ws] by blast
  then have "w \<in> set (votes_of mid node (dict_events c))"
    "\<forall>e \<in> set (votes_of mid node (dict_events c)). canonical_event_hash w \<le> canonical_event_hash e"
    using dedup_spec(1) [OF ws] votes by (force simp: votes_of_mem)+
  then have "canonical_event_hash w = canonical_event_hash v" and "v \<in> set (dict_events c)"
    and "w \<in> set (dict_events c)" and "vote_node mid v \<noteq> None" and "vote_node mid w \<noteq> None"
    using node by (auto simp: votes_of_mem intro!: order.antisym)
  then have "w = v" using inj by (simp add: inj_on_def)
  then show ?thesis using w(1) by simp
qed

lemma dedup_returns:
  assumes "\<forall>node. \<forall>e \<in> set (votes_of mid node (dict_events c)). \<exists>n. event_seq e = Inr n"
  shows "\<exists>vs. deduplicate_votes mid c = Inr vs"
proof -
  let ?pick = "\<lambda>(node :: string, cs). lowest_candidate cs"
  have "?pick p = Inr (projr (?pick p))" if p: "p \<in> set (candidates_per_node mid (dict_events c))" for p
  proof -
    obtain node cs where nc: "p = (node, cs)" by (cases p)
    then have "cs = map (\<lambda>e. (canonical_event_hash e, e)) (votes_of mid node (dict_events c))"
      using p by (simp add: candidates_entries)
    moreover have "\<exists>v. lowest_candidate (map (\<lambda>e. (canonical_event_hash e, e)) (votes_of mid node (dict_events c))) = Inr v"
      using assms by (intro lowest_candidate_returns) blast
    ultimately show ?thesis using nc by auto
  qed
  then have "mapR ?pick (candidates_per_node mid (dict_events c)) =
      Inr (map (\<lambda>p. projr (?pick p)) (candidates_per_node mid (dict_events c)))"
    by (rule mapR_total)
  then show ?thesis by (simp add: deduplicate_votes_def)
qed

lemma dedup_single:
  assumes votes: "\<And>n. votes_of mid n (dict_events c) = (if n = node then [v] else [])"
    and seq: "event_seq v = Inr k"
  shows "deduplicate_votes mid c = Inr [v]"
proof -
  obtain vs where vs: "deduplicate_votes mid c = Inr vs"
    using dedup_returns [of mid c] votes seq by auto
  have "set vs \<subseteq> {v}" using dedup_spec(1) [OF vs] votes by (auto split: if_splits)
  moreover have "vs \<noteq> []" using dedup_spec(2) [OF vs, rule_format, of node] votes [of node] by auto
  moreover have "distinct vs" using dedup_spec(3) [OF vs] by (simp add: distinct_map)
  ultimately have "vs = [v]" by (cases vs; cases "tl vs") auto
  then show ?thesis using vs by simp
qed

subsection \<open>Properties\<close>

text \<open>
  C28: One vote per node. The canonical votes are votes of the market, no two by the same node,
  every node that voted has one, and it is the vote of that node with the lexicographically
  smallest event hash.
\<close>

theorem one_vote_per_node:
  assumes "deduplicate_votes mid c = Inr vs"
  shows "distinct (map (vote_node mid) vs) \<and>
    (\<forall>v \<in> set vs. \<exists>node. vote_node mid v = Some node \<and> v \<in> set (dict_events c) \<and>
       (\<forall>e \<in> set (dict_events c). vote_node mid e = Some node \<longrightarrow>
          canonical_event_hash v \<le> canonical_event_hash e)) \<and>
    (\<forall>e \<in> set (dict_events c). vote_node mid e \<noteq> None \<longrightarrow>
       (\<exists>v \<in> set vs. vote_node mid v = vote_node mid e))"
proof -
  have "\<exists>v \<in> set vs. vote_node mid v = vote_node mid e"
    if e: "e \<in> set (dict_events c)" "vote_node mid e \<noteq> None" for e
  proof -
    from e obtain node where "vote_node mid e = Some node" "votes_of mid node (dict_events c) \<noteq> []"
      by (auto simp: votes_of_def filter_empty_conv)
    then show ?thesis using dedup_spec(2) [OF assms] by auto
  qed
  then show ?thesis using dedup_spec(1,3) [OF assms] by (auto simp: votes_of_mem)
qed

definition vote_event :: "string \<Rightarrow> string \<Rightarrow> pyval" where
  "vote_event node side = VDict
     [(''event_type'', VStr ''bootstrap_resolution_vote''), (''node_id'', VStr node),
      (''payload'', VDict [(''market_id'', VStr ''m''), (''side'', VStr side)])]"

theorem one_vote_per_node_witness:
  "\<exists>vs. deduplicate_votes ''m'' [vote_event ''a'' ''yes'', vote_event ''a'' ''no''] = Inr vs \<and>
     distinct (map (vote_node ''m'') vs) \<and> (\<exists>v \<in> set vs. vote_node ''m'' v = Some ''a'')"
proof -
  let ?c = "[vote_event ''a'' ''yes'', vote_event ''a'' ''no'']"
  have "event_seq e = Inr 0" if "e \<in> set (dict_events ?c)" for e
    using that by (auto simp: vote_event_def event_seq_def py_or_def eget_def)
  then obtain vs where vs: "deduplicate_votes ''m'' ?c = Inr vs"
    using dedup_returns [of "''m''" ?c] by (auto simp: votes_of_mem simp del: dict_events.simps)
  have "vote_node ''m'' e = Some ''a''" if "e \<in> set (dict_events ?c)" for e
    using that by (auto simp: vote_event_def vote_node_def etype_def payload_def eget_def)
  moreover have "dict_events ?c \<noteq> []" by (simp add: vote_event_def)
  ultimately show ?thesis using one_vote_per_node [OF vs] vs
    by (metis list.set_sel(1) option.distinct(1))
qed

text \<open>
  Votes need no agreed order. Two nodes that know the same events, in any order and with any
  repetitions, select the same votes in the same order, as long as no two different votes of the
  market share a hash.
\<close>

theorem dedup_order_independent:
  assumes same: "set (dict_events c) = set (dict_events c')"
    and inj: "inj_on canonical_event_hash {e \<in> set (dict_events c). vote_node mid e \<noteq> None}"
    and vs: "deduplicate_votes mid c = Inr vs"
  shows "deduplicate_votes mid c' = Inr vs"
proof -
  have "\<forall>node. \<forall>e \<in> set (votes_of mid node (dict_events c')). \<exists>n. event_seq e = Inr n"
    using dedup_spec(4) [OF vs] same by (auto simp: votes_of_mem)
  then obtain ws where ws: "deduplicate_votes mid c' = Inr ws" using dedup_returns by blast
  have inj': "inj_on canonical_event_hash {e \<in> set (dict_events c'). vote_node mid e \<noteq> None}"
    using inj same by simp
  have "set vs = set ws"
    using dedup_sets_agree [OF vs ws same inj] dedup_sets_agree [OF ws vs same [symmetric] inj'] by blast
  moreover have dist: "distinct (map (vote_node mid) us)" if "deduplicate_votes mid d = Inr us" for d us
    by (rule dedup_spec(3) [OF that])
  ultimately have "mset vs = mset ws"
    using dist [OF vs] dist [OF ws] by (metis distinct_map set_eq_iff_mset_eq_distinct)
  moreover have "distinct (map vote_key vs)"
  proof -
    have "inj_on vote_key (set vs)"
    proof (rule inj_onI)
      fix x y assume xy: "x \<in> set vs" "y \<in> set vs" "vote_key x = vote_key y"
      then have "vote_node mid x = vote_node mid y"
        using dedup_spec(1) [OF vs] vote_key_node by (metis votes_of_mem)
      then show "x = y" using dist [OF vs] xy by (simp add: distinct_map inj_on_def)
    qed
    then show ?thesis using dist [OF vs] by (simp add: distinct_map)
  qed
  ultimately have "sort_key vote_key vs = sort_key vote_key ws" by (intro sort_key_unique)
  then show ?thesis using dedup_spec(5) [OF vs] dedup_spec(5) [OF ws] ws by simp
qed

theorem dedup_order_independent_witness:
  "deduplicate_votes ''m'' [vote_event ''a'' ''yes'', vote_event ''a'' ''yes''] =
   deduplicate_votes ''m'' [vote_event ''a'' ''yes'']"
proof -
  let ?c = "[vote_event ''a'' ''yes'']"
  have "event_seq e = Inr 0" if "e \<in> set (dict_events ?c)" for e
    using that by (auto simp: vote_event_def event_seq_def py_or_def eget_def)
  then obtain vs where vs: "deduplicate_votes ''m'' ?c = Inr vs"
    using dedup_returns [of "''m''" ?c] by (auto simp: votes_of_mem simp del: dict_events.simps)
  have "inj_on canonical_event_hash {e \<in> set (dict_events ?c). vote_node ''m'' e \<noteq> None}"
    by (auto simp: vote_event_def inj_on_def)
  from dedup_order_independent [OF _ this vs, of "[vote_event ''a'' ''yes'', vote_event ''a'' ''yes'']"]
  show ?thesis using vs by (simp add: vote_event_def)
qed

text \<open>
  Who may vote on a bootstrap market. An eligible node has chain history, its creation time plus
  the configured age is not after the snapshot's frozen time, and it is neither a frozen predictor
  nor a rotation descendant of one.
\<close>

theorem bootstrap_eligibility_sound:
  assumes "validate_bootstrap_eligibility cfg node mid c = Inr d" and "eligible d"
  shows "\<exists>snap frozen created days.
    find_snapshot mid c = Inr (Some snap) \<and>
    py_float (py_or (eget snap ''frozen_at'') (VFloat (Fin 0))) = Inr frozen \<and>
    node_created_at node c = Inr (Some created) \<and>
    cfg_float cfg ''bootstrap_min_identity_age_days'' = Inr days \<and>
    fle (fadd created (fmul days (Fin 86400))) frozen \<and>
    (\<forall>n \<in> set (frozen_predictors snap). (n, node) \<notin> (rotations (dict_events c))\<^sup>*)"
proof -
  from assms obtain snap ex where snap: "find_snapshot mid c = Inr (Some snap)"
    and age: "is_identity_age_eligible cfg node mid c None = Inr True"
    and ex: "excluded_predictor_ids mid c = Inr ex" "node \<notin> set ex"
    by (auto simp: validate_bootstrap_eligibility_def res_simps split: if_splits)
  have "\<forall>n \<in> set (frozen_predictors snap). (n, node) \<notin> (rotations (dict_events c))\<^sup>*"
    using excluded_set [OF snap] ex by auto
  then show ?thesis using age snap
    by (auto simp: is_identity_age_eligible_def res_simps)
qed

definition eligible_chain :: chain where
  "eligible_chain =
     [VDict [(''event_type'', VStr ''node_register''), (''node_id'', VStr ''v''), (''timestamp'', VInt 1)],
      VDict (snapshot_event [(''market_id'', VStr ''m''), (''frozen_predictor_ids'', VList [VStr ''p'']),
                             (''frozen_at'', VInt 300000)])]"

theorem bootstrap_eligibility_sound_witness:
  "\<exists>snap frozen created days. find_snapshot ''m'' eligible_chain = Inr (Some snap) \<and>
     node_created_at ''v'' eligible_chain = Inr (Some created) \<and>
     fle (fadd created (fmul days (Fin 86400))) frozen"
proof -
  have "validate_bootstrap_eligibility [(''bootstrap_min_identity_age_days'', VInt 3)] ''v'' ''m'' eligible_chain
      = Inr \<lparr>eligible = True, elig_reason = ''ok''\<rparr>" by code_simp
  from bootstrap_eligibility_sound [OF this] show ?thesis by auto
qed

end
