(* ===== verification/Market_Resolution.thy ===== *)
theory Market_Resolution
  imports Market_Evidence Settlement Bootstrap_Votes
begin

section \<open>Resolving a market\<close>

text \<open>
  Models \<open>services/infonet/markets/data_unavailable.py\<close> and \<open>resolve_market\<close> of
  \<open>services/infonet/markets/resolution.py\<close>: every branch of the decision procedure with the
  returns, winnings, forfeits, bonuses and burns it computes.
\<close>

record resolution_result =
  r_market :: string
  r_outcome :: string
  r_provisional :: bool
  r_reason :: string
  bond_returns :: "(string, pyfloat) dict"
  bond_forfeits :: "(string, pyfloat) dict"
  first_submitter_bonuses :: "(string, pyfloat) dict"
  stake_returns :: "(payout_key, pyfloat) dict"
  stake_winnings :: "(payout_key, pyfloat) dict"
  burned_amount :: pyfloat

definition plain_result :: "string \<Rightarrow> string \<Rightarrow> bool \<Rightarrow> string \<Rightarrow> resolution_result" where
  "plain_result mid outcome prov reason =
     \<lparr>r_market = mid, r_outcome = outcome, r_provisional = prov, r_reason = reason,
      bond_returns = [], bond_forfeits = [], first_submitter_bonuses = [],
      stake_returns = [], stake_winnings = [], burned_amount = Fin 0\<rparr>"

definition stake_payout :: "resolution_stake \<Rightarrow> payout_key \<times> pyfloat" where
  "stake_payout s = ((rs_node s, rs_rep s), rs_amount s)"

definition return_stakes :: "resolution_stake list \<Rightarrow> resolution_result \<Rightarrow> resolution_result" where
  "return_stakes ss r = r\<lparr>stake_returns := ledger_add_all (stake_returns r) (map stake_payout ss)\<rparr>"

definition bond_payout :: "evidence_bundle \<Rightarrow> string \<times> pyfloat" where
  "bond_payout b = (b_node b, b_bond b)"

definition return_bonds :: "evidence_bundle list \<Rightarrow> resolution_result \<Rightarrow> resolution_result" where
  "return_bonds bs r = r\<lparr>bond_returns := ledger_add_all (bond_returns r) (map bond_payout bs)\<rparr>"

definition forfeit_bonds :: "evidence_bundle list \<Rightarrow> resolution_result \<Rightarrow> resolution_result" where
  "forfeit_bonds bs r = r\<lparr>bond_forfeits := ledger_add_all (bond_forfeits r) (map bond_payout bs)\<rparr>"

definition burn :: "pyfloat \<Rightarrow> resolution_result \<Rightarrow> resolution_result" where
  "burn x r = r\<lparr>burned_amount := fadd (burned_amount r) x\<rparr>"

definition pool :: "(resolution_stake \<Rightarrow> bool) \<Rightarrow> resolution_stake list \<Rightarrow> pyfloat" where
  "pool P ss = fsum (map rs_amount (filter P ss))"

text \<open>The dictionaries the code builds from the stakes for \<open>apply_to_stakes\<close>.\<close>

definition stake_dict :: "resolution_stake \<Rightarrow> event" where
  "stake_dict s = [(''node_id'', VStr (rs_node s)), (''rep_type'', VStr (rs_rep s)),
                   (''amount'', VFloat (rs_amount s))]"

subsection \<open>markets/data\_unavailable.py\<close>

definition is_data_unavailable_triggered :: "config \<Rightarrow> resolution_stake list \<Rightarrow> bool res" where
  "is_data_unavailable_triggered cfg ss =
     (let oracle_all = pool (\<lambda>s. rs_rep s = ''oracle'') ss in
      if fle oracle_all (Fin 0) then Inr False
      else rbind (fdiv (pool (\<lambda>s. rs_side s = ''data_unavailable'' \<and> rs_rep s = ''oracle'') ss) oracle_all) (\<lambda>q.
           rbind (cfg_float cfg ''data_unavailable_threshold'') (\<lambda>thr. Inr (fle thr q))))"

record da_effects =
  da_stake_returns :: "(payout_key, pyfloat) dict"
  da_bond_forfeits :: "(string, pyfloat) dict"
  da_burned :: pyfloat

definition da_forfeit :: "evidence_bundle \<Rightarrow> (string, pyfloat) dict \<times> pyfloat \<Rightarrow> (string, pyfloat) dict \<times> pyfloat" where
  "da_forfeit b acc =
     (if flt (Fin 0) (b_bond b)
      then (ledger_add (fst acc) (b_node b) (b_bond b), fadd (snd acc) (b_bond b)) else acc)"

definition resolve_data_unavailable_effects ::
  "config \<Rightarrow> resolution_stake list \<Rightarrow> evidence_bundle list \<Rightarrow> da_effects res" where
  "resolve_data_unavailable_effects cfg ss bs =
     (let da = filter (\<lambda>s. rs_side s = ''data_unavailable'') ss;
          others = filter (\<lambda>s. rs_side s = ''yes'' \<or> rs_side s = ''no'') ss;
          payable = filter (\<lambda>s. is_rep_type (VStr (rs_rep s)) \<and> \<not> fle (rs_amount s) (Fin 0)) da;
          returns1 = ledger_add_all [] (map stake_payout payable)
      in rbind (apply_to_stakes cfg (map stake_dict others) None) (\<lambda>(burn_returns, burn_total).
         let returns2 = ledger_add_all returns1 burn_returns;
             slashed = fold da_forfeit bs ([], fadd (Fin 0) burn_total)
         in Inr \<lparr>da_stake_returns = returns2, da_bond_forfeits = fst slashed, da_burned = snd slashed\<rparr>))"

subsection \<open>Bootstrap markets\<close>

definition eligible_vote :: "config \<Rightarrow> string \<Rightarrow> chain \<Rightarrow> event \<Rightarrow> string option res" where
  "eligible_vote cfg mid c v =
     (case nonempty_str (eget v ''node_id'') of
        None \<Rightarrow> Inr None
      | Some node \<Rightarrow>
          rbind (validate_bootstrap_eligibility cfg node mid c) (\<lambda>d.
          Inr (if eligible d then one_of [''yes'', ''no''] (eget (payload v) ''side'') else None)))"

definition bootstrap_winner :: "config \<Rightarrow> int \<Rightarrow> int \<Rightarrow> string option res" where
  "bootstrap_winner cfg yes no =
     rbind (cfg_float cfg ''bootstrap_resolution_supermajority'') (\<lambda>thr.
     rbind (int_div yes (yes + no)) (\<lambda>fy.
     if fle thr fy then Inr (Some ''yes'')
     else rbind (int_div no (yes + no)) (\<lambda>fn. Inr (if fle thr fn then Some ''no'' else None))))"

definition resolve_bootstrap ::
  "config \<Rightarrow> string \<Rightarrow> chain \<Rightarrow> bool \<Rightarrow> evidence_bundle list \<Rightarrow> resolution_result res" where
  "resolve_bootstrap cfg mid c prov bs =
     rbind (deduplicate_votes mid c) (\<lambda>vs.
     rbind (mapR (eligible_vote cfg mid c) vs) (\<lambda>sides.
     let yes = int (count_list sides (Some ''yes'')); no = int (count_list sides (Some ''no'')) in
     rbind (cfg_int cfg ''min_market_participants'') (\<lambda>least.
     if yes + no < least
     then Inr (return_bonds bs (plain_result mid ''invalid'' prov ''bootstrap_below_min_participation''))
     else rbind (bootstrap_winner cfg yes no) (\<lambda>w.
     case w of
       None \<Rightarrow> Inr (return_bonds bs (plain_result mid ''invalid'' prov ''bootstrap_no_supermajority''))
     | Some side \<Rightarrow>
         if \<not> list_ex (\<lambda>b. b_outcome b = side) bs
         then Inr (return_bonds bs (plain_result mid ''invalid'' prov ''no_winning_side_evidence''))
         else Inr (forfeit_bonds (filter (\<lambda>b. b_outcome b \<noteq> side) bs)
                    (return_bonds (filter (\<lambda>b. b_outcome b = side) bs)
                      (plain_result mid side prov (''bootstrap_supermajority_'' @ side))))))))"

subsection \<open>The supermajority and the distribution\<close>

definition supermajority_winner :: "pyfloat \<Rightarrow> pyfloat \<Rightarrow> pyfloat \<Rightarrow> string option res" where
  "supermajority_winner yes no thr =
     (let total = fadd yes no in
      if fle total (Fin 0) then Inr None
      else rbind (fdiv yes total) (\<lambda>fy.
           if fle thr fy then Inr (Some ''yes'')
           else rbind (fdiv no total) (\<lambda>fn. Inr (if fle thr fn then Some ''no'' else None))))"

definition credit_winning ::
  "string \<Rightarrow> pyfloat \<Rightarrow> pyfloat \<Rightarrow> resolution_stake \<Rightarrow> resolution_result \<Rightarrow> resolution_result res" where
  "credit_winning rep winner_pool distributable s r =
     rbind (fdiv (rs_amount s) winner_pool) (\<lambda>share.
     Inr (r\<lparr>stake_winnings := ledger_add (stake_winnings r) (rs_node s, rep) (fmul share distributable)\<rparr>))"

definition distribute_rep ::
  "pyfloat \<Rightarrow> string \<Rightarrow> resolution_stake list \<Rightarrow> string \<Rightarrow> resolution_result \<Rightarrow> resolution_result res" where
  "distribute_rep burn_pct side ss rep r =
     (let winners = filter (\<lambda>s. rs_side s = side \<and> rs_rep s = rep) ss;
          losers = filter (\<lambda>s. rs_side s \<noteq> side \<and> rs_side s \<noteq> ''data_unavailable'' \<and> rs_rep s = rep) ss;
          winner_pool = fsum (map rs_amount winners);
          loser_pool = fsum (map rs_amount losers);
          r1 = return_stakes winners r;
          r2 = return_stakes (filter (\<lambda>s. rs_rep s = rep \<and> rs_side s = ''data_unavailable'') ss) r1
      in if feq winner_pool (Fin 0) \<or> feq loser_pool (Fin 0) then Inr r2
         else (let burn_amt = fmul loser_pool burn_pct; distributable = fsub loser_pool burn_amt
               in foldR (credit_winning rep winner_pool distributable) winners (burn burn_amt r2)))"

definition settle_bond ::
  "config \<Rightarrow> string \<Rightarrow> evidence_bundle \<Rightarrow> resolution_result \<times> pyfloat \<Rightarrow> (resolution_result \<times> pyfloat) res" where
  "settle_bond cfg side b acc =
     (case acc of (r, budget) \<Rightarrow>
        if b_outcome b = side then
          (let r1 = return_bonds [b] r in
           if b_first b \<and> flt (Fin 0) budget then
             rbind (cfg_float cfg ''evidence_first_bonus'') (\<lambda>bonus.
             let amt = fmin2 bonus budget in
             Inr (if flt (Fin 0) amt
                  then (r1\<lparr>first_submitter_bonuses := ledger_add (first_submitter_bonuses r1) (b_node b) amt\<rparr>,
                        fsub budget amt)
                  else (r1, budget)))
           else Inr (r1, budget))
        else Inr (forfeit_bonds [b] r, budget))"

definition settle_winning_side ::
  "config \<Rightarrow> string \<Rightarrow> bool \<Rightarrow> evidence_bundle list \<Rightarrow> resolution_stake list \<Rightarrow> string \<Rightarrow> resolution_result res" where
  "settle_winning_side cfg mid prov bs ss side =
     rbind (cfg_float cfg ''resolution_loser_burn_pct'') (\<lambda>burn_pct.
     rbind (foldR (distribute_rep burn_pct side ss) rep_types
              (plain_result mid side prov (''supermajority_'' @ side))) (\<lambda>r.
     rbind (foldR (settle_bond cfg side) bs
              (r, fsum (map b_bond (filter (\<lambda>b. b_outcome b \<noteq> side) bs)))) (\<lambda>(r', unspent).
     Inr (burn unspent r'))))"

subsection \<open>The decision procedure\<close>

definition resolve_staked ::
  "config \<Rightarrow> string \<Rightarrow> bool \<Rightarrow> evidence_bundle list \<Rightarrow> resolution_stake list \<Rightarrow> resolution_result res" where
  "resolve_staked cfg mid prov bs ss =
     rbind (is_data_unavailable_triggered cfg ss) (\<lambda>da.
     if da then
       rbind (resolve_data_unavailable_effects cfg ss bs) (\<lambda>fx.
       Inr (burn (da_burned fx)
         ((plain_result mid ''invalid'' prov ''data_unavailable'')
            \<lparr>stake_returns := ledger_add_all [] (da_stake_returns fx),
             bond_forfeits := ledger_add_all [] (da_bond_forfeits fx)\<rparr>)))
     else
       (let yes = pool (\<lambda>s. rs_side s = ''yes'' \<and> rs_rep s = ''oracle'') ss;
            no = pool (\<lambda>s. rs_side s = ''no'' \<and> rs_rep s = ''oracle'') ss in
        rbind (cfg_float cfg ''min_resolution_stake_total'') (\<lambda>least.
        if flt (fadd yes no) least
        then Inr (return_bonds bs (return_stakes ss
               (plain_result mid ''invalid'' prov ''below_min_resolution_stake'')))
        else
          rbind (cfg_float cfg ''resolution_supermajority'') (\<lambda>thr.
          rbind (supermajority_winner yes no thr) (\<lambda>w.
          case w of
            None \<Rightarrow>
              rbind (apply_to_stakes cfg (map stake_dict ss) None) (\<lambda>(burn_returns, burn_total).
              Inr (return_bonds bs (burn burn_total
                ((plain_result mid ''invalid'' prov ''no_supermajority'')
                   \<lparr>stake_returns := ledger_add_all [] burn_returns\<rparr>))))
          | Some side \<Rightarrow>
              if \<not> list_ex (\<lambda>b. b_outcome b = side) bs
              then Inr (return_bonds bs (return_stakes ss
                     (plain_result mid ''invalid'' prov ''no_winning_side_evidence'')))
              else settle_winning_side cfg mid prov bs ss side)))))"

definition bootstrap_index :: "event \<Rightarrow> int option res" where
  "bootstrap_index create =
     (let v = eget (payload create) ''bootstrap_index'' in
      if v = VNone then Inr None else catch_tv (py_int v))"

definition is_bootstrap_market :: "config \<Rightarrow> int option \<Rightarrow> bool res" where
  "is_bootstrap_market cfg idx =
     (case idx of
        None \<Rightarrow> Inr False
      | Some i \<Rightarrow> rbind (cfg_int cfg ''bootstrap_market_count'') (\<lambda>n. Inr (i \<le> n)))"

definition market_create :: "string \<Rightarrow> chain \<Rightarrow> event option" where
  "market_create mid c =
     List.find (\<lambda>e. etype e ''prediction_create'' \<and> eget (payload e) ''market_id'' = VStr mid) (dict_events c)"

definition resolve_market :: "config \<Rightarrow> string \<Rightarrow> chain \<Rightarrow> bool \<Rightarrow> resolution_result res" where
  "resolve_market cfg mid c prov =
     (case market_create mid c of
        None \<Rightarrow> Inr (plain_result mid ''invalid'' prov ''no_market'')
      | Some create \<Rightarrow>
          rbind (bootstrap_index create) (\<lambda>idx.
          rbind (collect_evidence mid c) (\<lambda>bs.
          rbind (collect_resolution_stakes mid c True) (\<lambda>ss.
          if bs = [] then Inr (return_stakes ss (plain_result mid ''invalid'' prov ''no_evidence''))
          else rbind (is_bootstrap_market cfg idx) (\<lambda>boot.
               if boot then resolve_bootstrap cfg mid c prov bs
               else resolve_staked cfg mid prov bs ss)))))"

end
