(* ===== verification/Resolution_Properties.thy ===== *)
theory Resolution_Properties
  imports Market_Resolution
begin

section \<open>What a resolution does\<close>

text \<open>
  Lemmas and properties of \<open>resolve_market\<close>: when it decides for a side, who is paid, and what
  each branch returns, burns or forfeits.
\<close>

subsection \<open>Fields the helpers touch\<close>

lemma plain_result_simps [simp]:
  "r_market (plain_result mid outcome prov reason) = mid"
  "r_outcome (plain_result mid outcome prov reason) = outcome"
  "r_provisional (plain_result mid outcome prov reason) = prov"
  "r_reason (plain_result mid outcome prov reason) = reason"
  "bond_returns (plain_result mid outcome prov reason) = []"
  "bond_forfeits (plain_result mid outcome prov reason) = []"
  "first_submitter_bonuses (plain_result mid outcome prov reason) = []"
  "stake_returns (plain_result mid outcome prov reason) = []"
  "stake_winnings (plain_result mid outcome prov reason) = []"
  "burned_amount (plain_result mid outcome prov reason) = Fin 0"
  by (simp_all add: plain_result_def)

lemma return_stakes_simps [simp]:
  "r_outcome (return_stakes ss r) = r_outcome r"
  "r_reason (return_stakes ss r) = r_reason r"
  "bond_returns (return_stakes ss r) = bond_returns r"
  "bond_forfeits (return_stakes ss r) = bond_forfeits r"
  "first_submitter_bonuses (return_stakes ss r) = first_submitter_bonuses r"
  "stake_returns (return_stakes ss r) = ledger_add_all (stake_returns r) (map stake_payout ss)"
  "stake_winnings (return_stakes ss r) = stake_winnings r"
  "burned_amount (return_stakes ss r) = burned_amount r"
  by (simp_all add: return_stakes_def)

lemma return_bonds_simps [simp]:
  "r_outcome (return_bonds bs r) = r_outcome r"
  "r_reason (return_bonds bs r) = r_reason r"
  "bond_returns (return_bonds bs r) = ledger_add_all (bond_returns r) (map bond_payout bs)"
  "bond_forfeits (return_bonds bs r) = bond_forfeits r"
  "first_submitter_bonuses (return_bonds bs r) = first_submitter_bonuses r"
  "stake_returns (return_bonds bs r) = stake_returns r"
  "stake_winnings (return_bonds bs r) = stake_winnings r"
  "burned_amount (return_bonds bs r) = burned_amount r"
  by (simp_all add: return_bonds_def)

lemma return_bonds_Nil [simp]: "return_bonds [] r = r"
  by (cases r) (simp add: return_bonds_def)

lemma forfeit_bonds_simps [simp]:
  "r_outcome (forfeit_bonds bs r) = r_outcome r"
  "r_reason (forfeit_bonds bs r) = r_reason r"
  "bond_returns (forfeit_bonds bs r) = bond_returns r"
  "bond_forfeits (forfeit_bonds bs r) = ledger_add_all (bond_forfeits r) (map bond_payout bs)"
  "first_submitter_bonuses (forfeit_bonds bs r) = first_submitter_bonuses r"
  "stake_returns (forfeit_bonds bs r) = stake_returns r"
  "stake_winnings (forfeit_bonds bs r) = stake_winnings r"
  "burned_amount (forfeit_bonds bs r) = burned_amount r"
  by (simp_all add: forfeit_bonds_def)

lemma burn_simps [simp]:
  "r_outcome (burn x r) = r_outcome r"
  "r_reason (burn x r) = r_reason r"
  "bond_returns (burn x r) = bond_returns r"
  "bond_forfeits (burn x r) = bond_forfeits r"
  "first_submitter_bonuses (burn x r) = first_submitter_bonuses r"
  "stake_returns (burn x r) = stake_returns r"
  "stake_winnings (burn x r) = stake_winnings r"
  "burned_amount (burn x r) = fadd (burned_amount r) x"
  by (simp_all add: burn_def)

subsection \<open>Distribution of one reputation type\<close>

definition winning :: "string \<Rightarrow> string \<Rightarrow> resolution_stake \<Rightarrow> bool" where
  "winning side rep s \<longleftrightarrow> rs_side s = side \<and> rs_rep s = rep"

definition unavailable_vote :: "string \<Rightarrow> resolution_stake \<Rightarrow> bool" where
  "unavailable_vote rep s \<longleftrightarrow> rs_rep s = rep \<and> rs_side s = ''data_unavailable''"

lemma credit_winning_Inr:
  "credit_winning rep wp d s r = Inr r' \<longleftrightarrow> (\<exists>q. fdiv (rs_amount s) wp = Inr q \<and>
     r' = r\<lparr>stake_winnings := ledger_add (stake_winnings r) (rs_node s, rep) (fmul q d)\<rparr>)"
  by (auto simp: credit_winning_def res_simps)

lemma credit_winnings:
  assumes "foldR (credit_winning rep wp d) ws r = Inr r'"
  shows "\<exists>kvs. r' = r\<lparr>stake_winnings := ledger_add_all (stake_winnings r) kvs\<rparr> \<and>
    list_all2 (\<lambda>kv s. fst kv = (rs_node s, rep) \<and>
      (\<exists>q. fdiv (rs_amount s) wp = Inr q \<and> snd kv = fmul q d)) kvs ws"
  using assms
proof (induction ws arbitrary: r)
  case Nil
  then show ?case by (intro exI [of _ "[]"]) simp
next
  case (Cons w ws)
  from Cons.prems obtain q where q: "fdiv (rs_amount w) wp = Inr q"
    "foldR (credit_winning rep wp d) ws
       (r\<lparr>stake_winnings := ledger_add (stake_winnings r) (rs_node w, rep) (fmul q d)\<rparr>) = Inr r'"
    by (auto simp: res_simps credit_winning_Inr)
  from Cons.IH [OF q(2)] obtain kvs where kvs:
    "r' = r\<lparr>stake_winnings := ledger_add_all (ledger_add (stake_winnings r) (rs_node w, rep) (fmul q d)) kvs\<rparr>"
    "list_all2 (\<lambda>kv s. fst kv = (rs_node s, rep) \<and>
      (\<exists>q. fdiv (rs_amount s) wp = Inr q \<and> snd kv = fmul q d)) kvs ws" by auto
  then show ?case using q(1)
    by (intro exI [of _ "((rs_node w, rep), fmul q d) # kvs"]) (simp add: ledger_add_all_def)
qed

lemma distribute_rep_fields:
  assumes "distribute_rep p side ss rep r = Inr r'"
  shows "stake_returns r' = ledger_add_all (stake_returns r)
      (map stake_payout (filter (winning side rep) ss @ filter (unavailable_vote rep) ss))"
    and "r_outcome r' = r_outcome r" and "r_reason r' = r_reason r"
    and "bond_returns r' = bond_returns r" and "bond_forfeits r' = bond_forfeits r"
    and "first_submitter_bonuses r' = first_submitter_bonuses r"
    and "\<exists>kvs. stake_winnings r' = ledger_add_all (stake_winnings r) kvs \<and>
      fst ` set kvs \<subseteq> (\<lambda>s. (rs_node s, rs_rep s)) ` set ss"
proof -
  have w: "(\<lambda>s. rs_side s = side \<and> rs_rep s = rep) = winning side rep"
    "(\<lambda>s. rs_rep s = rep \<and> rs_side s = ''data_unavailable'') = unavailable_vote rep"
    by (simp_all add: winning_def unavailable_vote_def fun_eq_iff)
  let ?r2 = "return_stakes (filter (unavailable_vote rep) ss) (return_stakes (filter (winning side rep) ss) r)"
  consider "r' = ?r2"
    | b kvs where "r' = (burn b ?r2)\<lparr>stake_winnings := ledger_add_all (stake_winnings r) kvs\<rparr>"
      "list_all2 (\<lambda>kv s. fst kv = (rs_node s, rep)) kvs (filter (winning side rep) ss)"
  proof (cases "feq (fsum (map rs_amount (filter (winning side rep) ss))) (Fin 0) \<or>
      feq (fsum (map rs_amount (filter (\<lambda>s. rs_side s \<noteq> side \<and> rs_side s \<noteq> ''data_unavailable'' \<and> rs_rep s = rep) ss))) (Fin 0)")
    case True
    then show ?thesis using assms that(1) by (simp add: distribute_rep_def Let_def w)
  next
    case False
    then obtain b wp d where "foldR (credit_winning rep wp d) (filter (winning side rep) ss) (burn b ?r2) = Inr r'"
      using assms by (auto simp: distribute_rep_def Let_def w)
    from credit_winnings [OF this] obtain kvs where kvs:
      "r' = (burn b ?r2)\<lparr>stake_winnings := ledger_add_all (stake_winnings r) kvs\<rparr>"
      "list_all2 (\<lambda>kv s. fst kv = (rs_node s, rep) \<and>
         (\<exists>q. fdiv (rs_amount s) wp = Inr q \<and> snd kv = fmul q d)) kvs (filter (winning side rep) ss)" by auto
    from kvs(2) have "list_all2 (\<lambda>kv s. fst kv = (rs_node s, rep)) kvs (filter (winning side rep) ss)"
      by (rule list_all2_mono) blast
    with kvs(1) show ?thesis by (rule that(2))
  qed
  note cases = this
  have keys: "fst ` set kvs \<subseteq> (\<lambda>s. (rs_node s, rs_rep s)) ` set ss"
    if "list_all2 (\<lambda>kv s. fst kv = (rs_node s, rep)) kvs (filter (winning side rep) ss)" for kvs :: "(payout_key \<times> pyfloat) list"
  proof
    fix k assume "k \<in> fst ` set kvs"
    then obtain i where i: "i < length kvs" "k = fst (kvs ! i)" by (auto simp: in_set_conv_nth)
    then have len: "i < length (filter (winning side rep) ss)"
      and k: "k = (rs_node (filter (winning side rep) ss ! i), rep)"
      using that by (auto simp: list_all2_conv_all_nth)
    from nth_mem [OF len] k show "k \<in> (\<lambda>s. (rs_node s, rs_rep s)) ` set ss" by (auto simp: winning_def)
  qed
  show "stake_returns r' = ledger_add_all (stake_returns r)
      (map stake_payout (filter (winning side rep) ss @ filter (unavailable_vote rep) ss))"
    and "r_outcome r' = r_outcome r" and "r_reason r' = r_reason r"
    and "bond_returns r' = bond_returns r" and "bond_forfeits r' = bond_forfeits r"
    and "first_submitter_bonuses r' = first_submitter_bonuses r"
    using cases by (cases; simp add: ledger_add_all_append)+
  show "\<exists>kvs. stake_winnings r' = ledger_add_all (stake_winnings r) kvs \<and>
      fst ` set kvs \<subseteq> (\<lambda>s. (rs_node s, rs_rep s)) ` set ss"
    using cases
  proof cases
    case 1
    then show ?thesis by (intro exI [of _ "[]"]) simp
  next
    case (2 b kvs)
    then show ?thesis using keys [OF 2(2)] by (intro exI [of _ kvs]) simp
  qed
qed

subsection \<open>Settlement of the bonds\<close>

definition bonus_step :: "config \<Rightarrow> evidence_bundle \<Rightarrow> (string, pyfloat) dict \<times> pyfloat \<Rightarrow>
    ((string, pyfloat) dict \<times> pyfloat) res" where
  "bonus_step cfg b acc =
     (if flt (Fin 0) (snd acc) then
        rbind (cfg_float cfg ''evidence_first_bonus'') (\<lambda>bonus.
        let amt = fmin2 bonus (snd acc) in
        Inr (if flt (Fin 0) amt then (ledger_add (fst acc) (b_node b) amt, fsub (snd acc) amt) else acc))
      else Inr acc)"

definition on_side :: "string \<Rightarrow> evidence_bundle \<Rightarrow> bool" where
  "on_side side b \<longleftrightarrow> b_outcome b = side"

lemma settle_bond_fields:
  assumes "settle_bond cfg side b (r, budget) = Inr (r', budget')"
  shows "r_outcome r' = r_outcome r" "r_reason r' = r_reason r" "stake_returns r' = stake_returns r"
    "stake_winnings r' = stake_winnings r" "burned_amount r' = burned_amount r"
    "bond_returns r' = ledger_add_all (bond_returns r) (map bond_payout (filter (on_side side) [b]))"
    "bond_forfeits r' = ledger_add_all (bond_forfeits r) (map bond_payout (filter (\<lambda>b. \<not> on_side side b) [b]))"
    "foldR (bonus_step cfg) (filter (\<lambda>b. on_side side b \<and> b_first b) [b]) (first_submitter_bonuses r, budget)
       = Inr (first_submitter_bonuses r', budget')"
  using assms
  by (cases "cfg_float cfg ''evidence_first_bonus''";
      auto simp: settle_bond_def on_side_def bonus_step_def Let_def res_simps split: if_splits)+

lemma settle_bonds_fields:
  assumes "foldR (settle_bond cfg side) bs (r, budget) = Inr (r', budget')"
  shows "r_outcome r' = r_outcome r \<and> r_reason r' = r_reason r \<and> stake_returns r' = stake_returns r \<and>
    stake_winnings r' = stake_winnings r \<and> burned_amount r' = burned_amount r \<and>
    bond_returns r' = ledger_add_all (bond_returns r) (map bond_payout (filter (on_side side) bs)) \<and>
    bond_forfeits r' = ledger_add_all (bond_forfeits r) (map bond_payout (filter (\<lambda>b. \<not> on_side side b) bs)) \<and>
    foldR (bonus_step cfg) (filter (\<lambda>b. on_side side b \<and> b_first b) bs) (first_submitter_bonuses r, budget)
      = Inr (first_submitter_bonuses r', budget')"
  using assms
proof (induction bs arbitrary: r budget)
  case Nil
  then show ?case by simp
next
  case (Cons b bs)
  from Cons.prems obtain r1 budget1 where step: "settle_bond cfg side b (r, budget) = Inr (r1, budget1)"
    and rest: "foldR (settle_bond cfg side) bs (r1, budget1) = Inr (r', budget')"
    by (auto simp: res_simps)
  have split: "filter P (b # bs) = filter P [b] @ filter P bs" for P by simp
  show ?case
    unfolding split map_append ledger_add_all_append foldR_append
    using Cons.IH [OF rest] settle_bond_fields [OF step] by simp
qed

lemma one_first_per_side:
  assumes "first_marked bs"
  shows "filter (\<lambda>b. on_side side b \<and> b_first b) bs = [] \<or>
    (\<exists>b. filter (\<lambda>b. on_side side b \<and> b_first b) bs = [b])"
  using assms
proof (induction bs rule: rev_induct)
  case Nil
  then show ?case by simp
next
  case (snoc b bs)
  then have IH: "filter (\<lambda>b. on_side side b \<and> b_first b) bs = [] \<or>
      (\<exists>b. filter (\<lambda>b. on_side side b \<and> b_first b) bs = [b])"
    and b: "b_first b \<longleftrightarrow> (\<forall>b' \<in> set bs. b_outcome b' \<noteq> b_outcome b)"
    by (simp_all add: first_marked_snoc)
  show ?case
  proof (cases "on_side side b \<and> b_first b")
    case True
    then have "filter (\<lambda>b. on_side side b \<and> b_first b) bs = []"
      using b by (auto simp: filter_empty_conv on_side_def)
    then show ?thesis using True by simp
  next
    case False
    then show ?thesis using IH by auto
  qed
qed

subsection \<open>The settled branch as a whole\<close>

lemma settle_winning_side_fields:
  assumes "settle_winning_side cfg mid prov bs ss side = Inr r"
  shows "r_outcome r = side" and "r_reason r = ''supermajority_'' @ side"
    and "stake_returns r = ledger_add_all [] (map stake_payout
      (filter (winning side ''oracle'') ss @ filter (unavailable_vote ''oracle'') ss @
       filter (winning side ''common'') ss @ filter (unavailable_vote ''common'') ss))"
    and "set (map fst (stake_winnings r)) \<subseteq> (\<lambda>s. (rs_node s, rs_rep s)) ` set ss"
    and "bond_returns r = ledger_add_all [] (map bond_payout (filter (on_side side) bs))"
    and "bond_forfeits r = ledger_add_all [] (map bond_payout (filter (\<lambda>b. \<not> on_side side b) bs))"
    and "\<exists>unspent. foldR (bonus_step cfg) (filter (\<lambda>b. on_side side b \<and> b_first b) bs)
      ([], fsum (map b_bond (filter (\<lambda>b. \<not> on_side side b) bs))) = Inr (first_submitter_bonuses r, unspent)"
proof -
  obtain p r1 r2 r3 unspent where
    o: "distribute_rep p side ss ''oracle'' (plain_result mid side prov (''supermajority_'' @ side)) = Inr r1"
    and c: "distribute_rep p side ss ''common'' r1 = Inr r2"
    and b: "foldR (settle_bond cfg side) bs
      (r2, fsum (map b_bond (filter (\<lambda>b. b_outcome b \<noteq> side) bs))) = Inr (r3, unspent)"
    and r: "r = burn unspent r3"
    using assms by (auto simp: settle_winning_side_def rep_types_def res_simps)
  note O = distribute_rep_fields [OF o] and C = distribute_rep_fields [OF c] and B = settle_bonds_fields [OF b]
  have side: "(\<lambda>b. b_outcome b \<noteq> side) = (\<lambda>b. \<not> on_side side b)" by (simp add: on_side_def)
  show "r_outcome r = side" "r_reason r = ''supermajority_'' @ side"
    using O(2,3) C(2,3) B r by simp_all
  show "stake_returns r = ledger_add_all [] (map stake_payout
      (filter (winning side ''oracle'') ss @ filter (unavailable_vote ''oracle'') ss @
       filter (winning side ''common'') ss @ filter (unavailable_vote ''common'') ss))"
    using O(1) C(1) B r by (simp add: ledger_add_all_append)
  show "bond_returns r = ledger_add_all [] (map bond_payout (filter (on_side side) bs))"
    "bond_forfeits r = ledger_add_all [] (map bond_payout (filter (\<lambda>b. \<not> on_side side b) bs))"
    using O(4,5) C(4,5) B r by simp_all
  show "\<exists>unspent. foldR (bonus_step cfg) (filter (\<lambda>b. on_side side b \<and> b_first b) bs)
      ([], fsum (map b_bond (filter (\<lambda>b. \<not> on_side side b) bs))) = Inr (first_submitter_bonuses r, unspent)"
    using O(6) C(6) B r by (auto simp: side)
  obtain k1 k2 where "stake_winnings r1 = ledger_add_all [] k1" "stake_winnings r2 = ledger_add_all (stake_winnings r1) k2"
    "fst ` set k1 \<subseteq> (\<lambda>s. (rs_node s, rs_rep s)) ` set ss" "fst ` set k2 \<subseteq> (\<lambda>s. (rs_node s, rs_rep s)) ` set ss"
    using O(7) C(7) by auto
  then show "set (map fst (stake_winnings r)) \<subseteq> (\<lambda>s. (rs_node s, rs_rep s)) ` set ss"
    using B r by (simp add: ledger_keys del: set_map)
qed

subsection \<open>Stakes under the stalemate burn\<close>

definition payable :: "resolution_stake \<Rightarrow> bool" where
  "payable s \<longleftrightarrow> rs_rep s \<in> set rep_types \<and> \<not> fle (rs_amount s) (Fin 0) \<and> valid64 (rs_amount s)"

definition burned_part :: "pyfloat \<Rightarrow> resolution_stake \<Rightarrow> pyfloat" where
  "burned_part p s = fst (burn_split (rs_amount s) p)"

definition returned_part :: "pyfloat \<Rightarrow> resolution_stake \<Rightarrow> payout_key \<times> pyfloat" where
  "returned_part p s = ((rs_node s, rs_rep s), snd (burn_split (rs_amount s) p))"

definition burnable :: "resolution_stake list \<Rightarrow> resolution_stake list" where
  "burnable ss = filter (\<lambda>s. isfinite (rs_amount s)) ss"

definition returned_parts :: "pyfloat \<Rightarrow> resolution_stake list \<Rightarrow> (payout_key \<times> pyfloat) list" where
  "returned_parts p ss = filter (\<lambda>kv. flt (Fin 0) (snd kv)) (map (returned_part p) (burnable ss))"

lemma finite_float_tv_VFloat: "valid64 f \<Longrightarrow> finite_float_tv (VFloat f) = Inr (if isfinite f then Some f else None)"
  by (simp add: finite_float_tv_def canon64_valid)

lemma burn_stake_dict:
  assumes "payable s" "valid64 p" "isfinite p"
  shows "burn_stake cfg p (stake_dict s) (d, b) = Inr
    (if isfinite (rs_amount s)
     then (ledger_add_all d (filter (\<lambda>kv. flt (Fin 0) (snd kv)) [returned_part p s]), fadd b (burned_part p s))
     else (d, b))"
proof -
  have rep: "is_rep_type (VStr (rs_rep s))"
    using assms(1) by (auto simp: payable_def rep_types_def is_rep_type_def)
  have "finite_float_tv (VFloat (rs_amount s)) = Inr (if isfinite (rs_amount s) then Some (rs_amount s) else None)"
    using assms(1) by (simp add: payable_def finite_float_tv_VFloat)
  moreover have "required_finite (VFloat p) = Inr p"
    using assms(2,3) by (simp add: required_finite_def finite_float_tv_VFloat)
  ultimately show ?thesis using assms(1) rep
    by (simp add: burn_stake_def stake_dict_def chain_simps split_burn_and_return_def payable_def
        burn_pct_or_default_def burned_part_def returned_part_def ledger_add_all_def split: prod.splits)
qed

lemma burn_stakes_eq:
  assumes "\<And>s. s \<in> set ss \<Longrightarrow> payable s" "valid64 p" "isfinite p"
  shows "foldR (burn_stake cfg p) (map stake_dict ss) (d, b) =
    Inr (ledger_add_all d (returned_parts p ss), fold (\<lambda>x s. fadd s x) (map (burned_part p) (burnable ss)) b)"
  using assms(1)
proof (induction ss arbitrary: d b)
  case Nil
  then show ?case by (simp add: returned_parts_def burnable_def)
next
  case (Cons s ss)
  have "returned_parts p (s # ss) = (if isfinite (rs_amount s)
      then filter (\<lambda>kv. flt (Fin 0) (snd kv)) [returned_part p s] else []) @ returned_parts p ss"
    by (simp add: returned_parts_def burnable_def)
  moreover have "burnable (s # ss) = (if isfinite (rs_amount s) then [s] else []) @ burnable ss"
    by (simp add: burnable_def)
  ultimately show ?case using Cons burn_stake_dict [OF _ assms(2,3), of s]
    by (simp add: ledger_add_all_append)
qed

lemma burn_pct_valid: "burn_pct_or_default cfg pct = Inr p \<Longrightarrow> \<exists>q. p = Fin q \<and> valid64 p"
  using required_finite_Fin by (fastforce simp: burn_pct_or_default_def res_simps)

lemma apply_to_stakes_eq:
  assumes "apply_to_stakes cfg (map stake_dict ss) pct = Inr (ret, burned)"
    and "\<And>s. s \<in> set ss \<Longrightarrow> payable s"
  shows "\<exists>q. burn_pct_or_default cfg pct = Inr (Fin q) \<and> ret = ledger_add_all [] (returned_parts (Fin q) ss) \<and>
    burned = fsum (map (burned_part (Fin q)) (burnable ss))"
proof -
  from assms(1) obtain p where p: "burn_pct_or_default cfg pct = Inr p"
    "foldR (burn_stake cfg p) (map stake_dict ss) ([], Fin 0) = Inr (ret, burned)"
    by (auto simp: apply_to_stakes_def res_simps)
  from burn_pct_valid [OF p(1)] obtain q where "p = Fin q" "valid64 p" by blast
  then show ?thesis using p burn_stakes_eq [OF assms(2)] by (auto simp: fsum_def)
qed

lemma returned_parts_keys: "fst ` set (returned_parts p ss) \<subseteq> (\<lambda>s. (rs_node s, rs_rep s)) ` set ss"
  by (auto simp: returned_parts_def burnable_def returned_part_def)

lemma part_bounds:
  assumes "payable s" "isfinite (rs_amount s)"
  shows "\<exists>a b r. rs_amount s = Fin a \<and> burned_part (Fin p) s = Fin b \<and> snd (returned_part (Fin p) s) = Fin r \<and>
    0 \<le> b \<and> b \<le> a \<and> 0 \<le> r \<and> r \<le> a"
proof -
  obtain a where a: "rs_amount s = Fin a" "0 < a" "valid64 (Fin a)"
    using assms by (cases "rs_amount s") (auto simp: payable_def)
  then show ?thesis using burn_split_bounds [OF a(2,3), of p]
    by (auto simp: burned_part_def returned_part_def)
qed

lemma good_payable: "good_stake ex s \<Longrightarrow> payable s"
  by (simp add: good_stake_def payable_def)

lemma collected_payable: "collect_resolution_stakes mid c True = Inr ss \<Longrightarrow> s \<in> set ss \<Longrightarrow> payable s"
  using collect_set [of mid c True ss s] stake_of_good good_payable by force

subsection \<open>How a market comes to be decided\<close>

lemma resolve_market_branches:
  assumes "resolve_market cfg mid c prov = Inr r" and create: "market_create mid c = Some create"
  shows "\<exists>idx bs ss. bootstrap_index create = Inr idx \<and>
    collect_evidence mid c = Inr bs \<and> collect_resolution_stakes mid c True = Inr ss \<and>
    (if bs = [] then r = return_stakes ss (plain_result mid ''invalid'' prov ''no_evidence'')
     else \<exists>boot. is_bootstrap_market cfg idx = Inr boot \<and>
       (if boot then resolve_bootstrap cfg mid c prov bs else resolve_staked cfg mid prov bs ss) = Inr r)"
proof -
  from assms obtain idx bs ss where parts: "bootstrap_index create = Inr idx"
    "collect_evidence mid c = Inr bs" "collect_resolution_stakes mid c True = Inr ss"
    "(if bs = [] then Inr (return_stakes ss (plain_result mid ''invalid'' prov ''no_evidence''))
      else rbind (is_bootstrap_market cfg idx) (\<lambda>boot.
           if boot then resolve_bootstrap cfg mid c prov bs
           else resolve_staked cfg mid prov bs ss)) = Inr r"
    unfolding resolve_market_def by (simp only: option.case rbind_Inr_iff) blast
  then show ?thesis using create by (cases "bs = []") (auto simp: res_simps)
qed

lemma bootstrap_winner_Some:
  "bootstrap_winner cfg yes no = Inr (Some side) \<Longrightarrow> \<exists>thr q. (side = ''yes'' \<or> side = ''no'') \<and>
     cfg_float cfg ''bootstrap_resolution_supermajority'' = Inr thr \<and>
     int_div (if side = ''yes'' then yes else no) (yes + no) = Inr q \<and> fle thr q"
  by (auto simp: bootstrap_winner_def res_simps split: if_splits)

lemma supermajority_winner_Some:
  "supermajority_winner yes no thr = Inr (Some side) \<Longrightarrow> \<exists>q. (side = ''yes'' \<or> side = ''no'') \<and>
     fdiv (if side = ''yes'' then yes else no) (fadd yes no) = Inr q \<and> fle thr q"
  by (auto simp: supermajority_winner_def Let_def res_simps split: if_splits)

definition oracle_pool :: "resolution_stake list \<Rightarrow> string \<Rightarrow> pyfloat" where
  "oracle_pool ss side = pool (\<lambda>s. rs_side s = side \<and> rs_rep s = ''oracle'') ss"

lemma resolve_staked_decided:
  assumes "resolve_staked cfg mid prov bs ss = Inr r" and "r_outcome r \<noteq> ''invalid''"
  shows "\<exists>thr least q. (r_outcome r = ''yes'' \<or> r_outcome r = ''no'') \<and>
    is_data_unavailable_triggered cfg ss = Inr False \<and>
    cfg_float cfg ''min_resolution_stake_total'' = Inr least \<and>
    \<not> flt (fadd (oracle_pool ss ''yes'') (oracle_pool ss ''no'')) least \<and>
    cfg_float cfg ''resolution_supermajority'' = Inr thr \<and>
    fdiv (oracle_pool ss (r_outcome r)) (fadd (oracle_pool ss ''yes'') (oracle_pool ss ''no'')) = Inr q \<and>
    fle thr q \<and> list_ex (\<lambda>b. b_outcome b = r_outcome r) bs \<and>
    settle_winning_side cfg mid prov bs ss (r_outcome r) = Inr r"
proof -
  note unfold = resolve_staked_def Let_def rbind_Inr_iff oracle_pool_def [symmetric]
  obtain trig where trig: "is_data_unavailable_triggered cfg ss = Inr trig"
    using assms(1) by (auto simp: resolve_staked_def rbind_Inr_iff)
  have "\<not> trig"
  proof
    assume trig
    with trig assms show False by (auto simp: resolve_staked_def rbind_Inr_iff)
  qed
  with trig have da: "is_data_unavailable_triggered cfg ss = Inr False" by simp
  from assms(1) da obtain least where least: "cfg_float cfg ''min_resolution_stake_total'' = Inr least"
    by (auto simp: unfold)
  have enough: "\<not> flt (fadd (oracle_pool ss ''yes'') (oracle_pool ss ''no'')) least"
    using assms da least by (auto simp: unfold)
  with assms(1) da least obtain thr w where thr: "cfg_float cfg ''resolution_supermajority'' = Inr thr"
    and w: "supermajority_winner (oracle_pool ss ''yes'') (oracle_pool ss ''no'') thr = Inr w"
    by (auto simp: unfold)
  note known = da least enough thr w
  have "w \<noteq> None" using assms known by (cases w) (auto simp: unfold)
  then obtain side where side: "supermajority_winner (oracle_pool ss ''yes'') (oracle_pool ss ''no'') thr = Inr (Some side)"
    using w by auto
  have evidence: "list_ex (\<lambda>b. b_outcome b = side) bs"
    using assms da least enough thr side by (auto simp: unfold split: if_splits)
  have settle: "settle_winning_side cfg mid prov bs ss side = Inr r"
    using assms(1) da least enough thr side evidence by (simp add: unfold)
  have out: "r_outcome r = side" by (rule settle_winning_side_fields(1) [OF settle])
  from supermajority_winner_Some [OF side] obtain q where q: "side = ''yes'' \<or> side = ''no''"
    "fdiv (oracle_pool ss side) (fadd (oracle_pool ss ''yes'') (oracle_pool ss ''no'')) = Inr q" "fle thr q"
    by auto
  show ?thesis unfolding out using da least enough thr evidence settle q by blast
qed

subsection \<open>Who is paid\<close>

definition paid_from :: "resolution_stake list \<Rightarrow> (payout_key, pyfloat) dict \<Rightarrow> bool" where
  "paid_from ss d \<longleftrightarrow> set (map fst d) \<subseteq> (\<lambda>s. (rs_node s, rs_rep s)) ` set ss"

lemma paid_from_Nil [simp]: "paid_from ss []"
  by (simp add: paid_from_def)

lemma paid_from_add: "paid_from ss d \<Longrightarrow> fst ` set kvs \<subseteq> (\<lambda>s. (rs_node s, rs_rep s)) ` set ss \<Longrightarrow>
    paid_from ss (ledger_add_all d kvs)"
  by (simp add: paid_from_def ledger_keys del: set_map)

lemma paid_from_stakes: "set ts \<subseteq> set ss \<Longrightarrow> paid_from ss d \<Longrightarrow> paid_from ss (ledger_add_all d (map stake_payout ts))"
  by (rule paid_from_add) (auto simp: stake_payout_def)

lemma paid_from_all [simp]: "paid_from ss (ledger_add_all [] (map stake_payout ss))"
  by (rule paid_from_stakes) simp_all

lemma settled_paid:
  assumes "settle_winning_side cfg mid prov bs ss side = Inr r"
  shows "paid_from ss (stake_returns r) \<and> paid_from ss (stake_winnings r)"
proof
  show "paid_from ss (stake_returns r)"
    unfolding settle_winning_side_fields(3) [OF assms] by (rule paid_from_stakes) auto
  show "paid_from ss (stake_winnings r)"
    using settle_winning_side_fields(4) [OF assms] by (simp add: paid_from_def)
qed

lemma paid_from_dict: "paid_from ss d \<Longrightarrow> paid_from ss kvs \<Longrightarrow> paid_from ss (ledger_add_all d kvs)"
  by (rule paid_from_add) (simp_all add: paid_from_def)

lemma apply_to_stakes_paid:
  assumes "apply_to_stakes cfg (map stake_dict ts) pct = Inr (ret, burned)"
    and "\<And>s. s \<in> set ss \<Longrightarrow> payable s" and "set ts \<subseteq> set ss"
  shows "paid_from ss ret"
proof -
  obtain q where "ret = ledger_add_all [] (returned_parts (Fin q) ts)"
    using apply_to_stakes_eq [OF assms(1)] assms(2,3) by blast
  then show ?thesis
    using returned_parts_keys [of "Fin q" ts] assms(3) by (auto intro!: paid_from_add)
qed

lemma data_unavailable_paid:
  assumes "resolve_data_unavailable_effects cfg ss bs = Inr fx" and "\<And>s. s \<in> set ss \<Longrightarrow> payable s"
  shows "paid_from ss (da_stake_returns fx)"
proof -
  obtain ret burned where ret: "apply_to_stakes cfg
      (map stake_dict (filter (\<lambda>s. rs_side s = ''yes'' \<or> rs_side s = ''no'') ss)) None = Inr (ret, burned)"
    and fx: "da_stake_returns fx = ledger_add_all (ledger_add_all [] (map stake_payout
      (filter (\<lambda>s. is_rep_type (VStr (rs_rep s)) \<and> \<not> fle (rs_amount s) (Fin 0))
        (filter (\<lambda>s. rs_side s = ''data_unavailable'') ss)))) ret"
    using assms(1) by (auto simp: resolve_data_unavailable_effects_def Let_def rbind_Inr_iff)
  have "paid_from ss ret" by (rule apply_to_stakes_paid [OF ret assms(2)]) auto
  then show ?thesis unfolding fx by (intro paid_from_dict paid_from_stakes) auto
qed

text \<open>The branches of the staked procedure.\<close>

lemma resolve_staked_cases:
  assumes "resolve_staked cfg mid prov bs ss = Inr r"
  obtains (da) fx where "is_data_unavailable_triggered cfg ss = Inr True"
      "resolve_data_unavailable_effects cfg ss bs = Inr fx"
      "r = burn (da_burned fx) ((plain_result mid ''invalid'' prov ''data_unavailable'')
         \<lparr>stake_returns := ledger_add_all [] (da_stake_returns fx),
          bond_forfeits := ledger_add_all [] (da_bond_forfeits fx)\<rparr>)"
    | (below) "r = return_bonds bs (return_stakes ss (plain_result mid ''invalid'' prov ''below_min_resolution_stake''))"
    | (stalemate) ret burned where "apply_to_stakes cfg (map stake_dict ss) None = Inr (ret, burned)"
      "r = return_bonds bs (burn burned ((plain_result mid ''invalid'' prov ''no_supermajority'')
         \<lparr>stake_returns := ledger_add_all [] ret\<rparr>))"
    | (unsupported) "r = return_bonds bs (return_stakes ss (plain_result mid ''invalid'' prov ''no_winning_side_evidence''))"
    | (settled) side where "settle_winning_side cfg mid prov bs ss side = Inr r"
  using assms that
  by (auto simp: resolve_staked_def Let_def rbind_Inr_iff split: if_splits option.splits)

lemma resolve_staked_paid:
  assumes r: "resolve_staked cfg mid prov bs ss = Inr r" and good: "\<And>s. s \<in> set ss \<Longrightarrow> payable s"
  shows "paid_from ss (stake_returns r) \<and> paid_from ss (stake_winnings r)"
  using r
proof (cases rule: resolve_staked_cases)
  case da
  then show ?thesis using data_unavailable_paid [OF da(2) good] by (auto intro: paid_from_dict)
next
  case stalemate
  then show ?thesis using apply_to_stakes_paid [OF stalemate(1) good] by (auto intro: paid_from_dict)
next
  case settled
  then show ?thesis by (rule settled_paid)
qed simp_all

lemma resolve_bootstrap_paid:
  "resolve_bootstrap cfg mid c prov bs = Inr r \<Longrightarrow> stake_returns r = [] \<and> stake_winnings r = []"
  by (auto simp: resolve_bootstrap_def Let_def rbind_Inr_iff split: if_splits option.splits)

lemma resolve_market_paid:
  assumes "resolve_market cfg mid c prov = Inr r"
    and "k \<in> set (map fst (stake_returns r)) \<union> set (map fst (stake_winnings r))"
  shows "\<exists>ss. collect_resolution_stakes mid c True = Inr ss \<and> k \<in> (\<lambda>s. (rs_node s, rs_rep s)) ` set ss"
proof (cases "market_create mid c")
  case None
  then have "r = plain_result mid ''invalid'' prov ''no_market''" using assms(1) by (simp add: resolve_market_def)
  then show ?thesis using assms(2) by simp
next
  case (Some create)
  from resolve_market_branches [OF assms(1) Some] obtain bs ss where
    ss: "collect_resolution_stakes mid c True = Inr ss"
    and r: "bs = [] \<and> r = return_stakes ss (plain_result mid ''invalid'' prov ''no_evidence'') \<or>
      resolve_bootstrap cfg mid c prov bs = Inr r \<or> resolve_staked cfg mid prov bs ss = Inr r"
    by (auto split: if_splits)
  have "paid_from ss (stake_returns r) \<and> paid_from ss (stake_winnings r)"
    using r resolve_bootstrap_paid [of cfg mid c prov bs r]
      resolve_staked_paid [of cfg mid prov bs ss r, OF _ collected_payable [OF ss]]
    by (elim disjE) auto
  then show ?thesis using ss assms(2) by (auto simp: paid_from_def)
qed

subsection \<open>Markets that are resolved by stakes\<close>

definition staked_market :: "config \<Rightarrow> string \<Rightarrow> chain \<Rightarrow> bool" where
  "staked_market cfg mid c \<longleftrightarrow> (\<exists>create idx. market_create mid c = Some create \<and>
     bootstrap_index create = Inr idx \<and> is_bootstrap_market cfg idx = Inr False)"

lemma staked_market_branches:
  assumes "resolve_market cfg mid c prov = Inr r" and "staked_market cfg mid c"
  shows "\<exists>bs ss. collect_evidence mid c = Inr bs \<and> collect_resolution_stakes mid c True = Inr ss \<and>
    (bs = [] \<and> r = return_stakes ss (plain_result mid ''invalid'' prov ''no_evidence'') \<or>
     resolve_staked cfg mid prov bs ss = Inr r)"
proof -
  from assms(2) obtain create idx where create: "market_create mid c = Some create"
    "bootstrap_index create = Inr idx" "is_bootstrap_market cfg idx = Inr False"
    by (auto simp: staked_market_def)
  from resolve_market_branches [OF assms(1) create(1)] create(2,3) show ?thesis
    by (auto split: if_splits)
qed

lemma staked_market_settled:
  assumes "resolve_market cfg mid c prov = Inr r" "staked_market cfg mid c" "r_outcome r \<noteq> ''invalid''"
  shows "\<exists>bs ss. collect_evidence mid c = Inr bs \<and> collect_resolution_stakes mid c True = Inr ss \<and>
    settle_winning_side cfg mid prov bs ss (r_outcome r) = Inr r"
proof -
  from staked_market_branches [OF assms(1,2)] assms(3) obtain bs ss where
    "collect_evidence mid c = Inr bs" "collect_resolution_stakes mid c True = Inr ss"
    "resolve_staked cfg mid prov bs ss = Inr r" by auto
  moreover from resolve_staked_decided [OF this(3) assms(3)]
  have "settle_winning_side cfg mid prov bs ss (r_outcome r) = Inr r" by blast
  ultimately show ?thesis by blast
qed

lemma resolve_bootstrap_settled:
  assumes "resolve_bootstrap cfg mid c prov bs = Inr r" and "r_outcome r \<noteq> ''invalid''"
  shows "r = forfeit_bonds (filter (\<lambda>b. b_outcome b \<noteq> r_outcome r) bs)
    (return_bonds (filter (\<lambda>b. b_outcome b = r_outcome r) bs)
      (plain_result mid (r_outcome r) prov (''bootstrap_supermajority_'' @ r_outcome r)))"
  using assms
  by (auto simp: resolve_bootstrap_def Let_def rbind_Inr_iff split: if_splits option.splits)

lemma decided_market_cases:
  assumes "resolve_market cfg mid c prov = Inr r" and "r_outcome r \<noteq> ''invalid''"
  obtains (staked) bs ss where "staked_market cfg mid c" "collect_evidence mid c = Inr bs"
      "collect_resolution_stakes mid c True = Inr ss" "settle_winning_side cfg mid prov bs ss (r_outcome r) = Inr r"
    | (bootstrap) bs ss where "\<not> staked_market cfg mid c" "collect_evidence mid c = Inr bs"
      "collect_resolution_stakes mid c True = Inr ss" "resolve_bootstrap cfg mid c prov bs = Inr r"
proof (cases "staked_market cfg mid c")
  case True
  then show thesis using staked_market_settled [OF assms(1) True assms(2)] staked by blast
next
  case False
  obtain create where create: "market_create mid c = Some create"
    using assms by (cases "market_create mid c") (auto simp: resolve_market_def)
  from resolve_market_branches [OF assms(1) create] assms(2) False create show thesis
    by (auto simp: staked_market_def split: if_splits intro: bootstrap)
qed

subsection \<open>Balances of the ledgers\<close>

definition held_by :: "payout_key \<Rightarrow> resolution_stake \<Rightarrow> bool" where
  "held_by k s \<longleftrightarrow> (rs_node s, rs_rep s) = k"

lemma stake_payout_balance:
  "ledger_get (ledger_add_all [] (map stake_payout ss)) k = fsum (map rs_amount (filter (held_by k) ss))"
proof -
  have "map snd (filter (\<lambda>kv. fst kv = k) (map stake_payout ss)) = map rs_amount (filter (held_by k) ss)"
    by (induction ss) (auto simp: stake_payout_def held_by_def)
  then show ?thesis by (simp add: ledger_sum)
qed

lemma bond_payout_balance:
  "ledger_get (ledger_add_all [] (map bond_payout bs)) node = fsum (map b_bond (filter (\<lambda>b. b_node b = node) bs))"
proof -
  have "map snd (filter (\<lambda>kv. fst kv = node) (map bond_payout bs)) = map b_bond (filter (\<lambda>b. b_node b = node) bs)"
    by (induction bs) (auto simp: bond_payout_def)
  then show ?thesis by (simp add: ledger_sum)
qed

lemma valid64_fold_fadd: "valid64 s \<Longrightarrow> valid64 (fold (\<lambda>x s. fadd s x) xs s)"
  by (induction xs arbitrary: s) auto

lemma filter_key_distinct:
  "distinct (map fst d) \<Longrightarrow> (k, v) \<in> set d \<Longrightarrow> filter (\<lambda>kv. fst kv = k) d = [(k, v)]"
proof (induction d)
  case Nil
  then show ?case by simp
next
  case (Cons kv d)
  show ?case
  proof (cases "kv = (k, v)")
    case True
    then have "k \<notin> fst ` set d" using Cons.prems(1) by simp
    then have "filter (\<lambda>kv. fst kv = k) d = []" by (force simp: filter_empty_conv)
    then show ?thesis using True by simp
  next
    case False
    then have mem: "(k, v) \<in> set d" using Cons.prems(2) by simp
    then have "k \<in> fst ` set d" by (rule rev_image_eqI) simp
    then have "fst kv \<noteq> k" using Cons.prems(1) by auto
    then show ?thesis using Cons.IH Cons.prems(1) mem by simp
  qed
qed

text \<open>Copying a ledger entry by entry, as the code does with \<open>.items()\<close>, changes no balance.\<close>

lemma ledger_copy:
  assumes "distinct (map fst d)" "\<And>k v. (k, v) \<in> set d \<Longrightarrow> valid64 v"
  shows "ledger_get (ledger_add_all [] d) k = ledger_get d k"
proof (cases "dict_get d k")
  case None
  then have "filter (\<lambda>kv. fst kv = k) d = []" by (force simp: dict_get_None_iff filter_empty_conv)
  then have "ledger_get (ledger_add_all [] d) k = Fin 0" by (simp add: ledger_sum)
  then show ?thesis using None by (simp add: ledger_get_def)
next
  case (Some v)
  then have "filter (\<lambda>kv. fst kv = k) d = [(k, v)]"
    using filter_key_distinct [OF assms(1)] dict_get_mem by fastforce
  then have "ledger_get (ledger_add_all [] d) k = v"
    using assms(2) dict_get_mem [OF Some] by (simp add: ledger_sum fsum_def)
  then show ?thesis using Some by (simp add: ledger_get_def)
qed

lemma ledger_add_all_distinct: "distinct (map fst d) \<Longrightarrow> distinct (map fst (ledger_add_all d kvs))"
  by (induction kvs arbitrary: d) (auto simp: ledger_add_all_def ledger_add_def dict_distinct_set)

lemma ledger_add_all_valid:
  assumes "\<forall>k v. (k, v) \<in> set d \<longrightarrow> valid64 v"
  shows "\<forall>k v. (k, v) \<in> set (ledger_add_all d kvs) \<longrightarrow> valid64 v"
  using assms
proof (induction kvs arbitrary: d)
  case Nil
  then show ?case by simp
next
  case (Cons kv kvs)
  have "\<forall>k v. (k, v) \<in> set (ledger_add d (fst kv) (snd kv)) \<longrightarrow> valid64 v"
    using Cons.prems by (auto simp: ledger_add_def dest!: dict_set_mem)
  then show ?case using Cons.IH by (simp add: ledger_add_all_def split_def)
qed

lemma ledger_copy_all:
  "ledger_get (ledger_add_all [] (ledger_add_all [] kvs)) k = ledger_get (ledger_add_all [] kvs) k"
proof (rule ledger_copy)
  show "distinct (map fst (ledger_add_all [] kvs))" by (rule ledger_add_all_distinct) simp
  show "valid64 v" if "(k', v) \<in> set (ledger_add_all [] kvs)" for k' v
    using ledger_add_all_valid [of "[]" kvs] that by auto
qed

subsection \<open>The data-unavailable branch\<close>

lemma fold_da_forfeit: "fst (fold da_forfeit bs (d, b)) =
    ledger_add_all d (map bond_payout (filter (\<lambda>b. flt (Fin 0) (b_bond b)) bs))"
  by (induction bs arbitrary: d b) (auto simp: da_forfeit_def bond_payout_def ledger_add_all_def)

lemma data_unavailable_forfeits:
  "resolve_data_unavailable_effects cfg ss bs = Inr fx \<Longrightarrow>
   da_bond_forfeits fx = ledger_add_all [] (map bond_payout (filter (\<lambda>b. flt (Fin 0) (b_bond b)) bs))"
  by (auto simp: resolve_data_unavailable_effects_def Let_def rbind_Inr_iff fold_da_forfeit)

text \<open>Merging a ledger into another adds the balances.\<close>

lemma ledger_merge:
  assumes "distinct (map fst d)"
  shows "ledger_get (ledger_add_all (ledger_add_all [] kvs) d) k = fadd (ledger_get (ledger_add_all [] kvs) k) (ledger_get d k)"
proof (cases "dict_get d k")
  case None
  then have "filter (\<lambda>kv. fst kv = k) d = []" by (force simp: dict_get_None_iff filter_empty_conv)
  moreover have "valid64 (ledger_get (ledger_add_all [] kvs) k)"
    by (simp add: ledger_sum fsum_def valid64_fold_fadd)
  ultimately show ?thesis using None by (simp add: ledger_balance) (simp add: ledger_get_def)
next
  case (Some v)
  then have "filter (\<lambda>kv. fst kv = k) d = [(k, v)]"
    using filter_key_distinct [OF assms] dict_get_mem by fastforce
  then show ?thesis using Some by (simp add: ledger_balance) (simp add: ledger_get_def)
qed

lemma data_unavailable_parts:
  assumes "resolve_data_unavailable_effects cfg ss bs = Inr fx"
    and "\<And>s. s \<in> set ss \<Longrightarrow> payable s"
  shows "\<exists>q. burn_pct_or_default cfg None = Inr (Fin q) \<and>
    da_stake_returns fx = ledger_add_all (ledger_add_all [] (map stake_payout
      (filter (\<lambda>s. rs_side s = ''data_unavailable'') ss)))
    (ledger_add_all [] (returned_parts (Fin q) (filter (\<lambda>s. rs_side s = ''yes'' \<or> rs_side s = ''no'') ss))) \<and>
    da_burned fx = fold (\<lambda>b s. fadd s (b_bond b)) (filter (\<lambda>b. flt (Fin 0) (b_bond b)) bs)
      (fsum (map (burned_part (Fin q)) (burnable (filter (\<lambda>s. rs_side s = ''yes'' \<or> rs_side s = ''no'') ss))))"
proof -
  let ?others = "filter (\<lambda>s. rs_side s = ''yes'' \<or> rs_side s = ''no'') ss"
  obtain ret burned where ret: "apply_to_stakes cfg (map stake_dict ?others) None = Inr (ret, burned)"
    and fx: "da_stake_returns fx = ledger_add_all (ledger_add_all [] (map stake_payout
      (filter (\<lambda>s. is_rep_type (VStr (rs_rep s)) \<and> \<not> fle (rs_amount s) (Fin 0))
        (filter (\<lambda>s. rs_side s = ''data_unavailable'') ss)))) ret"
      "da_burned fx = snd (fold da_forfeit bs ([], fadd (Fin 0) burned))"
    using assms(1) by (auto simp: resolve_data_unavailable_effects_def Let_def rbind_Inr_iff)
  have "filter (\<lambda>s. is_rep_type (VStr (rs_rep s)) \<and> \<not> fle (rs_amount s) (Fin 0))
        (filter (\<lambda>s. rs_side s = ''data_unavailable'') ss) = filter (\<lambda>s. rs_side s = ''data_unavailable'') ss"
    using assms(2) by (intro filter_True) (auto simp: payable_def rep_types_def is_rep_type_def)
  moreover obtain q where q: "burn_pct_or_default cfg None = Inr (Fin q)" "ret = ledger_add_all [] (returned_parts (Fin q) ?others)"
      "burned = fsum (map (burned_part (Fin q)) (burnable ?others))"
    using apply_to_stakes_eq [OF ret] assms(2) by auto
  moreover have "snd (fold da_forfeit bs (d, b)) = fold (\<lambda>b s. fadd s (b_bond b)) (filter (\<lambda>b. flt (Fin 0) (b_bond b)) bs) b" for d b
    by (induction bs arbitrary: d b) (auto simp: da_forfeit_def)
  moreover have "fadd (Fin 0) burned = burned" by (simp add: q(3) fsum_def valid64_fold_fadd)
  ultimately show ?thesis using fx by auto
qed

lemma data_unavailable_returns:
  assumes "da_stake_returns fx = ledger_add_all (ledger_add_all [] das) (ledger_add_all [] parts)"
  shows "ledger_get (ledger_add_all [] (da_stake_returns fx)) k =
    fadd (ledger_get (ledger_add_all [] das) k) (ledger_get (ledger_add_all [] parts) k)"
proof -
  have "da_stake_returns fx = ledger_add_all [] (das @ ledger_add_all [] parts)"
    by (simp add: assms ledger_add_all_append)
  then have "ledger_get (ledger_add_all [] (da_stake_returns fx)) k = ledger_get (da_stake_returns fx) k"
    by (simp only: ledger_copy_all)
  also have "\<dots> = fadd (ledger_get (ledger_add_all [] das) k) (ledger_get (ledger_add_all [] parts) k)"
    unfolding assms by (rule ledger_merge, rule ledger_add_all_distinct) simp
  finally show ?thesis .
qed

end
