(* ===== verification/Resolution_Claims.thy ===== *)
theory Resolution_Claims
  imports Resolution_Properties
begin

section \<open>Properties of the resolution of a market\<close>

text \<open>
  The end-to-end statements about \<open>resolve_market\<close>, on a configuration, a market and a chain, with
  a small market on which they are evaluated.
\<close>

subsection \<open>A market to evaluate on\<close>

definition demo_stake :: "string \<Rightarrow> string \<Rightarrow> int \<Rightarrow> pyval" where
  "demo_stake node side amt = VDict
     [(''event_type'', VStr ''resolution_stake''), (''node_id'', VStr node), (''timestamp'', VInt 9),
      (''sequence'', VInt 1),
      (''payload'', VDict [(''market_id'', VStr ''m''), (''side'', VStr side), (''amount'', VInt amt),
         (''rep_type'', VStr ''oracle'')])]"

definition demo_config :: config where
  "demo_config =
     [(''data_unavailable_threshold'', VFloat (Fin (1/4))), (''min_resolution_stake_total'', VInt 10),
      (''resolution_supermajority'', VFloat (Fin (3/4))), (''resolution_loser_burn_pct'', VFloat (Fin (1/64))),
      (''resolution_stalemate_burn_pct'', VFloat (Fin (1/64))), (''evidence_first_bonus'', VInt 1)]"

definition demo_create :: pyval where
  "demo_create =
     VDict [(''event_type'', VStr ''prediction_create''), (''payload'', VDict [(''market_id'', VStr ''m'')])]"

definition demo_market :: "pyval list \<Rightarrow> chain" where
  "demo_market vs = [demo_create, VDict (snapshot_event frozen_snapshot),
     evidence_event ''e1'' 3 ''yes'' ''h'', evidence_event ''e2'' 4 ''no'' ''i''] @ vs"

text \<open>A supermajority for yes; the stake of the frozen predictor \<open>p\<close> does not count.\<close>

definition decided_chain :: chain where
  "decided_chain = demo_market [demo_stake ''r'' ''yes'' 60, demo_stake ''t'' ''no'' 16,
     demo_stake ''u'' ''data_unavailable'' 5, demo_stake ''p'' ''no'' 100]"

definition split_chain :: chain where
  "split_chain = demo_market [demo_stake ''r'' ''yes'' 64, demo_stake ''t'' ''no'' 64]"

definition unavailable_chain :: chain where
  "unavailable_chain = demo_market [demo_stake ''r'' ''yes'' 64, demo_stake ''u'' ''data_unavailable'' 64]"

definition decided_result :: resolution_result where
  "decided_result =
     \<lparr>r_market = ''m'', r_outcome = ''yes'', r_provisional = False, r_reason = ''supermajority_yes'',
      bond_returns = [(''e1'', Fin 2)], bond_forfeits = [(''e2'', Fin 2)],
      first_submitter_bonuses = [(''e1'', Fin 1)],
      stake_returns = [((''r'', ''oracle''), Fin 60), ((''u'', ''oracle''), Fin 5)],
      stake_winnings = [((''r'', ''oracle''), Fin (63 / 4))], burned_amount = Fin (5 / 4)\<rparr>"

lemma decided: "resolve_market demo_config ''m'' decided_chain False = Inr decided_result"
  by code_simp

lemma demo_staked: "staked_market demo_config ''m'' (demo_market vs)"
proof -
  have "market_create ''m'' (demo_market vs) = Some [(''event_type'', VStr ''prediction_create''),
      (''payload'', VDict [(''market_id'', VStr ''m'')])]"
    by (simp add: market_create_def demo_market_def demo_create_def etype_def payload_def chain_simps)
  then show ?thesis
    by (simp add: staked_market_def bootstrap_index_def is_bootstrap_market_def payload_def chain_simps Let_def)
qed

lemma decided_staked: "staked_market demo_config ''m'' decided_chain"
  unfolding decided_chain_def by (rule demo_staked)

lemma decided_outcome: "r_outcome decided_result \<noteq> ''invalid''"
  by (simp add: decided_result_def)

subsection \<open>Properties\<close>

text \<open>
  C29: A staked market is decided for a side only with reason: some evidence claims that side, the
  data-unavailable threshold was not reached, the oracle stakes on yes and no reach the configured
  minimum, and the side's share of them reaches the configured supermajority.
\<close>

theorem staked_outcome_justified:
  assumes "resolve_market cfg mid c prov = Inr r" and "staked_market cfg mid c"
    and "r_outcome r \<noteq> ''invalid''"
  shows "(r_outcome r = ''yes'' \<or> r_outcome r = ''no'') \<and>
    (\<exists>bs ss least thr q. collect_evidence mid c = Inr bs \<and> collect_resolution_stakes mid c True = Inr ss \<and>
       (\<exists>b \<in> set bs. b_outcome b = r_outcome r) \<and>
       is_data_unavailable_triggered cfg ss = Inr False \<and>
       cfg_float cfg ''min_resolution_stake_total'' = Inr least \<and>
       \<not> flt (fadd (oracle_pool ss ''yes'') (oracle_pool ss ''no'')) least \<and>
       cfg_float cfg ''resolution_supermajority'' = Inr thr \<and>
       fdiv (oracle_pool ss (r_outcome r)) (fadd (oracle_pool ss ''yes'') (oracle_pool ss ''no'')) = Inr q \<and>
       fle thr q)"
proof -
  from staked_market_branches [OF assms(1,2)] assms(3) obtain bs ss where
    parts: "collect_evidence mid c = Inr bs" "collect_resolution_stakes mid c True = Inr ss"
    and staked: "resolve_staked cfg mid prov bs ss = Inr r" by auto
  from resolve_staked_decided [OF staked assms(3)] parts show ?thesis
    unfolding list_ex_iff by blast
qed

theorem staked_outcome_justified_witness:
  "\<exists>ss q. collect_resolution_stakes ''m'' decided_chain True = Inr ss \<and>
     fdiv (oracle_pool ss ''yes'') (fadd (oracle_pool ss ''yes'') (oracle_pool ss ''no'')) = Inr q \<and>
     fle (Fin (3/4)) q"
proof -
  have "cfg_float demo_config ''resolution_supermajority'' = Inr (Fin (3/4))" by code_simp
  moreover have "r_outcome decided_result = ''yes''" by (simp add: decided_result_def)
  ultimately show ?thesis
    using staked_outcome_justified [OF decided decided_staked decided_outcome] by auto
qed

text \<open>
  C30: No predictor profits. Whatever the outcome, the stakes that are returned and the winnings that
  are paid belong to no frozen predictor of the market and to no identity reachable from one
  through rotations.
\<close>

theorem no_predictor_is_paid:
  assumes "resolve_market cfg mid c prov = Inr r"
    and "find_snapshot mid c = Inr (Some snap)" and "n \<in> set (frozen_predictors snap)"
    and "k \<in> set (map fst (stake_returns r)) \<union> set (map fst (stake_winnings r))"
  shows "(n, fst k) \<notin> (rotations (dict_events c))\<^sup>*"
proof -
  obtain ss where ss: "collect_resolution_stakes mid c True = Inr ss"
    "k \<in> (\<lambda>s. (rs_node s, rs_rep s)) ` set ss"
    using resolve_market_paid [OF assms(1,4)] by blast
  obtain ex where ex: "excluded_predictor_ids mid c = Inr ex"
    "set ex = {x. \<exists>n \<in> set (frozen_predictors snap). (n, x) \<in> (rotations (dict_events c))\<^sup>*}"
    using excluded_set [OF assms(2)] by blast
  show ?thesis using collect_good [OF ss(1) ex(1)] ss(2) ex(2) assms(3)
    by (auto simp: good_stake_def)
qed

theorem no_predictor_is_paid_witness:
  "(''p'', ''r'') \<notin> (rotations (dict_events decided_chain))\<^sup>*"
proof -
  have "find_snapshot ''m'' decided_chain = Inr (Some frozen_snapshot)" by code_simp
  moreover have "''p'' \<in> set (frozen_predictors frozen_snapshot)" by code_simp
  ultimately show ?thesis
    using no_predictor_is_paid [OF decided, of frozen_snapshot "''p''" "(''r'', ''oracle'')"]
    by (simp add: decided_result_def)
qed

text \<open>
  C31: Settlement of a decided market. In each reputation type a node gets back exactly its stakes on
  the winning side and its data-unavailable stakes, and nothing of its losing stakes; a market that
  is decided by bootstrap votes returns no stakes at all. In both kinds of market the bonds of the
  winning side are returned and exactly the bonds of the other side are forfeited.
\<close>

theorem settlement_returns_principal:
  assumes "resolve_market cfg mid c prov = Inr r" and "r_outcome r \<noteq> ''invalid''"
  shows "\<exists>bs ss. collect_evidence mid c = Inr bs \<and> collect_resolution_stakes mid c True = Inr ss \<and>
    (\<forall>node. \<forall>rep \<in> set rep_types. ledger_get (stake_returns r) (node, rep) =
       (if staked_market cfg mid c
        then fsum (map rs_amount (filter (held_by (node, rep))
          (filter (winning (r_outcome r) rep) ss @ filter (unavailable_vote rep) ss)))
        else Fin 0)) \<and>
    (\<forall>node. ledger_get (bond_returns r) node =
       fsum (map b_bond (filter (\<lambda>b. b_outcome b = r_outcome r \<and> b_node b = node) bs))) \<and>
    (\<forall>node. ledger_get (bond_forfeits r) node =
       fsum (map b_bond (filter (\<lambda>b. b_outcome b \<noteq> r_outcome r \<and> b_node b = node) bs)))"
  using assms
proof (cases rule: decided_market_cases)
  case (staked bs ss)
  note fields = settle_winning_side_fields [OF staked(4)]
  have none: "filter (held_by (node, rep)) (filter (winning (r_outcome r) rep') ss) = []"
    "filter (held_by (node, rep)) (filter (unavailable_vote rep') ss) = []" if "rep \<noteq> rep'" for node rep rep'
    using that by (auto simp: filter_empty_conv held_by_def winning_def unavailable_vote_def)
  have "ledger_get (stake_returns r) (node, rep) = fsum (map rs_amount (filter (held_by (node, rep))
      (filter (winning (r_outcome r) rep) ss @ filter (unavailable_vote rep) ss)))"
    if "rep \<in> set rep_types" for node rep
    using that none unfolding fields(3) stake_payout_balance by (auto simp: rep_types_def)
  moreover have "ledger_get (bond_returns r) node =
      fsum (map b_bond (filter (\<lambda>b. b_outcome b = r_outcome r \<and> b_node b = node) bs))" for node
    unfolding fields(5) bond_payout_balance by (simp add: on_side_def conj_commute)
  moreover have "ledger_get (bond_forfeits r) node =
      fsum (map b_bond (filter (\<lambda>b. b_outcome b \<noteq> r_outcome r \<and> b_node b = node) bs))" for node
    unfolding fields(6) bond_payout_balance by (simp add: on_side_def conj_commute)
  ultimately show ?thesis using staked by auto
next
  case (bootstrap bs ss)
  let ?r = "forfeit_bonds (filter (\<lambda>b. b_outcome b \<noteq> r_outcome r) bs)
    (return_bonds (filter (\<lambda>b. b_outcome b = r_outcome r) bs)
      (plain_result mid (r_outcome r) prov (''bootstrap_supermajority_'' @ r_outcome r)))"
  have r: "r = ?r" by (rule resolve_bootstrap_settled [OF bootstrap(4) assms(2)])
  have "stake_returns ?r = []" "bond_returns ?r = ledger_add_all [] (map bond_payout (filter (\<lambda>b. b_outcome b = r_outcome r) bs))"
    "bond_forfeits ?r = ledger_add_all [] (map bond_payout (filter (\<lambda>b. b_outcome b \<noteq> r_outcome r) bs))"
    by simp_all
  then have f: "stake_returns r = []" "bond_returns r = ledger_add_all [] (map bond_payout (filter (\<lambda>b. b_outcome b = r_outcome r) bs))"
    "bond_forfeits r = ledger_add_all [] (map bond_payout (filter (\<lambda>b. b_outcome b \<noteq> r_outcome r) bs))"
    using r by metis+
  show ?thesis
    using bootstrap(1-3) unfolding f bond_payout_balance by (simp add: ledger_get_def conj_commute)
qed

theorem settlement_returns_principal_witness:
  "\<exists>ss. collect_resolution_stakes ''m'' decided_chain True = Inr ss \<and>
     Fin 60 = fsum (map rs_amount (filter (held_by (''r'', ''oracle''))
       (filter (winning ''yes'' ''oracle'') ss @ filter (unavailable_vote ''oracle'') ss)))"
proof -
  have "ledger_get (stake_returns decided_result) (''r'', ''oracle'') = Fin 60"
    "r_outcome decided_result = ''yes''" "''oracle'' \<in> set rep_types"
    by (simp_all add: decided_result_def ledger_get_def dict_get_def rep_types_def)
  then show ?thesis
    using settlement_returns_principal [OF decided decided_outcome] decided_staked by fastforce
qed

text \<open>
  The first-submitter bonus is capped by the losers' bonds. A decided staked market pays at most
  one bonus, to the first submitter of the winning side; it is positive, at most the configured
  bonus and at most the sum of the forfeited bonds.
\<close>

theorem first_submitter_bonus_capped:
  assumes "resolve_market cfg mid c prov = Inr r" and "staked_market cfg mid c"
    and "r_outcome r \<noteq> ''invalid''"
  shows "first_submitter_bonuses r = [] \<or>
    (\<exists>bs b bonus amt. collect_evidence mid c = Inr bs \<and> b \<in> set bs \<and> b_first b \<and>
       b_outcome b = r_outcome r \<and> cfg_float cfg ''evidence_first_bonus'' = Inr bonus \<and>
       first_submitter_bonuses r = [(b_node b, fadd (Fin 0) amt)] \<and> flt (Fin 0) amt \<and> fle amt bonus \<and>
       fle amt (fsum (map b_bond (filter (\<lambda>b. b_outcome b \<noteq> r_outcome r) bs))))"
proof -
  from staked_market_settled [OF assms] obtain bs ss where
    parts: "collect_evidence mid c = Inr bs" "collect_resolution_stakes mid c True = Inr ss"
    and settle: "settle_winning_side cfg mid prov bs ss (r_outcome r) = Inr r" by blast
  let ?pool = "fsum (map b_bond (filter (\<lambda>b. b_outcome b \<noteq> r_outcome r) bs))"
  from settle_winning_side_fields(7) [OF settle] obtain unspent where
    bonus: "foldR (bonus_step cfg) (filter (\<lambda>b. on_side (r_outcome r) b \<and> b_first b) bs) ([], ?pool)
      = Inr (first_submitter_bonuses r, unspent)" by (auto simp: on_side_def)
  have min: "flt (Fin 0) (fmin2 x y) \<Longrightarrow> fle (fmin2 x y) x \<and> fle (fmin2 x y) y" if "flt (Fin 0) y" for x y
    using that by (cases x; cases y) (auto simp: fmin2_def split: if_splits)
  from one_first_per_side [OF collect_evidence_first [OF parts(1)]]
  consider "filter (\<lambda>b. on_side (r_outcome r) b \<and> b_first b) bs = []"
    | b where "filter (\<lambda>b. on_side (r_outcome r) b \<and> b_first b) bs = [b]" by blast
  then show ?thesis
  proof cases
    case 1
    then show ?thesis using bonus by simp
  next
    case (2 b)
    then have b: "b \<in> set bs" "b_first b" "b_outcome b = r_outcome r"
      by (auto simp: filter_eq_Cons_iff on_side_def)
    from 2 bonus have "bonus_step cfg b ([], ?pool) = Inr (first_submitter_bonuses r, unspent)" by simp
    then show ?thesis using b parts(1) min
      by (cases "cfg_float cfg ''evidence_first_bonus''")
        (fastforce simp: bonus_step_def Let_def ledger_add_def ledger_get_def dict_set_def split: if_splits)+
  qed
qed

theorem first_submitter_bonus_capped_witness:
  "\<exists>bonus. cfg_float demo_config ''evidence_first_bonus'' = Inr bonus \<and> fle (Fin 1) (fadd (Fin 0) bonus)"
proof -
  have "first_submitter_bonuses decided_result = [(''e1'', Fin 1)]" by (simp add: decided_result_def)
  moreover have "cfg_float demo_config ''evidence_first_bonus'' = Inr (Fin 1)" by code_simp
  ultimately show ?thesis
    using first_submitter_bonus_capped [OF decided decided_staked decided_outcome] by auto
qed

text \<open>
  A market that cannot be decided for lack of evidence or stake costs nobody anything. When a
  staked market is invalid because there is no evidence, too little oracle stake, or no evidence for
  the winning side, every counted stake is returned in full, nothing is forfeited, nothing burned,
  and no winnings or bonuses are paid.
\<close>

theorem undecided_market_refunds:
  assumes "resolve_market cfg mid c prov = Inr r" and "staked_market cfg mid c"
    and "r_reason r \<in> {''no_evidence'', ''below_min_resolution_stake'', ''no_winning_side_evidence''}"
  shows "r_outcome r = ''invalid'' \<and> bond_forfeits r = [] \<and> first_submitter_bonuses r = [] \<and>
    stake_winnings r = [] \<and> burned_amount r = Fin 0 \<and>
    (\<exists>bs ss. collect_evidence mid c = Inr bs \<and> collect_resolution_stakes mid c True = Inr ss \<and>
       (\<forall>k. ledger_get (stake_returns r) k = fsum (map rs_amount (filter (held_by k) ss))) \<and>
       (\<forall>node. ledger_get (bond_returns r) node = fsum (map b_bond (filter (\<lambda>b. b_node b = node) bs))))"
proof -
  from staked_market_branches [OF assms(1,2)] obtain bs ss where
    parts: "collect_evidence mid c = Inr bs" "collect_resolution_stakes mid c True = Inr ss"
    and r: "bs = [] \<and> r = return_stakes ss (plain_result mid ''invalid'' prov ''no_evidence'') \<or>
      resolve_staked cfg mid prov bs ss = Inr r" by blast
  have all: "\<exists>reason. r = return_bonds bs (return_stakes ss (plain_result mid ''invalid'' prov reason))"
    using r
  proof
    assume "bs = [] \<and> r = return_stakes ss (plain_result mid ''invalid'' prov ''no_evidence'')"
    then show ?thesis by auto
  next
    assume "resolve_staked cfg mid prov bs ss = Inr r"
    then show ?thesis
    proof (cases rule: resolve_staked_cases)
      case settled
      then show ?thesis using settle_winning_side_fields(2) [OF settled] assms(3) by auto
    qed (use assms(3) in auto)
  qed
  then obtain reason where "r = return_bonds bs (return_stakes ss (plain_result mid ''invalid'' prov reason))" ..
  then show ?thesis using parts by (auto simp: stake_payout_balance bond_payout_balance)
qed

definition starved_chain :: chain where
  "starved_chain = demo_market [demo_stake ''r'' ''yes'' 4]"

theorem undecided_market_refunds_witness:
  "\<exists>ss. collect_resolution_stakes ''m'' starved_chain True = Inr ss \<and>
     Fin 4 = fsum (map rs_amount (filter (held_by (''r'', ''oracle'')) ss))"
proof -
  let ?r = "\<lparr>r_market = ''m'', r_outcome = ''invalid'', r_provisional = False,
      r_reason = ''below_min_resolution_stake'', bond_returns = [(''e1'', Fin 2), (''e2'', Fin 2)],
      bond_forfeits = [], first_submitter_bonuses = [], stake_returns = [((''r'', ''oracle''), Fin 4)],
      stake_winnings = [], burned_amount = Fin 0\<rparr>"
  have run: "resolve_market demo_config ''m'' starved_chain False = Inr ?r" by code_simp
  have staked: "staked_market demo_config ''m'' starved_chain"
    unfolding starved_chain_def by (rule demo_staked)
  have "ledger_get (stake_returns ?r) (''r'', ''oracle'') = Fin 4"
    by (simp add: ledger_get_def dict_get_def)
  then show ?thesis using undecided_market_refunds [OF run staked] by fastforce
qed

text \<open>
  C32: Unavailable data slashes the submitters. When the data-unavailable threshold is reached, every
  positive evidence bond is forfeited and none returned; every node gets back all of its
  data-unavailable stakes, together with the parts of its finite yes and no stakes that the
  stalemate burn leaves; what is burned are the burned parts of these and the forfeited bonds.
\<close>

theorem data_unavailable_slashes_bonds:
  assumes "resolve_market cfg mid c prov = Inr r" and "staked_market cfg mid c"
    and "r_reason r = ''data_unavailable''"
  shows "r_outcome r = ''invalid'' \<and> bond_returns r = [] \<and>
    (\<exists>bs ss q. collect_evidence mid c = Inr bs \<and> collect_resolution_stakes mid c True = Inr ss \<and>
       is_data_unavailable_triggered cfg ss = Inr True \<and> burn_pct_or_default cfg None = Inr (Fin q) \<and>
       (\<forall>node. ledger_get (bond_forfeits r) node =
          fsum (map b_bond (filter (\<lambda>b. flt (Fin 0) (b_bond b) \<and> b_node b = node) bs))) \<and>
       (\<forall>k. ledger_get (stake_returns r) k = fadd
          (fsum (map rs_amount (filter (held_by k) (filter (\<lambda>s. rs_side s = ''data_unavailable'') ss))))
          (fsum (map snd (filter (\<lambda>kv. fst kv = k)
            (returned_parts (Fin q) (filter (\<lambda>s. rs_side s = ''yes'' \<or> rs_side s = ''no'') ss)))))) \<and>
       burned_amount r = fold (\<lambda>b s. fadd s (b_bond b)) (filter (\<lambda>b. flt (Fin 0) (b_bond b)) bs)
         (fsum (map (burned_part (Fin q)) (burnable (filter (\<lambda>s. rs_side s = ''yes'' \<or> rs_side s = ''no'') ss)))))"
proof -
  from staked_market_branches [OF assms(1,2)] assms(3) obtain bs ss where
    parts: "collect_evidence mid c = Inr bs" "collect_resolution_stakes mid c True = Inr ss"
    and "resolve_staked cfg mid prov bs ss = Inr r" by auto
  from this(3) obtain fx where da: "is_data_unavailable_triggered cfg ss = Inr True"
    and fx: "resolve_data_unavailable_effects cfg ss bs = Inr fx"
    and r: "r = burn (da_burned fx) ((plain_result mid ''invalid'' prov ''data_unavailable'')
         \<lparr>stake_returns := ledger_add_all [] (da_stake_returns fx),
          bond_forfeits := ledger_add_all [] (da_bond_forfeits fx)\<rparr>)"
  proof (cases rule: resolve_staked_cases)
    case da
    then show ?thesis by (rule that)
  next
    case settled
    then show ?thesis using settle_winning_side_fields(2) [OF settled] assms(3) by simp
  qed (use assms(3) in auto)
  have payable: "payable s" if "s \<in> set ss" for s using collected_payable [OF parts(2) that] .
  from data_unavailable_parts [OF fx payable] obtain q where q: "burn_pct_or_default cfg None = Inr (Fin q)"
    "da_stake_returns fx = ledger_add_all (ledger_add_all [] (map stake_payout
      (filter (\<lambda>s. rs_side s = ''data_unavailable'') ss)))
    (ledger_add_all [] (returned_parts (Fin q) (filter (\<lambda>s. rs_side s = ''yes'' \<or> rs_side s = ''no'') ss)))"
    "da_burned fx = fold (\<lambda>b s. fadd s (b_bond b)) (filter (\<lambda>b. flt (Fin 0) (b_bond b)) bs)
      (fsum (map (burned_part (Fin q)) (burnable (filter (\<lambda>s. rs_side s = ''yes'' \<or> rs_side s = ''no'') ss))))"
    by blast
  have "ledger_get (bond_forfeits r) node =
      fsum (map b_bond (filter (\<lambda>b. flt (Fin 0) (b_bond b) \<and> b_node b = node) bs))" for node
    using data_unavailable_forfeits [OF fx] r by (simp add: ledger_copy_all bond_payout_balance conj_commute)
  moreover have "ledger_get (stake_returns r) k = fadd
      (fsum (map rs_amount (filter (held_by k) (filter (\<lambda>s. rs_side s = ''data_unavailable'') ss))))
      (fsum (map snd (filter (\<lambda>kv. fst kv = k)
        (returned_parts (Fin q) (filter (\<lambda>s. rs_side s = ''yes'' \<or> rs_side s = ''no'') ss)))))" for k
  proof -
    have "ledger_get (stake_returns r) k = ledger_get (ledger_add_all [] (da_stake_returns fx)) k" by (simp add: r)
    also note data_unavailable_returns [OF q(2)]
    finally show ?thesis by (simp only: stake_payout_balance) (simp only: ledger_sum)
  qed
  moreover have "burned_amount r = da_burned fx"
  proof -
    have v: "valid64 (fold (\<lambda>b s. fadd s (b_bond b)) xs s)" if "valid64 s" for xs s
      using that by (induction xs arbitrary: s) simp_all
    have "valid64 (da_burned fx)" unfolding q(3) by (rule v) (simp add: fsum_def valid64_fold_fadd)
    then show ?thesis by (simp add: r)
  qed
  ultimately show ?thesis using parts da q(1,3) r by auto
qed

lemma staked_demo_chain:
  "staked_market demo_config ''m'' unavailable_chain" "staked_market demo_config ''m'' split_chain"
  unfolding unavailable_chain_def split_chain_def by (rule demo_staked)+

theorem data_unavailable_slashes_bonds_witness:
  "\<exists>ss q. collect_resolution_stakes ''m'' unavailable_chain True = Inr ss \<and>
     is_data_unavailable_triggered demo_config ss = Inr True \<and> burn_pct_or_default demo_config None = Inr (Fin q) \<and>
     Fin 63 = fadd (fsum (map rs_amount (filter (held_by (''r'', ''oracle'')) (filter (\<lambda>s. rs_side s = ''data_unavailable'') ss))))
       (fsum (map snd (filter (\<lambda>kv. fst kv = (''r'', ''oracle''))
         (returned_parts (Fin q) (filter (\<lambda>s. rs_side s = ''yes'' \<or> rs_side s = ''no'') ss)))))"
proof -
  let ?r = "\<lparr>r_market = ''m'', r_outcome = ''invalid'', r_provisional = False,
      r_reason = ''data_unavailable'', bond_returns = [],
      bond_forfeits = [(''e1'', Fin 2), (''e2'', Fin 2)], first_submitter_bonuses = [],
      stake_returns = [((''u'', ''oracle''), Fin 64), ((''r'', ''oracle''), Fin 63)],
      stake_winnings = [], burned_amount = Fin 5\<rparr>"
  have run: "resolve_market demo_config ''m'' unavailable_chain False = Inr ?r" by code_simp
  have "ledger_get (stake_returns ?r) (''r'', ''oracle'') = Fin 63" by (simp add: ledger_get_def dict_get_def)
  then show ?thesis using data_unavailable_slashes_bonds [OF run staked_demo_chain(1)] by fastforce
qed

text \<open>
  C33: The stalemate burn. When a staked market has evidence and enough stake but no supermajority,
  every counted finite stake is split by the configured percentage into a burned and a returned
  part, each between zero and the stake; a node gets back the sum of its positive returned parts,
  the burned amount is the sum of the burned parts, and every bond is returned. A counted stake that
  is not finite is neither burned nor returned: a node with no finite stake gets nothing back.
\<close>

theorem stalemate_burn_exact:
  assumes "resolve_market cfg mid c prov = Inr r" and "staked_market cfg mid c"
    and "r_reason r = ''no_supermajority''"
  shows "\<exists>bs ss q. collect_evidence mid c = Inr bs \<and> collect_resolution_stakes mid c True = Inr ss \<and>
    burn_pct_or_default cfg None = Inr (Fin q) \<and>
    (\<forall>k. ledger_get (stake_returns r) k =
       fsum (map snd (filter (\<lambda>kv. fst kv = k) (returned_parts (Fin q) ss)))) \<and>
    burned_amount r = fsum (map (burned_part (Fin q)) (burnable ss)) \<and>
    (\<forall>s \<in> set (burnable ss). \<exists>a b x. rs_amount s = Fin a \<and> burned_part (Fin q) s = Fin b \<and>
       snd (returned_part (Fin q) s) = Fin x \<and> 0 \<le> b \<and> b \<le> a \<and> 0 \<le> x \<and> x \<le> a) \<and>
    (\<forall>k. (\<forall>s \<in> set ss. held_by k s \<longrightarrow> \<not> isfinite (rs_amount s)) \<longrightarrow> ledger_get (stake_returns r) k = Fin 0) \<and>
    (\<forall>node. ledger_get (bond_returns r) node = fsum (map b_bond (filter (\<lambda>b. b_node b = node) bs)))"
proof -
  from staked_market_branches [OF assms(1,2)] assms(3) obtain bs ss where
    parts: "collect_evidence mid c = Inr bs" "collect_resolution_stakes mid c True = Inr ss"
    and "resolve_staked cfg mid prov bs ss = Inr r" by auto
  from this(3) obtain ret burned where st: "apply_to_stakes cfg (map stake_dict ss) None = Inr (ret, burned)"
    and r: "r = return_bonds bs (burn burned ((plain_result mid ''invalid'' prov ''no_supermajority'')
         \<lparr>stake_returns := ledger_add_all [] ret\<rparr>))"
  proof (cases rule: resolve_staked_cases)
    case stalemate
    then show ?thesis by (rule that)
  next
    case settled
    then show ?thesis using settle_winning_side_fields(2) [OF settled] assms(3) by simp
  qed (use assms(3) in auto)
  have payable: "payable s" if "s \<in> set ss" for s using collected_payable [OF parts(2) that] .
  from apply_to_stakes_eq [OF st payable] obtain q where q: "burn_pct_or_default cfg None = Inr (Fin q)"
    "ret = ledger_add_all [] (returned_parts (Fin q) ss)" "burned = fsum (map (burned_part (Fin q)) (burnable ss))"
    by blast
  have bounds: "\<forall>s \<in> set (burnable ss). \<exists>a b x. rs_amount s = Fin a \<and> burned_part (Fin q) s = Fin b \<and>
       snd (returned_part (Fin q) s) = Fin x \<and> 0 \<le> b \<and> b \<le> a \<and> 0 \<le> x \<and> x \<le> a"
    using part_bounds payable by (simp add: burnable_def)
  have "ledger_get (stake_returns r) k = fsum (map snd (filter (\<lambda>kv. fst kv = k) (returned_parts (Fin q) ss)))" for k
  proof -
    have "ledger_get (stake_returns r) k = ledger_get (ledger_add_all [] (returned_parts (Fin q) ss)) k"
      using r q(2) by (simp add: ledger_copy_all)
    also have "\<dots> = fsum (map snd (filter (\<lambda>kv. fst kv = k) (returned_parts (Fin q) ss)))"
      by (rule ledger_sum)
    finally show ?thesis .
  qed
  moreover from this have "ledger_get (stake_returns r) k = Fin 0"
    if "\<forall>s \<in> set ss. held_by k s \<longrightarrow> \<not> isfinite (rs_amount s)" for k
  proof -
    have "filter (\<lambda>kv. fst kv = k) (returned_parts (Fin q) ss) = []"
      using that by (auto simp: filter_empty_conv returned_parts_def burnable_def returned_part_def held_by_def)
    then show ?thesis using calculation [of k] by (simp add: fsum_def)
  qed
  moreover have "burned_amount r = fsum (map (burned_part (Fin q)) (burnable ss))"
    using r q(3) by simp
  moreover have "ledger_get (bond_returns r) node = fsum (map b_bond (filter (\<lambda>b. b_node b = node) bs))" for node
    using r by (simp add: bond_payout_balance)
  ultimately show ?thesis using parts q(1) bounds by blast
qed

theorem stalemate_burn_exact_witness:
  "\<exists>ss q. collect_resolution_stakes ''m'' split_chain True = Inr ss \<and>
     Fin 2 = fsum (map (burned_part (Fin q)) (burnable ss))"
proof -
  let ?r = "\<lparr>r_market = ''m'', r_outcome = ''invalid'', r_provisional = False,
      r_reason = ''no_supermajority'', bond_returns = [(''e1'', Fin 2), (''e2'', Fin 2)],
      bond_forfeits = [], first_submitter_bonuses = [],
      stake_returns = [((''r'', ''oracle''), Fin 63), ((''t'', ''oracle''), Fin 63)],
      stake_winnings = [], burned_amount = Fin 2\<rparr>"
  have run: "resolve_market demo_config ''m'' split_chain False = Inr ?r" by code_simp
  show ?thesis using stalemate_burn_exact [OF run staked_demo_chain(2)] by auto
qed

text \<open>An infinite stake is counted, forces the stalemate and vanishes.\<close>

definition infinite_chain :: chain where
  "infinite_chain = demo_market [demo_stake ''r'' ''no'' 64,
     VDict [(''event_type'', VStr ''resolution_stake''), (''node_id'', VStr ''t''), (''timestamp'', VInt 9),
      (''sequence'', VInt 1),
      (''payload'', VDict [(''market_id'', VStr ''m''), (''side'', VStr ''yes''), (''amount'', VFloat PInf),
         (''rep_type'', VStr ''oracle'')])]]"

lemma infinite_stake_vanishes:
  "resolve_market demo_config ''m'' infinite_chain False = Inr \<lparr>r_market = ''m'', r_outcome = ''invalid'', r_provisional = False,
      r_reason = ''no_supermajority'', bond_returns = [(''e1'', Fin 2), (''e2'', Fin 2)],
      bond_forfeits = [], first_submitter_bonuses = [],
      stake_returns = [((''r'', ''oracle''), Fin 63)], stake_winnings = [], burned_amount = Fin 1\<rparr>"
  by code_simp

text \<open>
  C34: A bootstrap market is decided for a side only with reason: the evidence claims that side, and
  among the deduplicated votes of eligible nodes there are at least the configured number of
  participants, the configured share of them for that side.
\<close>

theorem bootstrap_outcome_justified:
  assumes "resolve_bootstrap cfg mid c prov bs = Inr r" and "r_outcome r \<noteq> ''invalid''"
  shows "(r_outcome r = ''yes'' \<or> r_outcome r = ''no'') \<and> (\<exists>b \<in> set bs. b_outcome b = r_outcome r) \<and>
    (\<exists>vs sides least thr q. deduplicate_votes mid c = Inr vs \<and>
       mapR (eligible_vote cfg mid c) vs = Inr sides \<and>
       cfg_int cfg ''min_market_participants'' = Inr least \<and>
       least \<le> int (count_list sides (Some ''yes'')) + int (count_list sides (Some ''no'')) \<and>
       cfg_float cfg ''bootstrap_resolution_supermajority'' = Inr thr \<and>
       int_div (int (count_list sides (Some (r_outcome r))))
         (int (count_list sides (Some ''yes'')) + int (count_list sides (Some ''no''))) = Inr q \<and>
       fle thr q)"
proof -
  from assms(1) obtain vs sides least where votes: "deduplicate_votes mid c = Inr vs"
    "mapR (eligible_vote cfg mid c) vs = Inr sides" "cfg_int cfg ''min_market_participants'' = Inr least"
    by (auto simp: resolve_bootstrap_def Let_def rbind_Inr_iff)
  let ?y = "int (count_list sides (Some ''yes''))" and ?n = "int (count_list sides (Some ''no''))"
  note unfold = resolve_bootstrap_def Let_def votes
  have enough: "\<not> ?y + ?n < least" using assms by (auto simp: unfold)
  with assms obtain side where side: "bootstrap_winner cfg ?y ?n = Inr (Some side)"
    by (auto simp: unfold rbind_Inr_iff split: option.splits if_splits)
  with assms enough have r: "r_outcome r = side" "list_ex (\<lambda>b. b_outcome b = side) bs"
    by (auto simp: unfold split: if_splits)
  from bootstrap_winner_Some [OF side] obtain thr q where
    "side = ''yes'' \<or> side = ''no''" "cfg_float cfg ''bootstrap_resolution_supermajority'' = Inr thr"
    "int_div (if side = ''yes'' then ?y else ?n) (?y + ?n) = Inr q" "fle thr q" by blast
  moreover from this(1) have "int (count_list sides (Some side)) = (if side = ''yes'' then ?y else ?n)" by auto
  ultimately have "int_div (int (count_list sides (Some (r_outcome r)))) (?y + ?n) = Inr q"
    "r_outcome r = ''yes'' \<or> r_outcome r = ''no''" "fle thr q"
    "cfg_float cfg ''bootstrap_resolution_supermajority'' = Inr thr" using r(1) by simp_all
  then show ?thesis using votes enough r by (fastforce simp: list_ex_iff)
qed

definition bootstrap_config :: config where
  "bootstrap_config = [(''bootstrap_min_identity_age_days'', VInt 3), (''min_market_participants'', VInt 1),
     (''bootstrap_resolution_supermajority'', VFloat (Fin (3/4)))]"

definition bootstrap_chain :: chain where
  "bootstrap_chain = eligible_chain @ [vote_event ''v'' ''yes'']"

definition bootstrap_bundle :: evidence_bundle where
  "bootstrap_bundle = \<lparr>b_node = ''e'', b_market = ''m'', b_outcome = ''yes'', b_hashes = [],
     b_description = [], b_bond = Fin 0, b_timestamp = Fin 3, b_sequence = 1, b_content_hash = ''h'',
     b_submission_hash = ''h'', b_first = True\<rparr>"

theorem bootstrap_outcome_justified_witness:
  "\<exists>vs. deduplicate_votes ''m'' bootstrap_chain = Inr vs \<and>
     (\<exists>sides. mapR (eligible_vote bootstrap_config ''m'' bootstrap_chain) vs = Inr sides \<and>
       1 \<le> int (count_list sides (Some ''yes'')) + int (count_list sides (Some ''no'')))"
proof -
  obtain v where v: "vote_event ''v'' ''yes'' = VDict v" by (simp add: vote_event_def)
  have node: "vote_node ''m'' v = Some ''v''" "event_seq v = Inr 0"
    using v by (auto simp: vote_event_def vote_node_def etype_def payload_def eget_def event_seq_def py_or_def)
  have "votes_of ''m'' n (dict_events bootstrap_chain) = (if n = ''v'' then [v] else [])" for n
    using v node by (simp add: bootstrap_chain_def eligible_chain_def snapshot_event_def vote_node_def
        etype_def payload_def eget_def)
  then have vs: "deduplicate_votes ''m'' bootstrap_chain = Inr [v]"
    using node(2) by (rule dedup_single)
  have vote: "mapR (eligible_vote bootstrap_config ''m'' bootstrap_chain) [v] = Inr [Some ''yes'']"
  proof -
    have "mapR (eligible_vote bootstrap_config ''m'' bootstrap_chain)
        (dict_events [vote_event ''v'' ''yes'']) = Inr [Some ''yes'']" by code_simp
    then show ?thesis using v by simp
  qed
  moreover have "bootstrap_winner bootstrap_config 1 0 = Inr (Some ''yes'')" by code_simp
  moreover have "cfg_int bootstrap_config ''min_market_participants'' = Inr 1" by code_simp
  ultimately obtain r where "resolve_bootstrap bootstrap_config ''m'' bootstrap_chain False [bootstrap_bundle] = Inr r"
    "r_outcome r = ''yes''"
    using vs by (simp add: resolve_bootstrap_def bootstrap_bundle_def)
  from bootstrap_outcome_justified [OF this(1)] this(2) show ?thesis
    by (auto simp: \<open>cfg_int bootstrap_config ''min_market_participants'' = Inr 1\<close>)
qed

end
