(* ===== verification/Event_Schema.thy ===== *)
theory Event_Schema
  imports Chain_Events
begin

section \<open>Event types and their payload validators\<close>

text \<open>
  Models \<open>services/infonet/schema.py\<close>: the set of event types of the economy layer, one structural
  validator per type, the registry and the dispatch over it. A verdict is the pair
  \<open>(accepted, reason)\<close> the code returns. Each validator first requires its fields and then runs
  its checks in the order of the code; \<open>first_failure\<close> is that chain of early returns.
\<close>

type_synonym verdict = "bool \<times> string"

subsection \<open>Event types\<close>

definition INFONET_ECONOMY_EVENT_TYPES :: "string list" where
  "INFONET_ECONOMY_EVENT_TYPES =
     [''uprep'', ''downrep'', ''prediction_create'', ''prediction_place'', ''truth_stake_place'',
      ''truth_stake_resolve'', ''market_snapshot'', ''evidence_submit'', ''resolution_stake'',
      ''bootstrap_resolution_vote'', ''resolution_finalize'', ''dispute_open'',
      ''dispute_stake'', ''dispute_resolve'', ''gate_enter'', ''gate_exit'', ''gate_lock'',
      ''gate_suspend_file'', ''gate_suspend_vote'', ''gate_suspend_execute'',
      ''gate_shutdown_file'', ''gate_shutdown_vote'', ''gate_shutdown_execute'',
      ''gate_unsuspend'', ''gate_shutdown_appeal_file'', ''gate_shutdown_appeal_vote'',
      ''gate_shutdown_appeal_resolve'', ''petition_file'', ''petition_sign'', ''petition_vote'',
      ''challenge_file'', ''challenge_vote'', ''petition_execute'', ''upgrade_propose'',
      ''upgrade_sign'', ''upgrade_vote'', ''upgrade_challenge'', ''upgrade_challenge_vote'',
      ''upgrade_signal_ready'', ''upgrade_activate'', ''node_register'', ''identity_rotate'',
      ''citizenship_claim'', ''coin_transfer'', ''coin_mint'', ''bounty_create'',
      ''bounty_claim'', ''post_create'', ''post_reply'']"

subsection \<open>Helpers\<close>

definition accepted :: verdict where
  "accepted = (True, ''ok'')"

definition require :: "pyval \<Rightarrow> string list \<Rightarrow> verdict" where
  "require p fields =
     (case p of
        VDict d \<Rightarrow>
          (case List.find (\<lambda>k. \<not> ehas d k) fields of
             None \<Rightarrow> accepted
           | Some k \<Rightarrow> (False, ''Missing field: '' @ k))
      | _ \<Rightarrow> (False, ''payload must be an object''))"

definition is_nonempty_str :: "pyval \<Rightarrow> bool" where
  "is_nonempty_str v = (case v of VStr s \<Rightarrow> py_strip s \<noteq> [] | _ \<Rightarrow> False)"

text \<open>\<open>isinstance(v, (int, float)) and not isinstance(v, bool)\<close> and the comparison with zero.\<close>

definition is_number :: "pyval \<Rightarrow> bool" where
  "is_number v = (case v of VInt _ \<Rightarrow> True | VFloat _ \<Rightarrow> True | _ \<Rightarrow> False)"

definition is_positive_number :: "pyval \<Rightarrow> bool" where
  "is_positive_number v = (case v of VInt n \<Rightarrow> 0 < n | VFloat f \<Rightarrow> flt (Fin 0) f | _ \<Rightarrow> False)"

definition is_nonnegative_number :: "pyval \<Rightarrow> bool" where
  "is_nonnegative_number v = (case v of VInt n \<Rightarrow> 0 \<le> n | VFloat f \<Rightarrow> fle (Fin 0) f | _ \<Rightarrow> False)"

definition is_one_of :: "pyval \<Rightarrow> string list \<Rightarrow> bool" where
  "is_one_of v names = (case v of VStr s \<Rightarrow> s \<in> set names | _ \<Rightarrow> False)"

definition is_int_at_least :: "int \<Rightarrow> pyval \<Rightarrow> bool" where
  "is_int_at_least n v = (case v of VInt i \<Rightarrow> n \<le> i | _ \<Rightarrow> False)"

definition is_list_of_str :: "pyval \<Rightarrow> bool" where
  "is_list_of_str v = (case v of VList xs \<Rightarrow> list_all is_nonempty_str xs | _ \<Rightarrow> False)"

definition is_list :: "pyval \<Rightarrow> bool" where
  "is_list v = (case v of VList _ \<Rightarrow> True | _ \<Rightarrow> False)"

definition is_str_up_to :: "nat \<Rightarrow> pyval \<Rightarrow> bool" where
  "is_str_up_to n v = (case v of VStr s \<Rightarrow> length s \<le> n | _ \<Rightarrow> False)"

definition is_bool :: "pyval \<Rightarrow> bool" where
  "is_bool v = (case v of VBool _ \<Rightarrow> True | _ \<Rightarrow> False)"

fun first_failure :: "(bool \<times> string) list \<Rightarrow> verdict" where
  "first_failure [] = accepted"
| "first_failure ((bad, why) # rest) = (if bad then (False, why) else first_failure rest)"

definition guarded :: "pyval \<Rightarrow> string list \<Rightarrow> (event \<Rightarrow> (bool \<times> string) list) \<Rightarrow> verdict" where
  "guarded p fields checks =
     (case p of
        VDict d \<Rightarrow> if fst (require p fields) then first_failure (checks d) else require p fields
      | _ \<Rightarrow> require p fields)"

definition quoted :: "string \<Rightarrow> string" where
  "quoted s = [char_of (39 :: int)] @ s @ [char_of (39 :: int)]"

definition not_empty :: "event \<Rightarrow> string \<Rightarrow> bool \<times> string" where
  "not_empty d k = (\<not> is_nonempty_str (eget d k), k @ '' must be non-empty'')"

subsection \<open>Reputation, markets and disputes\<close>

definition validate_uprep :: "pyval \<Rightarrow> verdict" where
  "validate_uprep p =
     guarded p [''target_node_id'', ''target_event_id''] (\<lambda>d.
       [not_empty d ''target_node_id'',
        not_empty d ''target_event_id''])"

definition validate_downrep :: "pyval \<Rightarrow> verdict" where
  "validate_downrep p = validate_uprep p"

definition validate_prediction_create :: "pyval \<Rightarrow> verdict" where
  "validate_prediction_create p =
     guarded p [''market_id'', ''market_type'', ''question'', ''trigger_date'', ''creation_bond''] (\<lambda>d.
       [not_empty d ''market_id'',
        (\<not> is_one_of (eget d ''market_type'') [''objective'', ''subjective''],
         ''market_type must be '' @ quoted ''objective'' @ '' or '' @ quoted ''subjective''),
        not_empty d ''question'',
        (\<not> is_positive_number (eget d ''trigger_date''),
         ''trigger_date must be a positive timestamp''),
        (\<not> is_nonnegative_number (eget d ''creation_bond''),
         ''creation_bond must be a non-negative number'')])"

definition at_most_100 :: "pyval \<Rightarrow> bool" where
  "at_most_100 v = (case v of VInt n \<Rightarrow> n \<le> 100 | VFloat f \<Rightarrow> fle f (Fin 100) | _ \<Rightarrow> False)"

definition validate_prediction_place :: "pyval \<Rightarrow> verdict" where
  "validate_prediction_place p =
     guarded p [''market_id'', ''side'', ''probability_at_bet''] (\<lambda>d.
       [not_empty d ''market_id'',
        (\<not> is_one_of (eget d ''side'') [''yes'', ''no''],
         ''side must be '' @ quoted ''yes'' @ '' or '' @ quoted ''no''),
        (\<not> is_number (eget d ''probability_at_bet''), ''probability_at_bet must be numeric''),
        (\<not> (is_nonnegative_number (eget d ''probability_at_bet'') \<and> at_most_100 (eget d ''probability_at_bet'')),
         ''probability_at_bet must be in [0, 100]''),
        (ehas d ''stake_amount'' \<and> (eget d ''stake_amount'') \<noteq> VNone \<and> \<not> is_positive_number (eget d ''stake_amount''),
         ''stake_amount must be positive when present'')])"

definition validate_truth_stake_place :: "pyval \<Rightarrow> verdict" where
  "validate_truth_stake_place p =
     guarded p [''message_id'', ''poster_id'', ''side'', ''amount'', ''duration_days''] (\<lambda>d.
       [not_empty d ''message_id'',
        not_empty d ''poster_id'',
        (\<not> is_one_of (eget d ''side'') [''truth'', ''false''],
         ''side must be '' @ quoted ''truth'' @ '' or '' @ quoted ''false''),
        (\<not> is_positive_number (eget d ''amount''), ''amount must be positive''),
        (\<not> is_int_at_least 1 (eget d ''duration_days''),
         ''duration_days must be a positive integer'')])"

definition validate_truth_stake_resolve :: "pyval \<Rightarrow> verdict" where
  "validate_truth_stake_resolve p =
     guarded p [''message_id'', ''outcome''] (\<lambda>d.
       [(\<not> is_one_of (eget d ''outcome'') [''truth'', ''false'', ''tie''],
         ''outcome must be '' @ quoted ''truth'' @ '', '' @ quoted ''false'' @ '', or '' @ quoted ''tie'')])"

definition validate_market_snapshot :: "pyval \<Rightarrow> verdict" where
  "validate_market_snapshot p =
     guarded p [''market_id'', ''frozen_participant_count'', ''frozen_total_stake'',
       ''frozen_predictor_ids'', ''frozen_probability_state'', ''frozen_at''] (\<lambda>d.
       [((case (eget d ''frozen_participant_count'') of VInt _ \<Rightarrow> False | _ \<Rightarrow> True),
         ''frozen_participant_count must be int''),
        (\<not> is_int_at_least 0 (eget d ''frozen_participant_count''),
         ''frozen_participant_count must be >= 0''),
        (\<not> is_nonnegative_number (eget d ''frozen_total_stake''),
         ''frozen_total_stake must be a non-negative number''),
        (\<not> is_list (eget d ''frozen_predictor_ids''), ''frozen_predictor_ids must be a list''),
        (\<not> is_list_of_str (eget d ''frozen_predictor_ids''),
         ''frozen_predictor_ids entries must be non-empty strings''),
        ((case (eget d ''frozen_probability_state'') of VDict st \<Rightarrow> \<not> (ehas st ''yes'' \<and> ehas st ''no'') | _ \<Rightarrow> True),
         ''frozen_probability_state must be {yes, no}''),
        (\<not> is_positive_number (eget d ''frozen_at''),
         ''frozen_at must be a positive timestamp'')])"

definition validate_evidence_submit :: "pyval \<Rightarrow> verdict" where
  "validate_evidence_submit p =
     guarded p [''market_id'', ''claimed_outcome'', ''evidence_hashes'', ''source_description'',
       ''evidence_content_hash'', ''submission_hash'', ''bond''] (\<lambda>d.
       [(\<not> is_one_of (eget d ''claimed_outcome'') [''yes'', ''no''],
         ''claimed_outcome must be '' @ quoted ''yes'' @ '' or '' @ quoted ''no''),
        (\<not> is_list (eget d ''evidence_hashes'') \<or> (eget d ''evidence_hashes'') = VList [],
         ''evidence_hashes must be a non-empty list''),
        (\<not> is_list_of_str (eget d ''evidence_hashes''),
         ''evidence_hashes entries must be non-empty strings''),
        ((case (eget d ''source_description'') of VStr _ \<Rightarrow> False | _ \<Rightarrow> True),
         ''source_description must be a string''),
        not_empty d ''evidence_content_hash'',
        not_empty d ''submission_hash'',
        (\<not> is_nonnegative_number (eget d ''bond''), ''bond must be a non-negative number'')])"

definition validate_resolution_stake :: "pyval \<Rightarrow> verdict" where
  "validate_resolution_stake p =
     guarded p [''market_id'', ''side'', ''amount'', ''rep_type''] (\<lambda>d.
       [(\<not> is_one_of (eget d ''side'') [''yes'', ''no'', ''data_unavailable''],
         ''side must be '' @ quoted ''yes'' @ '' | '' @ quoted ''no'' @ '' | '' @ quoted ''data_unavailable''),
        (\<not> is_positive_number (eget d ''amount''), ''amount must be positive''),
        (\<not> is_one_of (eget d ''rep_type'') [''oracle'', ''common''],
         ''rep_type must be '' @ quoted ''oracle'' @ '' or '' @ quoted ''common'')])"

definition validate_bootstrap_resolution_vote :: "pyval \<Rightarrow> verdict" where
  "validate_bootstrap_resolution_vote p =
     guarded p [''market_id'', ''side'', ''pow_nonce''] (\<lambda>d.
       [(\<not> is_one_of (eget d ''side'') [''yes'', ''no''],
         ''side must be '' @ quoted ''yes'' @ '' or '' @ quoted ''no''),
        (\<not> is_int_at_least 0 (eget d ''pow_nonce''),
         ''pow_nonce must be a non-negative integer'')])"

definition validate_resolution_finalize :: "pyval \<Rightarrow> verdict" where
  "validate_resolution_finalize p =
     guarded p [''market_id'', ''outcome'', ''is_provisional'', ''snapshot_event_hash''] (\<lambda>d.
       [(\<not> is_one_of (eget d ''outcome'') [''yes'', ''no'', ''invalid''],
         ''outcome must be '' @ quoted ''yes'' @ '' | '' @ quoted ''no'' @ '' | '' @ quoted ''invalid''),
        (\<not> is_bool (eget d ''is_provisional''), ''is_provisional must be a boolean''),
        not_empty d ''snapshot_event_hash''])"

definition validate_dispute_open :: "pyval \<Rightarrow> verdict" where
  "validate_dispute_open p =
     guarded p [''market_id'', ''challenger_stake'', ''reason''] (\<lambda>d.
       [(\<not> is_positive_number (eget d ''challenger_stake''),
         ''challenger_stake must be positive''),
        not_empty d ''reason''])"

definition validate_dispute_stake :: "pyval \<Rightarrow> verdict" where
  "validate_dispute_stake p =
     guarded p [''dispute_id'', ''side'', ''amount'', ''rep_type''] (\<lambda>d.
       [(\<not> is_one_of (eget d ''side'') [''confirm'', ''reverse''],
         ''side must be '' @ quoted ''confirm'' @ '' or '' @ quoted ''reverse''),
        (\<not> is_positive_number (eget d ''amount''), ''amount must be positive''),
        (\<not> is_one_of (eget d ''rep_type'') [''oracle'', ''common''],
         ''rep_type must be '' @ quoted ''oracle'' @ '' or '' @ quoted ''common'')])"

definition validate_dispute_resolve :: "pyval \<Rightarrow> verdict" where
  "validate_dispute_resolve p =
     guarded p [''dispute_id'', ''outcome''] (\<lambda>d.
       [(\<not> is_one_of (eget d ''outcome'') [''upheld'', ''reversed'', ''tie''],
         ''outcome must be '' @ quoted ''upheld'' @ '' | '' @ quoted ''reversed'' @ '' | '' @ quoted ''tie'')])"

subsection \<open>Gates\<close>

definition validate_gate_enter :: "pyval \<Rightarrow> verdict" where
  "validate_gate_enter p =
     guarded p [''gate_id'', ''sacrifice_amount''] (\<lambda>d.
       [not_empty d ''gate_id'',
        (\<not> is_positive_number (eget d ''sacrifice_amount''),
         ''sacrifice_amount must be positive'')])"

definition validate_gate_exit :: "pyval \<Rightarrow> verdict" where
  "validate_gate_exit p =
     guarded p [''gate_id''] (\<lambda>d.
       [not_empty d ''gate_id''])"

definition validate_gate_lock :: "pyval \<Rightarrow> verdict" where
  "validate_gate_lock p =
     guarded p [''gate_id'', ''lock_cost''] (\<lambda>d.
       [not_empty d ''gate_id'',
        (\<not> is_positive_number (eget d ''lock_cost''), ''lock_cost must be positive'')])"

definition validate_gate_action_petition_file :: "pyval \<Rightarrow> verdict" where
  "validate_gate_action_petition_file p =
     guarded p [''petition_id'', ''gate_id'', ''reason'', ''evidence_hashes''] (\<lambda>d.
       [not_empty d ''petition_id'',
        not_empty d ''gate_id'',
        (\<not> is_str_up_to 2000 (eget d ''reason''),
         ''reason must be a string up to 2000 chars''),
        (\<not> is_list (eget d ''evidence_hashes'') \<or> (eget d ''evidence_hashes'') = VList [],
         ''evidence_hashes must be non-empty''),
        (\<not> is_list_of_str (eget d ''evidence_hashes''),
         ''evidence_hashes entries must be non-empty strings'')])"

definition validate_gate_action_vote :: "pyval \<Rightarrow> verdict" where
  "validate_gate_action_vote p =
     guarded p [''petition_id'', ''vote''] (\<lambda>d.
       [(\<not> is_one_of (eget d ''vote'') [''for'', ''against''],
         ''vote must be '' @ quoted ''for'' @ '' or '' @ quoted ''against'')])"

definition validate_gate_action_execute :: "pyval \<Rightarrow> verdict" where
  "validate_gate_action_execute p =
     guarded p [''petition_id'', ''gate_id''] (\<lambda>d.
       [not_empty d ''petition_id'',
        not_empty d ''gate_id''])"

definition validate_gate_unsuspend :: "pyval \<Rightarrow> verdict" where
  "validate_gate_unsuspend p =
     guarded p [''gate_id''] (\<lambda>d.
       [not_empty d ''gate_id''])"

definition validate_gate_shutdown_appeal_file :: "pyval \<Rightarrow> verdict" where
  "validate_gate_shutdown_appeal_file p =
     guarded p [''petition_id'', ''gate_id'', ''target_petition_id'', ''reason'', ''evidence_hashes''] (\<lambda>d.
       [not_empty d ''target_petition_id'',
        (\<not> is_str_up_to 2000 (eget d ''reason''),
         ''reason must be a string up to 2000 chars''),
        (\<not> is_list (eget d ''evidence_hashes'') \<or> (eget d ''evidence_hashes'') = VList [],
         ''evidence_hashes must be non-empty'')])"

definition validate_gate_shutdown_appeal_resolve :: "pyval \<Rightarrow> verdict" where
  "validate_gate_shutdown_appeal_resolve p =
     guarded p [''petition_id'', ''outcome''] (\<lambda>d.
       [(\<not> is_one_of (eget d ''outcome'') [''voided_shutdown'', ''resumed''],
         ''outcome must be '' @ quoted ''voided_shutdown'' @ '' or '' @ quoted ''resumed'')])"

subsection \<open>Petitions, challenges and upgrades\<close>

definition VALID_PETITION_PAYLOAD_TYPES :: "string list" where
  "VALID_PETITION_PAYLOAD_TYPES = [''UPDATE_PARAM'', ''BATCH_UPDATE_PARAMS'', ''ENABLE_FEATURE'', ''DISABLE_FEATURE'']"

fun check_updates :: "pyval list \<Rightarrow> verdict" where
  "check_updates [] = accepted"
| "check_updates (u # us) =
     (case u of
        VDict d \<Rightarrow>
          if \<not> ehas d ''key'' \<or> \<not> ehas d ''value''
          then (False, ''BATCH_UPDATE_PARAMS entries must be {key, value}'')
          else if \<not> is_nonempty_str (eget d ''key'')
          then (False, ''BATCH_UPDATE_PARAMS entry key must be non-empty'')
          else check_updates us
      | _ \<Rightarrow> (False, ''BATCH_UPDATE_PARAMS entries must be {key, value}''))"

definition check_petition_shape :: "string \<Rightarrow> event \<Rightarrow> verdict" where
  "check_petition_shape t pp =
     (if t = ''UPDATE_PARAM'' then
        (if \<not> ehas pp ''key'' \<or> \<not> ehas pp ''value'' then (False, ''UPDATE_PARAM requires key + value'')
         else if \<not> is_nonempty_str (eget pp ''key'') then (False, ''UPDATE_PARAM.key must be non-empty'')
         else accepted)
      else if t = ''BATCH_UPDATE_PARAMS'' then
        (case eget pp ''updates'' of
           VList us \<Rightarrow> if us = [] then (False, ''BATCH_UPDATE_PARAMS.updates must be a non-empty list'')
                       else check_updates us
         | _ \<Rightarrow> (False, ''BATCH_UPDATE_PARAMS.updates must be a non-empty list''))
      else if \<not> ehas pp ''feature'' \<or> \<not> is_nonempty_str (eget pp ''feature'')
      then (False, t @ ''.feature must be non-empty'')
      else accepted)"

text \<open>
  The membership test on the frozen set hashes the type, so a list or an object there raises
  TypeError; a hashable value that is not one of the four strings is rejected.
\<close>

definition validate_petition_payload :: "event \<Rightarrow> verdict res" where
  "validate_petition_payload pp =
     (if \<not> ehas pp ''type'' then Inr (False, ''petition_payload must be an object with a '' @ quoted ''type'' @ '' field'')
      else if \<not> hashable (eget pp ''type'') then Inl TypeError
      else case eget pp ''type'' of
        VStr t \<Rightarrow> if t \<in> set VALID_PETITION_PAYLOAD_TYPES then Inr (check_petition_shape t pp)
                  else Inr (False, ''petition_payload type must be one of ['' @ join '', ''
                         (map quoted (sort_key (\<lambda>s. s) VALID_PETITION_PAYLOAD_TYPES)) @ '']'')
      | _ \<Rightarrow> Inr (False, ''petition_payload type must be one of ['' @ join '', ''
                         (map quoted (sort_key (\<lambda>s. s) VALID_PETITION_PAYLOAD_TYPES)) @ '']''))"

definition validate_petition_file :: "pyval \<Rightarrow> verdict res" where
  "validate_petition_file p =
     (let head = guarded p [''petition_id'', ''petition_payload''] (\<lambda>d. [not_empty d ''petition_id'']) in
      if \<not> fst head then Inr head
      else case p of
        VDict d \<Rightarrow>
          (case eget d ''petition_payload'' of
             VDict pp \<Rightarrow> validate_petition_payload pp
           | _ \<Rightarrow> Inr (False, ''petition_payload must be an object with a '' @ quoted ''type'' @ '' field''))
      | _ \<Rightarrow> Inr head)"

definition validate_petition_sign :: "pyval \<Rightarrow> verdict" where
  "validate_petition_sign p =
     guarded p [''petition_id''] (\<lambda>d.
       [not_empty d ''petition_id''])"

definition validate_petition_vote :: "pyval \<Rightarrow> verdict" where
  "validate_petition_vote p =
     guarded p [''petition_id'', ''vote''] (\<lambda>d.
       [(\<not> is_one_of (eget d ''vote'') [''for'', ''against''],
         ''vote must be '' @ quoted ''for'' @ '' or '' @ quoted ''against'')])"

definition validate_challenge_file :: "pyval \<Rightarrow> verdict" where
  "validate_challenge_file p =
     guarded p [''petition_id'', ''reason''] (\<lambda>d.
       [not_empty d ''petition_id'',
        not_empty d ''reason''])"

definition validate_challenge_vote :: "pyval \<Rightarrow> verdict" where
  "validate_challenge_vote p =
     guarded p [''petition_id'', ''vote''] (\<lambda>d.
       [(\<not> is_one_of (eget d ''vote'') [''uphold'', ''void''],
         ''vote must be '' @ quoted ''uphold'' @ '' or '' @ quoted ''void'')])"

definition validate_petition_execute :: "pyval \<Rightarrow> verdict" where
  "validate_petition_execute p =
     guarded p [''petition_id''] (\<lambda>d.
       [not_empty d ''petition_id''])"

definition validate_upgrade_propose :: "pyval \<Rightarrow> verdict" where
  "validate_upgrade_propose p =
     guarded p [''proposal_id'', ''release_hash'', ''release_description'', ''target_protocol_version''] (\<lambda>d.
       [not_empty d ''proposal_id'',
        not_empty d ''release_hash'',
        (\<not> is_str_up_to 4000 (eget d ''release_description''),
         ''release_description must be a string up to 4000 chars''),
        not_empty d ''target_protocol_version''])"

definition validate_upgrade_sign :: "pyval \<Rightarrow> verdict" where
  "validate_upgrade_sign p =
     guarded p [''proposal_id''] (\<lambda>d.
       [not_empty d ''proposal_id''])"

definition validate_upgrade_vote :: "pyval \<Rightarrow> verdict" where
  "validate_upgrade_vote p =
     guarded p [''proposal_id'', ''vote''] (\<lambda>d.
       [(\<not> is_one_of (eget d ''vote'') [''for'', ''against''],
         ''vote must be '' @ quoted ''for'' @ '' or '' @ quoted ''against'')])"

text \<open>This validator calls \<open>p.get\<close> before any shape check, so anything but an object raises AttributeError.\<close>

definition validate_upgrade_challenge :: "pyval \<Rightarrow> verdict res" where
  "validate_upgrade_challenge p =
     (case p of
        VDict d \<Rightarrow> Inr (validate_challenge_file (VDict
          [(''petition_id'', get_or (map_of d ''proposal_id'') (VStr [])),
           (''reason'', get_or (map_of d ''reason'') (VStr []))]))
      | _ \<Rightarrow> Inl AttributeError)"

definition validate_upgrade_challenge_vote :: "pyval \<Rightarrow> verdict" where
  "validate_upgrade_challenge_vote p =
     guarded p [''proposal_id'', ''vote''] (\<lambda>d.
       [(\<not> is_one_of (eget d ''vote'') [''uphold'', ''void''],
         ''vote must be '' @ quoted ''uphold'' @ '' or '' @ quoted ''void'')])"

definition validate_upgrade_signal_ready :: "pyval \<Rightarrow> verdict" where
  "validate_upgrade_signal_ready p =
     guarded p [''proposal_id'', ''release_hash''] (\<lambda>d.
       [not_empty d ''proposal_id'',
        not_empty d ''release_hash''])"

definition validate_upgrade_activate :: "pyval \<Rightarrow> verdict" where
  "validate_upgrade_activate p =
     guarded p [''proposal_id'', ''new_protocol_version''] (\<lambda>d.
       [not_empty d ''proposal_id'',
        not_empty d ''new_protocol_version''])"

subsection \<open>Identity, coins and content\<close>

definition validate_node_register :: "pyval \<Rightarrow> verdict" where
  "validate_node_register p =
     guarded p [''public_key'', ''public_key_algo'', ''node_class''] (\<lambda>d.
       [not_empty d ''public_key'',
        (\<not> is_one_of (eget d ''public_key_algo'') [''ed25519'', ''ecdsa''],
         ''public_key_algo must be '' @ quoted ''ed25519'' @ '' or '' @ quoted ''ecdsa''),
        (\<not> is_one_of (eget d ''node_class'') [''heavy'', ''light''],
         ''node_class must be '' @ quoted ''heavy'' @ '' or '' @ quoted ''light'')])"

definition validate_identity_rotate :: "pyval \<Rightarrow> verdict" where
  "validate_identity_rotate p =
     guarded p [''old_node_id'', ''old_public_key'', ''old_public_key_algo'', ''new_public_key'',
       ''new_public_key_algo'', ''old_signature''] (\<lambda>d.
       [])"

definition validate_citizenship_claim :: "pyval \<Rightarrow> verdict" where
  "validate_citizenship_claim p =
     guarded p [''sacrifice_amount''] (\<lambda>d.
       [(\<not> is_positive_number (eget d ''sacrifice_amount''),
         ''sacrifice_amount must be positive'')])"

definition validate_coin_transfer :: "pyval \<Rightarrow> verdict" where
  "validate_coin_transfer p =
     guarded p [''to_node_id'', ''amount''] (\<lambda>d.
       [not_empty d ''to_node_id'',
        (\<not> is_positive_number (eget d ''amount''), ''amount must be positive'')])"

definition validate_coin_mint :: "pyval \<Rightarrow> verdict" where
  "validate_coin_mint p =
     guarded p [''month'', ''total_minted'', ''ubi_pool'', ''dividend_pool''] (\<lambda>d.
       [(\<not> is_nonempty_str (eget d ''month''),
         ''month must be non-empty (e.g. '' @ quoted ''2026-04'' @ '')''),
        (\<not> is_nonnegative_number (eget d ''total_minted''),
         ''total_minted must be non-negative''),
        (\<not> is_nonnegative_number (eget d ''ubi_pool''), ''ubi_pool must be non-negative''),
        (\<not> is_nonnegative_number (eget d ''dividend_pool''),
         ''dividend_pool must be non-negative'')])"

definition validate_bounty_create :: "pyval \<Rightarrow> verdict" where
  "validate_bounty_create p =
     guarded p [''bounty_id'', ''amount'', ''description''] (\<lambda>d.
       [not_empty d ''bounty_id'',
        (\<not> is_positive_number (eget d ''amount''), ''amount must be positive''),
        not_empty d ''description''])"

definition validate_bounty_claim :: "pyval \<Rightarrow> verdict" where
  "validate_bounty_claim p =
     guarded p [''bounty_id''] (\<lambda>d.
       [not_empty d ''bounty_id''])"

definition validate_post_create :: "pyval \<Rightarrow> verdict" where
  "validate_post_create p =
     guarded p [''post_id'', ''body''] (\<lambda>d.
       [not_empty d ''post_id'',
        ((case (eget d ''body'') of VStr _ \<Rightarrow> False | _ \<Rightarrow> True),
         ''body must be a string'')])"

definition validate_post_reply :: "pyval \<Rightarrow> verdict" where
  "validate_post_reply p =
     guarded p [''post_id'', ''parent_post_id'', ''body''] (\<lambda>d.
       [not_empty d ''post_id'',
        not_empty d ''parent_post_id'',
        ((case (eget d ''body'') of VStr _ \<Rightarrow> False | _ \<Rightarrow> True),
         ''body must be a string'')])"

subsection \<open>The registry\<close>

record infonet_event_schema =
  schema_event_type :: string
  required_fields :: "string list"
  optional_fields :: "string list"
  validate_payload :: "pyval \<Rightarrow> verdict res"

definition reg ::
  "string \<Rightarrow> string list \<Rightarrow> string list \<Rightarrow> (pyval \<Rightarrow> verdict res) \<Rightarrow> string \<times> infonet_event_schema" where
  "reg t req opt f = (t, \<lparr>schema_event_type = t, required_fields = req, optional_fields = opt, validate_payload = f\<rparr>)"

definition total :: "(pyval \<Rightarrow> verdict) \<Rightarrow> pyval \<Rightarrow> verdict res" where
  "total f p = Inr (f p)"

definition SCHEMA_REGISTRY :: "(string, infonet_event_schema) dict" where
  "SCHEMA_REGISTRY =
     [reg ''uprep'' [''target_node_id'', ''target_event_id''] [] (total validate_uprep),
      reg ''downrep'' [''target_node_id'', ''target_event_id''] [] (total validate_downrep),
      reg ''prediction_create'' [''market_id'', ''market_type'', ''question'', ''trigger_date'', ''creation_bond''] [] (total validate_prediction_create),
      reg ''prediction_place'' [''market_id'', ''side'', ''probability_at_bet''] [''stake_amount''] (total validate_prediction_place),
      reg ''truth_stake_place'' [''message_id'', ''poster_id'', ''side'', ''amount'', ''duration_days''] [] (total validate_truth_stake_place),
      reg ''truth_stake_resolve'' [''message_id'', ''outcome''] [] (total validate_truth_stake_resolve),
      reg ''market_snapshot'' [''market_id'', ''frozen_participant_count'', ''frozen_total_stake'', ''frozen_predictor_ids'', ''frozen_probability_state'', ''frozen_at''] [''snapshot_event_hash''] (total validate_market_snapshot),
      reg ''evidence_submit'' [''market_id'', ''claimed_outcome'', ''evidence_hashes'', ''source_description'', ''evidence_content_hash'', ''submission_hash'', ''bond''] [] (total validate_evidence_submit),
      reg ''resolution_stake'' [''market_id'', ''side'', ''amount'', ''rep_type''] [] (total validate_resolution_stake),
      reg ''bootstrap_resolution_vote'' [''market_id'', ''side'', ''pow_nonce''] [] (total validate_bootstrap_resolution_vote),
      reg ''resolution_finalize'' [''market_id'', ''outcome'', ''is_provisional'', ''snapshot_event_hash''] [] (total validate_resolution_finalize),
      reg ''dispute_open'' [''market_id'', ''challenger_stake'', ''reason''] [] (total validate_dispute_open),
      reg ''dispute_stake'' [''dispute_id'', ''side'', ''amount'', ''rep_type''] [] (total validate_dispute_stake),
      reg ''dispute_resolve'' [''dispute_id'', ''outcome''] [] (total validate_dispute_resolve),
      reg ''gate_enter'' [''gate_id'', ''sacrifice_amount''] [] (total validate_gate_enter),
      reg ''gate_exit'' [''gate_id''] [] (total validate_gate_exit),
      reg ''gate_lock'' [''gate_id'', ''lock_cost''] [] (total validate_gate_lock),
      reg ''gate_suspend_file'' [''petition_id'', ''gate_id'', ''reason'', ''evidence_hashes''] [] (total validate_gate_action_petition_file),
      reg ''gate_suspend_vote'' [''petition_id'', ''vote''] [] (total validate_gate_action_vote),
      reg ''gate_suspend_execute'' [''petition_id'', ''gate_id''] [] (total validate_gate_action_execute),
      reg ''gate_shutdown_file'' [''petition_id'', ''gate_id'', ''reason'', ''evidence_hashes''] [] (total validate_gate_action_petition_file),
      reg ''gate_shutdown_vote'' [''petition_id'', ''vote''] [] (total validate_gate_action_vote),
      reg ''gate_shutdown_execute'' [''petition_id'', ''gate_id''] [] (total validate_gate_action_execute),
      reg ''gate_unsuspend'' [''gate_id''] [] (total validate_gate_unsuspend),
      reg ''gate_shutdown_appeal_file'' [''petition_id'', ''gate_id'', ''target_petition_id'', ''reason'', ''evidence_hashes''] [] (total validate_gate_shutdown_appeal_file),
      reg ''gate_shutdown_appeal_vote'' [''petition_id'', ''vote''] [] (total validate_gate_action_vote),
      reg ''gate_shutdown_appeal_resolve'' [''petition_id'', ''outcome''] [] (total validate_gate_shutdown_appeal_resolve),
      reg ''petition_file'' [''petition_id'', ''petition_payload''] [] validate_petition_file,
      reg ''petition_sign'' [''petition_id''] [] (total validate_petition_sign),
      reg ''petition_vote'' [''petition_id'', ''vote''] [] (total validate_petition_vote),
      reg ''challenge_file'' [''petition_id'', ''reason''] [] (total validate_challenge_file),
      reg ''challenge_vote'' [''petition_id'', ''vote''] [] (total validate_challenge_vote),
      reg ''petition_execute'' [''petition_id''] [] (total validate_petition_execute),
      reg ''upgrade_propose'' [''proposal_id'', ''release_hash'', ''release_description'', ''target_protocol_version''] [''release_url'', ''compatibility_notes''] (total validate_upgrade_propose),
      reg ''upgrade_sign'' [''proposal_id''] [] (total validate_upgrade_sign),
      reg ''upgrade_vote'' [''proposal_id'', ''vote''] [] (total validate_upgrade_vote),
      reg ''upgrade_challenge'' [''proposal_id'', ''reason''] [] validate_upgrade_challenge,
      reg ''upgrade_challenge_vote'' [''proposal_id'', ''vote''] [] (total validate_upgrade_challenge_vote),
      reg ''upgrade_signal_ready'' [''proposal_id'', ''release_hash''] [] (total validate_upgrade_signal_ready),
      reg ''upgrade_activate'' [''proposal_id'', ''new_protocol_version''] [] (total validate_upgrade_activate),
      reg ''node_register'' [''public_key'', ''public_key_algo'', ''node_class''] [] (total validate_node_register),
      reg ''identity_rotate'' [''old_node_id'', ''old_public_key'', ''old_public_key_algo'', ''new_public_key'', ''new_public_key_algo'', ''old_signature''] [] (total validate_identity_rotate),
      reg ''citizenship_claim'' [''sacrifice_amount''] [] (total validate_citizenship_claim),
      reg ''coin_transfer'' [''to_node_id'', ''amount''] [] (total validate_coin_transfer),
      reg ''coin_mint'' [''month'', ''total_minted'', ''ubi_pool'', ''dividend_pool''] [] (total validate_coin_mint),
      reg ''bounty_create'' [''bounty_id'', ''amount'', ''description''] [] (total validate_bounty_create),
      reg ''bounty_claim'' [''bounty_id''] [] (total validate_bounty_claim),
      reg ''post_create'' [''post_id'', ''body''] [] (total validate_post_create),
      reg ''post_reply'' [''post_id'', ''parent_post_id'', ''body''] [] (total validate_post_reply)]"

definition get_infonet_schema :: "string \<Rightarrow> infonet_event_schema option" where
  "get_infonet_schema t = dict_get SCHEMA_REGISTRY t"

definition validate_infonet_event_payload :: "string \<Rightarrow> pyval \<Rightarrow> verdict res" where
  "validate_infonet_event_payload t p =
     (if t \<notin> set INFONET_ECONOMY_EVENT_TYPES then Inr (False, ''Unknown event_type for infonet economy: '' @ t)
      else case get_infonet_schema t of
        None \<Rightarrow> Inr (False, ''No validator registered for: '' @ t)
      | Some s \<Rightarrow> validate_payload s p)"

definition assert_registry_complete :: "unit res" where
  "assert_registry_complete =
     (if filter (\<lambda>t. \<not> dict_has SCHEMA_REGISTRY t) INFONET_ECONOMY_EVENT_TYPES = [] then Inr () else Inl AssertionError)"

end
