(* ===== verification/Schema_Claims.thy ===== *)
theory Schema_Claims
  imports Event_Schema Governance_DSL Market_Snapshot
begin

section \<open>What a schema-valid payload guarantees\<close>

text \<open>
  Properties of the validators of \<open>services/infonet/schema.py\<close>, alone and against the consumers
  of the payloads: the petition executor and the market snapshot.
\<close>

subsection \<open>Guarded validators\<close>

definition shaped :: "pyval \<Rightarrow> string list \<Rightarrow> bool" where
  "shaped p ks \<longleftrightarrow> (case p of VDict d \<Rightarrow> list_all (ehas d) ks | _ \<Rightarrow> False)"

lemma require_accepts: "fst (require p ks) \<longleftrightarrow> shaped p ks"
proof (cases p)
  case (VDict d)
  show ?thesis
  proof (cases "List.find (\<lambda>k. \<not> ehas d k) ks")
    case None
    then have "list_all (ehas d) ks" by (simp add: find_None_iff list_all_iff)
    then show ?thesis using None by (simp add: VDict require_def shaped_def accepted_def)
  next
    case (Some k)
    then have "k \<in> set ks" "\<not> ehas d k" by (auto simp: find_Some_iff)
    then show ?thesis using Some by (auto simp: VDict require_def shaped_def list_all_iff)
  qed
qed (simp_all add: require_def shaped_def)

lemma first_failure_accepts: "fst (first_failure cs) \<longleftrightarrow> list_all (\<lambda>c. \<not> fst c) cs"
  by (induction cs rule: first_failure.induct) (simp_all add: accepted_def)

lemma guarded_accepts:
  "fst (guarded p ks checks) \<longleftrightarrow>
   (case p of VDict d \<Rightarrow> list_all (ehas d) ks \<and> list_all (\<lambda>c. \<not> fst c) (checks d) | _ \<Rightarrow> False)"
  by (cases p) (auto simp: guarded_def require_accepts first_failure_accepts shaped_def)

lemma guarded_shaped: "guarded p ks checks = (True, why) \<Longrightarrow> shaped p ks"
  using guarded_accepts [of p ks checks] by (auto simp: shaped_def split: pyval.splits)

lemma get_or_has: "is_nonempty_str (get_or (map_of d k) (VStr [])) \<Longrightarrow> ehas d k"
  by (cases "map_of d k") (simp_all add: ehas_def is_nonempty_str_def py_strip_def)

lemma has_nonempty_str: "is_nonempty_str (eget d k) \<Longrightarrow> ehas d k"
  and has_dict: "eget d k = VDict pp \<Longrightarrow> ehas d k"
  by (cases "map_of d k"; simp add: ehas_def is_nonempty_str_def eget_def)+

lemmas guarded_validators =
  validate_uprep_def validate_downrep_def validate_prediction_create_def validate_prediction_place_def
  validate_truth_stake_place_def validate_truth_stake_resolve_def validate_market_snapshot_def
  validate_evidence_submit_def validate_resolution_stake_def validate_bootstrap_resolution_vote_def
  validate_resolution_finalize_def validate_dispute_open_def validate_dispute_stake_def
  validate_dispute_resolve_def validate_gate_enter_def validate_gate_exit_def validate_gate_lock_def
  validate_gate_action_petition_file_def validate_gate_action_vote_def validate_gate_action_execute_def
  validate_gate_unsuspend_def validate_gate_shutdown_appeal_file_def
  validate_gate_shutdown_appeal_resolve_def validate_petition_sign_def validate_petition_vote_def
  validate_challenge_file_def validate_challenge_vote_def validate_petition_execute_def
  validate_upgrade_propose_def validate_upgrade_sign_def validate_upgrade_vote_def
  validate_upgrade_challenge_vote_def validate_upgrade_signal_ready_def validate_upgrade_activate_def
  validate_node_register_def validate_identity_rotate_def validate_citizenship_claim_def
  validate_coin_transfer_def validate_coin_mint_def validate_bounty_create_def validate_bounty_claim_def
  validate_post_create_def validate_post_reply_def

lemma petition_file_shaped:
  "validate_petition_file p = Inr (True, why) \<Longrightarrow> shaped p [''petition_id'', ''petition_payload'']"
proof -
  assume acc: "validate_petition_file p = Inr (True, why)"
  let ?head = "guarded p [''petition_id'', ''petition_payload''] (\<lambda>d. [not_empty d ''petition_id''])"
  have "fst ?head" using acc by (cases "fst ?head") (auto simp: validate_petition_file_def Let_def)
  then show ?thesis by (cases p) (auto simp: guarded_accepts shaped_def)
qed

lemma upgrade_challenge_shaped:
  "validate_upgrade_challenge p = Inr (True, why) \<Longrightarrow> shaped p [''proposal_id'', ''reason'']"
proof (cases p)
  case (VDict d)
  assume "validate_upgrade_challenge p = Inr (True, why)"
  then have "fst (validate_challenge_file (VDict [(''petition_id'', get_or (map_of d ''proposal_id'') (VStr [])),
      (''reason'', get_or (map_of d ''reason'') (VStr []))]))"
    by (simp add: validate_upgrade_challenge_def VDict)
  then show ?thesis
    by (simp add: validate_challenge_file_def guarded_accepts not_empty_def eget_def shaped_def VDict get_or_has)
qed (simp_all add: validate_upgrade_challenge_def)

definition demands_fields :: "infonet_event_schema \<Rightarrow> bool" where
  "demands_fields s \<longleftrightarrow> (\<forall>p why. validate_payload s p = Inr (True, why) \<longrightarrow> shaped p (required_fields s))"

lemma demands_total:
  "(\<And>p why. f p = (True, why) \<Longrightarrow> shaped p req) \<Longrightarrow> demands_fields (snd (reg t req opt (total f)))"
  by (simp add: demands_fields_def reg_def total_def)

lemma demands_raising:
  "(\<And>p why. f p = Inr (True, why) \<Longrightarrow> shaped p req) \<Longrightarrow> demands_fields (snd (reg t req opt f))"
  by (simp add: demands_fields_def reg_def)

lemma registry_demands_fields: "list_all (\<lambda>e. demands_fields (snd e)) SCHEMA_REGISTRY"
  unfolding SCHEMA_REGISTRY_def list.pred_inject guarded_validators
  by (intro conjI list.pred_inject(1); (rule demands_total, erule guarded_shaped |
      rule demands_raising, erule petition_file_shaped upgrade_challenge_shaped))

lemma registered: "get_infonet_schema t = Some s \<Longrightarrow> (t, s) \<in> set SCHEMA_REGISTRY"
  by (simp add: get_infonet_schema_def dict_get_mem)

subsection \<open>Which validators can raise\<close>

definition raising_schema :: "string \<times> infonet_event_schema \<Rightarrow> bool" where
  "raising_schema e \<longleftrightarrow> (\<exists>p x. validate_payload (snd e) p = Inl x)"

lemma total_never_raises: "validate_payload (snd (reg t req opt (total f))) p \<noteq> Inl x"
  by (simp add: reg_def total_def)

lemma reg_fst [simp]: "fst (reg t req opt f) = t"
  by (simp add: reg_def)

lemma registry_raises:
  "list_all (\<lambda>e. \<forall>p x. validate_payload (snd e) p = Inl x \<longrightarrow>
     fst e = ''petition_file'' \<and> validate_petition_file p = Inl x \<or>
     fst e = ''upgrade_challenge'' \<and> validate_upgrade_challenge p = Inl x) SCHEMA_REGISTRY"
  unfolding SCHEMA_REGISTRY_def list.pred_inject
  by (intro conjI list.pred_inject(1) allI impI; (erule notE [OF total_never_raises] | simp add: reg_def))

lemma petition_file_raises:
  "validate_petition_file p = Inl x \<longleftrightarrow> x = TypeError \<and> (\<exists>d pp. p = VDict d \<and>
     fst (guarded p [''petition_id'', ''petition_payload''] (\<lambda>d. [not_empty d ''petition_id''])) \<and>
     eget d ''petition_payload'' = VDict pp \<and> ehas pp ''type'' \<and> \<not> hashable (eget pp ''type''))"
  by (cases p)
    (auto simp: validate_petition_file_def validate_petition_payload_def Let_def guarded_accepts
      split: pyval.splits if_splits)

subsection \<open>Petitions: the schema and the executor\<close>

lemma petition_file_payload:
  assumes "validate_petition_file (VDict d) = Inr (True, why)"
  shows "\<exists>pp t. eget d ''petition_payload'' = VDict pp \<and> eget pp ''type'' = VStr t \<and>
    t \<in> set VALID_PETITION_PAYLOAD_TYPES \<and> check_petition_shape t pp = (True, why)"
  using assms
  by (auto simp: validate_petition_file_def validate_petition_payload_def Let_def split: if_splits pyval.splits)

lemma nonempty_str_strip: "is_nonempty_str v \<Longrightarrow> \<exists>s. v = VStr s \<and> s \<noteq> []"
  by (auto simp: is_nonempty_str_def py_strip_def split: pyval.splits)

lemma check_updates_accepts:
  "fst (check_updates us) \<longleftrightarrow> list_all (\<lambda>u. case u of
     VDict d \<Rightarrow> ehas d ''key'' \<and> ehas d ''value'' \<and> is_nonempty_str (eget d ''key'') | _ \<Rightarrow> False) us"
  by (induction us) (auto simp: accepted_def split: pyval.splits)

text \<open>The faults that describe the shape of a payload rather than the parameter it names.\<close>

definition shape_fault :: "petition_fault \<Rightarrow> bool" where
  "shape_fault f \<longleftrightarrow> f \<in> {PayloadNotObject, UnknownPayloadType, KeyNotString, MissingKeyOrValue,
     EmptyUpdates, BadUpdateEntry, FeatureMissing}"

definition semantic_error :: "pyexc \<Rightarrow> bool" where
  "semantic_error e \<longleftrightarrow> (case e of InvalidPetition f \<Rightarrow> \<not> shape_fault f | _ \<Rightarrow> False)"

lemma semantic_error_simps [simp]:
  "semantic_error (InvalidPetition f) \<longleftrightarrow> \<not> shape_fault f" "\<not> shape_fault (DuplicateKey k)"
  "\<not> shape_fault (KeyImmutable k)" "\<not> shape_fault (KeyUnknown k)" "\<not> shape_fault (FeatureNotBoolean k)"
  by (simp_all add: semantic_error_def shape_fault_def)

lemma py_lt_raises: "py_lt a b \<noteq> Inl (InvalidPetition f)"
  by (auto simp: py_lt_def split: option.splits pyval.splits)

lemma value_fault:
  "validate_petition_value k v = Inl (InvalidPetition f) \<Longrightarrow> \<not> shape_fault f"
  by (auto simp: validate_petition_value_def validate_entry_def check_min_def check_max_def check_enum_def
      shape_fault_def res_simps py_lt_raises split: option.splits if_splits)

lemma value_error_semantic: "validate_petition_value k v = Inl e \<Longrightarrow> semantic_error e"
  using validate_petition_value_raises [of k v e] value_fault [of k v]
  by (cases e) (simp_all add: invalid_petition_def)

lemma key_error_semantic: "check_key_writeable (VStr s) = Inl e \<Longrightarrow> s \<noteq> [] \<Longrightarrow> semantic_error e"
  by (auto simp: check_key_writeable_def split: if_splits)

lemma update_param_semantic:
  "apply_update_param pp cfg = Inl e \<Longrightarrow> check_petition_shape ''UPDATE_PARAM'' pp = (True, why) \<Longrightarrow> semantic_error e"
  by (auto simp: apply_update_param_def check_petition_shape_def ehas_def eget_def res_simps
      dest!: nonempty_str_strip dest: value_error_semantic key_error_semantic split: if_splits option.splits)

lemma batch_entry_semantic:
  assumes "batch_entry u st = Inl e" and "fst (check_updates [u])"
  shows "semantic_error e"
proof -
  obtain cand seen changed where st: "st = (cand, seen, changed)" by (cases st)
  from assms(2) obtain d v s where u: "u = VDict d" "map_of d ''key'' = Some (VStr s)" "map_of d ''value'' = Some v"
    "s \<noteq> []" unfolding check_updates_accepts
    by (auto simp: ehas_def eget_def dest!: nonempty_str_strip split: pyval.splits)
  show ?thesis using assms(1)
    by (auto simp: batch_entry_def u st hashable_def res_simps split: if_splits
        intro: value_error_semantic key_error_semantic [OF _ u(4)])
qed

lemma batch_semantic:
  "foldR batch_entry us st = Inl e \<Longrightarrow> fst (check_updates us) \<Longrightarrow> semantic_error e"
  by (induction us arbitrary: st)
    (auto simp: res_simps check_updates_accepts simp del: check_updates.simps split: prod.splits
      intro: batch_entry_semantic)

lemma toggle_semantic:
  "apply_feature_toggle pp cfg b = Inl e \<Longrightarrow> is_nonempty_str (eget pp ''feature'') \<Longrightarrow> semantic_error e"
  by (auto simp: apply_feature_toggle_def res_simps dest!: nonempty_str_strip
      intro: key_error_semantic split: if_splits option.splits)

lemma invariant_error_semantic:
  "validate_cross_field_invariants cfg = Inl (InvalidPetition f) \<Longrightarrow> \<not> shape_fault f"
  unfolding validate_cross_field_invariants_def
  by (auto simp: shape_fault_def check_invariant_def py_lt_def res_simps dest!: foldR_raises
      split: option.splits if_splits pyval.splits)

lemma wellformed_petition_errors:
  assumes t: "eget pp ''type'' = VStr t" "t \<in> set VALID_PETITION_PAYLOAD_TYPES"
    and shape: "check_petition_shape t pp = (True, why)"
    and ok: "config_ok cfg" and err: "apply_petition_payload (VDict pp) cfg = Inl e"
  shows "semantic_error e"
proof -
  have allowed: "t \<in> set ALLOWED_PAYLOAD_TYPES"
    using t(2) by (simp add: VALID_PETITION_PAYLOAD_TYPES_def ALLOWED_PAYLOAD_TYPES_def)
  then have "check_payload_shape (VDict pp) = Inr t" by (simp add: check_payload_shape_def t(1) hashable_def)
  with err consider "dispatch_payload t pp cfg = Inl e"
    | c ks where "dispatch_payload t pp cfg = Inr (c, ks)" "validate_cross_field_invariants c = Inl e"
    by (auto simp: apply_petition_payload_def res_simps split: prod.splits)
  then show ?thesis
  proof cases
    case 1
    from t(2) consider "t = ''UPDATE_PARAM''" | "t = ''BATCH_UPDATE_PARAMS''" | "t = ''ENABLE_FEATURE'' \<or> t = ''DISABLE_FEATURE''"
      by (auto simp: VALID_PETITION_PAYLOAD_TYPES_def)
    then show ?thesis
    proof cases
      case 1
      then show ?thesis using \<open>dispatch_payload t pp cfg = Inl e\<close> shape update_param_semantic
        by (simp add: dispatch_payload_def)
    next
      case 2
      then obtain us where "eget pp ''updates'' = VList us" "us \<noteq> []" "check_updates us = (True, why)"
        using shape by (auto simp: check_petition_shape_def split: pyval.splits if_splits)
      then show ?thesis using \<open>dispatch_payload t pp cfg = Inl e\<close> 2 batch_semantic [of us "(cfg, [], [])" e]
        by (auto simp: dispatch_payload_def apply_batch_update_def res_simps split: prod.splits)
    next
      case 3
      then have "is_nonempty_str (eget pp ''feature'')"
        using shape by (auto simp: check_petition_shape_def split: if_splits)
      then show ?thesis using \<open>dispatch_payload t pp cfg = Inl e\<close> 3 toggle_semantic
        by (auto simp: dispatch_payload_def)
    qed
  next
    case 2
    from 2(1) obtain us where us: "admissible_updates us" "c = apply_updates cfg us"
      using dispatch_payload_iff [OF t(1) allowed] by blast
    from 2(2) obtain i where "i \<in> set CROSS_FIELD_INVARIANTS" "check_invariant c i = Inl e"
      unfolding validate_cross_field_invariants_def by (blast dest: foldR_raises)
    then have "invalid_petition e"
      by (rule check_invariant_raises) (use updated_values_valid ok us in blast)
    then show ?thesis using invariant_error_semantic 2
      by (cases e) (auto simp: invalid_petition_def)
  qed
qed

subsection \<open>Properties\<close>

text \<open>
  The registry is complete and exact: every declared event type has a registered validator,
  nothing else is registered, and no type is registered twice, so the dispatch never falls through
  to its "no validator" branch.
\<close>

theorem registry_complete:
  "assert_registry_complete = Inr () \<and> map fst SCHEMA_REGISTRY = INFONET_ECONOMY_EVENT_TYPES \<and>
   distinct INFONET_ECONOMY_EVENT_TYPES"
proof -
  have keys: "map fst SCHEMA_REGISTRY = INFONET_ECONOMY_EVENT_TYPES"
    by (simp add: SCHEMA_REGISTRY_def INFONET_ECONOMY_EVENT_TYPES_def)
  have "distinct (map key_hash INFONET_ECONOMY_EVENT_TYPES)" by code_simp
  then have "distinct INFONET_ECONOMY_EVENT_TYPES"
    using distinct_map [of key_hash INFONET_ECONOMY_EVENT_TYPES] by blast
  moreover have "dict_has SCHEMA_REGISTRY t \<longleftrightarrow> t \<in> set INFONET_ECONOMY_EVENT_TYPES" for t
    by (simp only: dict_has_def dict_get_None_iff keys not_not)
  then have "filter (\<lambda>t. \<not> dict_has SCHEMA_REGISTRY t) INFONET_ECONOMY_EVENT_TYPES = []"
    by (simp only: filter_empty_conv not_not) blast
  then have "assert_registry_complete = Inr ()"
    by (simp only: assert_registry_complete_def if_True simp_thms)
  ultimately show ?thesis using keys by blast
qed

text \<open>
  An accepted payload is an object that has every required field of the schema registered for
  its event type, whichever of the 49 types it is.
\<close>

theorem accepted_payload_has_fields:
  assumes "validate_infonet_event_payload t p = Inr (True, why)"
  shows "\<exists>s d. get_infonet_schema t = Some s \<and> p = VDict d \<and> (\<forall>k \<in> set (required_fields s). ehas d k)"
proof -
  from assms obtain s where s: "get_infonet_schema t = Some s" "validate_payload s p = Inr (True, why)"
    by (auto simp: validate_infonet_event_payload_def split: if_splits option.splits)
  from registry_demands_fields have "\<forall>e \<in> set SCHEMA_REGISTRY. demands_fields (snd e)" by (simp only: list_all_iff)
  from bspec [OF this registered [OF s(1)]] have "demands_fields s" by simp
  then have "shaped p (required_fields s)" using s(2) unfolding demands_fields_def by blast
  then show ?thesis using s(1) by (cases p) (simp_all add: shaped_def list_all_iff)
qed

theorem accepted_payload_has_fields_witness:
  "\<exists>s. get_infonet_schema ''gate_lock'' = Some s \<and>
     (\<forall>k \<in> set (required_fields s). ehas [(''gate_id'', VStr ''g''), (''lock_cost'', VInt 10)] k)"
proof -
  have "validate_infonet_event_payload ''gate_lock'' (VDict [(''gate_id'', VStr ''g''), (''lock_cost'', VInt 10)])
      = Inr (True, ''ok'')" by code_simp
  from accepted_payload_has_fields [OF this] show ?thesis by auto
qed

text \<open>
  Exactly two inputs make the validation raise instead of returning a verdict: a petition whose
  payload has a list or an object as its type, and an upgrade challenge whose payload is not an
  object.
\<close>

theorem validation_raises_iff:
  "validate_infonet_event_payload t p = Inl e \<longleftrightarrow>
     t = ''upgrade_challenge'' \<and> e = AttributeError \<and> (\<nexists>d. p = VDict d) \<or>
     t = ''petition_file'' \<and> e = TypeError \<and>
       (\<exists>d pp. p = VDict d \<and> is_nonempty_str (eget d ''petition_id'') \<and> eget d ''petition_payload'' = VDict pp \<and>
          ehas pp ''type'' \<and> \<not> hashable (eget pp ''type''))"
proof -
  have challenge: "validate_upgrade_challenge p = Inl e \<longleftrightarrow> e = AttributeError \<and> (\<nexists>d. p = VDict d)"
    by (cases p) (auto simp: validate_upgrade_challenge_def)
  have petition: "validate_petition_file p = Inl e \<longleftrightarrow> e = TypeError \<and>
      (\<exists>d pp. p = VDict d \<and> is_nonempty_str (eget d ''petition_id'') \<and> eget d ''petition_payload'' = VDict pp \<and>
         ehas pp ''type'' \<and> \<not> hashable (eget pp ''type''))"
    unfolding petition_file_raises by (auto simp: guarded_accepts not_empty_def has_nonempty_str has_dict)
  have "validate_infonet_event_payload ''upgrade_challenge'' p = validate_upgrade_challenge p"
    "validate_infonet_event_payload ''petition_file'' p = validate_petition_file p"
    by (simp_all add: validate_infonet_event_payload_def get_infonet_schema_def dict_get_def SCHEMA_REGISTRY_def
        reg_def INFONET_ECONOMY_EVENT_TYPES_def)
  moreover have "t = ''petition_file'' \<and> validate_petition_file p = Inl e \<or>
      t = ''upgrade_challenge'' \<and> validate_upgrade_challenge p = Inl e"
    if "validate_infonet_event_payload t p = Inl e"
  proof -
    from that obtain s where "get_infonet_schema t = Some s" "validate_payload s p = Inl e"
      by (auto simp: validate_infonet_event_payload_def split: if_splits option.splits)
    moreover from registry_raises have "\<forall>e \<in> set SCHEMA_REGISTRY. \<forall>p x. validate_payload (snd e) p = Inl x \<longrightarrow>
        fst e = ''petition_file'' \<and> validate_petition_file p = Inl x \<or>
        fst e = ''upgrade_challenge'' \<and> validate_upgrade_challenge p = Inl x" by (simp only: list_all_iff)
    ultimately show ?thesis using registered [of t s] by fastforce
  qed
  ultimately show ?thesis using challenge petition by auto
qed

text \<open>
  C40: The schema and the executor fit together. A \<open>petition_file\<close> event the schema accepts carries a
  payload the executor never rejects for its shape: it is applied, giving again a valid
  configuration, or refused for what it asks (an unknown or immutable key, a value outside the
  schema, a repeated key, a broken cross-field invariant).
\<close>

theorem accepted_petition_is_executable:
  assumes "validate_infonet_event_payload ''petition_file'' (VDict d) = Inr (True, why)" and "config_ok cfg"
  shows "case apply_petition_payload (eget d ''petition_payload'') cfg of
      Inr r \<Rightarrow> config_ok (new_config r) | Inl e \<Rightarrow> semantic_error e"
proof -
  have "validate_petition_file (VDict d) = Inr (True, why)"
    using assms(1) by (simp add: validate_infonet_event_payload_def get_infonet_schema_def dict_get_def
        SCHEMA_REGISTRY_def reg_def INFONET_ECONOMY_EVENT_TYPES_def)
  from petition_file_payload [OF this] obtain pp t where pp: "eget d ''petition_payload'' = VDict pp"
    and t: "eget pp ''type'' = VStr t" "t \<in> set VALID_PETITION_PAYLOAD_TYPES" "check_petition_shape t pp = (True, why)"
    by blast
  show ?thesis
  proof (cases "apply_petition_payload (VDict pp) cfg")
    case (Inl e)
    then show ?thesis using wellformed_petition_errors [OF t assms(2)] pp by simp
  next
    case (Inr r)
    then have "config_step cfg (new_config r)" by (auto simp: config_step_def)
    then show ?thesis using config_ok_step assms(2) Inr pp by simp
  qed
qed

definition filed_petition :: event where
  "filed_petition = [(''petition_id'', VStr ''p''),
     (''petition_payload'', update_payload ''vote_decay_days'' (VInt 0))]"

theorem accepted_petition_is_executable_witness:
  "case apply_petition_payload (update_payload ''vote_decay_days'' (VInt 0)) BASELINE_CONFIG of
      Inr r \<Rightarrow> config_ok (new_config r) | Inl e \<Rightarrow> semantic_error e"
proof -
  have "validate_infonet_event_payload ''petition_file'' (VDict filed_petition) = Inr (True, ''ok'')" by code_simp
  from accepted_petition_is_executable [OF this config_ok_baseline] show ?thesis
    by (simp add: filed_petition_def eget_def)
qed

end
