(* ===== verification/Disputes.thy ===== *)
theory Disputes
  imports Settlement
begin

section \<open>Bounded-reversal disputes\<close>

text \<open>
  Models \<open>services/infonet/markets/dispute.py\<close>: the disputes of a market as the chain tells them,
  the outcome their stakes give, the effective outcome of the market after the resolved disputes,
  and the settlement of one dispute.
\<close>

subsection \<open>Views of a dispute\<close>

text \<open>A stake keeps the \<open>node_id\<close> it was signed with as a Python value.\<close>

record dispute_stake =
  ds_node :: pyval
  ds_amount :: pyfloat
  ds_rep :: string

record dispute_view =
  dispute_key :: string
  dv_market :: string
  challenger_id :: string
  challenger_stake :: pyfloat
  opened_at :: pyfloat
  confirm_stakes :: "dispute_stake list"
  reverse_stakes :: "dispute_stake list"
  resolved_outcome :: "string option"
  resolved_at :: "pyfloat option"

definition is_resolved :: "dispute_view \<Rightarrow> bool" where
  "is_resolved d \<longleftrightarrow> resolved_outcome d \<noteq> None"

definition dispute_id :: "event \<Rightarrow> string" where
  "dispute_id e =
     (case nonempty_str (eget (payload e) ''dispute_id'') of
        Some did \<Rightarrow> did
      | None \<Rightarrow>
          (case nonempty_str (eget e ''event_id'') of
             Some eid \<Rightarrow> eid
           | None \<Rightarrow> ''dispute:'' @ py_str (py_or (eget (payload e) ''market_id'') (VStr [])) @ '':'' @
               py_str (get_or (map_of e ''node_id'') (VStr [])) @ '':'' @
               py_str (get_or (map_of e ''timestamp'') (VStr []))))"

subsection \<open>Collecting the disputes of a market\<close>

definition opens_dispute :: "string \<Rightarrow> event \<Rightarrow> bool" where
  "opens_dispute mid e \<longleftrightarrow> etype e ''dispute_open'' \<and> eget (payload e) ''market_id'' = VStr mid"

definition new_view :: "string \<Rightarrow> event \<Rightarrow> pyfloat \<Rightarrow> pyfloat \<Rightarrow> dispute_view" where
  "new_view mid e stake ts =
     \<lparr>dispute_key = dispute_id e, dv_market = mid,
      challenger_id = py_str (py_or (eget e ''node_id'') (VStr [])), challenger_stake = stake,
      opened_at = ts, confirm_stakes = [], reverse_stakes = [], resolved_outcome = None, resolved_at = None\<rparr>"

text \<open>The event id also becomes a dictionary key, so a list or an object there raises TypeError.\<close>

definition open_step ::
  "string \<Rightarrow> event \<Rightarrow> (string, dispute_view) dict \<Rightarrow> (string, dispute_view) dict res" where
  "open_step mid e d =
     (case (finite_float (eget (payload e) ''challenger_stake''), finite_float (eget e ''timestamp'')) of
        (Some stake, Some ts) \<Rightarrow>
          if hashable (py_or (eget e ''event_id'') (VStr [])) then Inr (dict_set d (dispute_id e) (new_view mid e stake ts))
          else Inl TypeError
      | _ \<Rightarrow> Inr d)"

definition stake_record :: "event \<Rightarrow> (bool \<times> dispute_stake) option" where
  "stake_record e =
     (let p = payload e; side = eget p ''side''; rep = eget p ''rep_type'' in
      if side \<noteq> VStr ''confirm'' \<and> side \<noteq> VStr ''reverse'' then None
      else if rep \<noteq> VStr ''oracle'' \<and> rep \<noteq> VStr ''common'' then None
      else case finite_float (eget p ''amount'') of
        None \<Rightarrow> None
      | Some a \<Rightarrow> if fle a (Fin 0) then None
                  else Some (side = VStr ''confirm'',
                    \<lparr>ds_node = py_or (eget e ''node_id'') (VStr []), ds_amount = a, ds_rep = py_str rep\<rparr>))"

definition add_stake :: "bool \<times> dispute_stake \<Rightarrow> dispute_view \<Rightarrow> dispute_view" where
  "add_stake cs v =
     (if fst cs then v\<lparr>confirm_stakes := confirm_stakes v @ [snd cs]\<rparr>
      else v\<lparr>reverse_stakes := reverse_stakes v @ [snd cs]\<rparr>)"

definition named_dispute :: "string \<Rightarrow> event \<Rightarrow> string option" where
  "named_dispute t e =
     (if \<not> etype e t then None
      else case eget (payload e) ''dispute_id'' of VStr did \<Rightarrow> Some did | _ \<Rightarrow> None)"

definition stake_step :: "event \<Rightarrow> (string, dispute_view) dict \<Rightarrow> (string, dispute_view) dict" where
  "stake_step e d =
     (case named_dispute ''dispute_stake'' e of
        None \<Rightarrow> d
      | Some did \<Rightarrow>
          (case (dict_get d did, stake_record e) of
             (Some v, Some cs) \<Rightarrow> dict_set d did (add_stake cs v)
           | _ \<Rightarrow> d))"

definition resolution_of :: "event \<Rightarrow> (string \<times> pyfloat) option" where
  "resolution_of e =
     (case (eget (payload e) ''outcome'', finite_float (eget e ''timestamp'')) of
        (VStr out, Some ts) \<Rightarrow> if out \<in> {''upheld'', ''reversed'', ''tie''} then Some (out, ts) else None
      | _ \<Rightarrow> None)"

definition resolve_step :: "event \<Rightarrow> (string, dispute_view) dict \<Rightarrow> (string, dispute_view) dict" where
  "resolve_step e d =
     (case named_dispute ''dispute_resolve'' e of
        None \<Rightarrow> d
      | Some did \<Rightarrow>
          (case (dict_get d did, resolution_of e) of
             (Some v, Some (out, ts)) \<Rightarrow> dict_set d did (v\<lparr>resolved_outcome := Some out, resolved_at := Some ts\<rparr>)
           | _ \<Rightarrow> d))"

definition collect_disputes :: "string \<Rightarrow> chain \<Rightarrow> dispute_view list res" where
  "collect_disputes mid c =
     (let es = dict_events c in
      rbind (foldR (open_step mid) (filter (opens_dispute mid) es) []) (\<lambda>opened.
      let resolved = fold resolve_step es (fold stake_step es opened)
      in Inr (sort_key (\<lambda>d. (opened_at d, dispute_key d)) (map snd resolved))))"

subsection \<open>Outcomes\<close>

definition oracle_sum :: "dispute_stake list \<Rightarrow> pyfloat" where
  "oracle_sum ss = fsum (map ds_amount (filter (\<lambda>s. ds_rep s = ''oracle'') ss))"

definition compute_dispute_outcome :: "dispute_view \<Rightarrow> string" where
  "compute_dispute_outcome d =
     (let confirm = oracle_sum (confirm_stakes d); reverse = oracle_sum (reverse_stakes d) in
      if flt reverse confirm then ''upheld''
      else if flt confirm reverse then ''reversed''
      else ''tie'')"

definition reversed_view :: "dispute_view \<Rightarrow> bool" where
  "reversed_view d \<longleftrightarrow> resolved_outcome d = Some ''reversed''"

definition market_was_reversed :: "string \<Rightarrow> chain \<Rightarrow> bool res" where
  "market_was_reversed mid c = rbind (collect_disputes mid c) (\<lambda>ds. Inr (list_ex reversed_view ds))"

definition flip_outcome :: "string \<Rightarrow> string" where
  "flip_outcome out = (if out = ''yes'' then ''no'' else if out = ''no'' then ''yes'' else out)"

definition effective_outcome :: "string \<Rightarrow> string \<Rightarrow> chain \<Rightarrow> string res" where
  "effective_outcome original mid c =
     (if original \<notin> {''yes'', ''no''} then Inr original
      else rbind (collect_disputes mid c) (\<lambda>ds.
        Inr (fold (\<lambda>d cur. if reversed_view d then flip_outcome cur else cur) ds original)))"

subsection \<open>Settlement of one dispute\<close>

text \<open>
  The payout dictionaries are keyed by \<open>(node_id, rep_type)\<close>. Python equates keys that compare
  equal, so numbers and booleans are one kind of key; lists and objects cannot be keys.
\<close>

datatype node_key = KStr string | KNum pyfloat | KNone

fun node_key_of :: "pyval \<Rightarrow> node_key res" where
  "node_key_of (VStr s) = Inr (KStr s)"
| "node_key_of VNone = Inr KNone"
| "node_key_of (VList _) = Inl TypeError"
| "node_key_of (VDict _) = Inl TypeError"
| "node_key_of v = (case num_of v of Some f \<Rightarrow> Inr (KNum f) | None \<Rightarrow> Inl TypeError)"

record settlement =
  st_returns :: "(node_key \<times> string, pyfloat) dict"
  st_winnings :: "(node_key \<times> string, pyfloat) dict"
  st_burned :: pyfloat

definition no_settlement :: settlement where
  "no_settlement = \<lparr>st_returns = [], st_winnings = [], st_burned = Fin 0\<rparr>"

definition return_stake :: "dispute_stake \<Rightarrow> settlement \<Rightarrow> settlement res" where
  "return_stake s st =
     rbind (node_key_of (ds_node s)) (\<lambda>k.
     Inr (st\<lparr>st_returns := ledger_add (st_returns st) (k, ds_rep s) (ds_amount s)\<rparr>))"

definition credit_share :: "pyfloat \<Rightarrow> pyfloat \<Rightarrow> dispute_stake \<Rightarrow> settlement \<Rightarrow> settlement res" where
  "credit_share pool distributable s st =
     rbind (fdiv (ds_amount s) pool) (\<lambda>share.
     rbind (node_key_of (ds_node s)) (\<lambda>k.
     Inr (st\<lparr>st_winnings := ledger_add (st_winnings st) (k, ds_rep s) (fmul share distributable)\<rparr>)))"

definition settle_rep ::
  "pyfloat \<Rightarrow> dispute_stake list \<Rightarrow> dispute_stake list \<Rightarrow> string \<Rightarrow> settlement \<Rightarrow> settlement res" where
  "settle_rep pct winners losers rep st =
     (let ws = filter (\<lambda>s. ds_rep s = rep) winners; ls = filter (\<lambda>s. ds_rep s = rep) losers;
          winner_pool = fsum (map ds_amount ws); loser_pool = fsum (map ds_amount ls) in
      rbind (foldR return_stake ws st) (\<lambda>st.
      if winner_pool = Fin 0 \<or> loser_pool = Fin 0 then Inr st
      else (let burn = fmul loser_pool pct
            in foldR (credit_share winner_pool (fsub loser_pool burn)) ws
                 (st\<lparr>st_burned := fadd (st_burned st) burn\<rparr>))))"

definition dispute_settlement_effects :: "config \<Rightarrow> dispute_view \<Rightarrow> settlement res" where
  "dispute_settlement_effects cfg d =
     (case resolved_outcome d of
        None \<Rightarrow> Inr no_settlement
      | Some out \<Rightarrow>
          if out = ''tie'' then foldR return_stake (confirm_stakes d @ reverse_stakes d) no_settlement
          else (let winners = (if out = ''upheld'' then confirm_stakes d else reverse_stakes d);
                    losers = (if out = ''upheld'' then reverse_stakes d else confirm_stakes d) in
            rbind (cfg_float cfg ''resolution_loser_burn_pct'') (\<lambda>pct.
            foldR (settle_rep pct winners losers) [''oracle'', ''common''] no_settlement)))"

subsection \<open>Flipping\<close>

lemma flip_flip [simp]: "flip_outcome (flip_outcome out) = out"
  by (simp add: flip_outcome_def)

lemma flip_neq: "out = ''yes'' \<or> out = ''no'' \<Longrightarrow> flip_outcome out \<noteq> out"
  by (auto simp: flip_outcome_def)

lemma fold_flips:
  "fold (\<lambda>d cur. if reversed_view d then flip_outcome cur else cur) ds out =
   (if even (length (filter reversed_view ds)) then out else flip_outcome out)"
  by (induction ds arbitrary: out) auto

subsection \<open>Which events a market's disputes depend on\<close>

text \<open>
  The identifiers a market's dispute events open, and the events that can change its disputes.
\<close>

definition opened_ids :: "string \<Rightarrow> event list \<Rightarrow> string set" where
  "opened_ids mid es = dispute_id ` {e \<in> set es. opens_dispute mid e}"

definition dispute_relevant :: "string \<Rightarrow> string set \<Rightarrow> event \<Rightarrow> bool" where
  "dispute_relevant mid ids e \<longleftrightarrow> opens_dispute mid e \<or>
     (\<exists>did \<in> ids. named_dispute ''dispute_stake'' e = Some did \<or> named_dispute ''dispute_resolve'' e = Some did)"

lemma dict_set_keys_mem: "dict_get d k = Some v \<Longrightarrow> fst ` set (dict_set d k w) = fst ` set d"
  using dict_keys_set [of d k w] dict_get_mem [of d k v] by (force simp: insert_absorb)

lemma dict_get_fresh: "k \<notin> fst ` set d \<Longrightarrow> dict_get d k = None"
  by (simp add: dict_get_None_iff)

lemma step_keys [simp]:
  "fst ` set (stake_step e d) = fst ` set d" "fst ` set (resolve_step e d) = fst ` set d"
  by (auto simp: stake_step_def resolve_step_def dict_set_keys_mem split: option.splits)

lemma open_step_keys: "open_step mid e d = Inr d' \<Longrightarrow> fst ` set d' \<subseteq> insert (dispute_id e) (fst ` set d)"
  using dict_keys_set [of d "dispute_id e"]
  by (auto simp: open_step_def split: option.splits if_splits)

lemma opened_keys:
  "foldR (open_step mid) es d = Inr d' \<Longrightarrow> fst ` set d' \<subseteq> fst ` set d \<union> dispute_id ` set es"
proof (induction es arbitrary: d)
  case Nil
  then show ?case by simp
next
  case (Cons e es)
  then obtain d1 where "open_step mid e d = Inr d1" and "foldR (open_step mid) es d1 = Inr d'"
    by (auto simp: res_simps)
  then have "fst ` set d1 \<subseteq> insert (dispute_id e) (fst ` set d)"
    and "fst ` set d' \<subseteq> fst ` set d1 \<union> dispute_id ` set es"
    using open_step_keys Cons.IH by blast+
  then show ?case unfolding list.set(2) image_insert by blast
qed

lemma stake_step_irrelevant:
  "named_dispute ''dispute_stake'' e = Some did \<Longrightarrow> did \<notin> fst ` set d \<Longrightarrow> stake_step e d = d"
  by (simp add: stake_step_def dict_get_fresh)

lemma resolve_step_irrelevant:
  "named_dispute ''dispute_resolve'' e = Some did \<Longrightarrow> did \<notin> fst ` set d \<Longrightarrow> resolve_step e d = d"
  by (simp add: resolve_step_def dict_get_fresh)

lemma fold_filter_noop:
  assumes "P d" and "\<And>x d. x \<in> set xs \<Longrightarrow> P d \<Longrightarrow> P (f x d)" and "\<And>x d. x \<in> set xs \<Longrightarrow> P d \<Longrightarrow> \<not> q x \<Longrightarrow> f x d = d"
  shows "fold f (filter q xs) d = fold f xs d"
  using assms by (induction xs arbitrary: d) auto

lemma steps_filter:
  assumes keys: "fst ` set d \<subseteq> ids"
  shows "fold stake_step (filter (dispute_relevant mid ids) es) d = fold stake_step es d"
    and "fold resolve_step (filter (dispute_relevant mid ids) es) d = fold resolve_step es d"
proof -
  have stake: "stake_step e d = d" if "fst ` set d \<subseteq> ids" "\<not> dispute_relevant mid ids e" for e d
  proof (cases "named_dispute ''dispute_stake'' e")
    case (Some did)
    with that have "did \<notin> fst ` set d" by (auto simp: dispute_relevant_def)
    with Some show ?thesis by (rule stake_step_irrelevant)
  qed (simp add: stake_step_def)
  have resolve: "resolve_step e d = d" if "fst ` set d \<subseteq> ids" "\<not> dispute_relevant mid ids e" for e d
  proof (cases "named_dispute ''dispute_resolve'' e")
    case (Some did)
    with that have "did \<notin> fst ` set d" by (auto simp: dispute_relevant_def)
    with Some show ?thesis by (rule resolve_step_irrelevant)
  qed (simp add: resolve_step_def)
  show "fold stake_step (filter (dispute_relevant mid ids) es) d = fold stake_step es d"
    by (rule fold_filter_noop [where P = "\<lambda>d. fst ` set d \<subseteq> ids"]) (use keys stake in auto)
  show "fold resolve_step (filter (dispute_relevant mid ids) es) d = fold resolve_step es d"
    by (rule fold_filter_noop [where P = "\<lambda>d. fst ` set d \<subseteq> ids"]) (use keys resolve in auto)
qed

lemma collect_disputes_local:
  assumes "dict_events c' = filter (dispute_relevant mid (opened_ids mid (dict_events c))) (dict_events c)"
  shows "collect_disputes mid c' = collect_disputes mid c"
proof -
  let ?es = "dict_events c" and ?r = "dispute_relevant mid (opened_ids mid (dict_events c))"
  have opens: "filter (opens_dispute mid) (filter ?r ?es) = filter (opens_dispute mid) ?es"
    by (auto simp: dispute_relevant_def intro: filter_cong)
  show ?thesis
  proof (cases "foldR (open_step mid) (filter (opens_dispute mid) ?es) []")
    case (Inl e)
    then show ?thesis by (simp add: collect_disputes_def Let_def assms opens del: filter_filter)
  next
    case (Inr d)
    have keys: "fst ` set d \<subseteq> opened_ids mid ?es"
      using opened_keys [OF Inr] by (simp add: opened_ids_def)
    have fold_keys: "fst ` set (fold stake_step es d) = fst ` set d" for es
      by (induction es arbitrary: d) simp_all
    from keys have "fold stake_step (filter ?r ?es) d = fold stake_step ?es d"
      by (rule steps_filter)
    moreover have "fold resolve_step (filter ?r ?es) (fold stake_step ?es d) =
        fold resolve_step ?es (fold stake_step ?es d)"
      by (rule steps_filter) (simp add: fold_keys keys)
    ultimately show ?thesis
      using Inr by (simp add: collect_disputes_def Let_def assms opens del: filter_filter)
  qed
qed

subsection \<open>Well-formed views\<close>

definition stake_ok :: "dispute_stake \<Rightarrow> bool" where
  "stake_ok s \<longleftrightarrow> (\<exists>q. ds_amount s = Fin q \<and> 0 < q) \<and> ds_rep s \<in> {''oracle'', ''common''}"

definition view_ok :: "dispute_view \<Rightarrow> bool" where
  "view_ok v \<longleftrightarrow> list_all stake_ok (confirm_stakes v @ reverse_stakes v) \<and>
     resolved_outcome v \<in> {None, Some ''upheld'', Some ''reversed'', Some ''tie''}"

definition views_ok :: "(string, dispute_view) dict \<Rightarrow> bool" where
  "views_ok d \<longleftrightarrow> (\<forall>(k, v) \<in> set d. view_ok v)"

lemma views_ok_set: "views_ok d \<Longrightarrow> view_ok v \<Longrightarrow> views_ok (dict_set d k v)"
  using dict_set_mem [of _ _ d k v] by (auto simp: views_ok_def)

lemma views_ok_get: "views_ok d \<Longrightarrow> dict_get d k = Some v \<Longrightarrow> view_ok v"
  using dict_get_mem [of d k v] by (auto simp: views_ok_def)

lemma stake_record_ok: "stake_record e = Some (b, s) \<Longrightarrow> stake_ok s"
  using finite_float_Fin [of "eget (payload e) ''amount''"]
  by (auto simp: stake_record_def stake_ok_def Let_def py_str_def split: if_splits option.splits)

lemma open_step_ok: "open_step mid e d = Inr d' \<Longrightarrow> views_ok d \<Longrightarrow> views_ok d'"
  by (auto simp: open_step_def new_view_def view_ok_def intro!: views_ok_set split: option.splits if_splits)

lemma view_ok_add: "view_ok v \<Longrightarrow> stake_ok (snd cs) \<Longrightarrow> view_ok (add_stake cs v)"
  by (simp add: view_ok_def add_stake_def)

lemma stake_step_ok: "views_ok d \<Longrightarrow> views_ok (stake_step e d)"
  by (auto simp: stake_step_def split: option.splits
      intro!: views_ok_set view_ok_add intro: views_ok_get stake_record_ok)

lemma view_ok_resolve:
  "view_ok v \<Longrightarrow> resolution_of e = Some (out, ts) \<Longrightarrow>
   view_ok (v\<lparr>resolved_outcome := Some out, resolved_at := Some ts\<rparr>)"
  by (auto simp: view_ok_def resolution_of_def split: pyval.splits option.splits if_splits)

lemma resolve_step_ok: "views_ok d \<Longrightarrow> views_ok (resolve_step e d)"
  by (auto simp: resolve_step_def split: option.splits
      intro!: views_ok_set view_ok_resolve intro: views_ok_get)

lemma fold_keeps: "P d \<Longrightarrow> (\<And>x d. P d \<Longrightarrow> P (f x d)) \<Longrightarrow> P (fold f xs d)"
  by (induction xs arbitrary: d) auto

lemma collected_ok:
  assumes "collect_disputes mid c = Inr ds" and "d \<in> set ds"
  shows "view_ok d"
proof -
  let ?es = "dict_events c"
  obtain opened where opened: "foldR (open_step mid) (filter (opens_dispute mid) ?es) [] = Inr opened"
    and ds: "d \<in> snd ` set (fold resolve_step ?es (fold stake_step ?es opened))"
    using assms by (auto simp: collect_disputes_def Let_def rbind_Inr_iff)
  have "views_ok opened"
    by (rule foldR_invariant [OF opened]) (simp add: views_ok_def, erule (1) open_step_ok [rotated])
  then have "views_ok (fold resolve_step ?es (fold stake_step ?es opened))"
    by (intro fold_keeps [where P = views_ok]) (auto intro: stake_step_ok resolve_step_ok)
  then show ?thesis using ds by (auto simp: views_ok_def)
qed

subsection \<open>The settlement in closed form\<close>

definition stake_key :: "dispute_stake \<Rightarrow> node_key \<times> string" where
  "stake_key s = (projr (node_key_of (ds_node s)), ds_rep s)"

definition stake_entry :: "dispute_stake \<Rightarrow> (node_key \<times> string) \<times> pyfloat" where
  "stake_entry s = (stake_key s, ds_amount s)"

definition rep_pool :: "string \<Rightarrow> dispute_stake list \<Rightarrow> pyfloat" where
  "rep_pool rep ss = fsum (map ds_amount (filter (\<lambda>s. ds_rep s = rep) ss))"

definition pool_share :: "pyfloat \<Rightarrow> pyfloat \<Rightarrow> dispute_stake \<Rightarrow> pyfloat" where
  "pool_share pool distributable s = fmul (projr (fdiv (ds_amount s) pool)) distributable"

lemma ledger_add_all_Cons: "ledger_add_all d ((k, v) # kvs) = ledger_add_all (ledger_add d k v) kvs"
  by (simp add: ledger_add_all_def)

lemma return_stakes:
  "foldR return_stake ss st = Inr st' \<Longrightarrow>
   st' = st\<lparr>st_returns := ledger_add_all (st_returns st) (map stake_entry ss)\<rparr>"
proof (induction ss arbitrary: st)
  case Nil
  then show ?case by simp
next
  case (Cons s ss)
  from Cons.prems obtain k where "node_key_of (ds_node s) = Inr k"
    "foldR return_stake ss (st\<lparr>st_returns := ledger_add (st_returns st) (k, ds_rep s) (ds_amount s)\<rparr>) = Inr st'"
    by (auto simp: return_stake_def [of s] res_simps)
  with Cons.IH [OF this(2)] show ?case by (simp add: stake_entry_def stake_key_def ledger_add_all_Cons)
qed

lemma credit_shares:
  "foldR (credit_share pool rest) ss st = Inr st' \<Longrightarrow>
   st' = st\<lparr>st_winnings := ledger_add_all (st_winnings st) (map (\<lambda>s. (stake_key s, pool_share pool rest s)) ss)\<rparr>"
proof (induction ss arbitrary: st)
  case Nil
  then show ?case by simp
next
  case (Cons s ss)
  from Cons.prems obtain share k where "fdiv (ds_amount s) pool = Inr share" "node_key_of (ds_node s) = Inr k"
    "foldR (credit_share pool rest) ss
       (st\<lparr>st_winnings := ledger_add (st_winnings st) (k, ds_rep s) (fmul share rest)\<rparr>) = Inr st'"
    by (auto simp: credit_share_def [of _ _ s] res_simps)
  with Cons.IH [OF this(3)] show ?case by (simp add: pool_share_def stake_key_def ledger_add_all_Cons)
qed

definition contested :: "string \<Rightarrow> dispute_stake list \<Rightarrow> dispute_stake list \<Rightarrow> bool" where
  "contested rep winners losers \<longleftrightarrow> rep_pool rep winners \<noteq> Fin 0 \<and> rep_pool rep losers \<noteq> Fin 0"

definition rep_burn :: "pyfloat \<Rightarrow> string \<Rightarrow> dispute_stake list \<Rightarrow> dispute_stake list \<Rightarrow> pyfloat" where
  "rep_burn pct rep winners losers =
     (if contested rep winners losers then fmul (rep_pool rep losers) pct else Fin 0)"

definition winning_entries ::
  "pyfloat \<Rightarrow> string \<Rightarrow> dispute_stake list \<Rightarrow> dispute_stake list \<Rightarrow> ((node_key \<times> string) \<times> pyfloat) list" where
  "winning_entries pct rep winners losers =
     (if contested rep winners losers
      then map (\<lambda>s. (stake_key s, pool_share (rep_pool rep winners)
                      (fsub (rep_pool rep losers) (fmul (rep_pool rep losers) pct)) s))
             (filter (\<lambda>s. ds_rep s = rep) winners)
      else [])"

lemma settle_rep_closed:
  assumes "settle_rep pct winners losers rep st = Inr st'" and "valid64 (st_burned st)"
  shows "st_returns st' = ledger_add_all (st_returns st) (map stake_entry (filter (\<lambda>s. ds_rep s = rep) winners))"
    and "st_winnings st' = ledger_add_all (st_winnings st) (winning_entries pct rep winners losers)"
    and "st_burned st' = fadd (st_burned st) (rep_burn pct rep winners losers)"
proof -
  let ?ws = "filter (\<lambda>s. ds_rep s = rep) winners"
  let ?burn = "fmul (rep_pool rep losers) pct"
  obtain st1 where given: "foldR return_stake ?ws st = Inr st1"
    and rest: "(if contested rep winners losers
      then foldR (credit_share (rep_pool rep winners) (fsub (rep_pool rep losers) ?burn)) ?ws
             (st1\<lparr>st_burned := fadd (st_burned st1) ?burn\<rparr>)
      else Inr st1) = Inr st'"
    using assms(1) by (auto simp: settle_rep_def Let_def rbind_Inr_iff contested_def rep_pool_def split: if_splits)
  note st1 = return_stakes [OF given]
  have "st_returns st' = st_returns st1 \<and>
    st_winnings st' = ledger_add_all (st_winnings st1) (winning_entries pct rep winners losers) \<and>
    st_burned st' = fadd (st_burned st1) (rep_burn pct rep winners losers)"
  proof (cases "contested rep winners losers")
    case True
    then show ?thesis using credit_shares [of _ _ ?ws] rest by (fastforce simp: winning_entries_def rep_burn_def)
  next
    case False
    then show ?thesis using rest assms(2) by (auto simp: winning_entries_def rep_burn_def st1)
  qed
  then show "st_returns st' = ledger_add_all (st_returns st) (map stake_entry (filter (\<lambda>s. ds_rep s = rep) winners))"
    and "st_winnings st' = ledger_add_all (st_winnings st) (winning_entries pct rep winners losers)"
    and "st_burned st' = fadd (st_burned st) (rep_burn pct rep winners losers)"
    by (simp_all add: st1)
qed

lemma settled_closed:
  assumes "dispute_settlement_effects cfg d = Inr st" and "resolved_outcome d = Some out" and "out \<noteq> ''tie''"
  defines "winners \<equiv> if out = ''upheld'' then confirm_stakes d else reverse_stakes d"
    and "losers \<equiv> if out = ''upheld'' then reverse_stakes d else confirm_stakes d"
  shows "\<exists>pct. cfg_float cfg ''resolution_loser_burn_pct'' = Inr pct \<and>
    st_returns st = ledger_add_all [] (map stake_entry
       (filter (\<lambda>s. ds_rep s = ''oracle'') winners @ filter (\<lambda>s. ds_rep s = ''common'') winners)) \<and>
    st_winnings st = ledger_add_all []
       (winning_entries pct ''oracle'' winners losers @ winning_entries pct ''common'' winners losers) \<and>
    st_burned st = fadd (rep_burn pct ''oracle'' winners losers) (rep_burn pct ''common'' winners losers)"
proof -
  obtain pct st1 where pct: "cfg_float cfg ''resolution_loser_burn_pct'' = Inr pct"
    and one: "settle_rep pct winners losers ''oracle'' no_settlement = Inr st1"
    and two: "settle_rep pct winners losers ''common'' st1 = Inr st"
    using assms(1-3) by (auto simp: dispute_settlement_effects_def Let_def res_simps winners_def losers_def)
  have valid: "valid64 (rep_burn pct rep winners losers)" for rep by (simp add: rep_burn_def)
  have start: "valid64 (st_burned no_settlement)" by (simp add: no_settlement_def)
  note first = settle_rep_closed [OF one start]
  have mid: "valid64 (st_burned st1)" by (simp add: first)
  note last = settle_rep_closed [OF two mid]
  show ?thesis using pct by (simp add: last first ledger_add_all_append no_settlement_def valid)
qed

lemma filter_rep_split:
  assumes "list_all stake_ok ss"
  shows "filter (\<lambda>s. stake_key s = (n, rep)) (filter (\<lambda>s. ds_rep s = ''oracle'') ss @ filter (\<lambda>s. ds_rep s = ''common'') ss) =
    filter (\<lambda>s. stake_key s = (n, rep)) ss"
proof (cases "rep = ''oracle'' \<or> rep = ''common''")
  case True
  then show ?thesis by (auto simp: stake_key_def filter_empty_conv intro!: filter_cong)
next
  case False
  then have "filter (\<lambda>s. stake_key s = (n, rep)) ss = []"
    using assms by (auto simp: stake_key_def filter_empty_conv list_all_iff stake_ok_def)
  then show ?thesis using False by (auto simp: stake_key_def filter_empty_conv)
qed

subsection \<open>Properties\<close>

text \<open>
  C35: Each reversed dispute flips the outcome once. The effective outcome of a decided market is the
  original one after an even number of reversed disputes and the opposite one after an odd number;
  the market counts as reversed as soon as there is one, so two reversals leave the outcome but keep
  the mark.
\<close>

theorem effective_outcome_parity:
  assumes "collect_disputes mid c = Inr ds" and "original = ''yes'' \<or> original = ''no''"
  shows "effective_outcome original mid c =
      Inr (if even (length (filter reversed_view ds)) then original else flip_outcome original) \<and>
    market_was_reversed mid c = Inr (filter reversed_view ds \<noteq> [])"
  using assms
  by (auto simp: effective_outcome_def market_was_reversed_def fold_flips list_ex_iff filter_empty_conv)

definition dispute_event :: "string \<Rightarrow> (string \<times> pyval) list \<Rightarrow> int \<Rightarrow> pyval" where
  "dispute_event t p ts = VDict [(''event_type'', VStr t), (''node_id'', VStr ''x''),
     (''timestamp'', VInt ts), (''payload'', VDict p)]"

definition twice_reversed :: chain where
  "twice_reversed =
     concat (map (\<lambda>did.
       [dispute_event ''dispute_open'' [(''market_id'', VStr ''m''), (''challenger_stake'', VInt 1),
          (''dispute_id'', VStr did)] 1,
        dispute_event ''dispute_resolve'' [(''dispute_id'', VStr did), (''outcome'', VStr ''reversed'')] 2])
       [''d1'', ''d2''])"

theorem effective_outcome_parity_witness:
  "effective_outcome ''yes'' ''m'' twice_reversed = Inr ''yes'' \<and>
   market_was_reversed ''m'' twice_reversed = Inr True"
proof -
  let ?d = "\<lambda>did. \<lparr>dispute_key = did, dv_market = ''m'', challenger_id = ''x'', challenger_stake = Fin 1,
      opened_at = Fin 1, confirm_stakes = [], reverse_stakes = [],
      resolved_outcome = Some ''reversed'', resolved_at = Some (Fin 2)\<rparr>"
  have "collect_disputes ''m'' twice_reversed = Inr [?d ''d1'', ?d ''d2'']" by code_simp
  from effective_outcome_parity [OF this, of "''yes''"] show ?thesis by (simp add: reversed_view_def)
qed

text \<open>
  Reversal is bounded. The disputes of a market, whether it counts as reversed and its effective
  outcome depend only on the events that open a dispute on this market and on the stakes and
  resolutions that name one of those disputes; every other event of the chain can be dropped.
\<close>

theorem reversal_bounded:
  "collect_disputes mid (map VDict (filter (dispute_relevant mid (opened_ids mid (dict_events c))) (dict_events c)))
     = collect_disputes mid c \<and>
   market_was_reversed mid (map VDict (filter (dispute_relevant mid (opened_ids mid (dict_events c))) (dict_events c)))
     = market_was_reversed mid c \<and>
   effective_outcome original mid (map VDict (filter (dispute_relevant mid (opened_ids mid (dict_events c))) (dict_events c)))
     = effective_outcome original mid c"
  by (simp add: collect_disputes_local market_was_reversed_def effective_outcome_def)

text \<open>
  C36: The settlement of a dispute of the chain. Nothing moves before it is resolved; a tie returns
  every stake; otherwise exactly the winning side gets its stakes back and, in each rep type where
  both sides staked, its shares of what is left of the losing pool after the burn, and only those
  burns are burned.
\<close>

theorem dispute_settlement_exact:
  assumes "collect_disputes mid c = Inr ds" and "d \<in> set ds" and "dispute_settlement_effects cfg d = Inr st"
  shows "case resolved_outcome d of
      None \<Rightarrow> st = no_settlement
    | Some out \<Rightarrow>
        if out = ''tie'' then
          (\<forall>k. ledger_get (st_returns st) k =
             fsum (map ds_amount (filter (\<lambda>s. stake_key s = k) (confirm_stakes d @ reverse_stakes d)))) \<and>
          st_winnings st = [] \<and> st_burned st = Fin 0
        else
          (let winners = (if out = ''upheld'' then confirm_stakes d else reverse_stakes d);
               losers = (if out = ''upheld'' then reverse_stakes d else confirm_stakes d) in
           (\<forall>k. ledger_get (st_returns st) k =
              fsum (map ds_amount (filter (\<lambda>s. stake_key s = k) winners))) \<and>
           (\<exists>pct. cfg_float cfg ''resolution_loser_burn_pct'' = Inr pct \<and>
              (\<forall>k. ledger_get (st_winnings st) k =
                 fsum (map snd (filter (\<lambda>kv. fst kv = k)
                   (winning_entries pct ''oracle'' winners losers @ winning_entries pct ''common'' winners losers)))) \<and>
              st_burned st = fadd (rep_burn pct ''oracle'' winners losers) (rep_burn pct ''common'' winners losers)))"
proof -
  have ok: "list_all stake_ok (confirm_stakes d)" "list_all stake_ok (reverse_stakes d)"
    using collected_ok [OF assms(1,2)] by (simp_all add: view_ok_def)
  have entries: "map snd (filter (\<lambda>kv. fst kv = k) (map stake_entry ss)) =
      map ds_amount (filter (\<lambda>s. stake_key s = k) ss)" for k ss
    by (induction ss) (auto simp: stake_entry_def)
  have side: "ledger_get (ledger_add_all [] (map stake_entry
       (filter (\<lambda>s. ds_rep s = ''oracle'') ss @ filter (\<lambda>s. ds_rep s = ''common'') ss))) k =
      fsum (map ds_amount (filter (\<lambda>s. stake_key s = k) ss))" if "list_all stake_ok ss" for ss k
    using filter_rep_split [OF that, of "fst k" "snd k"] unfolding ledger_sum entries by simp
  show ?thesis
  proof (cases "resolved_outcome d")
    case None
    then show ?thesis using assms(3) by (simp add: dispute_settlement_effects_def)
  next
    case (Some out)
    show ?thesis
    proof (cases "out = ''tie''")
      case True
      then have "st = no_settlement\<lparr>st_returns :=
          ledger_add_all [] (map stake_entry (confirm_stakes d @ reverse_stakes d))\<rparr>"
        using assms(3) Some return_stakes [of "confirm_stakes d @ reverse_stakes d" no_settlement st]
        by (simp add: dispute_settlement_effects_def no_settlement_def)
      then have "ledger_get (st_returns st) k =
          fsum (map ds_amount (filter (\<lambda>s. stake_key s = k) (confirm_stakes d @ reverse_stakes d)))" for k
        using ledger_sum [of "map stake_entry (confirm_stakes d @ reverse_stakes d)" k]
        unfolding entries by simp
      then show ?thesis using True Some \<open>st = _\<close> by (simp add: no_settlement_def)
    next
      case False
      from settled_closed [OF assms(3) Some False] show ?thesis
        using False Some side ok by (auto simp: Let_def ledger_sum simp del: filter_append map_append)
    qed
  qed
qed

definition settled_dispute :: chain where
  "settled_dispute =
     [dispute_event ''dispute_open'' [(''market_id'', VStr ''m''), (''challenger_stake'', VInt 1),
        (''dispute_id'', VStr ''d'')] 1,
      dispute_event ''dispute_stake'' [(''dispute_id'', VStr ''d''), (''side'', VStr ''confirm''),
        (''rep_type'', VStr ''oracle''), (''amount'', VInt 3)] 2,
      dispute_event ''dispute_stake'' [(''dispute_id'', VStr ''d''), (''side'', VStr ''reverse''),
        (''rep_type'', VStr ''oracle''), (''amount'', VInt 4)] 3,
      dispute_event ''dispute_resolve'' [(''dispute_id'', VStr ''d''), (''outcome'', VStr ''reversed'')] 4]"

theorem dispute_settlement_exact_witness:
  "\<exists>d st. dispute_settlement_effects [(''resolution_loser_burn_pct'', VFloat (Fin (1/4)))] d = Inr st \<and>
     resolved_outcome d = Some ''reversed'' \<and>
     ledger_get (st_returns st) (KStr ''x'', ''oracle'') = Fin 4 \<and>
     ledger_get (st_winnings st) (KStr ''x'', ''oracle'') = Fin (9/4) \<and> st_burned st = Fin (3/4)"
proof -
  let ?s = "\<lambda>a. \<lparr>ds_node = VStr ''x'', ds_amount = Fin a, ds_rep = ''oracle''\<rparr>"
  let ?d = "\<lparr>dispute_key = ''d'', dv_market = ''m'', challenger_id = ''x'', challenger_stake = Fin 1,
      opened_at = Fin 1, confirm_stakes = [?s 3], reverse_stakes = [?s 4],
      resolved_outcome = Some ''reversed'', resolved_at = Some (Fin 4)\<rparr>"
  let ?st = "\<lparr>st_returns = [((KStr ''x'', ''oracle''), Fin 4)],
      st_winnings = [((KStr ''x'', ''oracle''), Fin (9/4))], st_burned = Fin (3/4)\<rparr>"
  have ds: "collect_disputes ''m'' settled_dispute = Inr [?d]" by code_simp
  have st: "dispute_settlement_effects [(''resolution_loser_burn_pct'', VFloat (Fin (1/4)))] ?d = Inr ?st"
    by code_simp
  have "ledger_get (st_returns ?st) (KStr ''x'', ''oracle'') =
      fsum (map ds_amount (filter (\<lambda>s. stake_key s = (KStr ''x'', ''oracle'')) [?s 4]))"
    using dispute_settlement_exact [OF ds _ st] by (simp add: Let_def)
  also have "\<dots> = Fin 4" by code_simp
  finally show ?thesis using st
    by (intro exI [of _ ?d] exI [of _ ?st]) (simp add: ledger_get_def dict_get_def)
qed

end
