(* ===== verification/Oracle_Rep.thy ===== *)
theory Oracle_Rep
  imports Disputes
begin

section \<open>Oracle reputation\<close>

text \<open>
  Models \<open>services/infonet/reputation/oracle_rep.py\<close>, \<open>anti_gaming/farming.py\<close>,
  \<open>governance_decay.py\<close> and \<open>weekly_vote_budget.py\<close>: the markets as one pass over the chain sees
  them, which of them mint, what each prediction earns, the farming multiplier, the decayed
  governance weight and the vote budget.
\<close>

subsection \<open>anti\_gaming/farming.py\<close>

definition in_range :: "pyfloat \<Rightarrow> pyfloat \<Rightarrow> pyfloat \<Rightarrow> bool" where
  "in_range lo hi x \<longleftrightarrow> fle lo x \<and> fle x hi"

definition picked_side_probability :: "event \<Rightarrow> pyfloat option res" where
  "picked_side_probability p =
     (let side = eget p ''side''; prob = eget p ''probability_at_bet'' in
      if side \<noteq> VStr ''yes'' \<and> side \<noteq> VStr ''no'' then Inr None
      else if prob = VNone then Inr None
      else skipR (catch_tv (py_float prob)) None (\<lambda>p_yes.
        if \<not> in_range (Fin 0) (Fin 100) p_yes then Inr None
        else Inr (Some (if side = VStr ''yes'' then p_yes else fsub (Fin 100) p_yes))))"

text \<open>The counters \<open>total\<close> and \<open>easy\<close> of the loop.\<close>

definition farming_step :: "string \<Rightarrow> pyfloat \<Rightarrow> event \<Rightarrow> int \<times> int \<Rightarrow> (int \<times> int) res" where
  "farming_step node cutoff e st =
     (if \<not> etype e ''prediction_place'' \<or> eget e ''node_id'' \<noteq> VStr node then Inr st
      else skipR (picked_side_probability (payload e)) st (\<lambda>picked.
        Inr (fst st + 1, if flt cutoff picked then snd st + 1 else snd st)))"

definition compute_farming_pct :: "config \<Rightarrow> string \<Rightarrow> chain \<Rightarrow> pyfloat res" where
  "compute_farming_pct cfg node c =
     (if node = [] then Inr (Fin 0)
      else rbind (cfg_float cfg ''farming_easy_bet_cutoff'') (\<lambda>cut.
        rbind (foldR (farming_step node (fmul cut (Fin 100))) (dict_events c) (0, 0)) (\<lambda>(total, easy).
        if total = 0 then Inr (Fin 0) else int_div easy total)))"

definition farming_multiplier :: "config \<Rightarrow> pyfloat \<Rightarrow> pyfloat res" where
  "farming_multiplier cfg pct =
     rbind (cfg_float cfg ''farming_hard_threshold'') (\<lambda>hard.
     if flt hard pct then Inr (round64 (1/10))
     else rbind (cfg_float cfg ''farming_soft_threshold'') (\<lambda>soft.
       Inr (if flt soft pct then Fin (1/2) else Fin 1)))"

subsection \<open>The markets of the chain\<close>

record placed_prediction =
  pp_node :: pyval
  pp_side :: pyval
  pp_stake :: pyval
  pp_probability :: pyval
  pp_timestamp :: pyval

record market_view =
  mv_id :: string
  mv_type :: string
  mv_bootstrap_index :: "int option"
  mv_snapshot :: "event option"
  mv_finalize :: "event option"
  mv_finalize_ts :: pyfloat
  mv_predictions :: "placed_prediction list"

definition as_event_list :: "chain \<Rightarrow> event list res" where
  "as_event_list c = chain_sort (dict_events c)"

definition new_market :: "string \<Rightarrow> market_view" where
  "new_market mid =
     \<lparr>mv_id = mid, mv_type = ''objective'', mv_bootstrap_index = None, mv_snapshot = None,
      mv_finalize = None, mv_finalize_ts = Fin 0, mv_predictions = []\<rparr>"

definition prediction_of :: "event \<Rightarrow> placed_prediction" where
  "prediction_of e =
     \<lparr>pp_node = eget e ''node_id'', pp_side = eget (payload e) ''side'',
      pp_stake = eget (payload e) ''stake_amount'', pp_probability = eget (payload e) ''probability_at_bet'',
      pp_timestamp = eget e ''timestamp''\<rparr>"

definition create_market :: "event \<Rightarrow> market_view \<Rightarrow> market_view res" where
  "create_market e m =
     (let p = payload e; m' = m\<lparr>mv_type := py_str (py_or (eget p ''market_type'') (VStr ''objective''))\<rparr>;
          idx = eget p ''bootstrap_index'' in
      if idx = VNone then Inr m'
      else rbind (catch_tv (py_int idx)) (\<lambda>i. Inr (m'\<lparr>mv_bootstrap_index := i\<rparr>)))"

definition update_market :: "event \<Rightarrow> market_view \<Rightarrow> market_view res" where
  "update_market e m =
     (if etype e ''prediction_create'' then create_market e m
      else if etype e ''market_snapshot'' then Inr (m\<lparr>mv_snapshot := Some (payload e)\<rparr>)
      else if etype e ''resolution_finalize'' then
        rbind (event_ts e) (\<lambda>ts. Inr (m\<lparr>mv_finalize := Some (payload e), mv_finalize_ts := ts\<rparr>))
      else if etype e ''prediction_place'' then Inr (m\<lparr>mv_predictions := mv_predictions m @ [prediction_of e]\<rparr>)
      else Inr m)"

definition index_step :: "event \<Rightarrow> (string, market_view) dict \<Rightarrow> (string, market_view) dict res" where
  "index_step e d =
     (case nonempty_str (eget (payload e) ''market_id'') of
        None \<Rightarrow> Inr d
      | Some mid \<Rightarrow>
          rbind (update_market e (get_or (dict_get d mid) (new_market mid))) (\<lambda>m. Inr (dict_set d mid m)))"

definition index_markets :: "event list \<Rightarrow> (string, market_view) dict res" where
  "index_markets es = foldR index_step es []"

subsection \<open>Which markets mint\<close>

definition market_passes_liquidity :: "config \<Rightarrow> market_view \<Rightarrow> bool res" where
  "market_passes_liquidity cfg m =
     (let snap = get_or (mv_snapshot m) [] in
      skipR (catch_tv (rbind (py_int (py_or (eget snap ''frozen_participant_count'') (VInt 0))) (\<lambda>n.
              rbind (py_float (py_or (eget snap ''frozen_total_stake'') (VFloat (Fin 0)))) (\<lambda>t. Inr (n, t)))))
        False (\<lambda>(participants, total_stake).
      rbind (cfg_int cfg ''min_market_participants'') (\<lambda>least.
      if participants < least then Inr False
      else rbind (cfg_float cfg ''min_market_total_stake'') (\<lambda>floor. Inr (fle floor total_stake)))))"

definition final_side :: "market_view \<Rightarrow> string option" where
  "final_side m =
     (case mv_finalize m of
        None \<Rightarrow> None
      | Some f \<Rightarrow>
          if f = [] \<or> eget f ''is_provisional'' \<noteq> VBool False then None
          else (case eget f ''outcome'' of VStr out \<Rightarrow> if out = ''yes'' \<or> out = ''no'' then Some out else None
                | _ \<Rightarrow> None))"

definition market_is_mintable :: "config \<Rightarrow> market_view \<Rightarrow> bool res" where
  "market_is_mintable cfg m =
     (if final_side m = None \<or> mv_type m \<noteq> ''objective'' then Inr False
      else market_passes_liquidity cfg m)"

subsection \<open>What a prediction earns\<close>

definition free_pred_mint :: "config \<Rightarrow> pyval \<Rightarrow> pyfloat res" where
  "free_pred_mint cfg prob =
     (if prob = VNone then Inr (Fin 0)
      else skipR (catch_tv (py_float prob)) (Fin 0) (\<lambda>p.
        if \<not> in_range (Fin 0) (Fin 100) p then Inr (Fin 0)
        else rbind (cfg_float cfg ''oracle_min_earned'') (\<lambda>least.
          rbind (fdiv p (Fin 100)) (\<lambda>q. Inr (fmax2 least (fsub (Fin 1) q))))))"

definition other_side :: "string \<Rightarrow> string" where
  "other_side out = (if out = ''yes'' then ''no'' else ''yes'')"

text \<open>The pools count every stake that is not below or equal to zero, so a NaN stake is added.\<close>

definition pool_step :: "string \<Rightarrow> placed_prediction \<Rightarrow> pyfloat \<times> pyfloat \<Rightarrow> (pyfloat \<times> pyfloat) res" where
  "pool_step out p st =
     (if pp_stake p = VNone then Inr st
      else skipR (catch_tv (py_float (pp_stake p))) st (\<lambda>a.
        if fle a (Fin 0) then Inr st
        else if pp_side p = VStr out then Inr (fadd (fst st) a, snd st)
        else if pp_side p = VStr (other_side out) then Inr (fst st, fadd (snd st) a)
        else Inr st))"

definition staked_pred_settlement ::
  "pyval \<Rightarrow> pyval \<Rightarrow> string \<Rightarrow> placed_prediction list \<Rightarrow> pyfloat res" where
  "staked_pred_settlement stake side out ps =
     rbind (foldR (pool_step out) ps (Fin 0, Fin 0)) (\<lambda>(winner_pool, loser_pool).
     if side = VStr out then
       rbind (py_float stake) (\<lambda>a.
       if winner_pool = Fin 0 \<or> loser_pool = Fin 0 then Inr a
       else rbind (fdiv a winner_pool) (\<lambda>share. Inr (fadd a (fmul share loser_pool))))
     else if side = VStr (other_side out) then rbind (py_float stake) (\<lambda>a. Inr (fneg a))
     else Inr (Fin 0))"

record oracle_rep_breakdown =
  free_prediction_mints :: pyfloat
  staked_prediction_returns :: pyfloat
  staked_prediction_losses :: pyfloat
  rep_total :: pyfloat

text \<open>The three accumulators of the loop: free mints, staked returns, staked losses.\<close>

type_synonym mints = "pyfloat \<times> pyfloat \<times> pyfloat"

definition mint_prediction ::
  "config \<Rightarrow> string \<Rightarrow> pyfloat \<Rightarrow> string \<Rightarrow> placed_prediction list \<Rightarrow> placed_prediction \<Rightarrow> mints \<Rightarrow> mints res" where
  "mint_prediction cfg node boost out ps p st =
     (case st of (free, won, lost) \<Rightarrow>
        if pp_node p \<noteq> VStr node then Inr st
        else if pp_stake p = VNone then
          (if pp_side p = VStr out
           then rbind (free_pred_mint cfg (pp_probability p)) (\<lambda>m. Inr (fadd free (fmul m boost), won, lost))
           else Inr st)
        else rbind (staked_pred_settlement (pp_stake p) (pp_side p) out ps) (\<lambda>delta.
          if fle (Fin 0) delta then Inr (free, fadd won delta, lost)
          else Inr (free, won, fadd lost (fneg delta))))"

definition mint_market ::
  "config \<Rightarrow> string \<Rightarrow> pyfloat \<Rightarrow> event list \<Rightarrow> market_view \<Rightarrow> mints \<Rightarrow> mints res" where
  "mint_market cfg node boost es m st =
     rbind (market_is_mintable cfg m) (\<lambda>ok.
     if \<not> ok then Inr st
     else rbind (effective_outcome (get_or (final_side m) []) (mv_id m) (map VDict es)) (\<lambda>out.
       foldR (mint_prediction cfg node boost out (mv_predictions m)) (mv_predictions m) st))"

definition clamp_zero :: "pyfloat \<Rightarrow> pyfloat" where
  "clamp_zero x = (if flt x (Fin 0) then Fin 0 else x)"

definition compute_oracle_rep_breakdown :: "config \<Rightarrow> string \<Rightarrow> chain \<Rightarrow> oracle_rep_breakdown res" where
  "compute_oracle_rep_breakdown cfg node c =
     rbind (as_event_list c) (\<lambda>es.
     rbind (index_markets es) (\<lambda>markets.
     rbind (compute_farming_pct cfg node (map VDict es)) (\<lambda>pct.
     rbind (farming_multiplier cfg pct) (\<lambda>boost.
     rbind (foldR (mint_market cfg node boost es) (map snd markets) (Fin 0, Fin 0, Fin 0)) (\<lambda>(free, won, lost).
     Inr \<lparr>free_prediction_mints = free, staked_prediction_returns = won, staked_prediction_losses = lost,
          rep_total = clamp_zero (fsub (fadd free won) lost)\<rparr>)))))"

definition compute_oracle_rep :: "config \<Rightarrow> string \<Rightarrow> chain \<Rightarrow> pyfloat res" where
  "compute_oracle_rep cfg node c = rbind (compute_oracle_rep_breakdown cfg node c) (\<lambda>bd. Inr (rep_total bd))"

definition compute_oracle_rep_lifetime :: "config \<Rightarrow> string \<Rightarrow> chain \<Rightarrow> pyfloat res" where
  "compute_oracle_rep_lifetime cfg node c =
     rbind (compute_oracle_rep_breakdown cfg node c) (\<lambda>bd.
     Inr (fadd (free_prediction_mints bd) (staked_prediction_returns bd)))"

subsection \<open>The last success\<close>

definition later :: "pyfloat option \<Rightarrow> pyfloat \<Rightarrow> pyfloat option" where
  "later best ts = (case best of None \<Rightarrow> Some ts | Some b \<Rightarrow> if flt b ts then Some ts else Some b)"

definition success_step ::
  "string \<Rightarrow> string \<Rightarrow> pyfloat \<Rightarrow> placed_prediction \<Rightarrow> pyfloat option \<Rightarrow> pyfloat option res" where
  "success_step node out finalized p best =
     (if pp_node p \<noteq> VStr node \<or> pp_side p \<noteq> VStr out then Inr best
      else rbind (py_float (py_or (pp_timestamp p) (VFloat (Fin 0)))) (\<lambda>ts.
        Inr (later best (fmax2 ts finalized))))"

definition success_market ::
  "config \<Rightarrow> string \<Rightarrow> event list \<Rightarrow> market_view \<Rightarrow> pyfloat option \<Rightarrow> pyfloat option res" where
  "success_market cfg node es m best =
     rbind (market_is_mintable cfg m) (\<lambda>ok.
     if \<not> ok then Inr best
     else rbind (effective_outcome (get_or (final_side m) []) (mv_id m) (map VDict es)) (\<lambda>out.
       foldR (success_step node out (mv_finalize_ts m)) (mv_predictions m) best))"

definition last_successful_prediction_ts :: "config \<Rightarrow> string \<Rightarrow> chain \<Rightarrow> pyfloat option res" where
  "last_successful_prediction_ts cfg node c =
     rbind (as_event_list c) (\<lambda>es.
     rbind (index_markets es) (\<lambda>markets.
     foldR (success_market cfg node es) (map snd markets) None))"

subsection \<open>governance\_decay.py\<close>

text \<open>
  \<open>factor ** periods\<close> for a factor strictly between 0 and 1, taken as correctly rounded; a result
  outside the floats raises OverflowError.
\<close>

definition float_power :: "pyfloat \<Rightarrow> int \<Rightarrow> pyfloat res" where
  "float_power x n =
     (case x of Fin q \<Rightarrow> (case round64 (q powi n) of Fin r \<Rightarrow> Inr (Fin r) | _ \<Rightarrow> Inl OverflowError)
      | _ \<Rightarrow> Inr NaN)"

definition decay_factor_for_age :: "config \<Rightarrow> pyfloat option \<Rightarrow> pyfloat res" where
  "decay_factor_for_age cfg age =
     (case age of
        None \<Rightarrow> Inr (Fin 0)
      | Some days \<Rightarrow>
          rbind (cfg_float cfg ''governance_decay_days'') (\<lambda>decay_days.
          rbind (cfg_float cfg ''governance_decay_factor'') (\<lambda>factor.
          if \<not> (flt (Fin 0) factor \<and> flt factor (Fin 1)) then Inr (if fle days decay_days then Fin 1 else Fin 0)
          else if fle days decay_days then Inr (Fin 1)
          else rbind (fdiv days decay_days) (\<lambda>q. rbind (py_floor q) (\<lambda>periods.
            float_power factor periods)))))"

definition SECONDS_PER_DAY :: pyfloat where
  "SECONDS_PER_DAY = Fin 86400"

definition compute_oracle_rep_active :: "config \<Rightarrow> string \<Rightarrow> chain \<Rightarrow> pyfloat \<Rightarrow> pyfloat res" where
  "compute_oracle_rep_active cfg node c now =
     rbind (compute_oracle_rep cfg node c) (\<lambda>balance.
     if fle balance (Fin 0) then Inr (Fin 0)
     else rbind (last_successful_prediction_ts cfg node c) (\<lambda>last_ts.
       case last_ts of
         None \<Rightarrow> Inr (Fin 0)
       | Some ts \<Rightarrow>
           rbind (fdiv (fsub now ts) SECONDS_PER_DAY) (\<lambda>d.
           rbind (decay_factor_for_age cfg (Some (fmax2 (Fin 0) d))) (\<lambda>factor. Inr (fmul balance factor)))))"

subsection \<open>weekly\_vote\_budget.py\<close>

definition WEEK_S :: pyfloat where
  "WEEK_S = Fin 604800"

definition compute_weekly_vote_budget :: "config \<Rightarrow> string \<Rightarrow> chain \<Rightarrow> int res" where
  "compute_weekly_vote_budget cfg node c =
     rbind (cfg_int cfg ''weekly_vote_base'') (\<lambda>base.
     rbind (cfg_int cfg ''weekly_vote_per_oracle'') (\<lambda>per_oracle.
     if per_oracle \<le> 0 then Inr base
     else rbind (compute_oracle_rep cfg node c) (\<lambda>rep.
       rbind (int_to_float per_oracle) (\<lambda>d. rbind (fdiv rep d) (\<lambda>q. rbind (py_floor q) (\<lambda>n. Inr (base + n)))))))"

definition count_uprep :: "string \<Rightarrow> pyfloat \<Rightarrow> pyfloat \<Rightarrow> event \<Rightarrow> int \<Rightarrow> int res" where
  "count_uprep node cutoff now e n =
     (if \<not> etype e ''uprep'' \<or> eget e ''node_id'' \<noteq> VStr node then Inr n
      else skipR (catch_tv (event_ts e)) n (\<lambda>ts. Inr (if in_range cutoff now ts then n + 1 else n)))"

definition count_upreps_in_last_week :: "string \<Rightarrow> chain \<Rightarrow> pyfloat \<Rightarrow> int res" where
  "count_upreps_in_last_week node c now =
     foldR (count_uprep node (fsub now WEEK_S) now) (dict_events c) 0"

definition is_budget_exceeded :: "config \<Rightarrow> string \<Rightarrow> chain \<Rightarrow> pyfloat \<Rightarrow> bool res" where
  "is_budget_exceeded cfg node c now =
     rbind (count_upreps_in_last_week node c now) (\<lambda>n.
     rbind (compute_weekly_vote_budget cfg node c) (\<lambda>budget. Inr (budget < n)))"

end
