(* ===== verification/Common_Rep.thy ===== *)
theory Common_Rep
  imports Oracle_Rep
begin

section \<open>Common reputation and the anti-gaming multipliers\<close>

text \<open>
  Models \<open>services/infonet/reputation/common_rep.py\<close> and \<open>anti_gaming/\<close> (\<open>vcs.py\<close>,
  \<open>clustering.py\<close>, \<open>temporal.py\<close>, \<open>correlation_score.py\<close>, \<open>progressive_penalty.py\<close>). The base
  2 logarithm \<open>math.log2\<close> is the argument \<open>lg\<close>: the code applies it to numbers from 1 on.
\<close>

subsection \<open>anti\_gaming/vcs.py\<close>

definition decay_window_seconds :: "config \<Rightarrow> pyfloat option \<Rightarrow> pyfloat res" where
  "decay_window_seconds cfg days =
     (case days of
        Some d \<Rightarrow> Inr (fmul d SECONDS_PER_DAY)
      | None \<Rightarrow> rbind (cfg_float cfg ''vote_decay_days'') (\<lambda>d. Inr (fmul d SECONDS_PER_DAY)))"

definition keep_uprep :: "pyfloat \<Rightarrow> pyfloat \<Rightarrow> event \<Rightarrow> event list \<Rightarrow> event list res" where
  "keep_uprep cutoff now e kept =
     (if \<not> etype e ''uprep'' then Inr kept
      else skipR (catch_tv (event_ts e)) kept (\<lambda>ts. Inr (if in_range cutoff now ts then kept @ [e] else kept)))"

definition upreps_within_window :: "event list \<Rightarrow> pyfloat \<Rightarrow> pyfloat \<Rightarrow> event list res" where
  "upreps_within_window es now window_s = foldR (keep_uprep (fsub now window_s) now) es []"

text \<open>\<open>max\<close> of the timestamps: the first of the largest, compared with \<open>>\<close>.\<close>

definition latest_timestamp :: "event list \<Rightarrow> pyfloat res" where
  "latest_timestamp es = rbind (mapR event_ts es) (\<lambda>ts. Inr (fold (\<lambda>t best. fmax2 best t) (tl ts) (hd ts)))"

definition now_or_latest :: "pyfloat option \<Rightarrow> event list \<Rightarrow> pyfloat res" where
  "now_or_latest now es = (case now of Some t \<Rightarrow> Inr t | None \<Rightarrow> latest_timestamp es)"

text \<open>Author and target of an uprep between two different nodes.\<close>

definition uprep_edge :: "event \<Rightarrow> (string \<times> string) option" where
  "uprep_edge e =
     (case (eget e ''node_id'', eget (payload e) ''target_node_id'') of
        (VStr a, VStr t) \<Rightarrow> if a = t then None else Some (a, t)
      | _ \<Rightarrow> None)"

definition window_edges :: "config \<Rightarrow> event list \<Rightarrow> pyfloat option \<Rightarrow> pyfloat option \<Rightarrow> (string \<times> string) list res" where
  "window_edges cfg es now days =
     rbind (now_or_latest now es) (\<lambda>t.
     rbind (decay_window_seconds cfg days) (\<lambda>window_s.
     rbind (upreps_within_window es t window_s) (\<lambda>ups. Inr (List.map_filter uprep_edge ups))))"

definition vcs_overlap :: "string \<Rightarrow> string \<Rightarrow> (string \<times> string) list \<Rightarrow> (int \<times> int)" where
  "vcs_overlap upreper target edges =
     (let a_targets = remdups (map snd (filter (\<lambda>(a, t). a = upreper) edges));
          b_fans = remdups (map fst (filter (\<lambda>(a, t). t = target \<and> a \<noteq> upreper) edges))
      in (int (length (filter (\<lambda>n. n \<in> set b_fans) a_targets)), int (length b_fans)))"

definition compute_vcs ::
  "config \<Rightarrow> string \<Rightarrow> string \<Rightarrow> chain \<Rightarrow> pyfloat option \<Rightarrow> pyfloat option \<Rightarrow> pyfloat res" where
  "compute_vcs cfg upreper target c now days =
     (if upreper = [] \<or> target = [] then cfg_float cfg ''vcs_min_weight''
      else if upreper = target \<or> dict_events c = [] then Inr (Fin 1)
      else rbind (window_edges cfg (dict_events c) now days) (\<lambda>edges.
        rbind (cfg_float cfg ''vcs_min_weight'') (\<lambda>floor.
        let (common, fans) = vcs_overlap upreper target edges in
        if fans = 0 then Inr (Fin 1)
        else rbind (int_div common fans) (\<lambda>overlap. Inr (fmax2 floor (fsub (Fin 1) overlap))))))"

subsection \<open>anti\_gaming/clustering.py\<close>

fun pairs :: "'a list \<Rightarrow> ('a \<times> 'a) list" where
  "pairs [] = []"
| "pairs (x # xs) = map (Pair x) xs @ pairs xs"

definition voters_of :: "string \<Rightarrow> (string \<times> string) list \<Rightarrow> string list" where
  "voters_of target edges = sort (remdups (map fst (filter (\<lambda>(a, t). t = target) edges)))"

definition linked :: "(string \<times> string) list \<Rightarrow> string \<times> string \<Rightarrow> bool" where
  "linked edges vw = (vw \<in> set edges \<or> (snd vw, fst vw) \<in> set edges)"

definition compute_clustering_coefficient ::
  "config \<Rightarrow> string \<Rightarrow> chain \<Rightarrow> pyfloat option \<Rightarrow> pyfloat option \<Rightarrow> pyfloat res" where
  "compute_clustering_coefficient cfg target c now days =
     (if target = [] \<or> dict_events c = [] then Inr (Fin 0)
      else rbind (window_edges cfg (dict_events c) now days) (\<lambda>edges.
        let voters = voters_of target edges; n = int (length voters);
            actual = int (length (filter (linked edges) (pairs voters))) in
        if n < 2 then Inr (Fin 0)
        else rbind (int_div (n * (n - 1)) 2) (\<lambda>possible.
             rbind (int_to_float actual) (\<lambda>a. fdiv a possible))))"

definition clustering_penalty :: "config \<Rightarrow> pyfloat \<Rightarrow> pyfloat res" where
  "clustering_penalty cfg coefficient =
     rbind (cfg_float cfg ''clustering_min_weight'') (\<lambda>floor. Inr (fmax2 floor (fsub (Fin 1) coefficient)))"

subsection \<open>anti\_gaming/temporal.py\<close>

text \<open>The loop returns as soon as the threshold is reached, before it looks at the later events.\<close>

fun burst_loop :: "string \<Rightarrow> pyfloat \<Rightarrow> pyfloat \<Rightarrow> int \<Rightarrow> int \<Rightarrow> event list \<Rightarrow> bool res" where
  "burst_loop target lo hi threshold n [] = Inr False"
| "burst_loop target lo hi threshold n (e # es) =
     (if \<not> etype e ''uprep'' \<or> eget (payload e) ''target_node_id'' \<noteq> VStr target
      then burst_loop target lo hi threshold n es
      else rbind (catch_tv (event_ts e)) (\<lambda>r.
        case r of
          None \<Rightarrow> burst_loop target lo hi threshold n es
        | Some ts \<Rightarrow>
            if in_range lo hi ts
            then (if threshold \<le> n + 1 then Inr True else burst_loop target lo hi threshold (n + 1) es)
            else burst_loop target lo hi threshold n es))"

definition is_in_burst :: "config \<Rightarrow> string \<Rightarrow> pyfloat \<Rightarrow> chain \<Rightarrow> bool res" where
  "is_in_burst cfg target ts c =
     (if target = [] then Inr False
      else rbind (cfg_float cfg ''temporal_burst_window_sec'') (\<lambda>window_s.
        rbind (fdiv window_s (Fin 2)) (\<lambda>half.
        rbind (cfg_int cfg ''temporal_burst_min_upreps'') (\<lambda>threshold.
        burst_loop target (fsub ts half) (fadd ts half) threshold 0 (dict_events c)))))"

definition BURST_REDUCTION_FACTOR :: pyfloat where
  "BURST_REDUCTION_FACTOR = round64 (2/10)"

definition temporal_multiplier :: "bool \<Rightarrow> pyfloat" where
  "temporal_multiplier in_burst = (if in_burst then BURST_REDUCTION_FACTOR else Fin 1)"

subsection \<open>anti\_gaming/progressive\_penalty.py and correlation\_score.py\<close>

definition compute_rep_multiplier :: "(pyfloat \<Rightarrow> pyfloat) \<Rightarrow> pyfloat \<Rightarrow> pyfloat" where
  "compute_rep_multiplier lg rep = fadd (Fin 1) (lg (fmax2 (Fin 1) rep))"

definition apply_progressive_penalty :: "(pyfloat \<Rightarrow> pyfloat) \<Rightarrow> pyfloat \<Rightarrow> pyfloat \<Rightarrow> pyfloat" where
  "apply_progressive_penalty lg base rep = fmul base (compute_rep_multiplier lg rep)"

definition correlation_step ::
  "config \<Rightarrow> string \<Rightarrow> chain \<Rightarrow> pyfloat \<Rightarrow> event \<Rightarrow> pyfloat list \<Rightarrow> pyfloat list res" where
  "correlation_step cfg node c now e acc =
     (if \<not> etype e ''uprep'' \<or> eget (payload e) ''target_node_id'' \<noteq> VStr node then Inr acc
      else case nonempty_str (eget e ''node_id'') of
        None \<Rightarrow> Inr acc
      | Some upreper \<Rightarrow>
          if upreper = node then Inr acc
          else rbind (catch_tv (event_ts e)) (\<lambda>r.
            rbind (compute_vcs cfg upreper node c (Some (get_or r now)) None) (\<lambda>vcs.
            Inr (acc @ [fmax2 (Fin 0) (fmin2 (Fin 1) (fsub (Fin 1) vcs))]))))"

definition compute_node_correlation_score :: "config \<Rightarrow> string \<Rightarrow> chain \<Rightarrow> pyfloat option \<Rightarrow> pyfloat res" where
  "compute_node_correlation_score cfg node c now =
     (if dict_events c = [] then Inr (Fin 0)
      else rbind (now_or_latest now (dict_events c)) (\<lambda>t.
        rbind (foldR (correlation_step cfg node c t) (dict_events c) []) (\<lambda>cs.
        if cs = [] then Inr (Fin 0)
        else rbind (int_to_float (int (length cs))) (\<lambda>n. fdiv (fsum cs) n))))"

definition progressive_penalty_multiplier_for ::
  "config \<Rightarrow> (pyfloat \<Rightarrow> pyfloat) \<Rightarrow> string \<Rightarrow> chain \<Rightarrow> pyfloat \<Rightarrow> pyfloat option \<Rightarrow> pyfloat res" where
  "progressive_penalty_multiplier_for cfg lg node c rep now =
     rbind (cfg_float cfg ''progressive_penalty_threshold'') (\<lambda>threshold.
     if fle threshold (Fin 0) then Inr (Fin 1)
     else rbind (compute_node_correlation_score cfg node c now) (\<lambda>score.
       if fle score threshold then Inr (Fin 1)
       else Inr (fmax2 (Fin 0) (fsub (Fin 1) (apply_progressive_penalty lg (fsub score threshold) rep)))))"

subsection \<open>common\_rep.py\<close>

text \<open>
  Here the payload is read as \<open>ev.get("payload") or {}\<close>, so a payload that is a non-empty string,
  list or number raises AttributeError.
\<close>

definition payload_or_empty :: "event \<Rightarrow> event res" where
  "payload_or_empty e =
     (case eget e ''payload'' of
        VDict d \<Rightarrow> Inr d
      | v \<Rightarrow> if truthy v then Inl AttributeError else Inr [])"

definition uprep_weight :: "config \<Rightarrow> string \<Rightarrow> string \<Rightarrow> event \<Rightarrow> chain \<Rightarrow> pyfloat \<Rightarrow> pyfloat res" where
  "uprep_weight cfg upreper node e c base =
     rbind (catch_tv (event_ts e)) (\<lambda>r.
     let ts = get_or r (Fin 0) in
     rbind (compute_vcs cfg upreper node c (Some ts) None) (\<lambda>vcs.
     rbind (compute_clustering_coefficient cfg node c (Some ts) None) (\<lambda>coefficient.
     rbind (clustering_penalty cfg coefficient) (\<lambda>cluster_mult.
     rbind (is_in_burst cfg node ts c) (\<lambda>burst.
     Inr (fmul (fmul (fmul base vcs) cluster_mult) (temporal_multiplier burst)))))))"

definition counted_uprep :: "string \<Rightarrow> event \<Rightarrow> string option res" where
  "counted_uprep node e =
     (if \<not> etype e ''uprep'' then Inr None
      else rbind (payload_or_empty e) (\<lambda>p.
        Inr (if eget p ''target_node_id'' \<noteq> VStr node then None
             else case nonempty_str (eget e ''node_id'') of
               None \<Rightarrow> None | Some upreper \<Rightarrow> if upreper = node then None else Some upreper)))"

definition common_rep_step ::
  "config \<Rightarrow> string \<Rightarrow> chain \<Rightarrow> pyfloat \<Rightarrow> bool \<Rightarrow> event \<Rightarrow> pyfloat \<Rightarrow> pyfloat res" where
  "common_rep_step cfg node c factor anti e rep =
     skipR (counted_uprep node e) rep (\<lambda>upreper.
     rbind (compute_oracle_rep cfg upreper c) (\<lambda>orep.
     let base = fmul orep factor in
     if anti then rbind (uprep_weight cfg upreper node e c base) (\<lambda>w. Inr (fadd rep w))
     else Inr (fadd rep base)))"

definition compute_common_rep ::
  "config \<Rightarrow> (pyfloat \<Rightarrow> pyfloat) \<Rightarrow> string \<Rightarrow> chain \<Rightarrow> pyfloat option \<Rightarrow> bool \<Rightarrow> pyfloat res" where
  "compute_common_rep cfg lg node c weight_factor anti =
     rbind (case weight_factor of Some w \<Rightarrow> Inr w | None \<Rightarrow> cfg_float cfg ''common_rep_weight_factor'') (\<lambda>factor.
     rbind (foldR (common_rep_step cfg node c factor anti) (dict_events c) (Fin 0)) (\<lambda>rep.
     if anti \<and> flt (Fin 0) rep then
       rbind (compute_oracle_rep cfg node c) (\<lambda>target_rep.
       rbind (progressive_penalty_multiplier_for cfg lg node c target_rep None) (\<lambda>m. Inr (fmul rep m)))
     else Inr rep))"

subsection \<open>Bounds of the multipliers\<close>

text \<open>Floats from zero to one, and weights that only shrink what they multiply.\<close>

definition unit_float :: "pyfloat \<Rightarrow> bool" where
  "unit_float m \<longleftrightarrow> (\<exists>q. m = Fin q \<and> 0 \<le> q \<and> q \<le> 1 \<and> rep64 q)"

lemma unit_round: "0 \<le> x \<Longrightarrow> x \<le> 1 \<Longrightarrow> unit_float (round64 x)"
proof -
  assume x: "0 \<le> x" "x \<le> 1"
  then have "fle (Fin 0) (round64 x)" "fle (round64 x) (Fin 1)" "valid64 (round64 x)"
    by (simp_all add: round64_le)
  then show ?thesis by (cases "round64 x") (auto simp: unit_float_def)
qed

lemma int_div_fraction:
  assumes "int_div a b = Inr q" and "0 \<le> a" "a \<le> b" "0 < b"
  shows "unit_float q"
proof -
  have "q = round64 (of_int a / of_int b)" using assms by (auto simp: int_div_def split: pyfloat.splits)
  then show ?thesis using assms by (simp add: unit_round)
qed

lemma one_minus_unit: "unit_float m \<Longrightarrow> unit_float (fsub (Fin 1) m)"
  by (auto simp: unit_float_def [of m] fsub_def intro!: unit_round)

lemma fmax2_unit: "unit_float a \<Longrightarrow> unit_float b \<Longrightarrow> unit_float (fmax2 a b) \<and> fle a (fmax2 a b)"
  by (auto simp: unit_float_def fmax2_def)

lemma vcs_overlap_bounds:
  "vcs_overlap u t edges = (common, fans) \<Longrightarrow> 0 \<le> common \<and> common \<le> fans \<and> 0 \<le> fans"
proof -
  assume eq: "vcs_overlap u t edges = (common, fans)"
  let ?a = "remdups (map snd (filter (\<lambda>(a, t). a = u) edges))"
  let ?b = "remdups (map fst (filter (\<lambda>(a, s). s = t \<and> a \<noteq> u) edges))"
  have "length (filter (\<lambda>n. n \<in> set ?b) ?a) = card (set ?a \<inter> set ?b)"
    by (subst distinct_card [symmetric]) (auto intro: arg_cong [where f = card])
  also have "\<dots> \<le> card (set ?b)" by (intro card_mono) auto
  also have "\<dots> = length ?b" by (rule distinct_card) simp
  finally show ?thesis using eq by (auto simp: vcs_overlap_def Let_def)
qed

lemma compute_vcs_unit:
  assumes "compute_vcs cfg u t c now days = Inr v" and floor: "cfg_float cfg ''vcs_min_weight'' = Inr f" "unit_float f"
  shows "unit_float v \<and> fle f v"
proof -
  have one: "unit_float (Fin 1)" "fle f (Fin 1)" using floor(2) by (auto simp: unit_float_def)
  show ?thesis
  proof (cases "v = f \<or> v = Fin 1")
    case True
    then show ?thesis using one floor(2) by (auto simp: unit_float_def)
  next
    case False
    with assms obtain edges overlap where "snd (vcs_overlap u t edges) \<noteq> 0"
      "int_div (fst (vcs_overlap u t edges)) (snd (vcs_overlap u t edges)) = Inr overlap"
      and v: "v = fmax2 f (fsub (Fin 1) overlap)"
      by (auto simp: compute_vcs_def Let_def rbind_Inr_iff split_beta split: if_splits)
    moreover have "0 \<le> fst (vcs_overlap u t edges) \<and> fst (vcs_overlap u t edges) \<le> snd (vcs_overlap u t edges)"
      using vcs_overlap_bounds [of u t edges] by (cases "vcs_overlap u t edges") auto
    ultimately have "unit_float overlap" by (intro int_div_fraction) auto
    then show ?thesis using fmax2_unit [OF floor(2)] one_minus_unit v by simp
  qed
qed

lemma finite_result: "(case x of Fin q \<Rightarrow> Inr (Fin q) | _ \<Rightarrow> Inl e) = Inr y \<Longrightarrow> \<exists>q. y = Fin q"
  by (cases x) auto

lemma int_div_Fin: "int_div a b = Inr q \<Longrightarrow> \<exists>x. q = Fin x"
  and int_to_float_Fin: "int_to_float n = Inr q \<Longrightarrow> \<exists>x. q = Fin x"
  by (simp_all add: int_div_def int_to_float_def finite_result split: if_splits)

lemma length_pairs: "2 * int (length (pairs xs)) = int (length xs) * (int (length xs) - 1)"
  by (induction xs) (auto simp: algebra_simps)

lemma compute_clustering_unit:
  assumes "compute_clustering_coefficient cfg t c now days = Inr v"
  shows "unit_float v"
proof (cases "v = Fin 0")
  case True
  then show ?thesis by (simp add: unit_float_def)
next
  case False
  with assms obtain edges possible a where
    n: "\<not> int (length (voters_of t edges)) < 2"
    and p: "int_div (int (length (voters_of t edges)) * (int (length (voters_of t edges)) - 1)) 2 = Inr possible"
    and a: "int_to_float (int (length (filter (linked edges) (pairs (voters_of t edges))))) = Inr a"
    and v: "fdiv a possible = Inr v"
    by (auto simp: compute_clustering_coefficient_def Let_def rbind_Inr_iff split: if_splits)
  let ?vs = "voters_of t edges"
  let ?x = "int (length (filter (linked edges) (pairs ?vs)))" and ?y = "int (length (pairs ?vs))"
  have len: "?x \<le> ?y" by simp
  have "1 \<le> int (length (pairs vs))" if "\<not> int (length vs) < 2" for vs :: "string list"
    using that by (cases vs; cases "tl vs") auto
  then have "1 \<le> ?y" using n .
  have "rat_of_int (int (length ?vs) * (int (length ?vs) - 1)) / 2 = of_int ?y"
    by (simp flip: length_pairs)
  then have possible: "possible = round64 (of_int ?y)" using p by (auto simp: int_div_def split: pyfloat.splits)
  obtain q where q: "possible = Fin q" using int_div_Fin [OF p] by blast
  have "fle (Fin 1) possible" unfolding possible using \<open>1 \<le> ?y\<close> by (intro round64_ge) simp_all
  then have "1 \<le> q" using q by simp
  have ax: "a = round64 (of_int ?x)" using a by (auto simp: int_to_float_def split: pyfloat.splits)
  obtain b where b: "a = Fin b" using int_to_float_Fin [OF a] by blast
  have "fle (Fin 0) a" "fle a possible" using ax possible len round64_mono [of "of_int ?x" "of_int ?y"] by simp_all
  then have "0 \<le> b" "b \<le> q" using b q by simp_all
  then have "v = round64 (b / q)" "0 \<le> b / q" "b / q \<le> 1" using v b q \<open>1 \<le> q\<close> by auto
  then show ?thesis by (simp add: unit_round)
qed

lemma clustering_penalty_unit:
  "clustering_penalty cfg m = Inr p \<Longrightarrow> cfg_float cfg ''clustering_min_weight'' = Inr f \<Longrightarrow> unit_float f \<Longrightarrow>
   unit_float m \<Longrightarrow> unit_float p \<and> fle f p"
  using fmax2_unit one_minus_unit by (auto simp: clustering_penalty_def)

lemma temporal_unit: "unit_float (temporal_multiplier b) \<and> flt (Fin 0) (temporal_multiplier b)"
proof -
  have "flt (Fin 0) BURST_REDUCTION_FACTOR" by code_simp
  then show ?thesis
    by (auto simp: temporal_multiplier_def BURST_REDUCTION_FACTOR_def unit_round) (simp add: unit_float_def)
qed

end
