(* ===== verification/Reputation_Claims.thy ===== *)
theory Reputation_Claims
  imports Oracle_Rep Schema_Claims
begin

section \<open>Properties of oracle reputation\<close>

text \<open>
  Where oracle reputation comes from, and how the governance weight derived from it decays.
\<close>

subsection \<open>The predictions of the market views\<close>

lemma update_market_predictions:
  "update_market e m = Inr m' \<Longrightarrow> mv_predictions m' =
     mv_predictions m @ (if etype e ''prediction_place'' then [prediction_of e] else [])"
  by (auto simp: update_market_def create_market_def Let_def res_simps etype_def split: if_splits)

definition views_from :: "event set \<Rightarrow> (string, market_view) dict \<Rightarrow> bool" where
  "views_from es d \<longleftrightarrow> (\<forall>(k, m) \<in> set d. \<forall>p \<in> set (mv_predictions m).
     \<exists>e \<in> es. etype e ''prediction_place'' \<and> p = prediction_of e)"

lemma index_step_from:
  assumes "index_step e d = Inr d'" and "views_from es d" and "e \<in> es"
  shows "views_from es d'"
proof (cases "nonempty_str (eget (payload e) ''market_id'')")
  case None
  then show ?thesis using assms by (simp add: index_step_def)
next
  case (Some mid)
  let ?m = "get_or (dict_get d mid) (new_market mid)"
  from assms(1) Some obtain m where m: "update_market e ?m = Inr m" "d' = dict_set d mid m"
    by (auto simp: index_step_def res_simps)
  have old: "\<forall>p \<in> set (mv_predictions ?m). \<exists>e \<in> es. etype e ''prediction_place'' \<and> p = prediction_of e"
    using assms(2) dict_get_mem [of d mid]
    by (cases "dict_get d mid") (fastforce simp: new_market_def views_from_def)+
  show ?thesis unfolding views_from_def
  proof clarify
    fix k v p assume "(k, v) \<in> set d'" and p: "p \<in> set (mv_predictions v)"
    then consider "(k, v) \<in> set d" | "v = m" using dict_set_mem m(2) by fast
    then show "\<exists>e \<in> es. etype e ''prediction_place'' \<and> p = prediction_of e"
    proof cases
      case 1
      then show ?thesis using assms(2) p by (auto simp: views_from_def)
    next
      case 2
      then show ?thesis using p old assms(3) update_market_predictions [OF m(1)] by (auto split: if_splits)
    qed
  qed
qed

lemma index_markets_from: "index_markets es = Inr d \<Longrightarrow> views_from (set es) d"
  unfolding index_markets_def
  by (erule foldR_invariant [where P = "views_from (set es)"])
    (simp add: views_from_def, erule (2) index_step_from)

subsection \<open>Without a correct prediction nothing is earned\<close>

definition wins :: "string \<Rightarrow> string \<Rightarrow> placed_prediction \<Rightarrow> bool" where
  "wins node out p \<longleftrightarrow> pp_node p = VStr node \<and> pp_side p = VStr out"

definition fair_stake :: "placed_prediction \<Rightarrow> bool" where
  "fair_stake p \<longleftrightarrow> (\<forall>a. py_float (pp_stake p) = Inr a \<longrightarrow> fle (Fin 0) a)"

definition nothing_earned :: "mints \<Rightarrow> bool" where
  "nothing_earned st \<longleftrightarrow> (case st of (free, won, lost) \<Rightarrow>
     free = Fin 0 \<and> won = Fin 0 \<and> (lost = NaN \<or> fle (Fin 0) lost))"

lemma fneg_nonneg: "\<not> fle (Fin 0) d \<Longrightarrow> d = NaN \<or> fle (Fin 0) (fneg d)"
  by (cases d) auto

lemma lost_keeps: "lost = NaN \<or> fle (Fin 0) lost \<Longrightarrow> \<not> fle (Fin 0) d \<Longrightarrow>
    fadd lost (fneg d) = NaN \<or> fle (Fin 0) (fadd lost (fneg d))"
  using fneg_nonneg [of d] fadd_nonneg [of lost "fneg d"] by (cases lost; cases d) auto

lemma fneg_zero: "fle (Fin 0) a \<Longrightarrow> fle (Fin 0) (fneg a) \<Longrightarrow> fneg a = Fin 0"
  by (cases a) auto

lemma losing_settlement:
  assumes "staked_pred_settlement (pp_stake p) (pp_side p) out ps = Inr delta"
    and "pp_side p \<noteq> VStr out" and "fair_stake p" and "fle (Fin 0) delta"
  shows "delta = Fin 0"
proof -
  from assms(1,2) have "delta = Fin 0 \<or> (\<exists>a. py_float (pp_stake p) = Inr a \<and> delta = fneg a)"
    by (auto simp: staked_pred_settlement_def res_simps split: if_splits prod.splits)
  then show ?thesis using assms(3,4) fneg_zero by (auto simp: fair_stake_def)
qed

lemma mint_prediction_nothing:
  assumes step: "mint_prediction cfg node boost out ps p st = Inr st'" and st: "nothing_earned st"
    and p: "\<not> wins node out p" "fair_stake p"
  shows "nothing_earned st'"
proof -
  obtain free won lost where s: "st = (free, won, lost)" by (cases st)
  from st s have zero: "free = Fin 0" "won = Fin 0" "lost = NaN \<or> fle (Fin 0) lost"
    by (auto simp: nothing_earned_def)
  show ?thesis
  proof (cases "pp_node p = VStr node \<and> pp_stake p \<noteq> VNone")
    case False
    then have "st' = st" using step p by (auto simp: mint_prediction_def s wins_def split: if_splits)
    then show ?thesis using st by simp
  next
    case True
    then have side: "pp_side p \<noteq> VStr out" using p by (simp add: wins_def)
    from True step obtain delta where delta: "staked_pred_settlement (pp_stake p) (pp_side p) out ps = Inr delta"
      and st': "st' = (if fle (Fin 0) delta then (free, fadd won delta, lost) else (free, won, fadd lost (fneg delta)))"
      by (auto simp: mint_prediction_def s res_simps split: if_splits)
    show ?thesis
    proof (cases "fle (Fin 0) delta")
      case True
      then have "delta = Fin 0" by (rule losing_settlement [OF delta side p(2)])
      then show ?thesis using zero by (simp add: st' nothing_earned_def)
    next
      case False
      then show ?thesis using zero lost_keeps by (simp add: st' nothing_earned_def)
    qed
  qed
qed

lemma mint_market_nothing:
  assumes "mint_market cfg node boost es m st = Inr st'" and "nothing_earned st"
    and fair: "\<forall>p \<in> set (mv_predictions m). fair_stake p"
    and no: "\<And>out. market_is_mintable cfg m = Inr True \<Longrightarrow>
      effective_outcome (get_or (final_side m) []) (mv_id m) (map VDict es) = Inr out \<Longrightarrow>
      \<forall>p \<in> set (mv_predictions m). \<not> wins node out p"
  shows "nothing_earned st'"
proof -
  from assms(1) consider "st' = st" | out where "market_is_mintable cfg m = Inr True"
    "effective_outcome (get_or (final_side m) []) (mv_id m) (map VDict es) = Inr out"
    "foldR (mint_prediction cfg node boost out (mv_predictions m)) (mv_predictions m) st = Inr st'"
    by (auto simp: mint_market_def res_simps split: if_splits)
  then show ?thesis
  proof cases
    case 1
    then show ?thesis using assms(2) by simp
  next
    case 2
    show ?thesis
      by (rule foldR_invariant [OF 2(3), where P = nothing_earned])
        (use assms(2) mint_prediction_nothing no [OF 2(1,2)] fair in blast)+
  qed
qed

lemma round64_nonpos: "q \<le> 0 \<Longrightarrow> fle (round64 q) (Fin 0)"
  using round64_le [of 0 q] by simp

lemma clamp_nothing: "lost = NaN \<or> fle (Fin 0) lost \<Longrightarrow> \<not> flt (Fin 0) (clamp_zero (fsub (fadd (Fin 0) (Fin 0)) lost))"
proof (cases lost)
  case (Fin q)
  assume "lost = NaN \<or> fle (Fin 0) lost"
  then have "fle (round64 (- q)) (Fin 0)" using Fin round64_nonpos by simp
  then show ?thesis using flt_asym [of "Fin 0" "round64 (- q)"] Fin by (auto simp: clamp_zero_def fsub_def)
qed (auto simp: clamp_zero_def fsub_def)

subsection \<open>Where reputation comes from\<close>

definition predictions_valid :: "chain \<Rightarrow> bool" where
  "predictions_valid c \<longleftrightarrow> (\<forall>e \<in> set (dict_events c). etype e ''prediction_place'' \<longrightarrow>
     validate_infonet_event_payload ''prediction_place'' (eget e ''payload'') = Inr (True, ''ok''))"

lemma positive_py_float: "is_positive_number v \<Longrightarrow> py_float v = Inr a \<Longrightarrow> fle (Fin 0) a"
proof (cases v)
  case (VInt n)
  assume "is_positive_number v" "py_float v = Inr a"
  then have "0 < n" "a = round64 (of_int n)"
    using VInt by (auto simp: is_positive_number_def int_to_float_def split: pyfloat.splits)
  then show ?thesis by simp
next
  case (VFloat f)
  assume "is_positive_number v" "py_float v = Inr a"
  then show ?thesis using VFloat by (cases f) (auto simp: is_positive_number_def)
qed (simp_all add: is_positive_number_def)

lemma valid_prediction_stake:
  assumes "validate_infonet_event_payload ''prediction_place'' (eget e ''payload'') = Inr (True, ''ok'')"
  shows "fair_stake (prediction_of e)"
proof -
  have "validate_prediction_place (eget e ''payload'') = (True, ''ok'')"
    using assms by (simp add: validate_infonet_event_payload_def get_infonet_schema_def dict_get_def
        SCHEMA_REGISTRY_def reg_def total_def INFONET_ECONOMY_EVENT_TYPES_def)
  then have ok: "fst (validate_prediction_place (eget e ''payload''))" by simp
  then obtain d where d: "eget e ''payload'' = VDict d"
    unfolding validate_prediction_place_def guarded_accepts by (auto split: pyval.splits)
  have "\<not> (ehas d ''stake_amount'' \<and> eget d ''stake_amount'' \<noteq> VNone \<and> \<not> is_positive_number (eget d ''stake_amount''))"
    using ok unfolding validate_prediction_place_def guarded_accepts d by simp
  then have "eget d ''stake_amount'' = VNone \<or> is_positive_number (eget d ''stake_amount'')"
    by (auto simp: ehas_def eget_def)
  then show ?thesis using positive_py_float d
    by (auto simp: fair_stake_def prediction_of_def payload_def)
qed

lemma oracle_rep_parts:
  assumes "compute_oracle_rep cfg node c = Inr rep"
  obtains es markets boost free won lost where "as_event_list c = Inr es" "index_markets es = Inr markets"
    "foldR (mint_market cfg node boost es) (map snd markets) (Fin 0, Fin 0, Fin 0) = Inr (free, won, lost)"
    "rep = clamp_zero (fsub (fadd free won) lost)"
  using assms by (auto simp: compute_oracle_rep_def compute_oracle_rep_breakdown_def res_simps split: prod.splits)

subsection \<open>The decay of governance weight\<close>

definition fractional :: "pyfloat \<Rightarrow> bool" where
  "fractional f \<longleftrightarrow> flt (Fin 0) f \<and> flt f (Fin 1)"

lemma fractional_Fin: "fractional f \<Longrightarrow> \<exists>r. f = Fin r \<and> 0 < r \<and> r < 1"
  by (cases f) (auto simp: fractional_def)

lemma decay_factor_eq:
  assumes "cfg_float cfg ''governance_decay_days'' = Inr d" "cfg_float cfg ''governance_decay_factor'' = Inr fac"
  shows "decay_factor_for_age cfg (Some age) =
    (if fle age d then Inr (Fin 1) else if \<not> fractional fac then Inr (Fin 0)
     else rbind (fdiv age d) (\<lambda>q. rbind (py_floor q) (float_power fac)))"
  using assms by (simp add: decay_factor_for_age_def fractional_def)

text \<open>Past the window of a fractional factor: the power of the number of whole periods, at least one.\<close>

lemma decayed_factor:
  assumes "cfg_float cfg ''governance_decay_days'' = Inr (Fin d)" and "0 < d"
    and "cfg_float cfg ''governance_decay_factor'' = Inr (Fin r)" and "0 < r" "r < 1"
    and "decay_factor_for_age cfg (Some age) = Inr f" and "\<not> fle age (Fin d)" and "age \<noteq> NaN"
  obtains x y where "age = Fin x" "d < x" "round64 (x / d) = Fin y" "1 \<le> \<lfloor>y\<rfloor>" "f = round64 (r powi \<lfloor>y\<rfloor>)"
proof -
  have "fractional (Fin r)" using assms(4,5) by (simp add: fractional_def)
  then obtain q n where q: "fdiv age (Fin d) = Inr q" "py_floor q = Inr n" "float_power (Fin r) n = Inr f"
    using assms(6,7) unfolding decay_factor_eq [OF assms(1,3)] by (auto simp: res_simps)
  from assms(7,8) have "age \<noteq> NInf" by auto
  then obtain x where x: "age = Fin x" "d < x" using assms(2,7,8) q(1,2) by (cases age) (auto simp: finf_def)
  then obtain y where y: "round64 (x / d) = Fin y" "n = \<lfloor>y\<rfloor>"
    using q(1,2) assms(2) by (cases q) auto
  have "fle (Fin 1) (round64 (x / d))" using x(2) assms(2) by (intro round64_ge) simp_all
  then have "1 \<le> \<lfloor>y\<rfloor>" using y by simp
  moreover have "f = round64 (r powi n)" using q(3) by (auto simp: float_power_def split: pyfloat.splits)
  ultimately show ?thesis using that x y by blast
qed

lemma power_le_one: "0 < r \<Longrightarrow> r < 1 \<Longrightarrow> 0 \<le> n \<Longrightarrow> (r :: rat) powi n \<le> 1 \<and> 0 < r powi n"
  by (auto simp: power_int_def power_le_one)

lemma power_antitone: "0 < r \<Longrightarrow> r < 1 \<Longrightarrow> 0 \<le> m \<Longrightarrow> m \<le> n \<Longrightarrow> (r :: rat) powi n \<le> r powi m"
  by (auto simp: power_int_def intro: power_decreasing)

lemma decay_factor_fraction:
  assumes days: "cfg_float cfg ''governance_decay_days'' = Inr (Fin d)" "0 < d"
    and f: "decay_factor_for_age cfg (Some age) = Inr f" and age: "age \<noteq> NaN"
  shows "\<exists>p. f = Fin p \<and> 0 \<le> p \<and> p \<le> 1"
proof -
  from f days obtain fac where fac: "cfg_float cfg ''governance_decay_factor'' = Inr fac"
    by (auto simp: decay_factor_for_age_def rbind_Inr_iff)
  show ?thesis
  proof (cases "fractional fac \<and> \<not> fle age (Fin d)")
    case False
    then have "f = Fin 0 \<or> f = Fin 1"
      using f unfolding decay_factor_eq [OF days(1) fac] by (auto split: if_splits)
    then show ?thesis by auto
  next
    case True
    then obtain r where r: "fac = Fin r" "0 < r" "r < 1" using fractional_Fin by blast
    from fac r(1) have factor: "cfg_float cfg ''governance_decay_factor'' = Inr (Fin r)" by simp
    from True have late: "\<not> fle age (Fin d)" by simp
    obtain y :: rat where "1 \<le> \<lfloor>y\<rfloor>" and f': "f = round64 (r powi \<lfloor>y\<rfloor>)"
      by (rule decayed_factor [OF days factor r(2,3) f late age]) blast
    then have bounds: "0 < r powi \<lfloor>y\<rfloor>" "r powi \<lfloor>y\<rfloor> \<le> 1" using power_le_one [OF r(2,3), of "\<lfloor>y\<rfloor>"] by auto
    then have "fle (Fin 0) f" "fle f (Fin 1)" using f' round64_le [of 1 "r powi \<lfloor>y\<rfloor>"] by simp_all
    then show ?thesis by (cases f) auto
  qed
qed

lemma decay_factor_mono:
  assumes days: "cfg_float cfg ''governance_decay_days'' = Inr (Fin d)" "0 < d"
    and f: "decay_factor_for_age cfg (Some age) = Inr f" and f': "decay_factor_for_age cfg (Some age') = Inr f'"
    and le: "fle age age'"
  shows "fle f' f"
proof -
  have nan: "age \<noteq> NaN" "age' \<noteq> NaN" using fle_not_NaN [OF le] by auto
  from f days obtain fac where fac: "cfg_float cfg ''governance_decay_factor'' = Inr fac"
    by (auto simp: decay_factor_for_age_def rbind_Inr_iff)
  obtain p p' where p: "f = Fin p" "0 \<le> p" and p': "f' = Fin p'" "p' \<le> 1" "0 \<le> p'"
    using decay_factor_fraction [OF days f nan(1)] decay_factor_fraction [OF days f' nan(2)] by blast
  show ?thesis
  proof (cases "fle age (Fin d)")
    case True
    then have "f = Fin 1" using f unfolding decay_factor_eq [OF days(1) fac] by simp
    then show ?thesis using p' by simp
  next
    case False
    then have False': "\<not> fle age' (Fin d)" using fle_trans [OF le] by blast
    show ?thesis
    proof (cases "fractional fac")
      case True
      then obtain r where r: "fac = Fin r" "0 < r" "r < 1" using fractional_Fin by blast
      from fac r(1) have factor: "cfg_float cfg ''governance_decay_factor'' = Inr (Fin r)" by simp
      obtain x y where x: "age = Fin x" "round64 (x / d) = Fin y" "1 \<le> \<lfloor>y\<rfloor>" "f = round64 (r powi \<lfloor>y\<rfloor>)"
        by (rule decayed_factor [OF days factor r(2,3) f False nan(1)]) blast
      obtain x' y' where x': "age' = Fin x'" "round64 (x' / d) = Fin y'" "f' = round64 (r powi \<lfloor>y'\<rfloor>)"
        by (rule decayed_factor [OF days factor r(2,3) f' False' nan(2)]) blast
      have "x / d \<le> x' / d" using le x(1) x'(1) days(2) by (simp add: divide_right_mono)
      then have "y \<le> y'" using round64_mono [of "x / d" "x' / d"] x(2) x'(2) by simp
      then have "\<lfloor>y\<rfloor> \<le> \<lfloor>y'\<rfloor>" by (rule floor_mono)
      then show ?thesis using power_antitone [OF r(2,3), of "\<lfloor>y\<rfloor>" "\<lfloor>y'\<rfloor>"] x(3) x(4) x'(3) round64_mono by simp
    next
      case False
      then have "f' = Fin 0" using f' False' unfolding decay_factor_eq [OF days(1) fac] by simp
      then show ?thesis using p by simp
    qed
  qed
qed

lemma oracle_rep_valid: "compute_oracle_rep cfg node c = Inr rep \<Longrightarrow> valid64 rep"
  by (auto simp: clamp_zero_def elim!: oracle_rep_parts)

subsection \<open>Properties\<close>

text \<open>
  C37: Oracle reputation comes from correct predictions only. If every prediction on the chain passed
  its schema, a node with a positive balance has placed a prediction on the effective outcome of a
  final, non-provisional, objective market above the liquidity thresholds; there is no other source.
\<close>

theorem rep_only_from_correct_predictions:
  assumes rep: "compute_oracle_rep cfg node c = Inr rep" "flt (Fin 0) rep" and valid: "predictions_valid c"
  shows "\<exists>es markets m out e. as_event_list c = Inr es \<and> index_markets es = Inr markets \<and>
    m \<in> snd ` set markets \<and> market_is_mintable cfg m = Inr True \<and>
    effective_outcome (get_or (final_side m) []) (mv_id m) (map VDict es) = Inr out \<and>
    prediction_of e \<in> set (mv_predictions m) \<and> e \<in> set (dict_events c) \<and> etype e ''prediction_place'' \<and>
    eget e ''node_id'' = VStr node \<and> eget (payload e) ''side'' = VStr out"
proof -
  from rep(1) obtain es markets boost free won lost where
    es: "as_event_list c = Inr es" "index_markets es = Inr markets"
    and mints: "foldR (mint_market cfg node boost es) (map snd markets) (Fin 0, Fin 0, Fin 0) = Inr (free, won, lost)"
    and total: "rep = clamp_zero (fsub (fadd free won) lost)" by (rule oracle_rep_parts)
  have set: "set es = set (dict_events c)" using es(1) by (simp add: as_event_list_def chain_sort_set)
  have from_es: "\<exists>e \<in> set es. etype e ''prediction_place'' \<and> p = prediction_of e"
    if "m \<in> snd ` set markets" "p \<in> set (mv_predictions m)" for m p
    using index_markets_from [OF es(2)] that by (fastforce simp: views_from_def)
  have fair: "\<forall>p \<in> set (mv_predictions m). fair_stake p" if m: "m \<in> snd ` set markets" for m
  proof
    fix p assume "p \<in> set (mv_predictions m)"
    from from_es [OF m this] obtain e where "e \<in> set es" "etype e ''prediction_place''" "p = prediction_of e" by blast
    then show "fair_stake p" using valid set valid_prediction_stake [of e] by (simp add: predictions_valid_def)
  qed
  have "\<exists>m \<in> snd ` set markets. \<exists>out p. market_is_mintable cfg m = Inr True \<and>
      effective_outcome (get_or (final_side m) []) (mv_id m) (map VDict es) = Inr out \<and>
      p \<in> set (mv_predictions m) \<and> wins node out p"
  proof (rule ccontr)
    assume none: "\<not> ?thesis"
    have "nothing_earned (free, won, lost)"
    proof (rule foldR_invariant [OF mints])
      show "nothing_earned (Fin 0, Fin 0, Fin 0)" by (simp add: nothing_earned_def)
      show "nothing_earned t" if "m \<in> set (map snd markets)" "nothing_earned s" "mint_market cfg node boost es m s = Inr t"
        for m s t
        by (rule mint_market_nothing [OF that(3,2)]) (use that(1) fair none in auto)
    qed
    then have "\<not> flt (Fin 0) rep" using clamp_nothing [of lost] total by (simp add: nothing_earned_def)
    then show False using rep(2) by simp
  qed
  then obtain m out p where m: "m \<in> snd ` set markets" "market_is_mintable cfg m = Inr True"
    "effective_outcome (get_or (final_side m) []) (mv_id m) (map VDict es) = Inr out"
    "p \<in> set (mv_predictions m)" "wins node out p" by blast
  from from_es [OF m(1,4)] obtain e where e: "e \<in> set (dict_events c)" "etype e ''prediction_place''" "p = prediction_of e"
    using set by blast
  have "eget e ''node_id'' = VStr node" "eget (payload e) ''side'' = VStr out"
    using m(5) e(3) by (simp_all add: wins_def prediction_of_def)
  with m(1-4) es e show ?thesis by blast
qed

definition rep_config :: config where
  "rep_config = [(''farming_easy_bet_cutoff'', VFloat (Fin (3/4))), (''farming_hard_threshold'', VFloat (Fin (3/4))),
     (''farming_soft_threshold'', VFloat (Fin (1/2))), (''min_market_participants'', VInt 1),
     (''min_market_total_stake'', VInt 1), (''oracle_min_earned'', VFloat (Fin (1/8)))]"

definition rep_chain :: chain where
  "rep_chain =
     [VDict [(''event_type'', VStr ''prediction_place''), (''node_id'', VStr ''a''), (''timestamp'', VInt 1),
        (''payload'', VDict [(''market_id'', VStr ''m''), (''side'', VStr ''yes''), (''probability_at_bet'', VInt 50)])],
      VDict [(''event_type'', VStr ''market_snapshot''), (''timestamp'', VInt 2),
        (''payload'', VDict [(''market_id'', VStr ''m''), (''frozen_participant_count'', VInt 2),
           (''frozen_total_stake'', VInt 4)])],
      VDict [(''event_type'', VStr ''resolution_finalize''), (''timestamp'', VInt 3),
        (''payload'', VDict [(''market_id'', VStr ''m''), (''outcome'', VStr ''yes''), (''is_provisional'', VBool False)])]]"

theorem rep_only_from_correct_predictions_witness:
  "compute_oracle_rep rep_config ''a'' rep_chain = Inr (Fin (1/2)) \<and>
   (\<exists>e \<in> set (dict_events rep_chain). etype e ''prediction_place'' \<and> eget e ''node_id'' = VStr ''a'')"
proof -
  have rep: "compute_oracle_rep rep_config ''a'' rep_chain = Inr (Fin (1/2))" by code_simp
  have "list_all (\<lambda>e. etype e ''prediction_place'' \<longrightarrow>
      validate_infonet_event_payload ''prediction_place'' (eget e ''payload'') = Inr (True, ''ok'')) (dict_events rep_chain)"
    by code_simp
  then have valid: "predictions_valid rep_chain" by (simp only: predictions_valid_def list_all_iff)
  from rep_only_from_correct_predictions [OF rep _ valid] show ?thesis using rep by auto
qed

text \<open>
  C38: Governance weight only ever decays. With a positive decay window the multiplier is a fraction
  between zero and one, an older success never weighs more than a more recent one, and the active
  weight of a node lies between zero and its oracle reputation.
\<close>

theorem governance_weight_decays:
  assumes "cfg_float cfg ''governance_decay_days'' = Inr (Fin d)" and "0 < d"
  shows "(\<forall>age f. decay_factor_for_age cfg (Some age) = Inr f \<longrightarrow> age \<noteq> NaN \<longrightarrow> fle (Fin 0) f \<and> fle f (Fin 1)) \<and>
    (\<forall>age age' f f'. decay_factor_for_age cfg (Some age) = Inr f \<longrightarrow> decay_factor_for_age cfg (Some age') = Inr f' \<longrightarrow>
       fle age age' \<longrightarrow> fle f' f) \<and>
    (\<forall>node c now b a. compute_oracle_rep cfg node c = Inr (Fin b) \<longrightarrow>
       compute_oracle_rep_active cfg node c now = Inr a \<longrightarrow> fle (Fin 0) a \<and> fle a (Fin (max 0 b)))"
proof (intro conjI allI impI)
  fix age f assume "decay_factor_for_age cfg (Some age) = Inr f" "age \<noteq> NaN"
  from decay_factor_fraction [OF assms this] show "fle (Fin 0) f" "fle f (Fin 1)" by auto
next
  fix age age' f f' assume "decay_factor_for_age cfg (Some age) = Inr f"
    "decay_factor_for_age cfg (Some age') = Inr f'" "fle age age'"
  then show "fle f' f" by (rule decay_factor_mono [OF assms])
next
  fix node c now b a
  assume b: "compute_oracle_rep cfg node c = Inr (Fin b)" and a: "compute_oracle_rep_active cfg node c now = Inr a"
  have "fle (Fin 0) a \<and> fle a (Fin (max 0 b))"
  proof (cases "b \<le> 0 \<or> last_successful_prediction_ts cfg node c = Inr None")
    case True
    then have "a = Fin 0" using a b by (auto simp: compute_oracle_rep_active_def split: if_splits)
    then show ?thesis by simp
  next
    case False
    then obtain ts where "last_successful_prediction_ts cfg node c = Inr (Some ts)"
      using a b by (auto simp: compute_oracle_rep_active_def rbind_Inr_iff split: option.splits)
    with False a b have "rbind (fdiv (fsub now ts) SECONDS_PER_DAY) (\<lambda>d.
        rbind (decay_factor_for_age cfg (Some (fmax2 (Fin 0) d))) (\<lambda>factor. Inr (fmul (Fin b) factor))) = Inr a"
      by (simp add: compute_oracle_rep_active_def)
    then obtain dd f where f: "decay_factor_for_age cfg (Some (fmax2 (Fin 0) dd)) = Inr f" and prod: "a = fmul (Fin b) f"
      unfolding rbind_Inr_iff by blast
    have "fmax2 (Fin 0) dd \<noteq> NaN" by (auto simp: fmax2_def)
    from decay_factor_fraction [OF assms f this] obtain p where p: "f = Fin p" "0 \<le> p" "p \<le> 1" by blast
    have "\<exists>x. fmul (Fin b) (Fin p) = Fin x \<and> 0 \<le> x \<and> x \<le> b \<and> rep64 x"
      using False oracle_rep_valid [OF b] p by (intro fmul_fraction) auto
    then show ?thesis using False prod p by auto
  qed
  then show "fle (Fin 0) a" "fle a (Fin (max 0 b))" by auto
qed

definition decay_config :: config where
  "decay_config = [(''governance_decay_days'', VInt 90), (''governance_decay_factor'', VFloat (Fin (1/2)))]"

theorem governance_weight_decays_witness:
  "decay_factor_for_age decay_config (Some (Fin 100)) = Inr (Fin (1/2)) \<and>
   decay_factor_for_age decay_config (Some (Fin 200)) = Inr (Fin (1/4)) \<and>
   fle (Fin (1/4)) (Fin (1/2))"
proof -
  have days: "cfg_float decay_config ''governance_decay_days'' = Inr (Fin 90)" by code_simp
  have "decay_factor_for_age decay_config (Some (Fin 100)) = Inr (Fin (1/2))"
    "decay_factor_for_age decay_config (Some (Fin 200)) = Inr (Fin (1/4))" by code_simp+
  then show ?thesis using governance_weight_decays [OF days] by fastforce
qed

end
