(* ===== verification/Common_Rep_Claims.thy ===== *)
theory Common_Rep_Claims
  imports Common_Rep Reputation_Claims
begin

section \<open>The anti-gaming layer only takes away\<close>

subsection \<open>One uprep\<close>

definition nonneg_float :: "pyfloat \<Rightarrow> bool" where
  "nonneg_float x \<longleftrightarrow> (\<exists>q. x = Fin q \<and> 0 \<le> q \<and> rep64 q \<and> \<bar>q\<bar> < 2 ^ 1024)"

lemma nonneg_float_iff: "nonneg_float x \<longleftrightarrow> isfinite x \<and> fle (Fin 0) x \<and> valid64 x"
  by (cases x) (auto simp: nonneg_float_def)

lemma shrink:
  assumes "nonneg_float b" and "unit_float m"
  shows "nonneg_float (fmul b m) \<and> fle (fmul b m) b"
proof -
  from assms obtain q p where q: "b = Fin q" "0 \<le> q" "rep64 q" "\<bar>q\<bar> < 2 ^ 1024" and p: "m = Fin p" "0 \<le> p" "p \<le> 1"
    by (auto simp: nonneg_float_def unit_float_def)
  then obtain c where "fmul b m = Fin c" "0 \<le> c" "c \<le> q" "rep64 c" using fmul_fraction [of q p] by auto
  then show ?thesis using q by (auto simp: nonneg_float_def)
qed

lemma uprep_weight_shrinks:
  assumes w: "uprep_weight cfg u node e c base = Inr w" and base: "nonneg_float base"
    and vf: "cfg_float cfg ''vcs_min_weight'' = Inr f" "unit_float f"
    and cf: "cfg_float cfg ''clustering_min_weight'' = Inr g" "unit_float g"
  shows "nonneg_float w \<and> fle w base"
proof -
  from w obtain r vcs co cm burst where v: "compute_vcs cfg u node c (Some (get_or r (Fin 0))) None = Inr vcs"
    and co: "compute_clustering_coefficient cfg node c (Some (get_or r (Fin 0))) None = Inr co"
    and cm: "clustering_penalty cfg co = Inr cm"
    and weight: "w = fmul (fmul (fmul base vcs) cm) (temporal_multiplier burst)"
    by (auto simp: uprep_weight_def Let_def rbind_Inr_iff)
  have one: "nonneg_float (fmul base vcs) \<and> fle (fmul base vcs) base"
    using shrink [OF base] compute_vcs_unit [OF v vf] by blast
  have two: "nonneg_float (fmul (fmul base vcs) cm) \<and> fle (fmul (fmul base vcs) cm) (fmul base vcs)"
    using shrink one clustering_penalty_unit [OF cm cf compute_clustering_unit [OF co]] by blast
  have "nonneg_float w \<and> fle w (fmul (fmul base vcs) cm)"
    unfolding weight using shrink two temporal_unit by blast
  then show ?thesis using one two fle_trans by blast
qed

subsection \<open>The sum over the chain\<close>

lemma fadd_finite: "isfinite (fadd a b) \<Longrightarrow> isfinite a \<and> isfinite b"
  by (cases a; cases b) auto

lemma base_sum_finite:
  "foldR (common_rep_step cfg node c factor False) es r = Inr s \<Longrightarrow> isfinite s \<Longrightarrow> isfinite r"
proof (induction es arbitrary: r)
  case Nil
  then show ?case by simp
next
  case (Cons e es)
  from Cons.prems(1) obtain r' where step: "common_rep_step cfg node c factor False e r = Inr r'"
    and rest: "foldR (common_rep_step cfg node c factor False) es r' = Inr s" by (auto simp: rbind_Inr_iff)
  have "isfinite r'" by (rule Cons.IH [OF rest Cons.prems(2)])
  moreover have "r' = r \<or> (\<exists>x. r' = fadd r x)"
    using step by (auto simp: common_rep_step_def Let_def skipR_Inr_iff rbind_Inr_iff)
  ultimately show ?case using fadd_finite by blast
qed

lemma oracle_rep_nonneg: "compute_oracle_rep cfg n c = Inr r \<Longrightarrow> r = NaN \<or> fle (Fin 0) r"
proof (erule oracle_rep_parts)
  fix free won lost assume "r = clamp_zero (fsub (fadd free won) lost)"
  then show ?thesis by (cases "fsub (fadd free won) lost") (auto simp: clamp_zero_def)
qed

lemma base_nonneg:
  assumes "compute_oracle_rep cfg n c = Inr r" and "fle (Fin 0) factor" and "isfinite (fmul r factor)"
  shows "nonneg_float (fmul r factor)"
proof -
  have "fle (Fin 0) (fmul r factor)"
    using oracle_rep_nonneg [OF assms(1)] assms(2,3) by (cases r; cases factor) (auto simp: finf_def fmul_nonneg)
  then show ?thesis using assms(3) by (simp add: nonneg_float_iff)
qed

lemma sums_ordered:
  assumes vf: "cfg_float cfg ''vcs_min_weight'' = Inr f" "unit_float f"
    and cf: "cfg_float cfg ''clustering_min_weight'' = Inr g" "unit_float g" and factor: "fle (Fin 0) factor"
  shows "foldR (common_rep_step cfg node c factor True) es r1 = Inr a \<Longrightarrow>
    foldR (common_rep_step cfg node c factor False) es r2 = Inr b \<Longrightarrow> isfinite b \<Longrightarrow>
    nonneg_float r1 \<Longrightarrow> nonneg_float r2 \<Longrightarrow> fle r1 r2 \<Longrightarrow> nonneg_float a \<and> fle a b"
proof (induction es arbitrary: r1 r2)
  case Nil
  then show ?case by simp
next
  case (Cons e es)
  from Cons.prems(1) obtain r1' where s1: "common_rep_step cfg node c factor True e r1 = Inr r1'"
    and t1: "foldR (common_rep_step cfg node c factor True) es r1' = Inr a" by (auto simp: rbind_Inr_iff)
  from Cons.prems(2) obtain r2' where s2: "common_rep_step cfg node c factor False e r2 = Inr r2'"
    and t2: "foldR (common_rep_step cfg node c factor False) es r2' = Inr b" by (auto simp: rbind_Inr_iff)
  have fin2: "isfinite r2'" by (rule base_sum_finite [OF t2 Cons.prems(3)])
  have "nonneg_float r1' \<and> nonneg_float r2' \<and> fle r1' r2'"
  proof (cases "counted_uprep node e = Inr None")
    case True
    then show ?thesis using s1 s2 Cons.prems by (simp add: common_rep_step_def)
  next
    case False
    with s1 s2 obtain u r w where orep: "compute_oracle_rep cfg u c = Inr r"
      and w: "uprep_weight cfg u node e c (fmul r factor) = Inr w"
      and r1': "r1' = fadd r1 w" and r2': "r2' = fadd r2 (fmul r factor)"
      by (auto simp: common_rep_step_def Let_def res_simps)
    have base: "nonneg_float (fmul r factor)"
      using base_nonneg [OF orep factor] fin2 fadd_finite unfolding r2' by blast
    have weight: "nonneg_float w" "fle w (fmul r factor)"
      using uprep_weight_shrinks [OF w base vf cf] by auto
    have pos: "fle (Fin 0) r1" "fle (Fin 0) r2" "fle (Fin 0) w" "fle (Fin 0) (fmul r factor)"
      using Cons.prems(4,5) weight base by (simp_all add: nonneg_float_iff)
    have nn: "fle (Fin 0) (fadd r1 w)" "fle (Fin 0) (fadd r2 w)" "fle (Fin 0) r2'"
      unfolding r2' using pos by (simp_all add: fadd_nonneg)
    have "fle (fadd r1 w) (fadd r2 w)"
      using Cons.prems(6) nn(1,2) fle_not_NaN by (intro fadd_mono) blast+
    moreover have "fle (fadd w r2) (fadd (fmul r factor) r2)"
      using weight(2) nn(2,3) fle_not_NaN unfolding r2' by (intro fadd_mono) (auto simp: fadd_comm)
    ultimately have le: "fle r1' r2'" unfolding r1' r2' using fle_trans by (metis fadd_comm)
    moreover have "isfinite r1'" using le fin2 nn(1) unfolding r1' by (cases "fadd r1 w"; cases r2') auto
    ultimately show ?thesis using fin2 nn(1,3) by (simp add: nonneg_float_iff r1' r2')
  qed
  then show ?case using Cons.IH [OF t1 t2 Cons.prems(3)] by blast
qed

subsection \<open>The progressive penalty\<close>

lemma fsub_one_nonneg: "d = NaN \<or> fle (Fin 0) d \<Longrightarrow> unit_float (fmax2 (Fin 0) (fsub (Fin 1) d))"
proof (cases d)
  case (Fin q)
  assume "d = NaN \<or> fle (Fin 0) d"
  then have "0 \<le> q" using Fin by simp
  have "fle (round64 (1 - q)) (Fin 1)" using \<open>0 \<le> q\<close> by (intro round64_le) simp_all
  moreover have "valid64 (round64 (1 - q))" by simp
  ultimately show ?thesis
    by (cases "round64 (1 - q)") (auto simp: Fin fsub_def fmax2_def unit_float_def)
qed (auto simp: fsub_def fmax2_def unit_float_def)

lemma penalty_unit:
  assumes "progressive_penalty_multiplier_for cfg lg node c rep now = Inr m"
    and lg: "\<And>x. fle (Fin 1) x \<Longrightarrow> fle (Fin 0) (lg x)"
  shows "unit_float m"
proof -
  from assms(1) consider "m = Fin 1" | score threshold where "\<not> fle score threshold"
    "m = fmax2 (Fin 0) (fsub (Fin 1) (apply_progressive_penalty lg (fsub score threshold) rep))"
    by (auto simp: progressive_penalty_multiplier_for_def rbind_Inr_iff split: if_splits)
  then show ?thesis
  proof cases
    case 1
    then show ?thesis by (simp add: unit_float_def)
  next
    case 2
    let ?over = "fsub score threshold" and ?k = "compute_rep_multiplier lg rep"
    have over: "?over = NaN \<or> fle (Fin 0) ?over"
      using 2(1) by (cases score; cases threshold) (auto simp: fsub_def)
    have "fle (Fin 1) (fmax2 (Fin 1) rep)" by (cases rep) (auto simp: fmax2_def)
    then have "fle (Fin 0) ?k" unfolding compute_rep_multiplier_def using lg by (intro fadd_nonneg) auto
    then have "fmul ?over ?k = NaN \<or> fle (Fin 0) (fmul ?over ?k)"
      using over by (cases ?over; cases ?k) (auto simp: finf_def fmul_nonneg)
    then show ?thesis unfolding 2(2) apply_progressive_penalty_def by (rule fsub_one_nonneg)
  qed
qed

subsection \<open>Properties\<close>

text \<open>
  C39: Anti-gaming never raises reputation. With floors that are fractions, a non-negative weight
  factor and a logarithm that is not negative from one on, the common reputation with all the
  multipliers is non-negative and at most the reputation of the plain formula, whenever that is a
  finite number.
\<close>

theorem anti_gaming_never_increases:
  assumes vf: "cfg_float cfg ''vcs_min_weight'' = Inr f" "unit_float f"
    and cf: "cfg_float cfg ''clustering_min_weight'' = Inr g" "unit_float g"
    and factor: "fle (Fin 0) factor"
    and lg: "\<And>x. fle (Fin 1) x \<Longrightarrow> fle (Fin 0) (lg x)"
    and plain: "compute_common_rep cfg lg node c (Some factor) False = Inr (Fin b)"
    and full: "compute_common_rep cfg lg node c (Some factor) True = Inr a"
  shows "fle (Fin 0) a \<and> fle a (Fin b)"
proof -
  let ?es = "dict_events c"
  have base: "foldR (common_rep_step cfg node c factor False) ?es (Fin 0) = Inr (Fin b)"
    using plain by (simp add: compute_common_rep_def)
  from full obtain rep where rep: "foldR (common_rep_step cfg node c factor True) ?es (Fin 0) = Inr rep"
    and a: "a = rep \<or> (\<exists>m r. progressive_penalty_multiplier_for cfg lg node c r None = Inr m \<and> a = fmul rep m)"
    by (auto simp: compute_common_rep_def rbind_Inr_iff split: if_splits)
  have zero: "nonneg_float (Fin 0)" by (simp add: nonneg_float_def)
  have ord: "nonneg_float rep \<and> fle rep (Fin b)"
    by (rule sums_ordered [OF vf cf factor rep base _ zero zero]) simp_all
  from a show ?thesis
  proof
    assume "a = rep"
    then show ?thesis using ord by (simp add: nonneg_float_iff)
  next
    assume "\<exists>m r. progressive_penalty_multiplier_for cfg lg node c r None = Inr m \<and> a = fmul rep m"
    then obtain m r where "progressive_penalty_multiplier_for cfg lg node c r None = Inr m" "a = fmul rep m" by blast
    then have "nonneg_float a \<and> fle a rep" using shrink penalty_unit lg ord by blast
    then show ?thesis using ord fle_trans by (auto simp: nonneg_float_iff)
  qed
qed

definition common_config :: config where
  "common_config = rep_config @
     [(''vcs_min_weight'', VFloat (Fin (1/8))), (''clustering_min_weight'', VFloat (Fin (1/4))),
      (''vote_decay_days'', VInt 90), (''temporal_burst_window_sec'', VInt 300),
      (''temporal_burst_min_upreps'', VInt 1), (''progressive_penalty_threshold'', VInt 0)]"

definition uprep_of :: "string \<Rightarrow> string \<Rightarrow> int \<Rightarrow> pyval" where
  "uprep_of a b ts = VDict [(''event_type'', VStr ''uprep''), (''node_id'', VStr a), (''timestamp'', VInt ts),
     (''payload'', VDict [(''target_node_id'', VStr b)])]"

definition burst_chain :: chain where
  "burst_chain = rep_chain @ [uprep_of ''a'' ''b'' 4]"

definition crude_log :: "pyfloat \<Rightarrow> pyfloat" where
  "crude_log x = (if fle (Fin 2) x then Fin 1 else Fin 0)"

lemma burst_chain_parts:
  "compute_oracle_rep common_config ''a'' burst_chain = Inr (Fin (1/2))"
  "uprep_weight common_config ''a'' ''b'' [(''event_type'', VStr ''uprep''), (''node_id'', VStr ''a''),
     (''timestamp'', VInt 4), (''payload'', VDict [(''target_node_id'', VStr ''b'')])] burst_chain (Fin (1/2))
   = Inr (fmul (Fin (1/2)) BURST_REDUCTION_FACTOR)"
  "round64 (1/2) = Fin (1/2)"
  by code_simp+

lemma burst_chain_events:
  "foldR (common_rep_step cfg ''b'' c factor anti) (dict_events burst_chain) (Fin 0) =
   common_rep_step cfg ''b'' c factor anti [(''event_type'', VStr ''uprep''), (''node_id'', VStr ''a''),
     (''timestamp'', VInt 4), (''payload'', VDict [(''target_node_id'', VStr ''b'')])] (Fin 0)"
  by (simp add: burst_chain_def rep_chain_def uprep_of_def common_rep_step_def counted_uprep_def etype_def eget_def)

lemma burst_chain_uprep:
  "counted_uprep ''b'' [(''event_type'', VStr ''uprep''), (''node_id'', VStr ''a''),
     (''timestamp'', VInt 4), (''payload'', VDict [(''target_node_id'', VStr ''b'')])] = Inr (Some ''a'')"
  by (simp add: counted_uprep_def payload_or_empty_def etype_def eget_def)

theorem anti_gaming_never_increases_witness:
  "compute_common_rep common_config crude_log ''b'' burst_chain (Some (Fin 1)) False = Inr (Fin (1/2)) \<and>
   (\<exists>a. compute_common_rep common_config crude_log ''b'' burst_chain (Some (Fin 1)) True = Inr a \<and>
      fle (Fin 0) a \<and> fle a (Fin (1/2)))"
proof -
  have plain: "compute_common_rep common_config crude_log ''b'' burst_chain (Some (Fin 1)) False = Inr (Fin (1/2))"
    by (simp add: compute_common_rep_def burst_chain_events common_rep_step_def burst_chain_uprep burst_chain_parts)
  have rep: "compute_oracle_rep common_config ''b'' burst_chain = Inr (Fin 0)"
    "progressive_penalty_multiplier_for common_config crude_log ''b'' burst_chain (Fin 0) None = Inr (Fin 1)"
    by code_simp+
  let ?w = "fmul (Fin (1/2)) BURST_REDUCTION_FACTOR"
  have "compute_common_rep common_config crude_log ''b'' burst_chain (Some (Fin 1)) True =
      Inr (if flt (Fin 0) ?w then fmul ?w (Fin 1) else ?w)"
    using rep by (simp add: compute_common_rep_def burst_chain_events common_rep_step_def burst_chain_uprep
        burst_chain_parts)
  then obtain a where full: "compute_common_rep common_config crude_log ''b'' burst_chain (Some (Fin 1)) True = Inr a"
    by blast
  have floors: "cfg_float common_config ''vcs_min_weight'' = Inr (Fin (1/8))"
    "cfg_float common_config ''clustering_min_weight'' = Inr (Fin (1/4))" "round64 (1/8) = Fin (1/8)" "round64 (1/4) = Fin (1/4)"
    by code_simp+
  have units: "unit_float (Fin (1/8))" "unit_float (Fin (1/4))"
    using unit_round [of "1/8"] unit_round [of "1/4"] floors(3,4) by simp_all
  from anti_gaming_never_increases [OF floors(1) units(1) floors(2) units(2) _ _ plain full]
  show ?thesis using plain full by (simp add: crude_log_def)
qed

end
