(* ===== verification/Governance_Weights.thy ===== *)
theory Governance_Weights
  imports Oracle_Rep
begin

section \<open>Governance weights and weighted ballots\<close>

text \<open>
  What \<open>services/infonet/governance/\<close> shares: the memoized governance weight of a node, the weight
  of the whole network, and the ballot box every vote of the package is counted in. Python iterates
  over a set of strings in an order that depends on the hash seed of the process: that order is the
  parameter \<open>ord\<close>, which rearranges the list of the distinct elements in insertion order.
\<close>

definition DAY_S :: pyfloat where
  "DAY_S = Fin 86400"

definition HOUR_S :: pyfloat where
  "HOUR_S = Fin 3600"

type_synonym weights = "(string, pyfloat) dict"

text \<open>The cache is keyed by the node only: the first evaluation time wins.\<close>

definition governance_weight_provider ::
  "config \<Rightarrow> event list \<Rightarrow> string \<Rightarrow> pyfloat \<Rightarrow> weights \<Rightarrow> (pyfloat \<times> weights) res" where
  "governance_weight_provider cfg es node t cache =
     (case dict_get cache node of
        Some w \<Rightarrow> Inr (w, cache)
      | None \<Rightarrow> rbind (compute_oracle_rep_active cfg node (map VDict es) t)
                  (\<lambda>w. Inr (w, dict_set cache node w)))"

definition note_node :: "event \<Rightarrow> string list \<Rightarrow> string list" where
  "note_node e ns =
     (case nonempty_str (eget e ''node_id'') of
        None \<Rightarrow> ns
      | Some n \<Rightarrow> if n \<in> set ns then ns else ns @ [n])"

definition acting_nodes :: "event list \<Rightarrow> string list" where
  "acting_nodes es = fold note_node es []"

definition add_weight ::
  "config \<Rightarrow> event list \<Rightarrow> pyfloat \<Rightarrow> string \<Rightarrow> pyfloat \<times> weights \<Rightarrow> (pyfloat \<times> weights) res" where
  "add_weight cfg es t node st =
     rbind (governance_weight_provider cfg es node t (snd st)) (\<lambda>(w, cache).
     Inr (fadd (fst st) w, cache))"

definition network_governance_weight ::
  "(string list \<Rightarrow> string list) \<Rightarrow> config \<Rightarrow> chain \<Rightarrow> pyfloat \<Rightarrow> pyfloat res" where
  "network_governance_weight ord cfg c now =
     (let es = dict_events c in
      rbind (foldR (add_weight cfg es now) (ord (acting_nodes es)) (Fin 0, [])) (\<lambda>st. Inr (fst st)))"

subsection \<open>The ballot box\<close>

text \<open>
  The variables of every vote loop: the dictionary of the nodes that have voted, the weight cache,
  and the two sums.
\<close>

record ballot_box =
  bx_seen :: "(string, string) dict"
  bx_cache :: weights
  bx_for :: pyfloat
  bx_against :: pyfloat

definition empty_box :: "weights \<Rightarrow> ballot_box" where
  "empty_box cache = \<lparr>bx_seen = [], bx_cache = cache, bx_for = Fin 0, bx_against = Fin 0\<rparr>"

text \<open>The end of the loop bodies: note the vote, get the weight, add it to one of the sums.\<close>

definition cast_vote ::
  "config \<Rightarrow> event list \<Rightarrow> string \<Rightarrow> string \<Rightarrow> string \<Rightarrow> pyfloat \<Rightarrow> ballot_box \<Rightarrow> ballot_box res" where
  "cast_vote cfg es yes voter vote t b =
     rbind (governance_weight_provider cfg es voter t (bx_cache b)) (\<lambda>(w, cache).
     let b' = b\<lparr>bx_seen := dict_set (bx_seen b) voter vote, bx_cache := cache\<rparr>
     in Inr (if vote = yes then b'\<lparr>bx_for := fadd (bx_for b) w\<rparr>
             else b'\<lparr>bx_against := fadd (bx_against b) w\<rparr>))"

subsection \<open>Reference semantics: one ballot per node\<close>

text \<open>
  A ballot is a valid vote of a node at a time inside the window. The reference count first keeps
  the earliest ballot of every node, then casts each of them exactly once.
\<close>

type_synonym ballot = "string \<times> string \<times> pyfloat"

definition window :: "pyfloat \<Rightarrow> pyfloat \<Rightarrow> pyfloat \<Rightarrow> bool" where
  "window lo hi t \<longleftrightarrow> \<not> flt t lo \<and> \<not> flt hi t"

definition ballot_of ::
  "(pyval \<Rightarrow> string option) \<Rightarrow> string list \<Rightarrow> (pyfloat \<Rightarrow> bool) \<Rightarrow> event \<Rightarrow> ballot option" where
  "ballot_of voter_id options inside e =
     (case (voter_id (eget e ''node_id''), event_ts e, eget (payload e) ''vote'') of
        (Some voter, Inr t, VStr vote) \<Rightarrow>
          if inside t \<and> vote \<in> set options then Some (voter, vote, t) else None
      | _ \<Rightarrow> None)"

definition first_ballots :: "(event \<Rightarrow> ballot option) \<Rightarrow> event list \<Rightarrow> ballot list" where
  "first_ballots bl es = nub_fst (List.map_filter bl es)"

definition count_ballots ::
  "config \<Rightarrow> event list \<Rightarrow> string \<Rightarrow> ballot list \<Rightarrow> ballot_box \<Rightarrow> ballot_box res" where
  "count_ballots cfg es yes bs b = foldR (\<lambda>(voter, vote, t). cast_vote cfg es yes voter vote t) bs b"

lemma first_ballots_distinct: "distinct (map fst (first_ballots bl es))"
  by (simp add: first_ballots_def distinct_nub_fst)

lemma cast_vote_seen:
  "cast_vote cfg es yes voter vote t b = Inr b' \<Longrightarrow> bx_seen b' = dict_set (bx_seen b) voter vote"
  by (auto simp: cast_vote_def res_simps Let_def split: if_splits prod.splits)

text \<open>
  The interface of a vote loop: on readable events its body casts the ballot of the
  event unless the node has voted already. Clients get that the loop counts one ballot per node.
\<close>

locale vote_loop =
  fixes cfg :: config and es :: "event list" and yes :: string
    and loop_body :: "event \<Rightarrow> ballot_box \<Rightarrow> ballot_box res"
    and ballot :: "event \<Rightarrow> ballot option"
    and readable :: "event \<Rightarrow> bool"
  assumes body: "readable e \<Longrightarrow> loop_body e b =
    (case ballot e of
       None \<Rightarrow> Inr b
     | Some (voter, vote, u) \<Rightarrow>
         if dict_has (bx_seen b) voter then Inr b else cast_vote cfg es yes voter vote u b)"
begin

lemma loop_from:
  assumes "\<And>e. e \<in> set evs \<Longrightarrow> readable e"
  shows "foldR loop_body evs b =
    count_ballots cfg es yes
      (filter (\<lambda>x. \<not> dict_has (bx_seen b) (fst x)) (first_ballots ballot evs)) b"
  using assms
proof (induction evs arbitrary: b)
  case Nil
  then show ?case by (simp add: first_ballots_def count_ballots_def)
next
  case (Cons e evs)
  from Cons.prems have t: "readable e" by simp
  note IH = Cons.IH [OF Cons.prems]
  show ?case
  proof (cases "ballot e")
    case None
    then show ?thesis using IH by (simp add: body [OF t] first_ballots_def)
  next
    case (Some x)
    obtain voter vote u where x: "x = (voter, vote, u)" by (cases x)
    have first: "first_ballots ballot (e # evs) =
        (voter, vote, u) # filter (\<lambda>q. fst q \<noteq> voter) (first_ballots ballot evs)"
      by (simp add: first_ballots_def Some x)
    show ?thesis
    proof (cases "dict_has (bx_seen b) voter")
      case True
      have "filter (\<lambda>q. \<not> dict_has (bx_seen b) (fst q)) (filter (\<lambda>q. fst q \<noteq> voter) qs)
          = filter (\<lambda>q. \<not> dict_has (bx_seen b) (fst q)) qs" for qs :: "ballot list"
        using True by (induction qs) auto
      then show ?thesis using True IH by (simp add: body [OF t] Some x first)
    next
      case False
      show ?thesis
      proof (cases "cast_vote cfg es yes voter vote u b")
        case (Inl err)
        then show ?thesis using False by (simp add: body [OF t] Some x first count_ballots_def)
      next
        case (Inr b')
        have "dict_has (bx_seen b') n \<longleftrightarrow> n = voter \<or> dict_has (bx_seen b) n" for n
          by (simp add: cast_vote_seen [OF Inr] dict_has_def dict_get_set)
        then have "filter (\<lambda>q. \<not> dict_has (bx_seen b') (fst q)) qs
          = filter (\<lambda>q. \<not> dict_has (bx_seen b) (fst q)) (filter (\<lambda>q. fst q \<noteq> voter) qs)"
          for qs :: "ballot list"
          by (induction qs) auto
        then show ?thesis using False IH [of b']
          by (simp add: body [OF t] Some x first Inr count_ballots_def)
      qed
    qed
  qed
qed

lemma loop_counts_once:
  assumes "\<And>e. e \<in> set evs \<Longrightarrow> readable e"
  shows "foldR loop_body evs (empty_box cache) =
    count_ballots cfg es yes (first_ballots ballot evs) (empty_box cache)"
  using loop_from [where evs = evs and b = "empty_box cache", OF assms]
  by (simp add: empty_box_def dict_has_def)

end

subsection \<open>Reference semantics: the sum of the weights\<close>

text \<open>The weight the provider returns: the cached one, else the decayed reputation at that time.\<close>

definition weight_in :: "config \<Rightarrow> event list \<Rightarrow> weights \<Rightarrow> string \<Rightarrow> pyfloat \<Rightarrow> pyfloat res" where
  "weight_in cfg es cache n t =
     (case dict_get cache n of Some w \<Rightarrow> Inr w | None \<Rightarrow> compute_oracle_rep_active cfg n (map VDict es) t)"

lemma provider_Inr:
  "governance_weight_provider cfg es n t cache = Inr (w, cache') \<longleftrightarrow>
     weight_in cfg es cache n t = Inr w \<and>
     cache' = (if dict_has cache n then cache else dict_set cache n w)"
  by (auto simp: governance_weight_provider_def weight_in_def dict_has_def res_simps split: option.splits)

lemma dict_get_provided:
  "dict_get (if dict_has cache n then cache else dict_set cache n w) m =
   (if m = n \<and> \<not> dict_has cache n then Some w else dict_get cache m)"
  by (auto simp: dict_get_set)

lemma weight_in_other:
  "m \<noteq> n \<Longrightarrow> weight_in cfg es (if dict_has cache n then cache else dict_set cache n w) m t = weight_in cfg es cache m t"
  by (simp add: weight_in_def dict_get_provided)

lemma rbind_cong: "(\<And>x. r = Inr x \<Longrightarrow> f x = g x) \<Longrightarrow> rbind r f = rbind r g"
  by (cases r) auto

lemma mapR_cong: "(\<And>x. x \<in> set xs \<Longrightarrow> f x = g x) \<Longrightarrow> mapR f xs = mapR g xs"
  by (induction xs) auto

definition sum_step ::
  "config \<Rightarrow> event list \<Rightarrow> string \<times> pyfloat \<Rightarrow> weights \<times> pyfloat \<Rightarrow> (weights \<times> pyfloat) res" where
  "sum_step cfg es p st =
     rbind (governance_weight_provider cfg es (fst p) (snd p) (fst st)) (\<lambda>(w, cache). Inr (cache, fadd (snd st) w))"

lemma sum_step_Inr:
  "sum_step cfg es (n, t) (cache, acc) = Inr st \<longleftrightarrow>
   (\<exists>w. weight_in cfg es cache n t = Inr w \<and>
        st = (if dict_has cache n then cache else dict_set cache n w, fadd acc w))"
  by (auto simp: sum_step_def rbind_Inr_iff provider_Inr split_beta)

lemma sum_steps:
  assumes "foldR (sum_step cfg es) ps (cache, acc) = Inr (cache', acc')" and "distinct (map fst ps)"
  shows "\<exists>ws. mapR (\<lambda>(n, t). weight_in cfg es cache n t) ps = Inr ws \<and>
     acc' = fold (\<lambda>x s. fadd s x) ws acc \<and>
     (\<forall>n. dict_get cache' n = (case dict_get cache n of Some w \<Rightarrow> Some w | None \<Rightarrow> map_of (zip (map fst ps) ws) n))"
  using assms
proof (induction ps arbitrary: cache acc)
  case Nil
  then show ?case by (auto split: option.splits)
next
  case (Cons p ps)
  obtain n t where p: "p = (n, t)" by (cases p)
  let ?put = "\<lambda>w. if dict_has cache n then cache else dict_set cache n w"
  from Cons.prems obtain w where w: "weight_in cfg es cache n t = Inr w"
    and rest: "foldR (sum_step cfg es) ps (?put w, fadd acc w) = Inr (cache', acc')"
    by (auto simp: p rbind_Inr_iff sum_step_Inr)
  from Cons.IH [OF rest] Cons.prems(2) obtain ws
    where ws: "mapR (\<lambda>(n, t). weight_in cfg es (?put w) n t) ps = Inr ws"
      and acc: "acc' = fold (\<lambda>x s. fadd s x) ws (fadd acc w)"
      and cache: "\<forall>m. dict_get cache' m = (case dict_get (?put w) m of Some w \<Rightarrow> Some w
                    | None \<Rightarrow> map_of (zip (map fst ps) ws) m)"
    by auto
  have same: "mapR (\<lambda>(n, t). weight_in cfg es (?put w) n t) ps = mapR (\<lambda>(n, t). weight_in cfg es cache n t) ps"
  proof (rule mapR_cong, clarify)
    fix m u assume "(m, u) \<in> set ps"
    then have "m \<noteq> n" using Cons.prems(2) by (force simp: p)
    then show "weight_in cfg es (?put w) m u = weight_in cfg es cache m u" by (rule weight_in_other)
  qed
  have "mapR (\<lambda>(n, t). weight_in cfg es cache n t) (p # ps) = Inr (w # ws)"
    unfolding p using w trans [OF same [symmetric] ws] by simp
  moreover have "dict_get cache' m = (case dict_get cache m of Some w \<Rightarrow> Some w
      | None \<Rightarrow> map_of (zip (map fst (p # ps)) (w # ws)) m)" for m
    using cache [rule_format, of m] by (auto simp: p dict_get_provided dict_has_def split: option.splits)
  ultimately show ?case using acc by (intro exI [of _ "w # ws"]) simp
qed

text \<open>Both sums of a ballot box, given what the cache held before the first ballot.\<close>

lemma cast_vote_Inr:
  "cast_vote cfg es yes n v t b = Inr b' \<longleftrightarrow>
   (\<exists>w. weight_in cfg es (bx_cache b) n t = Inr w \<and>
        b' = \<lparr>bx_seen = dict_set (bx_seen b) n v,
              bx_cache = (if dict_has (bx_cache b) n then bx_cache b else dict_set (bx_cache b) n w),
              bx_for = (if v = yes then fadd (bx_for b) w else bx_for b),
              bx_against = (if v = yes then bx_against b else fadd (bx_against b) w)\<rparr>)"
proof (cases "governance_weight_provider cfg es n t (bx_cache b)")
  case (Inl x)
  then have "weight_in cfg es (bx_cache b) n t \<noteq> Inr w" for w
    using provider_Inr [of cfg es n t "bx_cache b" w] by auto
  then show ?thesis using Inl by (simp add: cast_vote_def)
next
  case (Inr x)
  obtain w cache where x: "x = (w, cache)" by (cases x)
  have w: "weight_in cfg es (bx_cache b) n t = Inr w"
    and cache: "cache = (if dict_has (bx_cache b) n then bx_cache b else dict_set (bx_cache b) n w)"
    using Inr [unfolded x] unfolding provider_Inr by simp_all
  show ?thesis unfolding w cast_vote_def Inr x rbind.simps Let_def prod.case cache
    by (cases b) (cases "v = yes"; auto)
qed

lemma count_sums:
  assumes "count_ballots cfg es yes bs b = Inr b'" and "distinct (map fst bs)"
  shows "\<exists>ws vs. mapR (\<lambda>(n, v, t). weight_in cfg es (bx_cache b) n t) (filter (\<lambda>(n, v, t). v = yes) bs) = Inr ws \<and>
     mapR (\<lambda>(n, v, t). weight_in cfg es (bx_cache b) n t) (filter (\<lambda>(n, v, t). v \<noteq> yes) bs) = Inr vs \<and>
     bx_for b' = fold (\<lambda>x s. fadd s x) ws (bx_for b) \<and>
     bx_against b' = fold (\<lambda>x s. fadd s x) vs (bx_against b)"
  using assms
proof (induction bs arbitrary: b)
  case Nil
  then show ?case by (simp add: count_ballots_def)
next
  case (Cons p bs)
  obtain n v t where p: "p = (n, v, t)" by (cases p)
  let ?W = "\<lambda>c (n, v, t). weight_in cfg es c n t"
  from Cons.prems(1) obtain b1 where b1: "cast_vote cfg es yes n v t b = Inr b1"
    and rest: "count_ballots cfg es yes bs b1 = Inr b'"
    by (auto simp: count_ballots_def p rbind_Inr_iff)
  from b1 obtain w where w: "weight_in cfg es (bx_cache b) n t = Inr w"
    and cache: "bx_cache b1 = (if dict_has (bx_cache b) n then bx_cache b else dict_set (bx_cache b) n w)"
    and sums: "bx_for b1 = (if v = yes then fadd (bx_for b) w else bx_for b)"
       "bx_against b1 = (if v = yes then bx_against b else fadd (bx_against b) w)"
    unfolding cast_vote_Inr by auto
  have same: "mapR (?W (bx_cache b1)) (filter P bs) = mapR (?W (bx_cache b)) (filter P bs)" for P
  proof (rule mapR_cong, clarify)
    fix m u x assume "(m, u, x) \<in> set (filter P bs)"
    then have "m \<noteq> n" using Cons.prems(2) by (force simp: p)
    then show "weight_in cfg es (bx_cache b1) m x = weight_in cfg es (bx_cache b) m x"
      unfolding cache by (rule weight_in_other)
  qed
  from Cons.IH [OF rest] Cons.prems(2) obtain ws vs
    where ws: "mapR (?W (bx_cache b1)) (filter (\<lambda>(n, v, t). v = yes) bs) = Inr ws"
      and vs: "mapR (?W (bx_cache b1)) (filter (\<lambda>(n, v, t). v \<noteq> yes) bs) = Inr vs"
      and "bx_for b' = fold (\<lambda>x s. fadd s x) ws (bx_for b1)"
        "bx_against b' = fold (\<lambda>x s. fadd s x) vs (bx_against b1)" by auto
  then show ?case
    using ws [unfolded same] vs [unfolded same] w
    by (cases "v = yes") (simp_all add: p sums)
qed

lemma network_sum:
  "foldR (add_weight cfg es now) ns (acc, cache) =
   rbind (foldR (sum_step cfg es) (map (\<lambda>n. (n, now)) ns) (cache, acc)) (\<lambda>(cache, acc). Inr (acc, cache))"
proof (induction ns arbitrary: acc cache)
  case (Cons n ns)
  have step: "add_weight cfg es now n (acc, cache) =
      rbind (sum_step cfg es (n, now) (cache, acc)) (\<lambda>(cache, acc). Inr (acc, cache))"
    by (cases "governance_weight_provider cfg es n now cache")
      (simp_all add: add_weight_def sum_step_def split_beta)
  show ?case
    by (cases "sum_step cfg es (n, now) (cache, acc)") (simp_all add: step Cons split_beta)
qed simp

subsection \<open>Signatures\<close>

text \<open>
  The interface of a signature loop. \<open>sig e\<close> is what the loop makes of an event: nothing, a node that
  is only noted, or a node whose weight at the given time counts. The client lemma says that the sum
  is over the first event of each node, and what the cache holds afterwards.
\<close>

type_synonym sign_sum = "string list \<times> weights \<times> pyfloat"

definition first_signatures :: "(event \<Rightarrow> (string \<times> pyfloat option) option) \<Rightarrow> event list \<Rightarrow> (string \<times> pyfloat option) list" where
  "first_signatures sig es = nub_fst (List.map_filter sig es)"

definition counted :: "(string \<times> pyfloat option) list \<Rightarrow> (string \<times> pyfloat) list" where
  "counted ss = List.map_filter (\<lambda>(n, t). map_option (Pair n) t) ss"

lemma counted_simps [simp]:
  "counted [] = []"
  "counted ((n, None) # ss) = counted ss"
  "counted ((n, Some t) # ss) = (n, t) # counted ss"
  by (simp_all add: counted_def List.map_filter_simps)

lemma counted_keys: "set (map fst (counted ss)) \<subseteq> set (map fst ss)"
  by (induction ss) (auto simp: counted_def List.map_filter_simps split: option.splits)

lemma counted_distinct: "distinct (map fst ss) \<Longrightarrow> distinct (map fst (counted ss))"
proof (induction ss)
  case (Cons s ss)
  then show ?case using counted_keys [of ss] by (cases s; cases "snd s") auto
qed simp

locale sign_loop =
  fixes cfg :: config and es :: "event list"
    and loop_body :: "event \<Rightarrow> sign_sum \<Rightarrow> sign_sum res"
    and sig :: "event \<Rightarrow> (string \<times> pyfloat option) option"
    and readable :: "event \<Rightarrow> bool"
  assumes body: "readable e \<Longrightarrow> loop_body e (seen, st) =
    (case sig e of
       None \<Rightarrow> Inr (seen, st)
     | Some (n, time) \<Rightarrow>
         if n \<in> set seen then Inr (seen, st)
         else (case time of
                 None \<Rightarrow> Inr (n # seen, st)
               | Some t \<Rightarrow> rbind (sum_step cfg es (n, t) st) (\<lambda>st. Inr (n # seen, st))))"
begin

lemma loop_from:
  assumes "\<And>e. e \<in> set evs \<Longrightarrow> readable e" and "foldR loop_body evs (seen, st) = Inr (seen', st')"
  shows "let new = filter (\<lambda>p. fst p \<notin> set seen) (first_signatures sig evs) in
    set seen' = set seen \<union> fst ` set new \<and> foldR (sum_step cfg es) (counted new) st = Inr st'"
  using assms
proof (induction evs arbitrary: seen st)
  case Nil
  then show ?case by (simp add: first_signatures_def)
next
  case (Cons e evs)
  have e: "readable e" using Cons.prems(1) by simp
  show ?case
  proof (cases "sig e")
    case None
    then show ?thesis using Cons by (simp add: body [OF e] first_signatures_def)
  next
    case (Some x)
    obtain n time where x: "x = (n, time)" by (cases x)
    have first: "first_signatures sig (e # evs) =
        (n, time) # filter (\<lambda>q. fst q \<noteq> n) (first_signatures sig evs)"
      by (simp add: first_signatures_def Some x)
    show ?thesis
    proof (cases "n \<in> set seen")
      case True
      then have "filter (\<lambda>p. fst p \<notin> set seen) (filter (\<lambda>q. fst q \<noteq> n) ps)
          = filter (\<lambda>p. fst p \<notin> set seen) ps" for ps :: "(string \<times> pyfloat option) list"
        by (induction ps) auto
      then show ?thesis using True Cons by (simp add: body [OF e] Some x first)
    next
      case False
      have split: "filter (\<lambda>p. fst p \<notin> set (n # seen)) ps
          = filter (\<lambda>p. fst p \<notin> set seen) (filter (\<lambda>q. fst q \<noteq> n) ps)" for ps :: "(string \<times> pyfloat option) list"
        by (induction ps) auto
      show ?thesis
      proof (cases time)
        case None
        then show ?thesis using False Cons.IH [of "n # seen" st] Cons.prems
          by (simp add: body [OF e] Some x first split Let_def)
      next
        case (Some t)
        with Cons.prems(2) obtain st1 where st1: "sum_step cfg es (n, t) st = Inr st1"
          and rest: "foldR loop_body evs (n # seen, st1) = Inr (seen', st')"
          using False \<open>sig e = Some x\<close> by (auto simp: body [OF e] x rbind_Inr_iff)
        show ?thesis using False Some Cons.IH [OF _ rest] Cons.prems(1)
          by (simp add: x first split Let_def st1)
      qed
    qed
  qed
qed

lemma loop_sums:
  assumes "\<And>e. e \<in> set evs \<Longrightarrow> readable e" and "foldR loop_body evs ([], cache, Fin 0) = Inr (seen, cache', acc)"
  shows "set seen = fst ` set (first_signatures sig evs) \<and>
    (\<exists>ws. mapR (\<lambda>(n, t). weight_in cfg es cache n t) (counted (first_signatures sig evs)) = Inr ws \<and>
       acc = fsum ws \<and>
       (\<forall>n. dict_get cache' n = (case dict_get cache n of Some w \<Rightarrow> Some w
          | None \<Rightarrow> map_of (zip (map fst (counted (first_signatures sig evs))) ws) n)))"
proof -
  have "distinct (map fst (counted (first_signatures sig evs)))"
    by (intro counted_distinct) (simp add: first_signatures_def distinct_nub_fst)
  moreover have "set seen = fst ` set (first_signatures sig evs) \<and>
      foldR (sum_step cfg es) (counted (first_signatures sig evs)) (cache, Fin 0) = Inr (cache', acc)"
    using loop_from [OF assms(1) assms(2)] by (simp add: Let_def)
  ultimately show ?thesis using sum_steps by (fastforce simp: fsum_def)
qed

end

lemma weight_in_nothing [simp]: "weight_in cfg es [] n t = compute_oracle_rep_active cfg n (map VDict es) t"
  by (simp add: weight_in_def dict_get_def)

lemma map_of_zip_mapR:
  "mapR f ps = Inr ws \<Longrightarrow> map_of (zip (map fst ps) ws) n =
     (case map_of ps n of None \<Rightarrow> None | Some u \<Rightarrow> Some (projr (f (n, u))))"
  by (induction ps arbitrary: ws) (auto simp: rbind_Inr_iff)

lemma mapR_map_of: "mapR f ps = Inr ws \<Longrightarrow> map_of ps n = Some u \<Longrightarrow> returns (f (n, u))"
  by (induction ps arbitrary: ws) (auto simp: rbind_Inr_iff returns_def split: if_splits)

text \<open>
  The time a voter is weighed at: the time of its counted signature if it signed (its weight is still
  in the cache), else the time of its vote.
\<close>

definition weighing_time :: "(string \<times> pyfloat) list \<Rightarrow> string \<Rightarrow> pyfloat \<Rightarrow> pyfloat" where
  "weighing_time sigs n t = get_or (map_of sigs n) t"

definition active_weights :: "config \<Rightarrow> event list \<Rightarrow> (string \<times> pyfloat) list \<Rightarrow> pyfloat list res" where
  "active_weights cfg es ps = mapR (\<lambda>(n, t). compute_oracle_rep_active cfg n (map VDict es) t) ps"

lemma weight_after:
  assumes "mapR (\<lambda>(n, t). weight_in cfg es cache n t) sigs = Inr ws"
    and "\<forall>n. dict_get cache' n = (case dict_get cache n of Some w \<Rightarrow> Some w
           | None \<Rightarrow> map_of (zip (map fst sigs) ws) n)"
  shows "weight_in cfg es cache' n t = weight_in cfg es cache n (weighing_time sigs n t)"
proof (cases "dict_get cache n")
  case None
  show ?thesis
  proof (cases "map_of sigs n")
    case (Some u)
    with mapR_map_of [OF assms(1)] None have "returns (compute_oracle_rep_active cfg n (map VDict es) u)"
      by (fastforce simp: weight_in_def)
    then show ?thesis using assms None Some
      by (auto simp: weight_in_def weighing_time_def map_of_zip_mapR returns_iff)
  qed (use assms None in \<open>simp add: weight_in_def weighing_time_def map_of_zip_mapR\<close>)
qed (use assms in \<open>simp add: weight_in_def\<close>)

lemma cached_weights:
  assumes "active_weights cfg es sigs = Inr ws"
    and "\<forall>n. dict_get cache n = map_of (zip (map fst sigs) ws) n"
  shows "weight_in cfg es cache n t = compute_oracle_rep_active cfg n (map VDict es) (weighing_time sigs n t)"
  using weight_after [of cfg es "[]" sigs ws cache n t] assms by (simp add: active_weights_def)

lemma mapR_map: "mapR f (map g xs) = mapR (\<lambda>x. f (g x)) xs"
  by (induction xs) auto

text \<open>Sorted events have readable times: the sort key was computed for each of them.\<close>

lemma order_key_readable: "order_key e = Inr k \<Longrightarrow> returns (event_ts e)"
  by (auto simp: order_key_def res_simps returns_iff)

lemma chain_sort_readable:
  assumes "chain_sort evs = Inr vs" and "e \<in> set vs"
  shows "returns (event_ts e)"
proof -
  obtain ks where "mapR order_key evs = Inr ks"
    using assms(1) by (auto simp: chain_sort_def sort_onR_def res_simps)
  moreover have "e \<in> set evs" using assms chain_sort_set by blast
  ultimately have "order_key e = Inr (projr (order_key e))" by (blast dest: mapR_projr)
  then show ?thesis by (rule order_key_readable)
qed

end
