(* ===== verification/Petitions.thy ===== *)
theory Petitions
  imports Governance_Weights
begin

section \<open>Petitions and constitutional challenges\<close>

text \<open>
  Models \<open>services/infonet/governance/petition.py\<close> and \<open>challenge.py\<close>: the state of a petition as
  a function of the chain and the evaluation time, the challenge against it, and the two filing
  checks.
\<close>

subsection \<open>challenge.py\<close>

datatype challenge_outcome = NO_CHALLENGE | CHALLENGE_PENDING | CHALLENGE_VOIDED | CHALLENGE_REJECTED

record challenge_state =
  ch_petition :: string
  ch_filed :: bool
  ch_filer :: "string option"
  ch_filed_at :: "pyfloat option"
  ch_deadline :: "pyfloat option"
  ch_uphold :: pyfloat
  ch_void :: pyfloat
  ch_outcome :: challenge_outcome

definition petition_events :: "string \<Rightarrow> event list \<Rightarrow> event list" where
  "petition_events pid es = filter (\<lambda>e. eget (payload e) ''petition_id'' = VStr pid) es"

definition node_name :: "event \<Rightarrow> string" where
  "node_name e = py_str (py_or (eget e ''node_id'') (VStr []))"

definition challenge_vote_step ::
  "config \<Rightarrow> event list \<Rightarrow> pyfloat \<Rightarrow> pyfloat \<Rightarrow> event \<Rightarrow> ballot_box \<Rightarrow> ballot_box res" where
  "challenge_vote_step cfg es filed_at deadline e b =
     (case nonempty_str (eget e ''node_id'') of
        None \<Rightarrow> Inr b
      | Some voter \<Rightarrow>
          if dict_has (bx_seen b) voter then Inr b
          else rbind (event_ts e) (\<lambda>ts.
            if flt ts filed_at \<or> flt deadline ts then Inr b
            else let vote = eget (payload e) ''vote'' in
              if vote \<noteq> VStr ''uphold'' \<and> vote \<noteq> VStr ''void'' then Inr b
              else cast_vote cfg es ''uphold'' voter (py_str vote) ts b))"

definition compute_challenge_state :: "config \<Rightarrow> string \<Rightarrow> chain \<Rightarrow> pyfloat \<Rightarrow> challenge_state res" where
  "compute_challenge_state cfg pid c now =
     (let es = dict_events c; mine = petition_events pid es in
      case List.find (\<lambda>e. etype e ''challenge_file'') mine of
        None \<Rightarrow> Inr \<lparr>ch_petition = pid, ch_filed = False, ch_filer = None, ch_filed_at = None,
                    ch_deadline = None, ch_uphold = Fin 0, ch_void = Fin 0, ch_outcome = NO_CHALLENGE\<rparr>
      | Some file \<Rightarrow>
          rbind (event_ts file) (\<lambda>filed_at.
          rbind (cfg_float cfg ''challenge_window_hours'') (\<lambda>hours.
          let deadline = fadd filed_at (fmul hours HOUR_S) in
          rbind (chain_sort (filter (\<lambda>e. etype e ''challenge_vote'') mine)) (\<lambda>votes.
          rbind (foldR (challenge_vote_step cfg es filed_at deadline) votes (empty_box [])) (\<lambda>b.
          Inr \<lparr>ch_petition = pid, ch_filed = True, ch_filer = Some (node_name file),
               ch_filed_at = Some filed_at, ch_deadline = Some deadline,
               ch_uphold = bx_for b, ch_void = bx_against b,
               ch_outcome = (if fle now deadline then CHALLENGE_PENDING
                             else if flt (bx_against b) (bx_for b) then CHALLENGE_VOIDED
                             else CHALLENGE_REJECTED)\<rparr>)))))"

datatype filing_reason =
    FilingOk
  | InsufficientCommonRep
  | ChallengeAlreadyFiled
  | PayloadNotObject
  | PayloadMissingType

record filing_validation =
  fv_accepted :: bool
  fv_reason :: filing_reason

definition filing :: "filing_reason \<Rightarrow> filing_validation" where
  "filing r = \<lparr>fv_accepted = (r = FilingOk), fv_reason = r\<rparr>"

definition validate_challenge_filing ::
  "config \<Rightarrow> pyfloat \<Rightarrow> string \<Rightarrow> chain \<Rightarrow> pyfloat \<Rightarrow> filing_validation res" where
  "validate_challenge_filing cfg filer_rep pid c now =
     rbind (cfg_float cfg ''challenge_filing_cost'') (\<lambda>cost.
     if flt filer_rep cost then Inr (filing InsufficientCommonRep)
     else rbind (compute_challenge_state cfg pid c now) (\<lambda>st.
       Inr (filing (if ch_filed st then ChallengeAlreadyFiled else FilingOk))))"

subsection \<open>petition.py: the state\<close>

datatype proposal_status =
    NOT_FOUND | SIGNATURES | VOTING | CHALLENGE | PASSED | EXECUTED
  | FAILED_SIGNATURES | FAILED_VOTE | VOIDED_CHALLENGE
  | ACTIVATION | ACTIVATED | FAILED_ACTIVATION

record petition_state =
  pt_id :: string
  pt_status :: proposal_status
  pt_filer :: string
  pt_filed_at :: pyfloat
  pt_payload :: "(pyval \<times> pyval) list"
  pt_signature_weight :: pyfloat
  pt_signature_threshold :: pyfloat
  pt_for_weight :: pyfloat
  pt_against_weight :: pyfloat
  pt_voting_started :: "pyfloat option"
  pt_voting_deadline :: "pyfloat option"
  pt_challenge_until :: "pyfloat option"

text \<open>
  \<open>dict(x or {})\<close>: of a mapping, or of a sequence of two-element sequences; keys equal as numbers
  are one key.
\<close>

definition same_key :: "pyval \<Rightarrow> pyval \<Rightarrow> bool" where
  "same_key a b =
     (case (num_of a, num_of b) of (Some x, Some y) \<Rightarrow> feq x y | _ \<Rightarrow> a = b)"

fun put_pair :: "pyval \<times> pyval \<Rightarrow> (pyval \<times> pyval) list \<Rightarrow> (pyval \<times> pyval) list" where
  "put_pair kv [] = [kv]"
| "put_pair kv (p # d) =
     (if same_key (fst kv) (fst p) then (fst p, snd kv) # d else p # put_pair kv d)"

fun pair_of :: "pyval \<Rightarrow> (pyval \<times> pyval) res" where
  "pair_of (VStr s) = (case s of [a, b] \<Rightarrow> Inr (VStr [a], VStr [b]) | _ \<Rightarrow> Inl ValueError)"
| "pair_of (VList vs) =
     (case vs of [k, v] \<Rightarrow> if hashable k then Inr (k, v) else Inl TypeError | _ \<Rightarrow> Inl ValueError)"
| "pair_of (VDict d) =
     (case d of [(k, _), (l, _)] \<Rightarrow> Inr (VStr k, VStr l) | _ \<Rightarrow> Inl ValueError)"
| "pair_of _ = Inl TypeError"

definition py_dict :: "pyval \<Rightarrow> (pyval \<times> pyval) list res" where
  "py_dict v =
     (if \<not> truthy v then Inr []
      else case v of
        VDict d \<Rightarrow> Inr (map (\<lambda>(k, x). (VStr k, x)) d)
      | VList vs \<Rightarrow> foldR (\<lambda>x d. rbind (pair_of x) (\<lambda>kv. Inr (put_pair kv d))) vs []
      | VStr _ \<Rightarrow> Inl ValueError
      | _ \<Rightarrow> Inl TypeError)"

subsection \<open>petition.py: signatures\<close>

text \<open>The variables of the signature loop are \<open>seen_signers\<close>, the weight cache and the sum.\<close>

definition petition_sign_step ::
  "config \<Rightarrow> event list \<Rightarrow> pyfloat \<Rightarrow> event \<Rightarrow> sign_sum \<Rightarrow> sign_sum res" where
  "petition_sign_step cfg es closes e st =
     (case st of (seen, cache, acc) \<Rightarrow>
        (case nonempty_str (eget e ''node_id'') of
           None \<Rightarrow> Inr st
         | Some signer \<Rightarrow>
             if signer \<in> set seen then Inr st
             else rbind (event_ts e) (\<lambda>ts.
               if flt closes ts then Inr (signer # seen, cache, acc)
               else rbind (governance_weight_provider cfg es signer ts cache) (\<lambda>(w, cache').
                 Inr (signer # seen, cache', fadd acc w)))))"

text \<open>
  The \<open>max\<close> over all signature events of a signer that was seen, in chain order, also those after
  the window closed; an unhashable \<open>node_id\<close> raises in the membership test.
\<close>

definition latest_step :: "string list \<Rightarrow> event \<Rightarrow> pyfloat option \<Rightarrow> pyfloat option res" where
  "latest_step seen e best =
     (let n = eget e ''node_id'' in
      if \<not> hashable n then Inl TypeError
      else if n \<in> VStr ` set seen then rbind (event_ts e) (\<lambda>ts. Inr (later best ts))
      else Inr best)"

definition latest_signature_ts :: "string list \<Rightarrow> pyfloat \<Rightarrow> event list \<Rightarrow> pyfloat res" where
  "latest_signature_ts seen filed_at signs =
     rbind (foldR (latest_step seen) signs None) (\<lambda>best. Inr (get_or best filed_at))"

subsection \<open>petition.py: votes\<close>

definition petition_vote_step ::
  "config \<Rightarrow> event list \<Rightarrow> pyfloat \<Rightarrow> pyfloat \<Rightarrow> event \<Rightarrow> ballot_box \<Rightarrow> ballot_box res" where
  "petition_vote_step cfg es started deadline e b =
     (case nonempty_str (eget e ''node_id'') of
        None \<Rightarrow> Inr b
      | Some voter \<Rightarrow>
          if dict_has (bx_seen b) voter then Inr b
          else rbind (event_ts e) (\<lambda>ts.
            if flt ts started then Inr b
            else if flt deadline ts then Inr b
            else let vote = eget (payload e) ''vote'' in
              if vote \<noteq> VStr ''for'' \<and> vote \<noteq> VStr ''against'' then Inr b
              else cast_vote cfg es ''for'' voter (py_str vote) ts b))"

text \<open>The tally after the deadline: quorum of the network weight, then the share of the for votes.\<close>

definition vote_passes ::
  "config \<Rightarrow> string \<Rightarrow> string \<Rightarrow> pyfloat \<Rightarrow> pyfloat \<Rightarrow> pyfloat \<Rightarrow> bool res" where
  "vote_passes cfg quorum_key majority_key network votes_for votes_against =
     (let participating = fadd votes_for votes_against in
      rbind (cfg_float cfg quorum_key) (\<lambda>quorum.
      if flt participating (fmul network quorum) then Inr False
      else if participating = Fin 0 then Inr False
      else rbind (fdiv votes_for participating) (\<lambda>share.
        rbind (cfg_float cfg majority_key) (\<lambda>majority. Inr (\<not> flt share majority)))))"

subsection \<open>petition.py: the phases\<close>

text \<open>After a passed vote: the challenge window, then the outcome of the challenge.\<close>

definition petition_challenge_phase ::
  "config \<Rightarrow> string \<Rightarrow> event list \<Rightarrow> pyfloat \<Rightarrow> pyfloat \<Rightarrow> petition_state \<Rightarrow> petition_state res" where
  "petition_challenge_phase cfg pid es deadline now st =
     rbind (cfg_float cfg ''challenge_window_hours'') (\<lambda>hours.
     let until = fadd (if deadline = Fin 0 then pt_filed_at st else deadline) (fmul hours HOUR_S);
         st' = st\<lparr>pt_status := CHALLENGE, pt_challenge_until := Some until\<rparr> in
     rbind (compute_challenge_state cfg pid (map VDict es) now) (\<lambda>ch.
     Inr (if ch_outcome ch = CHALLENGE_VOIDED then st'\<lparr>pt_status := VOIDED_CHALLENGE\<rparr>
          else if fle now until then st'
          else st'\<lparr>pt_status := (if \<exists>e \<in> set (petition_events pid es). etype e ''petition_execute''
                               then EXECUTED else PASSED)\<rparr>)))"

definition petition_voting_phase ::
  "config \<Rightarrow> string \<Rightarrow> event list \<Rightarrow> pyfloat \<Rightarrow> weights \<Rightarrow> pyfloat \<Rightarrow> pyfloat \<Rightarrow> petition_state \<Rightarrow> petition_state res" where
  "petition_voting_phase cfg pid es network cache started now st =
     rbind (cfg_float cfg ''petition_vote_window_days'') (\<lambda>days.
     let deadline = fadd started (fmul days DAY_S) in
     rbind (chain_sort (filter (\<lambda>e. etype e ''petition_vote'') (petition_events pid es))) (\<lambda>votes.
     rbind (foldR (petition_vote_step cfg es started deadline) votes (empty_box cache)) (\<lambda>b.
     let st' = st\<lparr>pt_status := VOTING, pt_voting_started := Some started,
                  pt_voting_deadline := Some deadline,
                  pt_for_weight := bx_for b, pt_against_weight := bx_against b\<rparr> in
     if fle now deadline then Inr st'
     else rbind (vote_passes cfg ''petition_quorum'' ''petition_supermajority'' network (bx_for b) (bx_against b))
       (\<lambda>ok. if ok then petition_challenge_phase cfg pid es deadline now st'
             else Inr (st'\<lparr>pt_status := FAILED_VOTE\<rparr>)))))"

definition new_petition :: "string \<Rightarrow> event \<Rightarrow> petition_state res" where
  "new_petition pid file =
     rbind (event_ts file) (\<lambda>filed_at.
     rbind (py_dict (eget (payload file) ''petition_payload'')) (\<lambda>pl.
     Inr \<lparr>pt_id = pid, pt_status = SIGNATURES, pt_filer = node_name file, pt_filed_at = filed_at,
          pt_payload = pl, pt_signature_weight = Fin 0, pt_signature_threshold = Fin 0,
          pt_for_weight = Fin 0, pt_against_weight = Fin 0, pt_voting_started = None,
          pt_voting_deadline = None, pt_challenge_until = None\<rparr>))"

definition petition_not_found :: "string \<Rightarrow> petition_state" where
  "petition_not_found pid =
     \<lparr>pt_id = pid, pt_status = NOT_FOUND, pt_filer = [], pt_filed_at = Fin 0, pt_payload = [],
      pt_signature_weight = Fin 0, pt_signature_threshold = Fin 0, pt_for_weight = Fin 0,
      pt_against_weight = Fin 0, pt_voting_started = None, pt_voting_deadline = None,
      pt_challenge_until = None\<rparr>"

definition compute_petition_state ::
  "(string list \<Rightarrow> string list) \<Rightarrow> config \<Rightarrow> string \<Rightarrow> chain \<Rightarrow> pyfloat \<Rightarrow> petition_state res" where
  "compute_petition_state ord cfg pid c now =
     (let es = dict_events c; mine = petition_events pid es;
          signs = filter (\<lambda>e. etype e ''petition_sign'') mine in
      case List.find (\<lambda>e. etype e ''petition_file'') mine of
        None \<Rightarrow> Inr (petition_not_found pid)
      | Some file \<Rightarrow>
          rbind (new_petition pid file) (\<lambda>st0.
          rbind (network_governance_weight ord cfg (map VDict es) now) (\<lambda>network.
          rbind (cfg_float cfg ''petition_signature_threshold'') (\<lambda>frac.
          rbind (cfg_float cfg ''petition_signature_window_days'') (\<lambda>days.
          let closes = fadd (pt_filed_at st0) (fmul days DAY_S) in
          rbind (chain_sort signs) (\<lambda>ordered.
          rbind (foldR (petition_sign_step cfg es closes) ordered ([], [], Fin 0)) (\<lambda>(seen, cache, acc).
          let st = st0\<lparr>pt_signature_threshold := fmul network frac, pt_signature_weight := acc\<rparr> in
          if fle (fmul network frac) acc \<and> flt (Fin 0) (fmul network frac)
          then rbind (latest_signature_ts seen (pt_filed_at st0) signs) (\<lambda>started.
                 petition_voting_phase cfg pid es network cache started now st)
          else Inr (st\<lparr>pt_status := (if flt closes now then FAILED_SIGNATURES else SIGNATURES)\<rparr>))))))))"

definition validate_petition_filing :: "config \<Rightarrow> pyfloat \<Rightarrow> pyval \<Rightarrow> filing_validation res" where
  "validate_petition_filing cfg filer_rep pl =
     rbind (cfg_float cfg ''petition_filing_cost'') (\<lambda>cost.
     Inr (filing
       (if flt filer_rep cost then InsufficientCommonRep
        else case pl of VDict d \<Rightarrow> if map_of d ''type'' = None then PayloadMissingType else FilingOk
                      | _ \<Rightarrow> PayloadNotObject)))"

subsection \<open>The signature loop\<close>

text \<open>The first signature of a node marks it as seen; it counts only before the window closes.\<close>

definition petition_sig :: "pyfloat \<Rightarrow> event \<Rightarrow> (string \<times> pyfloat option) option" where
  "petition_sig closes e =
     (case (nonempty_str (eget e ''node_id''), event_ts e) of
        (Some n, Inr t) \<Rightarrow> Some (n, if flt closes t then None else Some t)
      | _ \<Rightarrow> None)"

interpretation petition_signatures: sign_loop cfg es "petition_sign_step cfg es closes"
  "petition_sig closes" "\<lambda>e. returns (event_ts e)" for cfg es closes
proof
  fix e seen st assume "returns (event_ts e)"
  then obtain t where t: "event_ts e = Inr t" by (auto simp: returns_iff)
  show "petition_sign_step cfg es closes e (seen, st) =
    (case petition_sig closes e of
       None \<Rightarrow> Inr (seen, st)
     | Some (n, time) \<Rightarrow>
         if n \<in> set seen then Inr (seen, st)
         else (case time of
                 None \<Rightarrow> Inr (n # seen, st)
               | Some t \<Rightarrow> rbind (sum_step cfg es (n, t) st) (\<lambda>st. Inr (n # seen, st))))"
    by (cases st) (auto simp: petition_sign_step_def petition_sig_def sum_step_def t rbind_assoc split_beta
        split: option.splits intro: rbind_cong)
qed

subsection \<open>The vote loops count one ballot per node\<close>

interpretation petition_votes: vote_loop cfg es "''for''" "petition_vote_step cfg es started deadline"
  "ballot_of nonempty_str [''for'', ''against''] (window started deadline)" "\<lambda>e. returns (event_ts e)"
  for cfg es started deadline
proof
  fix e b assume "returns (event_ts e)"
  then obtain t where t: "event_ts e = Inr t" by (auto simp: returns_iff)
  show "petition_vote_step cfg es started deadline e b =
    (case ballot_of nonempty_str [''for'', ''against''] (window started deadline) e of
       None \<Rightarrow> Inr b
     | Some (voter, vote, u) \<Rightarrow>
         if dict_has (bx_seen b) voter then Inr b else cast_vote cfg es ''for'' voter vote u b)"
    by (cases "eget (payload e) ''vote''")
      (auto simp: petition_vote_step_def ballot_of_def window_def t py_str_def Let_def split: option.splits)
qed

interpretation challenge_votes: vote_loop cfg es "''uphold''" "challenge_vote_step cfg es filed_at deadline"
  "ballot_of nonempty_str [''uphold'', ''void''] (window filed_at deadline)" "\<lambda>e. returns (event_ts e)"
  for cfg es filed_at deadline
proof
  fix e b assume "returns (event_ts e)"
  then obtain t where t: "event_ts e = Inr t" by (auto simp: returns_iff)
  show "challenge_vote_step cfg es filed_at deadline e b =
    (case ballot_of nonempty_str [''uphold'', ''void''] (window filed_at deadline) e of
       None \<Rightarrow> Inr b
     | Some (voter, vote, u) \<Rightarrow>
         if dict_has (bx_seen b) voter then Inr b else cast_vote cfg es ''uphold'' voter vote u b)"
    by (cases "eget (payload e) ''vote''")
      (auto simp: challenge_vote_step_def ballot_of_def window_def t py_str_def Let_def split: option.splits)
qed

subsection \<open>Windows and tallies\<close>

text \<open>The end of a window that opens at \<open>t\<close>; a missing or unreadable key gives NaN.\<close>

definition window_end_of :: "config \<Rightarrow> string \<Rightarrow> pyfloat \<Rightarrow> pyfloat \<Rightarrow> pyfloat" where
  "window_end_of cfg key u t = (case cfg_float cfg key of Inr x \<Rightarrow> fadd t (fmul x u) | Inl _ \<Rightarrow> NaN)"

lemma vote_passes_True:
  assumes "vote_passes cfg qk mk network f a = Inr True"
  shows "\<exists>quorum majority share. cfg_float cfg qk = Inr quorum \<and> \<not> flt (fadd f a) (fmul network quorum) \<and>
    cfg_float cfg mk = Inr majority \<and> fdiv f (fadd f a) = Inr share \<and> \<not> flt share majority"
  using assms by (auto simp: vote_passes_def rbind_Inr_iff Let_def split: if_splits)

end
