(* ===== verification/Upgrades.thy ===== *)
theory Upgrades
  imports Petitions
begin

section \<open>Upgrade-hash governance\<close>

text \<open>
  Models \<open>services/infonet/governance/upgrade_hash.py\<close>: the state of an upgrade proposal as a
  function of the chain, the time and the set of Heavy Nodes the caller knows, and the filing check.
  The set of Heavy Nodes is a list whose duplicates do not count.
\<close>

record heavy_readiness =
  hr_total :: int
  hr_ready :: int
  hr_fraction :: pyfloat
  hr_threshold_met :: bool

record upgrade_state =
  up_id :: string
  up_status :: proposal_status
  up_proposer :: string
  up_filed_at :: pyfloat
  up_release_hash :: string
  up_target_version :: string
  up_signature_weight :: pyfloat
  up_for_weight :: pyfloat
  up_against_weight :: pyfloat
  up_voting_started :: "pyfloat option"
  up_voting_deadline :: "pyfloat option"
  up_challenge_until :: "pyfloat option"
  up_activation_deadline :: "pyfloat option"
  up_readiness :: heavy_readiness

definition no_readiness :: heavy_readiness where
  "no_readiness = \<lparr>hr_total = 0, hr_ready = 0, hr_fraction = Fin 0, hr_threshold_met = False\<rparr>"

text \<open>Here any string may sign and vote, the empty one too.\<close>

definition any_str :: "pyval \<Rightarrow> string option" where
  "any_str v = (case v of VStr s \<Rightarrow> Some s | _ \<Rightarrow> None)"

definition proposal_events :: "string \<Rightarrow> event list \<Rightarrow> event list" where
  "proposal_events pid es = filter (\<lambda>e. eget (payload e) ''proposal_id'' = VStr pid) es"

subsection \<open>The loops\<close>

definition upgrade_sign_step ::
  "config \<Rightarrow> event list \<Rightarrow> pyfloat \<Rightarrow> event \<Rightarrow> sign_sum \<Rightarrow> sign_sum res" where
  "upgrade_sign_step cfg es closes e st =
     (case st of (seen, cache, acc) \<Rightarrow>
        (case any_str (eget e ''node_id'') of
           None \<Rightarrow> Inr st
         | Some signer \<Rightarrow>
             if signer \<in> set seen then Inr st
             else rbind (event_ts e) (\<lambda>ts.
               if flt closes ts then Inr st
               else rbind (governance_weight_provider cfg es signer ts cache) (\<lambda>(w, cache').
                 Inr (signer # seen, cache', fadd acc w)))))"

definition upgrade_vote_step ::
  "config \<Rightarrow> event list \<Rightarrow> pyfloat \<Rightarrow> pyfloat \<Rightarrow> event \<Rightarrow> ballot_box \<Rightarrow> ballot_box res" where
  "upgrade_vote_step cfg es started deadline e b =
     (case any_str (eget e ''node_id'') of
        None \<Rightarrow> Inr b
      | Some voter \<Rightarrow>
          if dict_has (bx_seen b) voter then Inr b
          else rbind (event_ts e) (\<lambda>ts.
            if flt ts started then Inr b
            else if flt deadline ts then Inr b
            else let vote = eget (payload e) ''vote'' in
              if vote \<noteq> VStr ''for'' \<and> vote \<noteq> VStr ''against'' then Inr b
              else cast_vote cfg es ''for'' voter (py_str vote) ts b))"

definition upgrade_challenge_step ::
  "config \<Rightarrow> event list \<Rightarrow> event \<Rightarrow> pyfloat \<Rightarrow> event \<Rightarrow> ballot_box \<Rightarrow> ballot_box res" where
  "upgrade_challenge_step cfg es challenge until e b =
     (case any_str (eget e ''node_id'') of
        None \<Rightarrow> Inr b
      | Some voter \<Rightarrow>
          if dict_has (bx_seen b) voter then Inr b
          else rbind (event_ts e) (\<lambda>ts. rbind (event_ts challenge) (\<lambda>challenge_at.
            if flt ts challenge_at \<or> flt until ts then Inr b
            else let vote = eget (payload e) ''vote'' in
              if vote \<noteq> VStr ''uphold'' \<and> vote \<noteq> VStr ''void'' then Inr b
              else cast_vote cfg es ''uphold'' voter (py_str vote) ts b)))"

subsection \<open>The phases\<close>

text \<open>A Heavy Node is ready when it signalled the release hash of the proposal.\<close>

definition ready_step :: "string list \<Rightarrow> string \<Rightarrow> event \<Rightarrow> string list \<Rightarrow> string list" where
  "ready_step heavy release_hash e seen =
     (case any_str (eget e ''node_id'') of
        None \<Rightarrow> seen
      | Some n \<Rightarrow>
          if n \<in> set seen \<or> n \<notin> set heavy \<or> eget (payload e) ''release_hash'' \<noteq> VStr release_hash
          then seen else n # seen)"

definition heavy_node_readiness ::
  "config \<Rightarrow> string list \<Rightarrow> string \<Rightarrow> event list \<Rightarrow> heavy_readiness res" where
  "heavy_node_readiness cfg heavy release_hash signals =
     (let ready = int (length (fold (ready_step heavy release_hash) signals []));
          total_heavy = int (length (remdups heavy)) in
      rbind (if heavy = [] then Inr (Fin 0) else int_div ready (max total_heavy 1)) (\<lambda>fraction.
      rbind (cfg_float cfg ''upgrade_activation_threshold'') (\<lambda>threshold.
      Inr \<lparr>hr_total = total_heavy, hr_ready = ready, hr_fraction = fraction,
           hr_threshold_met = fle threshold fraction\<rparr>)))"

definition upgrade_activation_phase ::
  "config \<Rightarrow> event list \<Rightarrow> string list \<Rightarrow> pyfloat \<Rightarrow> pyfloat \<Rightarrow> upgrade_state \<Rightarrow> upgrade_state res" where
  "upgrade_activation_phase cfg mine heavy until now st =
     rbind (cfg_float cfg ''upgrade_activation_window_days'') (\<lambda>days.
     let deadline = fadd (if until = Fin 0 then up_filed_at st else until) (fmul days DAY_S) in
     rbind (heavy_node_readiness cfg heavy (up_release_hash st)
              (filter (\<lambda>e. etype e ''upgrade_signal_ready'') mine)) (\<lambda>r.
     let st' = st\<lparr>up_status := ACTIVATION, up_activation_deadline := Some deadline, up_readiness := r\<rparr> in
     Inr (if \<exists>e \<in> set mine. etype e ''upgrade_activate'' then st'\<lparr>up_status := ACTIVATED\<rparr>
          else if hr_threshold_met r then st'
          else if flt deadline now then st'\<lparr>up_status := FAILED_ACTIVATION\<rparr>
          else st')))"

definition upgrade_challenge_phase ::
  "config \<Rightarrow> event list \<Rightarrow> event list \<Rightarrow> string list \<Rightarrow> weights \<Rightarrow> pyfloat \<Rightarrow> pyfloat \<Rightarrow> upgrade_state \<Rightarrow> upgrade_state res" where
  "upgrade_challenge_phase cfg es mine heavy cache deadline now st =
     rbind (cfg_float cfg ''upgrade_challenge_window_hours'') (\<lambda>hours.
     let until = fadd (if deadline = Fin 0 then up_filed_at st else deadline) (fmul hours HOUR_S);
         st' = st\<lparr>up_status := CHALLENGE, up_challenge_until := Some until\<rparr> in
     rbind (case List.find (\<lambda>e. etype e ''upgrade_challenge'') mine of
              None \<Rightarrow> Inr False
            | Some challenge \<Rightarrow>
                rbind (chain_sort (filter (\<lambda>e. etype e ''upgrade_challenge_vote'') mine)) (\<lambda>votes.
                rbind (foldR (upgrade_challenge_step cfg es challenge until) votes (empty_box cache)) (\<lambda>b.
                Inr (flt until now \<and> flt (bx_against b) (bx_for b))))) (\<lambda>voided.
     if voided then Inr (st'\<lparr>up_status := VOIDED_CHALLENGE\<rparr>)
     else if fle now until then Inr st'
     else upgrade_activation_phase cfg mine heavy until now st'))"

definition upgrade_voting_phase ::
  "config \<Rightarrow> event list \<Rightarrow> event list \<Rightarrow> string list \<Rightarrow> pyfloat \<Rightarrow> weights \<Rightarrow> pyfloat \<Rightarrow> pyfloat \<Rightarrow> upgrade_state \<Rightarrow> upgrade_state res" where
  "upgrade_voting_phase cfg es mine heavy network cache started now st =
     rbind (cfg_float cfg ''upgrade_vote_window_days'') (\<lambda>days.
     let deadline = fadd started (fmul days DAY_S) in
     rbind (chain_sort (filter (\<lambda>e. etype e ''upgrade_vote'') mine)) (\<lambda>votes.
     rbind (foldR (upgrade_vote_step cfg es started deadline) votes (empty_box cache)) (\<lambda>b.
     let st' = st\<lparr>up_status := VOTING, up_voting_started := Some started,
                  up_voting_deadline := Some deadline,
                  up_for_weight := bx_for b, up_against_weight := bx_against b\<rparr> in
     if fle now deadline then Inr st'
     else rbind (vote_passes cfg ''upgrade_quorum'' ''upgrade_supermajority'' network (bx_for b) (bx_against b))
       (\<lambda>ok. if ok then upgrade_challenge_phase cfg es mine heavy (bx_cache b) deadline now st'
             else Inr (st'\<lparr>up_status := FAILED_VOTE\<rparr>)))))"

definition new_upgrade :: "string \<Rightarrow> event \<Rightarrow> upgrade_state res" where
  "new_upgrade pid propose =
     rbind (event_ts propose) (\<lambda>filed_at.
     Inr \<lparr>up_id = pid, up_status = SIGNATURES, up_proposer = node_name propose, up_filed_at = filed_at,
          up_release_hash = py_str (py_or (eget (payload propose) ''release_hash'') (VStr [])),
          up_target_version = py_str (py_or (eget (payload propose) ''target_protocol_version'') (VStr [])),
          up_signature_weight = Fin 0, up_for_weight = Fin 0, up_against_weight = Fin 0,
          up_voting_started = None, up_voting_deadline = None, up_challenge_until = None,
          up_activation_deadline = None, up_readiness = no_readiness\<rparr>)"

definition upgrade_not_found :: "string \<Rightarrow> upgrade_state" where
  "upgrade_not_found pid =
     \<lparr>up_id = pid, up_status = NOT_FOUND, up_proposer = [], up_filed_at = Fin 0, up_release_hash = [],
      up_target_version = [], up_signature_weight = Fin 0, up_for_weight = Fin 0,
      up_against_weight = Fin 0, up_voting_started = None, up_voting_deadline = None,
      up_challenge_until = None, up_activation_deadline = None, up_readiness = no_readiness\<rparr>"

text \<open>The network weight fills the cache that the signatures and votes then read.\<close>

definition compute_upgrade_state ::
  "(string list \<Rightarrow> string list) \<Rightarrow> config \<Rightarrow> string \<Rightarrow> chain \<Rightarrow> pyfloat \<Rightarrow> string list \<Rightarrow> upgrade_state res" where
  "compute_upgrade_state ord cfg pid c now heavy =
     (let es = dict_events c; mine = proposal_events pid es;
          signs = filter (\<lambda>e. etype e ''upgrade_sign'') mine in
      case List.find (\<lambda>e. etype e ''upgrade_propose'') mine of
        None \<Rightarrow> Inr (upgrade_not_found pid)
      | Some propose \<Rightarrow>
          rbind (new_upgrade pid propose) (\<lambda>st0.
          rbind (foldR (add_weight cfg es now) (ord (acting_nodes es)) (Fin 0, [])) (\<lambda>(network, cache0).
          rbind (cfg_float cfg ''upgrade_signature_threshold'') (\<lambda>frac.
          rbind (cfg_float cfg ''upgrade_signature_window_days'') (\<lambda>days.
          let closes = fadd (up_filed_at st0) (fmul days DAY_S) in
          rbind (chain_sort signs) (\<lambda>ordered.
          rbind (foldR (upgrade_sign_step cfg es closes) ordered ([], cache0, Fin 0)) (\<lambda>(seen, cache, acc).
          let st = st0\<lparr>up_signature_weight := acc\<rparr> in
          if fle (fmul network frac) acc \<and> flt (Fin 0) (fmul network frac)
          then rbind (latest_signature_ts seen (up_filed_at st0) signs) (\<lambda>started.
                 upgrade_voting_phase cfg es mine heavy network cache started now st)
          else Inr (st\<lparr>up_status := (if flt closes now then FAILED_SIGNATURES else SIGNATURES)\<rparr>))))))))"

subsection \<open>The signature loop\<close>

text \<open>Here a signature after the window closed does not even mark the node as seen.\<close>

definition upgrade_sig :: "pyfloat \<Rightarrow> event \<Rightarrow> (string \<times> pyfloat option) option" where
  "upgrade_sig closes e =
     (case (any_str (eget e ''node_id''), event_ts e) of
        (Some n, Inr t) \<Rightarrow> if flt closes t then None else Some (n, Some t)
      | _ \<Rightarrow> None)"

interpretation upgrade_signatures: sign_loop cfg es "upgrade_sign_step cfg es closes"
  "upgrade_sig closes" "\<lambda>e. returns (event_ts e)" for cfg es closes
proof
  fix e seen st assume "returns (event_ts e)"
  then obtain t where t: "event_ts e = Inr t" by (auto simp: returns_iff)
  show "upgrade_sign_step cfg es closes e (seen, st) =
    (case upgrade_sig closes e of
       None \<Rightarrow> Inr (seen, st)
     | Some (n, time) \<Rightarrow>
         if n \<in> set seen then Inr (seen, st)
         else (case time of
                 None \<Rightarrow> Inr (n # seen, st)
               | Some t \<Rightarrow> rbind (sum_step cfg es (n, t) st) (\<lambda>st. Inr (n # seen, st))))"
    by (cases st) (auto simp: upgrade_sign_step_def upgrade_sig_def sum_step_def t rbind_assoc split_beta
        split: option.splits intro: rbind_cong)
qed

subsection \<open>The vote loops count one ballot per node\<close>

interpretation upgrade_votes: vote_loop cfg es "''for''" "upgrade_vote_step cfg es started deadline"
  "ballot_of any_str [''for'', ''against''] (window started deadline)" "\<lambda>e. returns (event_ts e)"
  for cfg es started deadline
proof
  fix e b assume "returns (event_ts e)"
  then obtain t where t: "event_ts e = Inr t" by (auto simp: returns_iff)
  show "upgrade_vote_step cfg es started deadline e b =
    (case ballot_of any_str [''for'', ''against''] (window started deadline) e of
       None \<Rightarrow> Inr b
     | Some (voter, vote, u) \<Rightarrow>
         if dict_has (bx_seen b) voter then Inr b else cast_vote cfg es ''for'' voter vote u b)"
    by (cases "eget (payload e) ''vote''")
      (auto simp: upgrade_vote_step_def ballot_of_def window_def t py_str_def Let_def split: option.splits)
qed

interpretation upgrade_challenge_votes: vote_loop cfg es "''uphold''"
  "upgrade_challenge_step cfg es challenge until"
  "ballot_of any_str [''uphold'', ''void''] (window (projr (event_ts challenge)) until)"
  "\<lambda>e. returns (event_ts e) \<and> returns (event_ts challenge)"
  for cfg es challenge until
proof
  fix e b assume "returns (event_ts e) \<and> returns (event_ts challenge)"
  then obtain t t' where t: "event_ts e = Inr t" "event_ts challenge = Inr t'" by (auto simp: returns_iff)
  show "upgrade_challenge_step cfg es challenge until e b =
    (case ballot_of any_str [''uphold'', ''void''] (window (projr (event_ts challenge)) until) e of
       None \<Rightarrow> Inr b
     | Some (voter, vote, u) \<Rightarrow>
         if dict_has (bx_seen b) voter then Inr b else cast_vote cfg es ''uphold'' voter vote u b)"
    by (cases "eget (payload e) ''vote''")
      (auto simp: upgrade_challenge_step_def ballot_of_def window_def t py_str_def Let_def split: option.splits)
qed

subsection \<open>Filing\<close>

datatype upgrade_reason =
    UpgradeOk
  | UpgradeInsufficientRep
  | ReleaseHashRequired
  | ReleaseDescriptionInvalid
  | TargetVersionRequired

record upgrade_validation =
  uv_accepted :: bool
  uv_reason :: upgrade_reason

definition validate_upgrade_proposal ::
  "config \<Rightarrow> pyfloat \<Rightarrow> pyval \<Rightarrow> pyval \<Rightarrow> pyval \<Rightarrow> upgrade_validation res" where
  "validate_upgrade_proposal cfg filer_rep release_hash description version =
     rbind (cfg_float cfg ''upgrade_filing_cost'') (\<lambda>cost.
     let r = (if flt filer_rep cost then UpgradeInsufficientRep
              else if \<not> nonblank_str release_hash then ReleaseHashRequired
              else if (case description of VStr s \<Rightarrow> 4000 < length s | _ \<Rightarrow> True) then ReleaseDescriptionInvalid
              else if \<not> nonblank_str version then TargetVersionRequired
              else UpgradeOk)
     in Inr \<lparr>uv_accepted = (r = UpgradeOk), uv_reason = r\<rparr>)"

end
