(* ===== verification/Petition_Claims.thy ===== *)
theory Petition_Claims
  imports Petitions Reputation_Claims
begin

section \<open>What the state of a petition promises\<close>

text \<open>
  Properties of \<open>governance/petition.py\<close> and \<open>challenge.py\<close>: whose weight counts and at which time,
  what a passed petition has behind it, and that every petition is settled once its windows are over.
\<close>

subsection \<open>The phases a returned state went through\<close>

definition petition_signs :: "string \<Rightarrow> event list \<Rightarrow> event list" where
  "petition_signs pid es = filter (\<lambda>e. etype e ''petition_sign'') (petition_events pid es)"

definition petition_votes_of :: "string \<Rightarrow> event list \<Rightarrow> event list" where
  "petition_votes_of pid es = filter (\<lambda>e. etype e ''petition_vote'') (petition_events pid es)"

definition signatures_close :: "config \<Rightarrow> petition_state \<Rightarrow> pyfloat" where
  "signatures_close cfg st = window_end_of cfg ''petition_signature_window_days'' DAY_S (pt_filed_at st)"

definition challenge_base :: "petition_state \<Rightarrow> pyfloat \<Rightarrow> pyfloat" where
  "challenge_base st deadline = (if deadline = Fin 0 then pt_filed_at st else deadline)"

text \<open>The status once the vote has passed.\<close>

definition status_after_vote :: "event list \<Rightarrow> challenge_state \<Rightarrow> pyfloat \<Rightarrow> pyfloat \<Rightarrow> proposal_status" where
  "status_after_vote mine ch until now =
     (if ch_outcome ch = CHALLENGE_VOIDED then VOIDED_CHALLENGE
      else if fle now until then CHALLENGE
      else if \<exists>e \<in> set mine. etype e ''petition_execute'' then EXECUTED else PASSED)"

lemma new_petition_fields:
  "new_petition pid file = Inr st \<Longrightarrow> pt_status st = SIGNATURES \<and> pt_voting_started st = None \<and>
     pt_voting_deadline st = None \<and> pt_challenge_until st = None"
  by (auto simp: new_petition_def rbind_Inr_iff)

lemma challenge_phase_fields:
  assumes "petition_challenge_phase cfg pid es deadline now st = Inr st'"
  shows "\<exists>ch until. until = window_end_of cfg ''challenge_window_hours'' HOUR_S (challenge_base st deadline) \<and>
     compute_challenge_state cfg pid (map VDict es) now = Inr ch \<and>
     pt_challenge_until st' = Some until \<and>
     pt_status st' =
       status_after_vote (petition_events pid es) ch until now \<and>
     pt_voting_started st' = pt_voting_started st \<and> pt_voting_deadline st' = pt_voting_deadline st \<and>
     pt_for_weight st' = pt_for_weight st \<and> pt_against_weight st' = pt_against_weight st \<and>
     pt_filed_at st' = pt_filed_at st \<and> pt_signature_weight st' = pt_signature_weight st \<and>
     pt_signature_threshold st' = pt_signature_threshold st"
  using assms by (auto simp: petition_challenge_phase_def rbind_Inr_iff window_end_of_def challenge_base_def
      status_after_vote_def Let_def)

text \<open>The votes counted for a petition whose voting started at \<open>lo\<close>.\<close>

definition petition_ballots :: "pyfloat \<Rightarrow> pyfloat \<Rightarrow> event list \<Rightarrow> ballot list" where
  "petition_ballots lo hi = first_ballots (ballot_of nonempty_str [''for'', ''against''] (window lo hi))"

text \<open>What the end of the voting phase makes of the tally.\<close>

definition voting_outcome ::
  "config \<Rightarrow> string \<Rightarrow> event list \<Rightarrow> pyfloat \<Rightarrow> pyfloat \<Rightarrow> pyfloat \<Rightarrow> petition_state \<Rightarrow> bool" where
  "voting_outcome cfg pid es network now hi st \<longleftrightarrow>
     (if fle now hi then pt_status st = VOTING
      else \<exists>ok. vote_passes cfg ''petition_quorum'' ''petition_supermajority'' network
                  (pt_for_weight st) (pt_against_weight st) = Inr ok \<and>
        (if ok then \<exists>ch until.
            until = window_end_of cfg ''challenge_window_hours'' HOUR_S (challenge_base st hi) \<and>
            compute_challenge_state cfg pid (map VDict es) now = Inr ch \<and>
            pt_challenge_until st = Some until \<and>
            pt_status st = status_after_vote (petition_events pid es) ch until now
         else pt_status st = FAILED_VOTE))"

lemma voting_phase_fields:
  assumes "petition_voting_phase cfg pid es network cache lo now st = Inr st'"
  shows "\<exists>hi votes b. hi = window_end_of cfg ''petition_vote_window_days'' DAY_S lo \<and>
     chain_sort (petition_votes_of pid es) = Inr votes \<and>
     count_ballots cfg es ''for'' (petition_ballots lo hi votes) (empty_box cache) = Inr b \<and>
     pt_voting_started st' = Some lo \<and> pt_voting_deadline st' = Some hi \<and>
     pt_for_weight st' = bx_for b \<and> pt_against_weight st' = bx_against b \<and>
     pt_filed_at st' = pt_filed_at st \<and> pt_signature_weight st' = pt_signature_weight st \<and>
     pt_signature_threshold st' = pt_signature_threshold st \<and>
     voting_outcome cfg pid es network now hi st'"
proof -
  from assms obtain days votes b where
    days: "cfg_float cfg ''petition_vote_window_days'' = Inr days"
    and votes: "chain_sort (petition_votes_of pid es) = Inr votes"
    and b: "foldR (petition_vote_step cfg es lo (fadd lo (fmul days DAY_S))) votes (empty_box cache) = Inr b"
    and rest: "(let hi = fadd lo (fmul days DAY_S);
          st1 = st\<lparr>pt_status := VOTING, pt_voting_started := Some lo, pt_voting_deadline := Some hi,
                  pt_for_weight := bx_for b, pt_against_weight := bx_against b\<rparr> in
       if fle now hi then Inr st1
       else rbind (vote_passes cfg ''petition_quorum'' ''petition_supermajority'' network (bx_for b) (bx_against b))
         (\<lambda>ok. if ok then petition_challenge_phase cfg pid es hi now st1
               else Inr (st1\<lparr>pt_status := FAILED_VOTE\<rparr>))) = Inr st'"
    by (auto simp: petition_voting_phase_def rbind_Inr_iff petition_votes_of_def Let_def)
  define hi where "hi = window_end_of cfg ''petition_vote_window_days'' DAY_S lo"
  have hi: "fadd lo (fmul days DAY_S) = hi" by (simp add: hi_def window_end_of_def days)
  let ?st1 = "st\<lparr>pt_status := VOTING, pt_voting_started := Some lo, pt_voting_deadline := Some hi,
                  pt_for_weight := bx_for b, pt_against_weight := bx_against b\<rparr>"
  have count: "count_ballots cfg es ''for'' (petition_ballots lo hi votes) (empty_box cache) = Inr b"
    using b petition_votes.loop_counts_once [OF chain_sort_readable [OF votes]]
    by (simp add: hi petition_ballots_def)
  note rest = rest [unfolded hi Let_def]
  show ?thesis
  proof (cases "fle now hi")
    case True
    then have "voting_outcome cfg pid es network now hi st'" using rest by (auto simp: voting_outcome_def)
    moreover have "pt_voting_started st' = Some lo \<and> pt_voting_deadline st' = Some hi \<and>
          pt_for_weight st' = bx_for b \<and> pt_against_weight st' = bx_against b \<and>
          pt_filed_at st' = pt_filed_at st \<and> pt_signature_weight st' = pt_signature_weight st \<and>
          pt_signature_threshold st' = pt_signature_threshold st"
      using True rest by auto
    ultimately show ?thesis using hi_def votes count by blast
  next
    case False
    with rest obtain ok where
      ok: "vote_passes cfg ''petition_quorum'' ''petition_supermajority'' network (bx_for b) (bx_against b) = Inr ok"
      and st': "(if ok then petition_challenge_phase cfg pid es hi now ?st1
                 else Inr (?st1\<lparr>pt_status := FAILED_VOTE\<rparr>)) = Inr st'"
      by (auto simp: rbind_Inr_iff)
    show ?thesis
    proof (cases ok)
      case True
      then have "petition_challenge_phase cfg pid es hi now ?st1 = Inr st'" using st' by simp
      note ch = challenge_phase_fields [OF this]
      then have keep: "pt_voting_started st' = Some lo \<and> pt_voting_deadline st' = Some hi \<and>
          pt_for_weight st' = bx_for b \<and> pt_against_weight st' = bx_against b \<and>
          pt_filed_at st' = pt_filed_at st \<and> pt_signature_weight st' = pt_signature_weight st \<and>
          pt_signature_threshold st' = pt_signature_threshold st"
        by (elim exE conjE) simp
      then have "challenge_base ?st1 hi = challenge_base st' hi" by (simp add: challenge_base_def)
      then have "\<exists>ch until.
            until = window_end_of cfg ''challenge_window_hours'' HOUR_S (challenge_base st' hi) \<and>
            compute_challenge_state cfg pid (map VDict es) now = Inr ch \<and>
            pt_challenge_until st' = Some until \<and>
            pt_status st' =
              status_after_vote (petition_events pid es) ch until now"
        using ch by metis
      then have "voting_outcome cfg pid es network now hi st'"
        using False True ok keep unfolding voting_outcome_def by auto
      with hi_def votes count keep show ?thesis by blast
    next
      case not_ok: False
      with st' have eq: "st' = ?st1\<lparr>pt_status := FAILED_VOTE\<rparr>" by simp
      have "voting_outcome cfg pid es network now hi st'"
        unfolding voting_outcome_def eq using False ok not_ok by simp blast
      moreover have "pt_voting_started st' = Some lo \<and> pt_voting_deadline st' = Some hi \<and>
          pt_for_weight st' = bx_for b \<and> pt_against_weight st' = bx_against b \<and>
          pt_filed_at st' = pt_filed_at st \<and> pt_signature_weight st' = pt_signature_weight st \<and>
          pt_signature_threshold st' = pt_signature_threshold st"
        unfolding eq by simp
      ultimately show ?thesis using hi_def votes count by blast
    qed
  qed
qed

definition voting_reached ::
  "config \<Rightarrow> string \<Rightarrow> event list \<Rightarrow> pyfloat \<Rightarrow> weights \<Rightarrow> pyfloat \<Rightarrow> pyfloat \<Rightarrow> petition_state \<Rightarrow> bool" where
  "voting_reached cfg pid es network cache lo now st \<longleftrightarrow>
     (\<exists>st1. petition_voting_phase cfg pid es network cache lo now st1 = Inr st)"

text \<open>The whole function, for a petition that is on the chain.\<close>

lemma petition_fields:
  assumes "compute_petition_state ord cfg pid c now = Inr st" and "st \<noteq> petition_not_found pid"
  shows "\<exists>network frac signs seen cache.
     network_governance_weight ord cfg (map VDict (dict_events c)) now = Inr network \<and>
     cfg_float cfg ''petition_signature_threshold'' = Inr frac \<and>
     chain_sort (petition_signs pid (dict_events c)) = Inr signs \<and>
     foldR (petition_sign_step cfg (dict_events c) (signatures_close cfg st)) signs ([], [], Fin 0)
       = Inr (seen, cache, pt_signature_weight st) \<and>
     pt_signature_threshold st = fmul network frac \<and>
     (if fle (fmul network frac) (pt_signature_weight st) \<and> flt (Fin 0) (fmul network frac)
      then \<exists>lo. latest_signature_ts seen (pt_filed_at st) (petition_signs pid (dict_events c)) = Inr lo \<and>
        voting_reached cfg pid (dict_events c) network cache lo now st
      else pt_voting_started st = None \<and>
        pt_status st = (if flt (signatures_close cfg st) now then FAILED_SIGNATURES else SIGNATURES))"
proof -
  let ?es = "dict_events c"
  from assms obtain fev where fev: "List.find (\<lambda>e. etype e ''petition_file'') (petition_events pid ?es) = Some fev"
    by (auto simp: compute_petition_state_def Let_def split: option.splits)
  from assms(1) obtain st0 network frac days signs seen cache acc where
    st0: "new_petition pid fev = Inr st0"
    and network: "network_governance_weight ord cfg (map VDict ?es) now = Inr network"
    and frac: "cfg_float cfg ''petition_signature_threshold'' = Inr frac"
    and days: "cfg_float cfg ''petition_signature_window_days'' = Inr days"
    and signs: "chain_sort (petition_signs pid ?es) = Inr signs"
    and loop: "foldR (petition_sign_step cfg ?es (fadd (pt_filed_at st0) (fmul days DAY_S))) signs ([], [], Fin 0)
         = Inr (seen, cache, acc)"
    and st: "(let st1 = st0\<lparr>pt_signature_threshold := fmul network frac, pt_signature_weight := acc\<rparr> in
          if fle (fmul network frac) acc \<and> flt (Fin 0) (fmul network frac)
          then rbind (latest_signature_ts seen (pt_filed_at st0) (petition_signs pid ?es)) (\<lambda>lo.
                 petition_voting_phase cfg pid ?es network cache lo now st1)
          else Inr (st1\<lparr>pt_status := (if flt (fadd (pt_filed_at st0) (fmul days DAY_S)) now
                 then FAILED_SIGNATURES else SIGNATURES)\<rparr>)) = Inr st"
    unfolding compute_petition_state_def petition_signs_def Let_def
    by (auto simp: fev rbind_Inr_iff)
  note fresh = new_petition_fields [OF st0]
  let ?st1 = "st0\<lparr>pt_signature_threshold := fmul network frac, pt_signature_weight := acc\<rparr>"
  have "pt_filed_at st = pt_filed_at st0 \<and> pt_signature_weight st = acc \<and>
      pt_signature_threshold st = fmul network frac \<and>
     (if fle (fmul network frac) acc \<and> flt (Fin 0) (fmul network frac)
      then \<exists>lo. latest_signature_ts seen (pt_filed_at st0) (petition_signs pid ?es) = Inr lo \<and>
        voting_reached cfg pid ?es network cache lo now st
      else pt_voting_started st = None \<and>
        pt_status st = (if flt (fadd (pt_filed_at st0) (fmul days DAY_S)) now
          then FAILED_SIGNATURES else SIGNATURES))"
  proof (cases "fle (fmul network frac) acc \<and> flt (Fin 0) (fmul network frac)")
    case True
    with st obtain lo where lo: "latest_signature_ts seen (pt_filed_at st0) (petition_signs pid ?es) = Inr lo"
      and voting: "petition_voting_phase cfg pid ?es network cache lo now ?st1 = Inr st"
      by (auto simp: rbind_Inr_iff)
    from voting have "voting_reached cfg pid ?es network cache lo now st" unfolding voting_reached_def by blast
    with voting_phase_fields [OF voting] True lo show ?thesis by auto
  next
    case False
    then show ?thesis using st fresh by auto
  qed
  moreover from this have "signatures_close cfg st = fadd (pt_filed_at st0) (fmul days DAY_S)"
    by (simp add: signatures_close_def window_end_of_def days)
  ultimately show ?thesis using network frac signs loop by auto
qed

subsection \<open>Whose weight counts\<close>

text \<open>The signatures that count, and the ballots of one side with the times they are weighed at.\<close>

definition counted_signatures :: "pyfloat \<Rightarrow> event list \<Rightarrow> (string \<times> pyfloat) list" where
  "counted_signatures closes signs = counted (first_signatures (petition_sig closes) signs)"

definition side_ballots :: "(string \<times> pyfloat) list \<Rightarrow> bool \<Rightarrow> ballot list \<Rightarrow> (string \<times> pyfloat) list" where
  "side_ballots sigs yes bs =
     map (\<lambda>(n, v, t). (n, weighing_time sigs n t)) (filter (\<lambda>(n, v, t). (v = ''for'') = yes) bs)"

lemma signature_loop:
  assumes "chain_sort evs = Inr signs"
    and "foldR (petition_sign_step cfg es closes) signs ([], [], Fin 0) = Inr (seen, cache, acc)"
  shows "\<exists>ws. active_weights cfg es (counted_signatures closes signs) = Inr ws \<and> acc = fsum ws \<and>
    (\<forall>n. dict_get cache n = map_of (zip (map fst (counted_signatures closes signs)) ws) n)"
  using petition_signatures.loop_sums [OF chain_sort_readable [OF assms(1)] assms(2)]
  by (auto simp: active_weights_def counted_signatures_def dict_get_def)

lemma ballot_sums:
  assumes "count_ballots cfg es ''for'' (petition_ballots lo hi votes) (empty_box cache) = Inr b"
    and "active_weights cfg es sigs = Inr ws"
    and "\<forall>n. dict_get cache n = map_of (zip (map fst sigs) ws) n"
  shows "(\<exists>fs. active_weights cfg es (side_ballots sigs True (petition_ballots lo hi votes)) = Inr fs \<and> bx_for b = fsum fs) \<and>
    (\<exists>as. active_weights cfg es (side_ballots sigs False (petition_ballots lo hi votes)) = Inr as \<and> bx_against b = fsum as)"
proof -
  have "distinct (map fst (petition_ballots lo hi votes))"
    by (simp add: petition_ballots_def first_ballots_distinct)
  from count_sums [OF assms(1) this]
  show ?thesis
    by (simp add: active_weights_def side_ballots_def mapR_map case_prod_unfold empty_box_def fsum_def
        cached_weights [OF assms(2,3)]) blast
qed

text \<open>
  C4: One node, one signature, one vote. For a petition in or past its voting phase the signature
  weight is the sum of the decayed oracle reputations over the distinct nodes whose first signature
  came before the window closed, each at the time of that signature; the two vote weights are the
  sums over the nodes whose first valid vote in the voting window was for, or against. A voter that
  also signed is weighed at the time of its signature.
\<close>

theorem petition_weights_exact:
  assumes st: "compute_petition_state ord cfg pid c now = Inr st"
    and voting: "pt_voting_started st = Some lo" "pt_voting_deadline st = Some hi"
  shows "\<exists>signs votes.
    chain_sort (petition_signs pid (dict_events c)) = Inr signs \<and>
    chain_sort (petition_votes_of pid (dict_events c)) = Inr votes \<and>
    (let sigs = counted_signatures (signatures_close cfg st) signs; bs = petition_ballots lo hi votes in
     distinct (map fst sigs) \<and> distinct (map fst bs) \<and>
     rmap fsum (active_weights cfg (dict_events c) sigs) = Inr (pt_signature_weight st) \<and>
     rmap fsum (active_weights cfg (dict_events c) (side_ballots sigs True bs)) = Inr (pt_for_weight st) \<and>
     rmap fsum (active_weights cfg (dict_events c) (side_ballots sigs False bs)) = Inr (pt_against_weight st))"
proof -
  have "st \<noteq> petition_not_found pid" using voting by (auto simp: petition_not_found_def)
  from petition_fields [OF st this] voting obtain network signs seen cache lo' where
    signs: "chain_sort (petition_signs pid (dict_events c)) = Inr signs"
    and loop: "foldR (petition_sign_step cfg (dict_events c) (signatures_close cfg st)) signs ([], [], Fin 0)
       = Inr (seen, cache, pt_signature_weight st)"
    and reached: "voting_reached cfg pid (dict_events c) network cache lo' now st"
    by (auto split: if_splits)
  from signature_loop [OF signs loop] obtain ws where
    ws: "active_weights cfg (dict_events c) (counted_signatures (signatures_close cfg st) signs) = Inr ws"
      "pt_signature_weight st = fsum ws"
    and cache: "\<forall>n. dict_get cache n = map_of (zip (map fst (counted_signatures (signatures_close cfg st) signs)) ws) n"
    by blast
  from reached obtain st1 where
    "petition_voting_phase cfg pid (dict_events c) network cache lo' now st1 = Inr st"
    unfolding voting_reached_def by blast
  from voting_phase_fields [OF this] voting obtain votes b where
    votes: "chain_sort (petition_votes_of pid (dict_events c)) = Inr votes"
    and b: "count_ballots cfg (dict_events c) ''for'' (petition_ballots lo hi votes) (empty_box cache) = Inr b"
      "pt_for_weight st = bx_for b" "pt_against_weight st = bx_against b" by auto
  have "distinct (map fst (counted_signatures (signatures_close cfg st) signs))"
    by (simp add: counted_signatures_def counted_distinct first_signatures_def distinct_nub_fst)
  moreover have "distinct (map fst (petition_ballots lo hi votes))"
    by (simp add: petition_ballots_def first_ballots_distinct)
  moreover from ballot_sums [OF b(1) ws(1) cache] obtain fs gs where
    "active_weights cfg (dict_events c)
       (side_ballots (counted_signatures (signatures_close cfg st) signs) True (petition_ballots lo hi votes)) = Inr fs"
    "active_weights cfg (dict_events c)
       (side_ballots (counted_signatures (signatures_close cfg st) signs) False (petition_ballots lo hi votes)) = Inr gs"
    "bx_for b = fsum fs" "bx_against b = fsum gs" by blast
  ultimately have "let sigs = counted_signatures (signatures_close cfg st) signs; bs = petition_ballots lo hi votes in
     distinct (map fst sigs) \<and> distinct (map fst bs) \<and>
     rmap fsum (active_weights cfg (dict_events c) sigs) = Inr (pt_signature_weight st) \<and>
     rmap fsum (active_weights cfg (dict_events c) (side_ballots sigs True bs)) = Inr (pt_for_weight st) \<and>
     rmap fsum (active_weights cfg (dict_events c) (side_ballots sigs False bs)) = Inr (pt_against_weight st)"
    using ws b(2,3) by (simp add: rmap_def)
  with signs votes show ?thesis by blast
qed

text \<open>
  A petition of node \<open>a\<close>, the only one with reputation: filed, signed and voted for by \<open>a\<close>, and
  executed.
\<close>

definition petition_event :: "string \<Rightarrow> int \<Rightarrow> (string \<times> pyval) list \<Rightarrow> pyval" where
  "petition_event t ts p = VDict [(''event_type'', VStr t), (''node_id'', VStr ''a''), (''timestamp'', VInt ts),
     (''payload'', VDict ((''petition_id'', VStr ''p'') # p))]"

definition petition_chain :: chain where
  "petition_chain = rep_chain @
    [petition_event ''petition_file'' 4 [], petition_event ''petition_sign'' 5 [],
     petition_event ''petition_vote'' 6 [(''vote'', VStr ''for'')], petition_event ''petition_execute'' 7 []]"

definition petition_config :: config where
  "petition_config = rep_config @ decay_config @
    [(''petition_signature_threshold'', VFloat (Fin (1/4))), (''petition_signature_window_days'', VInt 1),
     (''petition_vote_window_days'', VInt 1), (''petition_quorum'', VFloat (Fin (1/4))),
     (''petition_supermajority'', VFloat (Fin (1/2))), (''challenge_window_hours'', VInt 12)]"

definition executed_petition :: petition_state where
  "executed_petition =
     \<lparr>pt_id = ''p'', pt_status = EXECUTED, pt_filer = ''a'', pt_filed_at = Fin 4, pt_payload = [],
      pt_signature_weight = Fin (1/2), pt_signature_threshold = Fin (1/8), pt_for_weight = Fin (1/2),
      pt_against_weight = Fin 0, pt_voting_started = Some (Fin 5), pt_voting_deadline = Some (Fin 86405),
      pt_challenge_until = Some (Fin 129605)\<rparr>"

lemma petition_chain_state:
  "compute_petition_state id petition_config ''p'' petition_chain (Fin 200000) = Inr executed_petition"
  by code_simp

theorem petition_weights_exact_witness:
  "\<exists>signs votes.
    chain_sort (petition_signs ''p'' (dict_events petition_chain)) = Inr signs \<and>
    chain_sort (petition_votes_of ''p'' (dict_events petition_chain)) = Inr votes \<and>
    rmap fsum (active_weights petition_config (dict_events petition_chain)
      (counted_signatures (signatures_close petition_config executed_petition) signs)) = Inr (Fin (1/2))"
proof -
  from petition_weights_exact [OF petition_chain_state, of "Fin 5" "Fin 86405"] show ?thesis
    by (simp add: executed_petition_def Let_def) blast
qed

subsection \<open>What a passed petition has behind it\<close>

text \<open>
  C3: Nothing passes without support. A petition that is passed or executed collected a positive
  signature threshold of the network weight, its vote reached the quorum and the supermajority, the
  voting deadline and the challenge window are both over, and no challenge has voided it. It is
  executed exactly if the chain holds an execute event for it, at whatever time that was appended.
\<close>

theorem petition_passed_is_justified:
  assumes st: "compute_petition_state ord cfg pid c now = Inr st"
    and passed: "pt_status st = PASSED \<or> pt_status st = EXECUTED"
  shows "\<exists>network frac quorum majority share hi until ch.
    network_governance_weight ord cfg (map VDict (dict_events c)) now = Inr network \<and>
    cfg_float cfg ''petition_signature_threshold'' = Inr frac \<and>
    flt (Fin 0) (fmul network frac) \<and> fle (fmul network frac) (pt_signature_weight st) \<and>
    cfg_float cfg ''petition_quorum'' = Inr quorum \<and>
    \<not> flt (fadd (pt_for_weight st) (pt_against_weight st)) (fmul network quorum) \<and>
    cfg_float cfg ''petition_supermajority'' = Inr majority \<and>
    fdiv (pt_for_weight st) (fadd (pt_for_weight st) (pt_against_weight st)) = Inr share \<and>
    \<not> flt share majority \<and>
    pt_voting_deadline st = Some hi \<and> \<not> fle now hi \<and>
    pt_challenge_until st = Some until \<and> \<not> fle now until \<and>
    compute_challenge_state cfg pid (map VDict (dict_events c)) now = Inr ch \<and>
    ch_outcome ch \<noteq> CHALLENGE_VOIDED \<and>
    (pt_status st = EXECUTED \<longleftrightarrow>
      (\<exists>e \<in> set (petition_events pid (dict_events c)). etype e ''petition_execute''))"
proof -
  have "st \<noteq> petition_not_found pid" using passed by (auto simp: petition_not_found_def)
  from petition_fields [OF st this] passed obtain network frac cache lo where
    N: "network_governance_weight ord cfg (map VDict (dict_events c)) now = Inr network"
      "cfg_float cfg ''petition_signature_threshold'' = Inr frac"
      "flt (Fin 0) (fmul network frac)" "fle (fmul network frac) (pt_signature_weight st)"
    and reached: "voting_reached cfg pid (dict_events c) network cache lo now st"
    by (auto split: if_splits)
  from reached obtain st1 where
    "petition_voting_phase cfg pid (dict_events c) network cache lo now st1 = Inr st"
    unfolding voting_reached_def by blast
  from voting_phase_fields [OF this] obtain hi where hi: "pt_voting_deadline st = Some hi"
    and outcome: "voting_outcome cfg pid (dict_events c) network now hi st" by blast
  from outcome passed have open_over: "\<not> fle now hi" by (auto simp: voting_outcome_def)
  with outcome passed obtain ch until where
    ok: "vote_passes cfg ''petition_quorum'' ''petition_supermajority'' network
        (pt_for_weight st) (pt_against_weight st) = Inr True"
    and ch: "compute_challenge_state cfg pid (map VDict (dict_events c)) now = Inr ch"
      "pt_challenge_until st = Some until"
      "pt_status st = status_after_vote (petition_events pid (dict_events c)) ch until now"
    by (auto simp: voting_outcome_def split: if_splits)
  have "ch_outcome ch \<noteq> CHALLENGE_VOIDED \<and> \<not> fle now until \<and> (pt_status st = EXECUTED \<longleftrightarrow>
      (\<exists>e \<in> set (petition_events pid (dict_events c)). etype e ''petition_execute''))"
    using passed ch(3) by (auto simp: status_after_vote_def split: if_splits)
  with vote_passes_True [OF ok] N hi open_over ch(1,2) show ?thesis by blast
qed

theorem petition_passed_is_justified_witness:
  "\<exists>network frac. network_governance_weight id petition_config (map VDict (dict_events petition_chain)) (Fin 200000) = Inr network \<and>
    cfg_float petition_config ''petition_signature_threshold'' = Inr frac \<and>
    flt (Fin 0) (fmul network frac) \<and> fle (fmul network frac) (Fin (1/2))"
proof -
  have "pt_status executed_petition = PASSED \<or> pt_status executed_petition = EXECUTED"
    by (simp add: executed_petition_def)
  from petition_passed_is_justified [OF petition_chain_state this] show ?thesis
    by (simp add: executed_petition_def) blast
qed

subsection \<open>Every petition is settled\<close>

lemma latest_step_fold:
  assumes "foldR (latest_step seen) es b = Inr (Some t)"
  shows "b = Some t \<or> (\<exists>e \<in> set es. event_ts e = Inr t)"
  using assms
proof (induction es arbitrary: b)
  case (Cons e es)
  from Cons.prems obtain b1 where b1: "latest_step seen e b = Inr b1"
    and rest: "foldR (latest_step seen) es b1 = Inr (Some t)" by (auto simp: rbind_Inr_iff)
  from b1 have "b1 = b \<or> (\<exists>u. event_ts e = Inr u \<and> b1 = Some u)"
    by (auto simp: latest_step_def later_def rbind_Inr_iff Let_def split: if_splits option.splits)
  with Cons.IH [OF rest] show ?case by auto
qed simp

lemma latest_signature_is_signature:
  "latest_signature_ts seen filed signs = Inr lo \<Longrightarrow> lo = filed \<or> (\<exists>e \<in> set signs. event_ts e = Inr lo)"
  using latest_step_fold [of seen signs None]
  by (auto simp: latest_signature_ts_def rbind_Inr_iff get_or_def split: option.splits)

text \<open>
  C5: Every petition is settled. Once the evaluation time is past the signature window and, for the
  filing and each signature on the chain, past the voting window that would open there and the
  challenge window after it, the petition is in one of its final states: it no longer collects
  signatures, votes or challenges.
\<close>

theorem petition_settles:
  assumes st: "compute_petition_state ord cfg pid c now = Inr st"
    and signed: "flt (signatures_close cfg st) now"
    and windows: "\<And>t hi. t = pt_filed_at st \<or> (\<exists>e \<in> set (petition_signs pid (dict_events c)). event_ts e = Inr t) \<Longrightarrow>
      hi = window_end_of cfg ''petition_vote_window_days'' DAY_S t \<Longrightarrow>
      flt hi now \<and> flt (window_end_of cfg ''challenge_window_hours'' HOUR_S (challenge_base st hi)) now"
  shows "pt_status st \<in> {NOT_FOUND, FAILED_SIGNATURES, FAILED_VOTE, VOIDED_CHALLENGE, PASSED, EXECUTED}"
proof (cases "st = petition_not_found pid")
  case True
  then show ?thesis by (simp add: petition_not_found_def)
next
  case False
  from petition_fields [OF st False] signed have "pt_status st = FAILED_SIGNATURES \<or>
    (\<exists>network seen cache lo. latest_signature_ts seen (pt_filed_at st) (petition_signs pid (dict_events c)) = Inr lo \<and>
       voting_reached cfg pid (dict_events c) network cache lo now st)"
    by (auto split: if_splits)
  then show ?thesis
  proof (elim disjE exE conjE)
    fix network seen cache lo
    assume lo: "latest_signature_ts seen (pt_filed_at st) (petition_signs pid (dict_events c)) = Inr lo"
      and "voting_reached cfg pid (dict_events c) network cache lo now st"
    then obtain st1 where "petition_voting_phase cfg pid (dict_events c) network cache lo now st1 = Inr st"
      unfolding voting_reached_def by blast
    from voting_phase_fields [OF this] obtain hi where
      hi: "hi = window_end_of cfg ''petition_vote_window_days'' DAY_S lo"
      and outcome: "voting_outcome cfg pid (dict_events c) network now hi st" by blast
    from windows [OF latest_signature_is_signature [OF lo] hi] have "\<not> fle now hi"
      "\<not> fle now (window_end_of cfg ''challenge_window_hours'' HOUR_S (challenge_base st hi))"
      using fle_flt_trans flt_irrefl by blast+
    with outcome show ?thesis
      by (auto simp: voting_outcome_def status_after_vote_def split: if_splits)
  qed simp
qed

theorem petition_settles_witness: "pt_status executed_petition \<in> {NOT_FOUND, FAILED_SIGNATURES,
  FAILED_VOTE, VOIDED_CHALLENGE, PASSED, EXECUTED}"
proof (rule petition_settles [OF petition_chain_state])
  show "flt (signatures_close petition_config executed_petition) (Fin 200000)" by code_simp
  fix t hi
  assume t: "t = pt_filed_at executed_petition \<or>
      (\<exists>e \<in> set (petition_signs ''p'' (dict_events petition_chain)). event_ts e = Inr t)"
    and hi: "hi = window_end_of petition_config ''petition_vote_window_days'' DAY_S t"
  have "list_all (\<lambda>e. event_ts e = Inr (Fin 5)) (petition_signs ''p'' (dict_events petition_chain))"
    by code_simp
  with t have "t = Fin 4 \<or> t = Fin 5" by (auto simp: list_all_iff executed_petition_def)
  moreover have "list_all (\<lambda>t. let hi = window_end_of petition_config ''petition_vote_window_days'' DAY_S t in
      flt hi (Fin 200000) \<and>
      flt (window_end_of petition_config ''challenge_window_hours'' HOUR_S (challenge_base executed_petition hi)) (Fin 200000))
    [Fin 4, Fin 5]" by code_simp
  ultimately show "flt hi (Fin 200000) \<and> flt (window_end_of petition_config ''challenge_window_hours'' HOUR_S
      (challenge_base executed_petition hi)) (Fin 200000)"
    unfolding hi by (auto simp: Let_def)
qed

subsection \<open>What the state does not promise\<close>

text \<open>
  The state is recomputed from the whole chain, and later events can undo a petition that was
  reported as executed: a challenge filed long after its window has closed voids it, and a second,
  late signature of a signer moves the start of the voting phase behind the votes already cast.
\<close>

lemma late_challenge_voids_executed:
  "rmap pt_status (compute_petition_state id petition_config ''p''
     (petition_chain @ [petition_event ''challenge_file'' 200001 [],
        petition_event ''challenge_vote'' 200002 [(''vote'', VStr ''uphold'')]]) (Fin 300000))
   = Inr VOIDED_CHALLENGE"
  by code_simp

lemma late_signature_restarts_voting:
  "rmap pt_status (compute_petition_state id petition_config ''p''
     (petition_chain @ [petition_event ''petition_sign'' 100000 []]) (Fin 200000))
   = Inr FAILED_VOTE"
  by code_simp

end
