(* ===== verification/Upgrade_Claims.thy ===== *)
theory Upgrade_Claims
  imports Upgrades Petition_Claims Common_Rep
begin

section \<open>What the state of an upgrade proposal promises\<close>

text \<open>
  Properties of \<open>governance/upgrade_hash.py\<close>: whose weight counts and at which time, and what a
  proposal in its activation phase has behind it.
\<close>

subsection \<open>The phases a returned state went through\<close>

definition upgrade_signs :: "string \<Rightarrow> event list \<Rightarrow> event list" where
  "upgrade_signs pid es = filter (\<lambda>e. etype e ''upgrade_sign'') (proposal_events pid es)"

definition upgrade_votes_of :: "string \<Rightarrow> event list \<Rightarrow> event list" where
  "upgrade_votes_of pid es = filter (\<lambda>e. etype e ''upgrade_vote'') (proposal_events pid es)"

definition upgrade_close :: "config \<Rightarrow> upgrade_state \<Rightarrow> pyfloat" where
  "upgrade_close cfg st = window_end_of cfg ''upgrade_signature_window_days'' DAY_S (up_filed_at st)"

definition upgrade_ballots :: "pyfloat \<Rightarrow> pyfloat \<Rightarrow> event list \<Rightarrow> ballot list" where
  "upgrade_ballots lo hi = first_ballots (ballot_of any_str [''for'', ''against''] (window lo hi))"

text \<open>The fields the later phases leave alone.\<close>

definition same_tally :: "upgrade_state \<Rightarrow> upgrade_state \<Rightarrow> bool" where
  "same_tally st st' \<longleftrightarrow> up_filed_at st' = up_filed_at st \<and> up_release_hash st' = up_release_hash st \<and>
     up_signature_weight st' = up_signature_weight st \<and> up_for_weight st' = up_for_weight st \<and>
     up_against_weight st' = up_against_weight st \<and> up_voting_started st' = up_voting_started st \<and>
     up_voting_deadline st' = up_voting_deadline st"

lemma activation_same_tally:
  "upgrade_activation_phase cfg mine heavy until now st = Inr st' \<Longrightarrow>
     same_tally st st' \<and> up_challenge_until st' = up_challenge_until st \<and>
     up_status st' \<in> {ACTIVATION, ACTIVATED, FAILED_ACTIVATION}"
  by (auto simp: upgrade_activation_phase_def same_tally_def rbind_Inr_iff Let_def split: if_split_asm)

lemma activation_fields:
  assumes "upgrade_activation_phase cfg mine heavy until now st = Inr st'"
  shows "heavy_node_readiness cfg heavy (up_release_hash st) (filter (\<lambda>e. etype e ''upgrade_signal_ready'') mine)
       = Inr (up_readiness st') \<and>
     (up_status st' = ACTIVATED \<longleftrightarrow> (\<exists>e \<in> set mine. etype e ''upgrade_activate'')) \<and>
     (up_status st' = FAILED_ACTIVATION \<longrightarrow> \<not> hr_threshold_met (up_readiness st'))"
proof -
  from assms obtain d r where
    r: "heavy_node_readiness cfg heavy (up_release_hash st) (filter (\<lambda>e. etype e ''upgrade_signal_ready'') mine) = Inr r"
    and st': "st' = (let st1 = st\<lparr>up_status := ACTIVATION, up_activation_deadline := Some d, up_readiness := r\<rparr> in
       if \<exists>e \<in> set mine. etype e ''upgrade_activate'' then st1\<lparr>up_status := ACTIVATED\<rparr>
       else if hr_threshold_met r then st1
       else if flt d now then st1\<lparr>up_status := FAILED_ACTIVATION\<rparr> else st1)"
    unfolding upgrade_activation_phase_def Let_def rbind_Inr_iff by blast
  define act where "act \<longleftrightarrow> (\<exists>e \<in> set mine. etype e ''upgrade_activate'')"
  have "up_readiness st' = r \<and> (up_status st' = ACTIVATED \<longleftrightarrow> act) \<and>
      (up_status st' = FAILED_ACTIVATION \<longrightarrow> \<not> hr_threshold_met r)"
    by (cases act; cases "hr_threshold_met r"; cases "flt d now") (simp_all add: st' Let_def flip: act_def)
  with r show ?thesis by (simp add: act_def)
qed

lemma challenge_same_tally:
  assumes "upgrade_challenge_phase cfg es mine heavy cache hi now st = Inr st'"
  shows "same_tally st st' \<and> (\<exists>until. up_challenge_until st' = Some until \<and>
    (up_status st' \<in> {ACTIVATION, ACTIVATED, FAILED_ACTIVATION} \<longrightarrow> \<not> fle now until \<and>
      (\<exists>st1. up_release_hash st1 = up_release_hash st \<and> up_filed_at st1 = up_filed_at st \<and>
        upgrade_activation_phase cfg mine heavy until now st1 = Inr st')))"
proof -
  from assms obtain hours voided where
    body: "(let until = fadd (if hi = Fin 0 then up_filed_at st else hi) (fmul hours HOUR_S);
        st1 = st\<lparr>up_status := CHALLENGE, up_challenge_until := Some until\<rparr> in
      if voided then Inr (st1\<lparr>up_status := VOIDED_CHALLENGE\<rparr>)
      else if fle now until then Inr st1
      else upgrade_activation_phase cfg mine heavy until now st1) = Inr st'"
    unfolding upgrade_challenge_phase_def Let_def rbind_Inr_iff by blast
  define until where "until = fadd (if hi = Fin 0 then up_filed_at st else hi) (fmul hours HOUR_S)"
  define st1 where "st1 = st\<lparr>up_status := CHALLENGE, up_challenge_until := Some until\<rparr>"
  have body: "(if voided then Inr (st1\<lparr>up_status := VOIDED_CHALLENGE\<rparr>)
      else if fle now until then Inr st1
      else upgrade_activation_phase cfg mine heavy until now st1) = Inr st'"
    using body by (simp only: until_def st1_def Let_def)
  have st1: "same_tally st st1" "up_challenge_until st1 = Some until" "up_status st1 = CHALLENGE"
    by (simp_all add: st1_def same_tally_def)
  show ?thesis
  proof (cases "voided \<or> fle now until")
    case True
    then have "st' = st1\<lparr>up_status := VOIDED_CHALLENGE\<rparr> \<or> st' = st1" using body by (auto split: if_splits)
    moreover have "up_status st' \<in> {VOIDED_CHALLENGE, CHALLENGE}" using calculation st1 by auto
    ultimately show ?thesis using st1 by (auto simp: same_tally_def)
  next
    case False
    then have act: "upgrade_activation_phase cfg mine heavy until now st1 = Inr st'" using body by simp
    from activation_same_tally [OF this] st1 have "same_tally st st'" "up_challenge_until st' = Some until"
      by (simp_all add: same_tally_def)
    moreover have "up_release_hash st1 = up_release_hash st" "up_filed_at st1 = up_filed_at st"
      by (simp_all add: st1_def)
    ultimately show ?thesis using False act by blast
  qed
qed

text \<open>What the end of the voting phase makes of the tally.\<close>

definition upgrade_outcome ::
  "config \<Rightarrow> event list \<Rightarrow> string list \<Rightarrow> pyfloat \<Rightarrow> pyfloat \<Rightarrow> pyfloat \<Rightarrow> upgrade_state \<Rightarrow> bool" where
  "upgrade_outcome cfg mine heavy network now hi st \<longleftrightarrow>
     (if fle now hi then up_status st = VOTING
      else \<exists>ok. vote_passes cfg ''upgrade_quorum'' ''upgrade_supermajority'' network
                  (up_for_weight st) (up_against_weight st) = Inr ok \<and>
        (if ok then \<exists>until. up_challenge_until st = Some until \<and>
           (up_status st \<in> {ACTIVATION, ACTIVATED, FAILED_ACTIVATION} \<longrightarrow> \<not> fle now until \<and>
             (\<exists>st1. up_release_hash st1 = up_release_hash st \<and> up_filed_at st1 = up_filed_at st \<and>
               upgrade_activation_phase cfg mine heavy until now st1 = Inr st))
         else up_status st = FAILED_VOTE))"

lemma upgrade_voting_fields:
  assumes "upgrade_voting_phase cfg es mine heavy network cache lo now st = Inr st'"
    and mine: "mine = proposal_events pid es"
  shows "\<exists>hi votes b. hi = window_end_of cfg ''upgrade_vote_window_days'' DAY_S lo \<and>
     chain_sort (upgrade_votes_of pid es) = Inr votes \<and>
     count_ballots cfg es ''for'' (upgrade_ballots lo hi votes) (empty_box cache) = Inr b \<and>
     up_voting_started st' = Some lo \<and> up_voting_deadline st' = Some hi \<and>
     up_for_weight st' = bx_for b \<and> up_against_weight st' = bx_against b \<and>
     up_filed_at st' = up_filed_at st \<and> up_signature_weight st' = up_signature_weight st \<and>
     upgrade_outcome cfg mine heavy network now hi st'"
proof -
  from assms(1) obtain days votes b where
    days: "cfg_float cfg ''upgrade_vote_window_days'' = Inr days"
    and votes: "chain_sort (upgrade_votes_of pid es) = Inr votes"
    and b: "foldR (upgrade_vote_step cfg es lo (fadd lo (fmul days DAY_S))) votes (empty_box cache) = Inr b"
    and rest: "(let hi = fadd lo (fmul days DAY_S);
          st1 = st\<lparr>up_status := VOTING, up_voting_started := Some lo, up_voting_deadline := Some hi,
                  up_for_weight := bx_for b, up_against_weight := bx_against b\<rparr> in
       if fle now hi then Inr st1
       else rbind (vote_passes cfg ''upgrade_quorum'' ''upgrade_supermajority'' network (bx_for b) (bx_against b))
         (\<lambda>ok. if ok then upgrade_challenge_phase cfg es mine heavy (bx_cache b) hi now st1
               else Inr (st1\<lparr>up_status := FAILED_VOTE\<rparr>))) = Inr st'"
    unfolding upgrade_voting_phase_def upgrade_votes_of_def Let_def mine by (auto simp: rbind_Inr_iff)
  define hi where "hi = window_end_of cfg ''upgrade_vote_window_days'' DAY_S lo"
  have hi: "fadd lo (fmul days DAY_S) = hi" by (simp add: hi_def window_end_of_def days)
  define st1 where "st1 = st\<lparr>up_status := VOTING, up_voting_started := Some lo, up_voting_deadline := Some hi,
                  up_for_weight := bx_for b, up_against_weight := bx_against b\<rparr>"
  have st1: "up_voting_started st1 = Some lo" "up_voting_deadline st1 = Some hi" "up_for_weight st1 = bx_for b"
    "up_against_weight st1 = bx_against b" "up_filed_at st1 = up_filed_at st" "up_status st1 = VOTING"
    "up_signature_weight st1 = up_signature_weight st"
    by (simp_all add: st1_def)
  have count: "count_ballots cfg es ''for'' (upgrade_ballots lo hi votes) (empty_box cache) = Inr b"
    using b upgrade_votes.loop_counts_once [OF chain_sort_readable [OF votes]]
    by (simp add: hi upgrade_ballots_def)
  have rest: "(if fle now hi then Inr st1
       else rbind (vote_passes cfg ''upgrade_quorum'' ''upgrade_supermajority'' network (bx_for b) (bx_against b))
         (\<lambda>ok. if ok then upgrade_challenge_phase cfg es mine heavy (bx_cache b) hi now st1
               else Inr (st1\<lparr>up_status := FAILED_VOTE\<rparr>))) = Inr st'"
    using rest by (simp only: hi Let_def st1_def)
  have "same_tally st1 st' \<and> upgrade_outcome cfg mine heavy network now hi st'"
  proof (cases "fle now hi")
    case True
    then show ?thesis using rest st1 by (auto simp: upgrade_outcome_def same_tally_def)
  next
    case False
    with rest obtain ok where
      ok: "vote_passes cfg ''upgrade_quorum'' ''upgrade_supermajority'' network (bx_for b) (bx_against b) = Inr ok"
      and st': "(if ok then upgrade_challenge_phase cfg es mine heavy (bx_cache b) hi now st1
                 else Inr (st1\<lparr>up_status := FAILED_VOTE\<rparr>)) = Inr st'"
      by (auto simp: rbind_Inr_iff)
    show ?thesis
    proof (cases ok)
      case True
      then have "upgrade_challenge_phase cfg es mine heavy (bx_cache b) hi now st1 = Inr st'" using st' by simp
      note ch = challenge_same_tally [OF this]
      then have tally: "same_tally st1 st'" by blast
      then have same: "up_release_hash st1 = up_release_hash st'" "up_filed_at st1 = up_filed_at st'"
        "up_for_weight st' = bx_for b" "up_against_weight st' = bx_against b"
        using st1 by (simp_all add: same_tally_def)
      have "upgrade_outcome cfg mine heavy network now hi st'"
        unfolding upgrade_outcome_def same(3,4) using False ok True ch [THEN conjunct2, unfolded same(1,2)]
        by simp blast
      with tally show ?thesis by blast
    next
      case not_ok: False
      with st' have eq: "st' = st1\<lparr>up_status := FAILED_VOTE\<rparr>" by simp
      have "upgrade_outcome cfg mine heavy network now hi st'"
        unfolding upgrade_outcome_def eq using False ok not_ok st1 by simp blast
      then show ?thesis by (simp add: eq same_tally_def)
    qed
  qed
  then have "up_voting_started st' = Some lo" "up_voting_deadline st' = Some hi" "up_for_weight st' = bx_for b"
    "up_against_weight st' = bx_against b" "up_filed_at st' = up_filed_at st"
    "up_signature_weight st' = up_signature_weight st" "upgrade_outcome cfg mine heavy network now hi st'"
    using st1 by (simp_all add: same_tally_def)
  with hi_def votes count show ?thesis by blast
qed

text \<open>The whole function, for a proposal that is on the chain.\<close>

definition upgrade_voting_reached ::
  "config \<Rightarrow> string \<Rightarrow> event list \<Rightarrow> string list \<Rightarrow> pyfloat \<Rightarrow> weights \<Rightarrow> pyfloat \<Rightarrow> pyfloat \<Rightarrow> upgrade_state \<Rightarrow> bool" where
  "upgrade_voting_reached cfg pid es heavy network cache lo now st \<longleftrightarrow>
     (\<exists>st1. upgrade_voting_phase cfg es (proposal_events pid es) heavy network cache lo now st1 = Inr st)"

lemma upgrade_fields:
  assumes "compute_upgrade_state ord cfg pid c now heavy = Inr st" and "up_voting_started st \<noteq> None"
  shows "\<exists>network cache0 frac signs seen cache lo.
     foldR (add_weight cfg (dict_events c) now) (ord (acting_nodes (dict_events c))) (Fin 0, []) = Inr (network, cache0) \<and>
     cfg_float cfg ''upgrade_signature_threshold'' = Inr frac \<and>
     chain_sort (upgrade_signs pid (dict_events c)) = Inr signs \<and>
     foldR (upgrade_sign_step cfg (dict_events c) (upgrade_close cfg st)) signs ([], cache0, Fin 0)
       = Inr (seen, cache, up_signature_weight st) \<and>
     fle (fmul network frac) (up_signature_weight st) \<and> flt (Fin 0) (fmul network frac) \<and>
     upgrade_voting_reached cfg pid (dict_events c) heavy network cache lo now st"
proof -
  let ?es = "dict_events c"
  from assms obtain pev where pev: "List.find (\<lambda>e. etype e ''upgrade_propose'') (proposal_events pid ?es) = Some pev"
    by (auto simp: compute_upgrade_state_def upgrade_not_found_def Let_def split: option.splits)
  from assms(1) obtain st0 network cache0 frac days signs seen cache acc where
    st0: "new_upgrade pid pev = Inr st0"
    and network: "foldR (add_weight cfg ?es now) (ord (acting_nodes ?es)) (Fin 0, []) = Inr (network, cache0)"
    and frac: "cfg_float cfg ''upgrade_signature_threshold'' = Inr frac"
    and days: "cfg_float cfg ''upgrade_signature_window_days'' = Inr days"
    and signs: "chain_sort (upgrade_signs pid ?es) = Inr signs"
    and loop: "foldR (upgrade_sign_step cfg ?es (fadd (up_filed_at st0) (fmul days DAY_S))) signs ([], cache0, Fin 0)
         = Inr (seen, cache, acc)"
    and st: "(let st1 = st0\<lparr>up_signature_weight := acc\<rparr> in
          if fle (fmul network frac) acc \<and> flt (Fin 0) (fmul network frac)
          then rbind (latest_signature_ts seen (up_filed_at st0) (upgrade_signs pid ?es)) (\<lambda>lo.
                 upgrade_voting_phase cfg ?es (proposal_events pid ?es) heavy network cache lo now st1)
          else Inr (st1\<lparr>up_status := (if flt (fadd (up_filed_at st0) (fmul days DAY_S)) now
                 then FAILED_SIGNATURES else SIGNATURES)\<rparr>)) = Inr st"
    unfolding compute_upgrade_state_def upgrade_signs_def Let_def by (auto simp: pev rbind_Inr_iff)
  have fresh: "up_voting_started st0 = None" using st0 by (auto simp: new_upgrade_def rbind_Inr_iff)
  let ?st1 = "st0\<lparr>up_signature_weight := acc\<rparr>"
  have enough: "fle (fmul network frac) acc \<and> flt (Fin 0) (fmul network frac)"
    using st fresh assms(2) by (auto simp: Let_def split: if_splits)
  with st obtain lo where
    voting: "upgrade_voting_phase cfg ?es (proposal_events pid ?es) heavy network cache lo now ?st1 = Inr st"
    by (auto simp: rbind_Inr_iff)
  then have reached: "upgrade_voting_reached cfg pid ?es heavy network cache lo now st"
    unfolding upgrade_voting_reached_def by blast
  from upgrade_voting_fields [OF voting refl] have kept: "up_filed_at st = up_filed_at st0" "up_signature_weight st = acc"
    by auto
  then have "upgrade_close cfg st = fadd (up_filed_at st0) (fmul days DAY_S)"
    by (simp add: upgrade_close_def window_end_of_def days)
  with network frac signs loop enough reached kept show ?thesis by (metis (no_types, lifting))
qed

subsection \<open>Whose weight counts\<close>

lemma acting_fold: "set (fold note_node es ns) =
    set ns \<union> {n. \<exists>e \<in> set es. nonempty_str (eget e ''node_id'') = Some n}"
  by (induction es arbitrary: ns) (auto simp: note_node_def split: option.splits)

lemma acting_nodes_set: "set (acting_nodes es) = {n. \<exists>e \<in> set es. nonempty_str (eget e ''node_id'') = Some n}"
  by (simp add: acting_nodes_def acting_fold)

lemma acting_nodes_distinct: "distinct (acting_nodes es)"
proof -
  have "distinct ns \<Longrightarrow> distinct (fold note_node es ns)" for ns
    by (induction es arbitrary: ns) (auto simp: note_node_def split: option.splits)
  then show ?thesis by (simp add: acting_nodes_def)
qed

text \<open>
  What the network sum leaves in the cache: the weight at the evaluation time, for every node that
  has authored an event.
\<close>

lemma network_cache:
  assumes "foldR (add_weight cfg es now) ns (Fin 0, []) = Inr (network, cache)" and "distinct ns"
  shows "weight_in cfg es cache n t = compute_oracle_rep_active cfg n (map VDict es) (if n \<in> set ns then now else t)"
proof -
  let ?ps = "map (\<lambda>n. (n, now)) ns"
  have keys: "map fst ?ps = ns" by (simp add: comp_def)
  from assms(1) have "foldR (sum_step cfg es) ?ps ([], Fin 0) = Inr (cache, network)"
    by (auto simp: network_sum rbind_Inr_iff)
  moreover have "distinct (map fst ?ps)" unfolding keys by (rule assms(2))
  ultimately obtain ws where
    ws: "mapR (\<lambda>(n, t). weight_in cfg es [] n t) ?ps = Inr ws"
    and cache: "\<forall>n. dict_get cache n = map_of (zip (map fst ?ps) ws) n"
    using sum_steps by (fastforce simp: dict_get_Nil)
  have "weighing_time ?ps n t = (if n \<in> set ns then now else t)"
    by (induction ns) (auto simp: weighing_time_def)
  with cached_weights [OF _ cache, of cfg es] ws show ?thesis by (simp add: active_weights_def)
qed

text \<open>The times an upgrade signature and an upgrade vote are weighed at.\<close>

definition upgrade_time :: "pyfloat \<Rightarrow> string \<Rightarrow> pyfloat \<Rightarrow> pyfloat" where
  "upgrade_time now n t = (if n = [] then t else now)"

definition upgrade_signatures_counted :: "pyfloat \<Rightarrow> event list \<Rightarrow> (string \<times> pyfloat) list" where
  "upgrade_signatures_counted closes signs = counted (first_signatures (upgrade_sig closes) signs)"

definition upgrade_side :: "pyfloat \<Rightarrow> (string \<times> pyfloat) list \<Rightarrow> bool \<Rightarrow> ballot list \<Rightarrow> (string \<times> pyfloat) list" where
  "upgrade_side now sigs yes bs =
     map (\<lambda>(n, v, t). (n, upgrade_time now n (weighing_time sigs n t)))
         (filter (\<lambda>(n, v, t). (v = ''for'') = yes) bs)"

lemma named_acting: "e \<in> set es \<Longrightarrow> eget e ''node_id'' = VStr n \<Longrightarrow> n \<noteq> [] \<Longrightarrow> n \<in> set (acting_nodes es)"
  by (force simp: acting_nodes_set)

lemma any_str_Some: "any_str v = Some s \<longleftrightarrow> v = VStr s"
  by (cases v) (auto simp: any_str_def)

lemma any_str_VStr [simp]: "any_str (VStr s) = Some s"
  by (simp add: any_str_def)

lemma upgrade_sig_signer: "upgrade_sig closes e = Some (n, x) \<Longrightarrow> eget e ''node_id'' = VStr n"
  by (auto simp: upgrade_sig_def any_str_Some split: option.split_asm sum.split_asm if_split_asm)

lemma ballot_of_voter: "ballot_of vid options inside e = Some (n, v, t) \<Longrightarrow> vid (eget e ''node_id'') = Some n"
  by (auto simp: ballot_of_def split: option.split_asm sum.split_asm pyval.split_asm if_split_asm)

lemma upgrade_signature_times:
  assumes "set signs \<subseteq> set es" and "(n, t) \<in> set (upgrade_signatures_counted closes signs)" and "n \<noteq> []"
  shows "n \<in> set (acting_nodes es)"
proof -
  from assms(2) have "(n, Some t) \<in> set (first_signatures (upgrade_sig closes) signs)"
    by (auto simp: upgrade_signatures_counted_def counted_def set_map_filter)
  then have "(n, Some t) \<in> set (List.map_filter (upgrade_sig closes) signs)"
    using set_nub_fst_subset by (fastforce simp: first_signatures_def)
  then obtain e where "e \<in> set signs" "eget e ''node_id'' = VStr n"
    by (auto simp: set_map_filter dest: upgrade_sig_signer)
  with assms(1,3) show ?thesis by (blast intro: named_acting)
qed

lemma upgrade_ballot_times:
  assumes "set votes \<subseteq> set es" and "(n, v, t) \<in> set (upgrade_ballots lo hi votes)" and "n \<noteq> []"
  shows "n \<in> set (acting_nodes es)"
proof -
  from assms(2) have "(n, v, t) \<in> set (List.map_filter (ballot_of any_str [''for'', ''against''] (window lo hi)) votes)"
    using set_nub_fst_subset by (fastforce simp: upgrade_ballots_def first_ballots_def)
  then obtain e where "e \<in> set votes" "eget e ''node_id'' = VStr n"
    by (auto simp: set_map_filter any_str_Some dest!: ballot_of_voter)
  with assms(1,3) show ?thesis by (blast intro: named_acting)
qed

text \<open>
  Upgrade votes are weighed at the evaluation time. Unlike in petitions the network sum fills
  the weight cache first, so every named signer and voter counts with its decayed oracle reputation
  at the time of evaluation, not at the time of its signature or vote; only events signed with the
  empty string are weighed at their own time. Each node counts once as a signer and once as a voter.
\<close>

theorem upgrade_weights_at_now:
  assumes st: "compute_upgrade_state ord cfg pid c now heavy = Inr st"
    and voting: "up_voting_started st = Some lo" "up_voting_deadline st = Some hi"
    and set_order: "\<And>ns. mset (ord ns) = mset ns"
  shows "\<exists>signs votes.
    chain_sort (upgrade_signs pid (dict_events c)) = Inr signs \<and>
    chain_sort (upgrade_votes_of pid (dict_events c)) = Inr votes \<and>
    (let sigs = upgrade_signatures_counted (upgrade_close cfg st) signs; bs = upgrade_ballots lo hi votes in
     distinct (map fst sigs) \<and> distinct (map fst bs) \<and>
     rmap fsum (active_weights cfg (dict_events c) (map (\<lambda>(n, t). (n, upgrade_time now n t)) sigs))
       = Inr (up_signature_weight st) \<and>
     rmap fsum (active_weights cfg (dict_events c) (upgrade_side now sigs True bs)) = Inr (up_for_weight st) \<and>
     rmap fsum (active_weights cfg (dict_events c) (upgrade_side now sigs False bs)) = Inr (up_against_weight st))"
proof -
  let ?es = "dict_events c" and ?close = "upgrade_close cfg st"
  from upgrade_fields [OF st] voting obtain network cache0 signs seen cache lo' where
    network: "foldR (add_weight cfg ?es now) (ord (acting_nodes ?es)) (Fin 0, []) = Inr (network, cache0)"
    and signs: "chain_sort (upgrade_signs pid ?es) = Inr signs"
    and loop: "foldR (upgrade_sign_step cfg ?es ?close) signs ([], cache0, Fin 0) = Inr (seen, cache, up_signature_weight st)"
    and reached: "upgrade_voting_reached cfg pid ?es heavy network cache lo' now st"
    by auto
  have ord_set: "set (ord (acting_nodes ?es)) = set (acting_nodes ?es)"
    using set_order by (metis set_mset_mset)
  have "distinct (ord (acting_nodes ?es))"
    using set_order acting_nodes_distinct by (metis distinct_count_atmost_1 mset_eq_imp_distinct_iff)
  note at_now = network_cache [OF network this, unfolded ord_set]
  let ?S = "upgrade_signatures_counted ?close signs"
  from upgrade_signatures.loop_sums [OF chain_sort_readable [OF signs] loop] obtain ws where
    ws: "mapR (\<lambda>(n, t). weight_in cfg ?es cache0 n t) ?S = Inr ws" "up_signature_weight st = fsum ws"
    and cache: "\<forall>n. dict_get cache n = (case dict_get cache0 n of Some w \<Rightarrow> Some w
           | None \<Rightarrow> map_of (zip (map fst ?S) ws) n)"
    unfolding upgrade_signatures_counted_def by blast
  have sub: "set signs \<subseteq> set ?es"
    using chain_sort_set [OF signs] by (auto simp: upgrade_signs_def proposal_events_def)
  have empty: "[] \<notin> set (acting_nodes ?es)" by (auto simp: acting_nodes_set nonempty_str_Some)
  have sig_weight: "weight_in cfg ?es cache0 n t = compute_oracle_rep_active cfg n (map VDict ?es) (upgrade_time now n t)"
    if "n = [] \<or> n \<in> set (acting_nodes ?es)" for n t
    using that empty by (auto simp: at_now upgrade_time_def)
  have point: "weight_in cfg ?es cache0 n t = compute_oracle_rep_active cfg n (map VDict ?es) (upgrade_time now n t)"
    if "(n, t) \<in> set ?S" for n t
    using upgrade_signature_times [OF sub that] by (intro sig_weight) blast
  have "mapR (\<lambda>(n, t). weight_in cfg ?es cache0 n t) ?S = active_weights cfg ?es (map (\<lambda>(n, t). (n, upgrade_time now n t)) ?S)"
    unfolding active_weights_def mapR_map by (rule mapR_cong) (auto simp: point)
  with ws have W1: "active_weights cfg ?es (map (\<lambda>(n, t). (n, upgrade_time now n t)) ?S) = Inr ws" by simp
  from reached obtain st1 where
    "upgrade_voting_phase cfg ?es (proposal_events pid ?es) heavy network cache lo' now st1 = Inr st"
    unfolding upgrade_voting_reached_def by blast
  from upgrade_voting_fields [OF this refl] voting obtain votes b where
    votes: "chain_sort (upgrade_votes_of pid ?es) = Inr votes"
    and b: "count_ballots cfg ?es ''for'' (upgrade_ballots lo hi votes) (empty_box cache) = Inr b"
      "up_for_weight st = bx_for b" "up_against_weight st = bx_against b" by auto
  let ?B = "upgrade_ballots lo hi votes"
  have vsub: "set votes \<subseteq> set ?es"
    using chain_sort_set [OF votes] by (auto simp: upgrade_votes_of_def proposal_events_def)
  have vote_weight: "weight_in cfg ?es cache n t =
      compute_oracle_rep_active cfg n (map VDict ?es) (upgrade_time now n (weighing_time ?S n t))"
    if "(n, v, t) \<in> set ?B" for n v t
    using upgrade_ballot_times [OF vsub that]
    by (auto simp: weight_after [OF ws(1) cache] intro!: sig_weight)
  have side: "mapR (\<lambda>(n, v, t). weight_in cfg ?es cache n t) (filter (\<lambda>(n, v, t). (v = ''for'') = yes) ?B)
      = active_weights cfg ?es (upgrade_side now ?S yes ?B)" for yes
    unfolding active_weights_def upgrade_side_def mapR_map
    by (rule mapR_cong) (auto simp: vote_weight)
  have "distinct (map fst ?B)" by (simp add: upgrade_ballots_def first_ballots_distinct)
  with count_sums [OF b(1)] obtain fs gs where
    "active_weights cfg ?es (upgrade_side now ?S True ?B) = Inr fs" "bx_for b = fsum fs"
    "active_weights cfg ?es (upgrade_side now ?S False ?B) = Inr gs" "bx_against b = fsum gs"
    by (auto simp: empty_box_def fsum_def side [where yes = True, simplified] side [where yes = False, simplified])
  moreover have "distinct (map fst ?S)"
    by (simp add: upgrade_signatures_counted_def counted_distinct first_signatures_def distinct_nub_fst)
  moreover have "distinct (map fst ?B)" by fact
  ultimately have "let sigs = ?S; bs = ?B in
     distinct (map fst sigs) \<and> distinct (map fst bs) \<and>
     rmap fsum (active_weights cfg ?es (map (\<lambda>(n, t). (n, upgrade_time now n t)) sigs)) = Inr (up_signature_weight st) \<and>
     rmap fsum (active_weights cfg ?es (upgrade_side now sigs True bs)) = Inr (up_for_weight st) \<and>
     rmap fsum (active_weights cfg ?es (upgrade_side now sigs False bs)) = Inr (up_against_weight st)"
    using W1 ws(2) b(2,3) by (simp add: rmap_def)
  with signs votes show ?thesis by blast
qed

definition upgrade_event :: "string \<Rightarrow> int \<Rightarrow> (string \<times> pyval) list \<Rightarrow> pyval" where
  "upgrade_event t ts p = VDict [(''event_type'', VStr t), (''node_id'', VStr ''a''), (''timestamp'', VInt ts),
     (''payload'', VDict ((''proposal_id'', VStr ''u'') # p))]"

definition upgrade_chain :: chain where
  "upgrade_chain = rep_chain @
    [upgrade_event ''upgrade_propose'' 4 [(''release_hash'', VStr ''h'')], upgrade_event ''upgrade_sign'' 5 [],
     upgrade_event ''upgrade_vote'' 6 [(''vote'', VStr ''for'')],
     upgrade_event ''upgrade_signal_ready'' 7 [(''release_hash'', VStr ''h'')]]"

definition upgrade_config :: config where
  "upgrade_config = rep_config @ decay_config @
    [(''upgrade_signature_threshold'', VFloat (Fin (1/4))), (''upgrade_signature_window_days'', VInt 1),
     (''upgrade_vote_window_days'', VInt 1), (''upgrade_quorum'', VFloat (Fin (1/4))),
     (''upgrade_supermajority'', VFloat (Fin (1/2))), (''upgrade_challenge_window_hours'', VInt 12),
     (''upgrade_activation_window_days'', VInt 1), (''upgrade_activation_threshold'', VFloat (Fin (1/2)))]"

definition activating_upgrade :: upgrade_state where
  "activating_upgrade =
     \<lparr>up_id = ''u'', up_status = ACTIVATION, up_proposer = ''a'', up_filed_at = Fin 4, up_release_hash = ''h'',
      up_target_version = [], up_signature_weight = Fin (1/2), up_for_weight = Fin (1/2),
      up_against_weight = Fin 0, up_voting_started = Some (Fin 5), up_voting_deadline = Some (Fin 86405),
      up_challenge_until = Some (Fin 129605), up_activation_deadline = Some (Fin 216005),
      up_readiness = \<lparr>hr_total = 2, hr_ready = 1, hr_fraction = Fin (1/2), hr_threshold_met = True\<rparr>\<rparr>"

lemma upgrade_chain_state:
  "compute_upgrade_state id upgrade_config ''u'' upgrade_chain (Fin 200000) [''a'', ''b''] = Inr activating_upgrade"
  by code_simp

theorem upgrade_weights_at_now_witness:
  "\<exists>signs votes.
    chain_sort (upgrade_signs ''u'' (dict_events upgrade_chain)) = Inr signs \<and>
    chain_sort (upgrade_votes_of ''u'' (dict_events upgrade_chain)) = Inr votes \<and>
    rmap fsum (active_weights upgrade_config (dict_events upgrade_chain)
      (map (\<lambda>(n, t). (n, upgrade_time (Fin 200000) n t))
        (upgrade_signatures_counted (upgrade_close upgrade_config activating_upgrade) signs))) = Inr (Fin (1/2))"
proof -
  from upgrade_weights_at_now [OF upgrade_chain_state, of "Fin 5" "Fin 86405"] show ?thesis
    by (simp add: activating_upgrade_def Let_def) blast
qed

subsection \<open>What an activating upgrade has behind it\<close>

text \<open>The Heavy Nodes that signalled the release of the proposal.\<close>

definition ready_nodes :: "string list \<Rightarrow> string \<Rightarrow> event list \<Rightarrow> string set" where
  "ready_nodes heavy h es =
     {n \<in> set heavy. \<exists>e \<in> set es. eget e ''node_id'' = VStr n \<and> eget (payload e) ''release_hash'' = VStr h}"

lemma ready_fold:
  "distinct seen \<Longrightarrow> distinct (fold (ready_step heavy h) es seen) \<and>
     set (fold (ready_step heavy h) es seen) = set seen \<union> ready_nodes heavy h es"
  by (induction es arbitrary: seen)
    (auto simp: ready_nodes_def ready_step_def any_str_Some split: option.splits)

lemma readiness_counts:
  assumes "heavy_node_readiness cfg heavy h signals = Inr r"
  shows "hr_total r = int (card (set heavy)) \<and> hr_ready r = int (card (ready_nodes heavy h signals)) \<and>
    (\<exists>threshold. cfg_float cfg ''upgrade_activation_threshold'' = Inr threshold \<and>
      (hr_threshold_met r \<longleftrightarrow> fle threshold (hr_fraction r))) \<and>
    fle (Fin 0) (hr_fraction r) \<and> fle (hr_fraction r) (Fin 1)"
proof -
  let ?ready = "fold (ready_step heavy h) signals []"
  have ready: "card (ready_nodes heavy h signals) = length ?ready"
    using ready_fold [of "[]" heavy h signals] distinct_card by fastforce
  have le: "length ?ready \<le> card (set heavy)"
    unfolding ready [symmetric] by (rule card_mono) (auto simp: ready_nodes_def)
  from assms obtain fraction threshold where
    f: "(if heavy = [] then Inr (Fin 0) else int_div (int (length ?ready)) (max (int (length (remdups heavy))) 1)) = Inr fraction"
    and r: "cfg_float cfg ''upgrade_activation_threshold'' = Inr threshold"
      "r = \<lparr>hr_total = int (length (remdups heavy)), hr_ready = int (length ?ready), hr_fraction = fraction,
            hr_threshold_met = fle threshold fraction\<rparr>"
    by (auto simp: heavy_node_readiness_def rbind_Inr_iff Let_def)
  have "fle (Fin 0) fraction \<and> fle fraction (Fin 1)"
  proof (cases "heavy = []")
    case False
    then have "0 < card (set heavy)" by (simp add: card_gt_0_iff)
    then have "max (int (card (set heavy))) 1 = int (card (set heavy))" by simp
    with False f have "int_div (int (length ?ready)) (int (card (set heavy))) = Inr fraction"
      by (simp add: length_remdups_card_conv)
    then show ?thesis using int_div_fraction [of "int (length ?ready)" "int (card (set heavy))"] le \<open>0 < card (set heavy)\<close>
      by (auto simp: unit_float_def)
  qed (use f in auto)
  then show ?thesis using r ready by (simp add: length_remdups_card_conv)
qed

text \<open>
  C18: No upgrade activates without support. A proposal in its activation phase collected a positive
  signature threshold of the network weight, its vote reached the quorum and the supermajority, and
  the voting deadline and the challenge window are over. Its readiness counts exactly the distinct
  Heavy Nodes that signalled its release hash, the fraction lies between 0 and 1, and it fails only
  when the threshold is missed. It is reported as activated exactly if the chain holds an activate
  event, whatever the readiness is.
\<close>

theorem upgrade_activation_is_justified:
  assumes st: "compute_upgrade_state ord cfg pid c now heavy = Inr st"
    and active: "up_status st = ACTIVATION \<or> up_status st = ACTIVATED \<or> up_status st = FAILED_ACTIVATION"
  shows "(\<exists>network cache frac quorum majority share hi until.
    foldR (add_weight cfg (dict_events c) now) (ord (acting_nodes (dict_events c))) (Fin 0, []) = Inr (network, cache) \<and>
    cfg_float cfg ''upgrade_signature_threshold'' = Inr frac \<and>
    flt (Fin 0) (fmul network frac) \<and> fle (fmul network frac) (up_signature_weight st) \<and>
    cfg_float cfg ''upgrade_quorum'' = Inr quorum \<and>
    \<not> flt (fadd (up_for_weight st) (up_against_weight st)) (fmul network quorum) \<and>
    cfg_float cfg ''upgrade_supermajority'' = Inr majority \<and>
    fdiv (up_for_weight st) (fadd (up_for_weight st) (up_against_weight st)) = Inr share \<and>
    \<not> flt share majority \<and>
    up_voting_deadline st = Some hi \<and> \<not> fle now hi \<and> up_challenge_until st = Some until \<and> \<not> fle now until) \<and>
    (let mine = proposal_events pid (dict_events c); r = up_readiness st in
    hr_total r = int (card (set heavy)) \<and>
    hr_ready r = int (card (ready_nodes heavy (up_release_hash st)
      (filter (\<lambda>e. etype e ''upgrade_signal_ready'') mine))) \<and>
    fle (Fin 0) (hr_fraction r) \<and> fle (hr_fraction r) (Fin 1) \<and>
    (up_status st = FAILED_ACTIVATION \<longrightarrow> \<not> hr_threshold_met r) \<and>
    (up_status st = ACTIVATED \<longleftrightarrow> (\<exists>e \<in> set mine. etype e ''upgrade_activate'')))"
proof -
  let ?es = "dict_events c"
  let ?mine = "proposal_events pid ?es"
  have "up_voting_started st \<noteq> None"
  proof
    assume none: "up_voting_started st = None"
    from st active obtain network frac acc seen cache lo st1 where
      "upgrade_voting_phase cfg ?es ?mine heavy network cache lo now st1 = Inr st"
      unfolding compute_upgrade_state_def Let_def
      by (auto simp: rbind_Inr_iff upgrade_not_found_def split: option.splits if_splits)
    from upgrade_voting_fields [OF this refl] none show False by auto
  qed
  from upgrade_fields [OF st this] obtain network cache0 frac cache lo where
    N: "foldR (add_weight cfg ?es now) (ord (acting_nodes ?es)) (Fin 0, []) = Inr (network, cache0)"
      "cfg_float cfg ''upgrade_signature_threshold'' = Inr frac"
      "flt (Fin 0) (fmul network frac)" "fle (fmul network frac) (up_signature_weight st)"
    and reached: "upgrade_voting_reached cfg pid ?es heavy network cache lo now st"
    by auto
  from reached obtain st1 where "upgrade_voting_phase cfg ?es ?mine heavy network cache lo now st1 = Inr st"
    unfolding upgrade_voting_reached_def by blast
  from upgrade_voting_fields [OF this refl] obtain hi where hi: "up_voting_deadline st = Some hi"
    and outcome: "upgrade_outcome cfg ?mine heavy network now hi st" by blast
  from outcome active have over: "\<not> fle now hi" by (auto simp: upgrade_outcome_def)
  with outcome active obtain until st2 where
    ok: "vote_passes cfg ''upgrade_quorum'' ''upgrade_supermajority'' network
        (up_for_weight st) (up_against_weight st) = Inr True"
    and until: "up_challenge_until st = Some until" "\<not> fle now until"
    and st2: "up_release_hash st2 = up_release_hash st"
      "upgrade_activation_phase cfg ?mine heavy until now st2 = Inr st"
    by (auto simp: upgrade_outcome_def split: if_splits)
  have support: "\<exists>network cache frac quorum majority share hi until.
    foldR (add_weight cfg (dict_events c) now) (ord (acting_nodes (dict_events c))) (Fin 0, []) = Inr (network, cache) \<and>
    cfg_float cfg ''upgrade_signature_threshold'' = Inr frac \<and>
    flt (Fin 0) (fmul network frac) \<and> fle (fmul network frac) (up_signature_weight st) \<and>
    cfg_float cfg ''upgrade_quorum'' = Inr quorum \<and>
    \<not> flt (fadd (up_for_weight st) (up_against_weight st)) (fmul network quorum) \<and>
    cfg_float cfg ''upgrade_supermajority'' = Inr majority \<and>
    fdiv (up_for_weight st) (fadd (up_for_weight st) (up_against_weight st)) = Inr share \<and>
    \<not> flt share majority \<and>
    up_voting_deadline st = Some hi \<and> \<not> fle now hi \<and> up_challenge_until st = Some until \<and> \<not> fle now until"
    using vote_passes_True [OF ok] N hi over until by blast
  note fields = activation_fields [OF st2(2), unfolded st2(1)]
  have ready: "let mine = ?mine; r = up_readiness st in
    hr_total r = int (card (set heavy)) \<and>
    hr_ready r = int (card (ready_nodes heavy (up_release_hash st)
      (filter (\<lambda>e. etype e ''upgrade_signal_ready'') mine))) \<and>
    fle (Fin 0) (hr_fraction r) \<and> fle (hr_fraction r) (Fin 1) \<and>
    (up_status st = FAILED_ACTIVATION \<longrightarrow> \<not> hr_threshold_met r) \<and>
    (up_status st = ACTIVATED \<longleftrightarrow> (\<exists>e \<in> set mine. etype e ''upgrade_activate''))"
    using readiness_counts [OF fields [THEN conjunct1]] fields by (simp add: Let_def)
  show ?thesis by (rule conjI [OF support ready])
qed

theorem upgrade_activation_is_justified_witness:
  "int (card (ready_nodes [''a'', ''b''] ''h''
     (filter (\<lambda>e. etype e ''upgrade_signal_ready'') (proposal_events ''u'' (dict_events upgrade_chain))))) = 1 \<and>
   up_status activating_upgrade = ACTIVATION"
  using upgrade_activation_is_justified [OF upgrade_chain_state]
  by (simp add: activating_upgrade_def Let_def)

end
