(* ===== verification/Gates.thy ===== *)
theory Gates
  imports Common_Rep
begin

section \<open>Gates\<close>

text \<open>
  Models \<open>services/infonet/gates/\<close>: the metadata of a gate, its members, the entry decision, the
  ratification sum, locking, and the two tiers of closing a gate (suspension and shutdown with its
  appeal). The iteration order of a set of members is the parameter \<open>ord\<close>, as in the governance
  theories.
\<close>

subsection \<open>state.py\<close>

definition gate_id_of :: "event \<Rightarrow> string" where
  "gate_id_of e =
     (case py_or (eget (payload e) ''gate_id'') (eget (payload e) ''gate'') of VStr s \<Rightarrow> s | _ \<Rightarrow> [])"

definition events_for_gate :: "string \<Rightarrow> chain \<Rightarrow> event list res" where
  "events_for_gate gid c = chain_sort (filter (\<lambda>e. gate_id_of e = gid) (dict_events c))"

record gate_meta =
  gm_id :: string
  gm_creator :: string
  gm_name :: string
  gm_sacrifice :: int
  gm_min_rep :: int
  gm_min_gate_rep :: "(string \<times> int) list"
  gm_created_at :: pyfloat
  gm_rules :: event

text \<open>\<open>_safe_int\<close>: only TypeError and ValueError are caught, so an infinite float raises.\<close>

definition safe_int_or :: "pyval \<Rightarrow> int \<Rightarrow> int res" where
  "safe_int_or v d =
     (case v of VBool _ \<Rightarrow> Inr d
      | _ \<Rightarrow> rbind (catch_tv (py_int v)) (\<lambda>x. Inr (get_or x d)))"

definition dict_or_empty :: "pyval \<Rightarrow> event" where
  "dict_or_empty v = (case v of VDict d \<Rightarrow> d | _ \<Rightarrow> [])"

definition gate_meta_of :: "string \<Rightarrow> event \<Rightarrow> gate_meta res" where
  "gate_meta_of gid e =
     (let p = payload e; rules = dict_or_empty (eget p ''rules'');
          cross = filter (\<lambda>(k, v). k \<noteq> []) (dict_or_empty (eget rules ''min_gate_rep'')) in
      rbind (safe_int_or (eget rules ''entry_sacrifice'') 0) (\<lambda>sac.
      rbind (safe_int_or (eget rules ''min_overall_rep'') 0) (\<lambda>min_rep.
      rbind (mapR (\<lambda>(k, v). rbind (safe_int_or v 0) (\<lambda>n. Inr (k, n))) cross) (\<lambda>mins.
      rbind (event_ts e) (\<lambda>ts.
      Inr \<lparr>gm_id = gid, gm_creator = py_str (py_or (eget e ''node_id'') (VStr [])),
           gm_name = py_str (py_or (eget p ''display_name'') (VStr [])),
           gm_sacrifice = sac, gm_min_rep = min_rep, gm_min_gate_rep = mins,
           gm_created_at = ts, gm_rules = rules\<rparr>)))))"

definition get_gate_meta :: "string \<Rightarrow> chain \<Rightarrow> gate_meta option res" where
  "get_gate_meta gid c =
     (case List.find (\<lambda>e. etype e ''gate_create'' \<and> gate_id_of e = gid) (dict_events c) of
        None \<Rightarrow> Inr None
      | Some e \<Rightarrow> rmap Some (gate_meta_of gid e))"

subsection \<open>sacrifice.py\<close>

text \<open>The variables of the loop: the members and \<open>shutdown_seen\<close>.\<close>

definition member_step :: "event \<Rightarrow> string list \<times> bool \<Rightarrow> string list \<times> bool" where
  "member_step e st =
     (if etype e ''gate_shutdown_execute'' then ([], True)
      else case nonempty_str (eget e ''node_id'') of
        None \<Rightarrow> st
      | Some n \<Rightarrow>
          if etype e ''gate_enter''
          then (if snd st \<or> n \<in> set (fst st) then st else (fst st @ [n], snd st))
          else if etype e ''gate_exit'' then (filter (\<lambda>m. m \<noteq> n) (fst st), snd st)
          else st)"

definition compute_member_set :: "string \<Rightarrow> chain \<Rightarrow> string list res" where
  "compute_member_set gid c =
     rbind (events_for_gate gid c) (\<lambda>es. Inr (fst (fold member_step es ([], False))))"

definition is_member :: "string \<Rightarrow> string \<Rightarrow> chain \<Rightarrow> bool res" where
  "is_member node gid c = rbind (compute_member_set gid c) (\<lambda>ms. Inr (node \<in> set ms))"

text \<open>Only upreps of members are kept; an unhashable author raises in the membership test.\<close>

definition keep_member_uprep :: "string list \<Rightarrow> event \<Rightarrow> event list \<Rightarrow> event list res" where
  "keep_member_uprep ms e kept =
     (if etype e ''uprep'' then
        (if \<not> hashable (eget e ''node_id'') then Inl TypeError
         else if eget e ''node_id'' \<in> VStr ` set ms then Inr (kept @ [e]) else Inr kept)
      else Inr (kept @ [e]))"

definition compute_gate_rep :: "config \<Rightarrow> (pyfloat \<Rightarrow> pyfloat) \<Rightarrow> string \<Rightarrow> string \<Rightarrow> chain \<Rightarrow> pyfloat res" where
  "compute_gate_rep cfg lg node gid c =
     (let es = dict_events c in
      rbind (compute_member_set gid (map VDict es)) (\<lambda>ms.
      if ms = [] then Inr (Fin 0)
      else rbind (foldR (keep_member_uprep ms) es []) (\<lambda>kept.
        compute_common_rep cfg lg node (map VDict kept) None True)))"

text \<open>The format \<open>:.4f\<close>: the exact value rounded half to even at the fourth decimal.\<close>

definition format_4f :: "pyfloat \<Rightarrow> string" where
  "format_4f x =
     (case x of
        Fin q \<Rightarrow>
          (let n = round_half_even (\<bar>q\<bar> * 10000); frac = nat_digits (n mod 10000) in
           (if q < 0 then ''-'' else []) @ nat_digits (n div 10000) @ ''.'' @ pad_left 4 frac)
      | PInf \<Rightarrow> ''inf'' | NInf \<Rightarrow> ''-inf'' | NaN \<Rightarrow> ''nan'')"

record entry_refusal =
  er_kind :: string
  er_detail :: string

record entry_decision =
  en_accepted :: bool
  en_cost :: int
  en_refusals :: "entry_refusal list"

definition refuse_entry :: "string \<Rightarrow> string \<Rightarrow> entry_decision" where
  "refuse_entry k gid =
     \<lparr>en_accepted = False, en_cost = 0, en_refusals = [\<lparr>er_kind = k, er_detail = gid\<rparr>]\<rparr>"

definition rep_refusal :: "pyfloat \<Rightarrow> gate_meta \<Rightarrow> entry_refusal list" where
  "rep_refusal rep m =
     (let needed = gm_min_rep m + gm_sacrifice m in
      if flt rep (Fin (of_int needed)) then
        [\<lparr>er_kind = ''insufficient_common_rep'',
          er_detail = ''have '' @ format_4f rep @ '', need '' @ int_str needed @ '' (min_overall_rep '' @
            int_str (gm_min_rep m) @ '' + entry_sacrifice '' @ int_str (gm_sacrifice m) @ '')''\<rparr>]
      else [])"

definition gate_rep_refusal ::
  "config \<Rightarrow> (pyfloat \<Rightarrow> pyfloat) \<Rightarrow> string \<Rightarrow> chain \<Rightarrow> string \<times> int \<Rightarrow> entry_refusal list \<Rightarrow> entry_refusal list res" where
  "gate_rep_refusal cfg lg node c req rs =
     rbind (compute_gate_rep cfg lg node (fst req) c) (\<lambda>rep.
     Inr (rs @ (if flt rep (Fin (of_int (snd req))) then
        [\<lparr>er_kind = ''insufficient_gate_rep'',
          er_detail = ''gate '' @ fst req @ '': have '' @ format_4f rep @ '', need '' @ int_str (snd req)\<rparr>]
      else [])))"

definition can_enter :: "config \<Rightarrow> (pyfloat \<Rightarrow> pyfloat) \<Rightarrow> string \<Rightarrow> string \<Rightarrow> chain \<Rightarrow> entry_decision res" where
  "can_enter cfg lg node gid c =
     rbind (get_gate_meta gid c) (\<lambda>meta.
     case meta of
       None \<Rightarrow> Inr (refuse_entry ''gate_not_found'' gid)
     | Some m \<Rightarrow>
         rbind (is_member node gid c) (\<lambda>mem.
         if mem then Inr (refuse_entry ''already_member'' gid)
         else rbind (compute_common_rep cfg lg node c None True) (\<lambda>rep.
           rbind (foldR (gate_rep_refusal cfg lg node c) (gm_min_gate_rep m) (rep_refusal rep m)) (\<lambda>rs.
           Inr \<lparr>en_accepted = (rs = []), en_cost = (if rs = [] then gm_sacrifice m else 0), en_refusals = rs\<rparr>))))"

subsection \<open>ratification.py\<close>

definition cumulative_member_oracle_rep ::
  "(string list \<Rightarrow> string list) \<Rightarrow> config \<Rightarrow> string \<Rightarrow> chain \<Rightarrow> pyfloat res" where
  "cumulative_member_oracle_rep ord cfg gid c =
     rbind (compute_member_set gid c) (\<lambda>ms.
     foldR (\<lambda>m s. rbind (compute_oracle_rep cfg m c) (\<lambda>r. Inr (fadd s r))) (ord ms) (Fin 0))"

definition is_ratified :: "(string list \<Rightarrow> string list) \<Rightarrow> config \<Rightarrow> string \<Rightarrow> chain \<Rightarrow> bool res" where
  "is_ratified ord cfg gid c =
     rbind (cumulative_member_oracle_rep ord cfg gid c) (\<lambda>s.
     rbind (cfg_int cfg ''gate_ratification_rep'') (\<lambda>n.
     rbind (int_to_float n) (\<lambda>threshold. Inr (fle threshold s))))"

subsection \<open>locking.py\<close>

definition lock_contribution ::
  "config \<Rightarrow> string list \<Rightarrow> event \<Rightarrow> (string \<times> pyfloat) list \<Rightarrow> (string \<times> pyfloat) list res" where
  "lock_contribution cfg ms e out =
     (if \<not> etype e ''gate_lock'' then Inr out
      else case nonempty_str (eget e ''node_id'') of
        None \<Rightarrow> Inr out
      | Some n \<Rightarrow>
          if n \<in> fst ` set out \<or> n \<notin> set ms then Inr out
          else (case finite_float (py_or (eget (payload e) ''lock_cost'') (VFloat (Fin 0))) of
            None \<Rightarrow> Inr out
          | Some paid \<Rightarrow>
              rbind (cfg_int cfg ''gate_lock_cost_per_member'') (\<lambda>cost.
              rbind (int_to_float cost) (\<lambda>min_cost.
              if flt paid min_cost then Inr out
              else (case finite_float (py_or (eget e ''timestamp'') (VFloat (Fin 0))) of
                None \<Rightarrow> Inr out
              | Some ts \<Rightarrow> Inr (out @ [(n, ts)]))))))"

definition collect_lock_contributions :: "config \<Rightarrow> string \<Rightarrow> chain \<Rightarrow> (string \<times> pyfloat) list res" where
  "collect_lock_contributions cfg gid c =
     rbind (compute_member_set gid c) (\<lambda>ms.
     rbind (events_for_gate gid c) (\<lambda>es. foldR (lock_contribution cfg ms) es []))"

record locked_gate_state =
  lk_locked :: bool
  lk_at :: "pyfloat option"
  lk_by :: "string list"

text \<open>\<open>xs[i]\<close>: a negative index counts from the end, an index out of range raises.\<close>

definition py_index :: "'a list \<Rightarrow> int \<Rightarrow> 'a res" where
  "py_index xs i =
     (let n = int (length xs) in
      if 0 \<le> i \<and> i < n then Inr (xs ! nat i)
      else if - n \<le> i \<and> i < 0 then Inr (xs ! nat (n + i))
      else Inl IndexError)"

definition lock_state :: "config \<Rightarrow> string \<Rightarrow> chain \<Rightarrow> locked_gate_state res" where
  "lock_state cfg gid c =
     rbind (collect_lock_contributions cfg gid c) (\<lambda>cs.
     rbind (cfg_int cfg ''gate_lock_min_members'') (\<lambda>need.
     if int (length cs) < need then Inr \<lparr>lk_locked = False, lk_at = None, lk_by = []\<rparr>
     else let ds = sort_key snd cs in
       rbind (py_index ds (need - 1)) (\<lambda>d.
       Inr \<lparr>lk_locked = True, lk_at = Some (snd d), lk_by = map fst ds\<rparr>)))"

definition is_locked :: "config \<Rightarrow> string \<Rightarrow> chain \<Rightarrow> bool res" where
  "is_locked cfg gid c = rmap lk_locked (lock_state cfg gid c)"

definition locked_at :: "config \<Rightarrow> string \<Rightarrow> chain \<Rightarrow> pyfloat option res" where
  "locked_at cfg gid c = rmap lk_at (lock_state cfg gid c)"

definition locked_by :: "config \<Rightarrow> string \<Rightarrow> chain \<Rightarrow> string list res" where
  "locked_by cfg gid c = rmap lk_by (lock_state cfg gid c)"

record lock_validation =
  lv_accepted :: bool
  lv_reason :: string
  lv_cost :: int

text \<open>The cost argument is \<open>None\<close> unless the caller gives one; converting it may fail.\<close>

definition requested_cost :: "config \<Rightarrow> pyval \<Rightarrow> int option res" where
  "requested_cost cfg cost =
     (case (if cost = VNone then cfg_int cfg ''gate_lock_cost_per_member'' else py_int cost) of
        Inr n \<Rightarrow> Inr (Some n)
      | Inl e \<Rightarrow> if e \<in> {TypeError, ValueError, OverflowError} then Inr None else Inl e)"

definition validate_lock_request :: "config \<Rightarrow> string \<Rightarrow> string \<Rightarrow> chain \<Rightarrow> pyval \<Rightarrow> lock_validation res" where
  "validate_lock_request cfg node gid c cost =
     rbind (requested_cost cfg cost) (\<lambda>oc.
     case oc of
       None \<Rightarrow> Inr \<lparr>lv_accepted = False, lv_reason = ''invalid_lock_cost'', lv_cost = 0\<rparr>
     | Some n \<Rightarrow>
         let verdict = (\<lambda>r. \<lparr>lv_accepted = (r = ''ok''), lv_reason = r, lv_cost = n\<rparr>) in
         rbind (cfg_int cfg ''gate_lock_cost_per_member'') (\<lambda>min_cost.
         if n < min_cost then Inr (verdict ''lock_cost_below_min'')
         else rbind (compute_member_set gid c) (\<lambda>ms.
           if node \<notin> set ms then Inr (verdict ''not_a_member'')
           else rbind (collect_lock_contributions cfg gid c) (\<lambda>cs.
             Inr (verdict (if node \<in> fst ` set cs then ''already_locked_by_node'' else ''ok''))))))"

end
