(* ===== verification/Gate_Shutdown.thy ===== *)
theory Gate_Shutdown
  imports Gates
begin

section \<open>Suspension, shutdown and appeal of a gate\<close>

text \<open>
  Models \<open>gates/shutdown/suspend.py\<close>, \<open>shutdown.py\<close> and \<open>appeal.py\<close>: the suspension state, the
  petitions to shut a gate down, and the checks before each filing.
\<close>

definition SECONDS_PER_DAY_GATE :: pyfloat where
  "SECONDS_PER_DAY_GATE = Fin 86400"

definition SECONDS_PER_HOUR_GATE :: pyfloat where
  "SECONDS_PER_HOUR_GATE = Fin 3600"

subsection \<open>suspend.py\<close>

datatype gate_status = GATE_ACTIVE | GATE_SUSPENDED | GATE_SHUTDOWN

record suspension_state =
  sp_status :: gate_status
  sp_at :: "pyfloat option"
  sp_until :: "pyfloat option"
  sp_last_petition :: "pyfloat option"

text \<open>The variables of the loop: the time of the last event of each of the four types.\<close>

record gate_times =
  gt_filed :: "pyfloat option"
  gt_executed :: "pyfloat option"
  gt_suspended :: "pyfloat option"
  gt_unsuspended :: "pyfloat option"

definition gate_time_step :: "event \<Rightarrow> gate_times \<Rightarrow> gate_times res" where
  "gate_time_step e g =
     rbind (event_ts e) (\<lambda>ts.
     Inr (if etype e ''gate_suspend_execute'' then g\<lparr>gt_suspended := Some ts\<rparr>
          else if etype e ''gate_unsuspend'' then g\<lparr>gt_unsuspended := Some ts\<rparr>
          else if etype e ''gate_shutdown_file'' then g\<lparr>gt_filed := Some ts\<rparr>
          else if etype e ''gate_shutdown_execute'' then g\<lparr>gt_executed := Some ts\<rparr>
          else g))"

definition no_gate_times :: gate_times where
  "no_gate_times = \<lparr>gt_filed = None, gt_executed = None, gt_suspended = None, gt_unsuspended = None\<rparr>"

definition compute_suspension_state :: "config \<Rightarrow> string \<Rightarrow> chain \<Rightarrow> pyfloat \<Rightarrow> suspension_state res" where
  "compute_suspension_state cfg gid c now =
     rbind (events_for_gate gid c) (\<lambda>es.
     rbind (foldR gate_time_step es no_gate_times) (\<lambda>g.
     let active = \<lparr>sp_status = GATE_ACTIVE, sp_at = None, sp_until = None, sp_last_petition = gt_filed g\<rparr> in
     if gt_executed g \<noteq> None
     then Inr \<lparr>sp_status = GATE_SHUTDOWN, sp_at = gt_suspended g, sp_until = None, sp_last_petition = gt_filed g\<rparr>
     else case gt_suspended g of
       None \<Rightarrow> Inr active
     | Some at_ts \<Rightarrow>
         if (case gt_unsuspended g of None \<Rightarrow> False | Some u \<Rightarrow> flt at_ts u) then Inr active
         else rbind (cfg_float cfg ''gate_suspend_duration_days'') (\<lambda>days.
           let until = fadd at_ts (fmul days SECONDS_PER_DAY_GATE) in
           Inr (if fle until now then active
                else \<lparr>sp_status = GATE_SUSPENDED, sp_at = Some at_ts, sp_until = Some until,
                      sp_last_petition = gt_filed g\<rparr>))))"

record gate_filing =
  gf_accepted :: bool
  gf_reason :: string

definition gate_filing_of :: "string \<Rightarrow> gate_filing" where
  "gate_filing_of r = \<lparr>gf_accepted = (r = ''ok''), gf_reason = r\<rparr>"

text \<open>The evidence check: a non-empty list.\<close>

definition evidence_given :: "pyval \<Rightarrow> bool" where
  "evidence_given v \<longleftrightarrow> (case v of VList hs \<Rightarrow> hs \<noteq> [] | _ \<Rightarrow> False)"

definition cooling_down :: "pyfloat option \<Rightarrow> pyfloat \<Rightarrow> bool" where
  "cooling_down until now \<longleftrightarrow> (case until of None \<Rightarrow> False | Some u \<Rightarrow> flt now u)"

definition validate_suspend_filing ::
  "config \<Rightarrow> string \<Rightarrow> pyval \<Rightarrow> pyval \<Rightarrow> chain \<Rightarrow> pyfloat \<Rightarrow> pyfloat option \<Rightarrow> gate_filing res" where
  "validate_suspend_filing cfg gid reason evidence c now filer_until =
     (if \<not> nonblank_str reason then Inr (gate_filing_of ''reason_empty'')
      else if \<not> evidence_given evidence then Inr (gate_filing_of ''evidence_required'')
      else if \<not> (\<forall>h \<in> set (case evidence of VList hs \<Rightarrow> hs | _ \<Rightarrow> []). nonempty_str h \<noteq> None)
      then Inr (gate_filing_of ''evidence_hashes_invalid'')
      else rbind (get_gate_meta gid c) (\<lambda>meta.
        if meta = None then Inr (gate_filing_of ''gate_not_found'')
        else rbind (compute_suspension_state cfg gid c now) (\<lambda>s.
          if sp_status s = GATE_SHUTDOWN then Inr (gate_filing_of ''gate_shutdown'')
          else if sp_status s = GATE_SUSPENDED then Inr (gate_filing_of ''already_suspended'')
          else if cooling_down filer_until now then Inr (gate_filing_of ''filer_cooldown_active'')
          else case sp_last_petition s of
            None \<Rightarrow> Inr (gate_filing_of ''ok'')
          | Some last_ts \<Rightarrow>
              rbind (cfg_float cfg ''gate_shutdown_cooldown_days'') (\<lambda>days.
              Inr (gate_filing_of
                (if flt now (fadd last_ts (fmul days SECONDS_PER_DAY_GATE)) then ''gate_cooldown_active''
                 else ''ok''))))))"

subsection \<open>shutdown.py\<close>

datatype shutdown_status = SD_FILED | SD_EXECUTING | SD_APPEALED | SD_FAILED | SD_VOIDED | SD_EXECUTED

record shutdown_petition =
  sd_filed_at :: pyfloat
  sd_status :: shutdown_status
  sd_execution_at :: "pyfloat option"
  sd_appealed :: bool

type_synonym shutdown_petitions = "(string, shutdown_petition) dict"

definition file_shutdown_step :: "event \<Rightarrow> shutdown_petitions \<Rightarrow> shutdown_petitions res" where
  "file_shutdown_step e ps =
     (if \<not> etype e ''gate_shutdown_file'' then Inr ps
      else case nonempty_str (eget (payload e) ''petition_id'') of
        None \<Rightarrow> Inr ps
      | Some pid \<Rightarrow>
          rbind (event_ts e) (\<lambda>ts.
          Inr (dict_set ps pid \<lparr>sd_filed_at = ts, sd_status = SD_FILED, sd_execution_at = None,
                                sd_appealed = False\<rparr>)))"

text \<open>The petition an event names under a key, if it is among the filed ones.\<close>

definition named_petition :: "string \<Rightarrow> event \<Rightarrow> shutdown_petitions \<Rightarrow> (string \<times> shutdown_petition) option" where
  "named_petition k e ps =
     (case eget (payload e) k of VStr pid \<Rightarrow> map_option (Pair pid) (dict_get ps pid) | _ \<Rightarrow> None)"

definition shutdown_vote_step :: "config \<Rightarrow> event \<Rightarrow> shutdown_petitions \<Rightarrow> shutdown_petitions res" where
  "shutdown_vote_step cfg e ps =
     (case named_petition ''petition_id'' e ps of
        None \<Rightarrow> Inr ps
      | Some (pid, p) \<Rightarrow>
          let vote = eget (payload e) ''vote'' in
          if vote = VStr ''passed'' then
            rbind (cfg_float cfg ''gate_shutdown_execution_delay_days'') (\<lambda>days.
            rbind (event_ts e) (\<lambda>ts.
            Inr (dict_set ps pid (p\<lparr>sd_status := SD_EXECUTING,
                   sd_execution_at := Some (fadd ts (fmul days SECONDS_PER_DAY_GATE))\<rparr>))))
          else if vote = VStr ''failed'' then Inr (dict_set ps pid (p\<lparr>sd_status := SD_FAILED\<rparr>))
          else Inr ps)"

definition appeal_file_step :: "event \<Rightarrow> shutdown_petitions \<Rightarrow> shutdown_petitions" where
  "appeal_file_step e ps =
     (case named_petition ''target_petition_id'' e ps of
        None \<Rightarrow> ps
      | Some (pid, p) \<Rightarrow>
          dict_set ps pid (p\<lparr>sd_appealed := True, sd_status := SD_APPEALED, sd_execution_at := None\<rparr>))"

definition appeal_resolve_step :: "event \<Rightarrow> shutdown_petitions \<Rightarrow> shutdown_petitions res" where
  "appeal_resolve_step e ps =
     (case named_petition ''target_petition_id'' e ps of
        None \<Rightarrow> Inr ps
      | Some (pid, p) \<Rightarrow>
          let outcome = eget (payload e) ''outcome'' in
          if outcome = VStr ''voided_shutdown'' then Inr (dict_set ps pid (p\<lparr>sd_status := SD_VOIDED\<rparr>))
          else if outcome = VStr ''resumed'' then
            rbind (catch_tv (py_float (eget (payload e) ''resumed_execution_at''))) (\<lambda>at_ts.
            Inr (dict_set ps pid (p\<lparr>sd_status := SD_EXECUTING, sd_execution_at := at_ts\<rparr>)))
          else Inr ps)"

definition shutdown_execute_step :: "event \<Rightarrow> shutdown_petitions \<Rightarrow> shutdown_petitions" where
  "shutdown_execute_step e ps =
     (case named_petition ''petition_id'' e ps of
        None \<Rightarrow> ps
      | Some (pid, p) \<Rightarrow> dict_set ps pid (p\<lparr>sd_status := SD_EXECUTED\<rparr>))"

definition shutdown_step :: "config \<Rightarrow> event \<Rightarrow> shutdown_petitions \<Rightarrow> shutdown_petitions res" where
  "shutdown_step cfg e ps =
     (if etype e ''gate_shutdown_vote'' then shutdown_vote_step cfg e ps
      else if etype e ''gate_shutdown_appeal_file'' then Inr (appeal_file_step e ps)
      else if etype e ''gate_shutdown_appeal_resolve'' then appeal_resolve_step e ps
      else if etype e ''gate_shutdown_execute'' then Inr (shutdown_execute_step e ps)
      else Inr ps)"

record shutdown_state =
  ss_has_pending :: bool
  ss_pending_id :: "string option"
  ss_pending_status :: "shutdown_status option"
  ss_execution_at :: "pyfloat option"
  ss_executed :: bool

definition pending_status :: "shutdown_status \<Rightarrow> bool" where
  "pending_status s \<longleftrightarrow> s = SD_FILED \<or> s = SD_EXECUTING \<or> s = SD_APPEALED"

definition shutdown_petitions_of :: "config \<Rightarrow> string \<Rightarrow> chain \<Rightarrow> shutdown_petitions res" where
  "shutdown_petitions_of cfg gid c =
     rbind (events_for_gate gid c) (\<lambda>es.
     rbind (foldR file_shutdown_step es []) (\<lambda>ps.
     rbind (chain_sort (dict_events c)) (\<lambda>all_es. foldR (shutdown_step cfg) all_es ps)))"

definition compute_shutdown_state :: "config \<Rightarrow> string \<Rightarrow> chain \<Rightarrow> shutdown_state res" where
  "compute_shutdown_state cfg gid c =
     rbind (shutdown_petitions_of cfg gid c) (\<lambda>ps.
     let p = List.find (\<lambda>(pid, p). pending_status (sd_status p)) ps in
     Inr \<lparr>ss_has_pending = (p \<noteq> None), ss_pending_id = map_option fst p,
          ss_pending_status = map_option (\<lambda>p. sd_status (snd p)) p,
          ss_execution_at = (case p of None \<Rightarrow> None | Some p \<Rightarrow> sd_execution_at (snd p)),
          ss_executed = (\<exists>p \<in> set ps. sd_status (snd p) = SD_EXECUTED)\<rparr>)"

definition validate_shutdown_filing ::
  "config \<Rightarrow> string \<Rightarrow> pyval \<Rightarrow> pyval \<Rightarrow> chain \<Rightarrow> pyfloat \<Rightarrow> pyfloat option \<Rightarrow> gate_filing res" where
  "validate_shutdown_filing cfg gid reason evidence c now filer_until =
     (if \<not> nonblank_str reason then Inr (gate_filing_of ''reason_empty'')
      else if \<not> evidence_given evidence then Inr (gate_filing_of ''evidence_required'')
      else rbind (get_gate_meta gid c) (\<lambda>meta.
        if meta = None then Inr (gate_filing_of ''gate_not_found'')
        else rbind (compute_suspension_state cfg gid c now) (\<lambda>s.
          if sp_status s = GATE_SHUTDOWN then Inr (gate_filing_of ''gate_already_shutdown'')
          else if sp_status s \<noteq> GATE_SUSPENDED then Inr (gate_filing_of ''gate_not_suspended'')
          else rbind (compute_shutdown_state cfg gid c) (\<lambda>sd.
            Inr (gate_filing_of
              (if ss_has_pending sd then ''shutdown_already_pending''
               else if cooling_down filer_until now then ''filer_cooldown_active''
               else ''ok''))))))"

subsection \<open>appeal.py\<close>

definition shutdown_petition_filed_at :: "string \<Rightarrow> chain \<Rightarrow> pyfloat option res" where
  "shutdown_petition_filed_at pid c =
     (case List.find (\<lambda>e. etype e ''gate_shutdown_file'' \<and> eget (payload e) ''petition_id'' = VStr pid)
             (dict_events c) of
        None \<Rightarrow> Inr None | Some e \<Rightarrow> rmap Some (event_ts e))"

definition shutdown_vote_passed_at :: "string \<Rightarrow> chain \<Rightarrow> pyfloat option res" where
  "shutdown_vote_passed_at pid c =
     (case List.find (\<lambda>e. etype e ''gate_shutdown_vote'' \<and> eget (payload e) ''petition_id'' = VStr pid \<and>
                          eget (payload e) ''vote'' = VStr ''passed'') (dict_events c) of
        None \<Rightarrow> Inr None | Some e \<Rightarrow> rmap Some (event_ts e))"

definition has_appeal :: "string \<Rightarrow> chain \<Rightarrow> bool" where
  "has_appeal pid c \<longleftrightarrow>
     (\<exists>e \<in> set (dict_events c). etype e ''gate_shutdown_appeal_file'' \<and>
        eget (payload e) ''target_petition_id'' = VStr pid)"

text \<open>\<open>not filed_at\<close>: a petition filed at time 0.0 counts as not found, too.\<close>

definition validate_appeal_filing ::
  "config \<Rightarrow> string \<Rightarrow> string \<Rightarrow> pyval \<Rightarrow> pyval \<Rightarrow> chain \<Rightarrow> pyfloat \<Rightarrow> pyfloat option \<Rightarrow> gate_filing res" where
  "validate_appeal_filing cfg gid target reason evidence c now filer_until =
     (if \<not> nonblank_str reason then Inr (gate_filing_of ''reason_empty'')
      else if \<not> evidence_given evidence then Inr (gate_filing_of ''evidence_required'')
      else rbind (get_gate_meta gid c) (\<lambda>meta.
        if meta = None then Inr (gate_filing_of ''gate_not_found'')
        else rbind (shutdown_petition_filed_at target c) (\<lambda>filed.
          if filed = None \<or> filed = Some (Fin 0) then Inr (gate_filing_of ''target_petition_not_found'')
          else if has_appeal target c then Inr (gate_filing_of ''appeal_already_filed'')
          else rbind (compute_shutdown_state cfg gid c) (\<lambda>sd.
            if ss_pending_status sd \<noteq> Some SD_EXECUTING
            then Inr (gate_filing_of ''target_not_in_executing_state'')
            else rbind (shutdown_vote_passed_at target c) (\<lambda>passed.
              case passed of
                None \<Rightarrow> Inr (gate_filing_of ''vote_not_passed'')
              | Some passed_ts \<Rightarrow>
                  rbind (cfg_float cfg ''gate_shutdown_appeal_window_hours'') (\<lambda>hours.
                  Inr (gate_filing_of
                    (if flt (fadd passed_ts (fmul hours SECONDS_PER_HOUR_GATE)) now then ''appeal_window_expired''
                     else if cooling_down filer_until now then ''filer_cooldown_active''
                     else ''ok''))))))))"

definition paused_execution_remaining_sec :: "config \<Rightarrow> string \<Rightarrow> chain \<Rightarrow> pyfloat \<Rightarrow> pyfloat res" where
  "paused_execution_remaining_sec cfg target c appeal_filed_at =
     rbind (shutdown_vote_passed_at target c) (\<lambda>passed.
     case passed of
       None \<Rightarrow> Inr (Fin 0)
     | Some passed_ts \<Rightarrow>
         rbind (cfg_float cfg ''gate_shutdown_execution_delay_days'') (\<lambda>days.
         Inr (fmax2 (Fin 0) (fsub (fadd passed_ts (fmul days SECONDS_PER_DAY_GATE)) appeal_filed_at))))"

end
