(* ===== verification/Gate_Claims.thy ===== *)
theory Gate_Claims
  imports Gate_Shutdown
begin

section \<open>What gates promise\<close>

text \<open>
  Properties of \<open>gates/\<close>: when a gate is locked, the two tiers of closing a gate, and the bound on
  appeals.
\<close>

subsection \<open>Membership\<close>

definition enters :: "string \<Rightarrow> event \<Rightarrow> bool" where
  "enters n e \<longleftrightarrow> etype e ''gate_enter'' \<and> eget e ''node_id'' = VStr n \<and> n \<noteq> []"

definition leaves :: "string \<Rightarrow> event \<Rightarrow> bool" where
  "leaves n e \<longleftrightarrow> etype e ''gate_exit'' \<and> eget e ''node_id'' = VStr n \<and> n \<noteq> []"

text \<open>The node entered and has not left since.\<close>

fun inside :: "string \<Rightarrow> event list \<Rightarrow> bool" where
  "inside n [] = False"
| "inside n (e # es) = (inside n es \<or> enters n e \<and> (\<forall>x \<in> set es. \<not> leaves n x))"

lemma inside_snoc: "inside n (es @ [e]) \<longleftrightarrow> enters n e \<or> inside n es \<and> \<not> leaves n e"
  by (induction es) auto

lemma split_Cons:
  "(\<exists>pre y post. x # xs = pre @ y # post \<and> P y post) \<longleftrightarrow> P x xs \<or> (\<exists>pre y post. xs = pre @ y # post \<and> P y post)"
proof
  assume "\<exists>pre y post. x # xs = pre @ y # post \<and> P y post"
  then obtain pre y post where "x # xs = pre @ y # post" "P y post" by blast
  then show "P x xs \<or> (\<exists>pre y post. xs = pre @ y # post \<and> P y post)" by (cases pre) auto
next
  assume "P x xs \<or> (\<exists>pre y post. xs = pre @ y # post \<and> P y post)"
  then show "\<exists>pre y post. x # xs = pre @ y # post \<and> P y post" by (metis append_Cons append_Nil)
qed

lemma inside_iff:
  "inside n es \<longleftrightarrow> (\<exists>pre e post. es = pre @ e # post \<and> enters n e \<and> (\<forall>x \<in> set post. \<not> leaves n x))"
  by (induction es) (simp_all add: split_Cons disj_commute)

lemma member_fold:
  "(let st = fold member_step es ([], False); shut = (\<exists>x \<in> set es. etype x ''gate_shutdown_execute'') in
    snd st = shut \<and> distinct (fst st) \<and> set (fst st) = {n. \<not> shut \<and> inside n es})"
proof (induction es rule: rev_induct)
  case Nil
  then show ?case by simp
next
  case (snoc e es)
  have other: "etype e t \<Longrightarrow> etype e u \<longleftrightarrow> t = u" for t u by (auto simp: etype_def)
  show ?case
    using snoc.IH
    by (cases "fold member_step es ([], False)"; cases "nonempty_str (eget e ''node_id'')";
      cases "etype e ''gate_shutdown_execute''"; cases "etype e ''gate_enter''"; cases "etype e ''gate_exit''")
      (auto simp: member_step_def inside_snoc enters_def leaves_def other nonempty_str_Some Let_def)
qed

text \<open>
  The member set is exact. The members of a gate are, each once, the nodes that entered it and
  have not left it since, in the order of the chain; and once the gate was shut down it has no
  members, whatever enters later.
\<close>

theorem members_are_inside:
  assumes "compute_member_set gid c = Inr ms"
  shows "\<exists>es. events_for_gate gid c = Inr es \<and> distinct ms \<and>
    (\<forall>n. n \<in> set ms \<longleftrightarrow>
       (\<forall>x \<in> set es. \<not> etype x ''gate_shutdown_execute'') \<and>
       (\<exists>pre e post. es = pre @ e # post \<and> enters n e \<and> (\<forall>x \<in> set post. \<not> leaves n x)))"
proof -
  from assms obtain es where es: "events_for_gate gid c = Inr es" and ms: "ms = fst (fold member_step es ([], False))"
    by (auto simp: compute_member_set_def rbind_Inr_iff)
  with member_fold [of es] show ?thesis by (simp add: Let_def inside_iff)
qed

subsection \<open>Locking\<close>

text \<open>The lock events that pay: from a member, with a finite fee of at least the cost.\<close>

definition paying_lock :: "pyfloat \<Rightarrow> string list \<Rightarrow> string \<Rightarrow> event \<Rightarrow> bool" where
  "paying_lock min_cost ms n e \<longleftrightarrow> etype e ''gate_lock'' \<and> eget e ''node_id'' = VStr n \<and> n \<noteq> [] \<and> n \<in> set ms \<and>
     (\<exists>paid. finite_float (py_or (eget (payload e) ''lock_cost'') (VFloat (Fin 0))) = Some paid \<and> \<not> flt paid min_cost) \<and>
     finite_float (py_or (eget e ''timestamp'') (VFloat (Fin 0))) \<noteq> None"

lemma lock_contribution_Inr:
  assumes cost: "cfg_int cfg ''gate_lock_cost_per_member'' = Inr cost" "int_to_float cost = Inr min_cost"
    and "lock_contribution cfg ms e out = Inr out'"
  shows "(\<exists>n ts. paying_lock min_cost ms n e \<and> n \<notin> fst ` set out \<and> out' = out @ [(n, ts)]) \<or>
    (\<forall>n. paying_lock min_cost ms n e \<longrightarrow> n \<in> fst ` set out) \<and> out' = out"
  using assms(3)
  by (auto simp: lock_contribution_def paying_lock_def rbind_Inr_iff cost nonempty_str_Some
      split: if_split_asm option.split_asm)

lemma lock_fold:
  assumes cost: "cfg_int cfg ''gate_lock_cost_per_member'' = Inr cost" "int_to_float cost = Inr min_cost"
    and "foldR (lock_contribution cfg ms) es out = Inr cs" and "distinct (map fst out)"
  shows "distinct (map fst cs) \<and> fst ` set cs = fst ` set out \<union> {n. \<exists>e \<in> set es. paying_lock min_cost ms n e}"
  using assms(3,4)
proof (induction es arbitrary: out)
  case Nil
  then show ?case by simp
next
  case (Cons e es)
  from Cons.prems(1) obtain out' where out': "lock_contribution cfg ms e out = Inr out'"
    and rest: "foldR (lock_contribution cfg ms) es out' = Inr cs" by (auto simp: rbind_Inr_iff)
  have one: "paying_lock min_cost ms n e \<Longrightarrow> paying_lock min_cost ms m e \<Longrightarrow> n = m" for n m
    by (simp add: paying_lock_def)
  from lock_contribution_Inr [OF cost out'] show ?case
  proof (elim disjE exE conjE)
    fix n ts
    assume pay: "paying_lock min_cost ms n e" and new: "n \<notin> fst ` set out" and eq: "out' = out @ [(n, ts)]"
    have "distinct (map fst out')" using Cons.prems(2) new by (simp add: eq)
    from Cons.IH [OF rest this] show ?thesis using pay one by (auto simp: eq)
  next
    assume all: "\<forall>n. paying_lock min_cost ms n e \<longrightarrow> n \<in> fst ` set out" and eq: "out' = out"
    from Cons.IH [OF rest] Cons.prems(2) all show ?thesis by (auto simp: eq)
  qed
qed

lemma py_index_sorted:
  "py_index ds (k - 1) = Inr d \<Longrightarrow> 1 \<le> k \<Longrightarrow> k \<le> int (length ds) \<Longrightarrow> d = ds ! nat (k - 1)"
  by (auto simp: py_index_def split: if_split_asm)

text \<open>
  C22: A gate is locked exactly while enough distinct current members have paid. The nodes that count
  are the current members with at least one lock event whose fee is finite and reaches the configured
  cost, each once however often it pays; the gate is locked exactly if there are at least the
  configured number of them, and then they are the reported lockers.
\<close>

theorem gate_locked_iff_enough_paid:
  assumes state: "lock_state cfg gid c = Inr s"
    and cost: "cfg_int cfg ''gate_lock_cost_per_member'' = Inr cost" "int_to_float cost = Inr min_cost"
    and need: "cfg_int cfg ''gate_lock_min_members'' = Inr need"
  shows "\<exists>ms es. compute_member_set gid c = Inr ms \<and> events_for_gate gid c = Inr es \<and>
    (let payers = {n. \<exists>e \<in> set es. paying_lock min_cost ms n e} in
     payers \<subseteq> set ms \<and> finite payers \<and>
     (lk_locked s \<longleftrightarrow> need \<le> int (card payers)) \<and>
     (lk_locked s \<longrightarrow> distinct (lk_by s) \<and> set (lk_by s) = payers))"
proof -
  from state obtain cs where cs: "collect_lock_contributions cfg gid c = Inr cs"
    and s: "if int (length cs) < need then s = \<lparr>lk_locked = False, lk_at = None, lk_by = []\<rparr>
      else \<exists>d. s = \<lparr>lk_locked = True, lk_at = Some (snd d), lk_by = map fst (sort_key snd cs)\<rparr>"
    by (auto simp: lock_state_def rbind_Inr_iff need Let_def split: if_split_asm)
  from cs obtain ms es where ms: "compute_member_set gid c = Inr ms" and es: "events_for_gate gid c = Inr es"
    and fold: "foldR (lock_contribution cfg ms) es [] = Inr cs"
    by (auto simp: collect_lock_contributions_def rbind_Inr_iff)
  define payers where "payers = {n. \<exists>e \<in> set es. paying_lock min_cost ms n e}"
  from lock_fold [OF cost fold] have d: "distinct (map fst cs)" and set: "fst ` set cs = payers"
    by (simp_all add: payers_def)
  have card: "card payers = length cs" using distinct_card [OF d] set by simp
  have "finite payers" unfolding set [symmetric] by simp
  moreover have "payers \<subseteq> set ms" by (auto simp: payers_def paying_lock_def)
  moreover have "lk_locked s \<longleftrightarrow> need \<le> int (card payers)" using s by (auto simp: card split: if_split_asm)
  moreover have "distinct (map fst (sort_key snd cs))"
    using d by (metis distinct_map mset_sort set_sort distinct_sort)
  then have "lk_locked s \<longrightarrow> distinct (lk_by s) \<and> set (lk_by s) = payers"
    using s set by (force split: if_split_asm)
  ultimately show ?thesis using ms es by (simp add: payers_def Let_def)
qed

text \<open>A gate with two members that both paid the fee; a third lock of the first one counts once.\<close>

definition gate_event :: "string \<Rightarrow> string \<Rightarrow> int \<Rightarrow> (string \<times> pyval) list \<Rightarrow> event" where
  "gate_event t n ts p = [(''event_type'', VStr t), (''node_id'', VStr n), (''timestamp'', VInt ts),
     (''sequence'', VInt ts), (''event_id'', VStr (int_str ts)), (''payload'', VDict ((''gate_id'', VStr ''g'') # p))]"

definition locked_gate_chain :: chain where
  "locked_gate_chain = map VDict
     [gate_event ''gate_create'' ''a'' 1 [], gate_event ''gate_enter'' ''a'' 2 [], gate_event ''gate_enter'' ''b'' 3 [],
      gate_event ''gate_lock'' ''b'' 5 [(''lock_cost'', VInt 10)], gate_event ''gate_lock'' ''a'' 6 [(''lock_cost'', VInt 10)],
      gate_event ''gate_lock'' ''a'' 7 [(''lock_cost'', VInt 10)], gate_event ''gate_lock'' ''z'' 8 [(''lock_cost'', VInt 10)]]"

definition gate_config :: config where
  "gate_config = [(''gate_lock_cost_per_member'', VInt 10), (''gate_lock_min_members'', VInt 2),
     (''gate_suspend_duration_days'', VInt 30), (''gate_shutdown_cooldown_days'', VInt 90),
     (''gate_shutdown_execution_delay_days'', VInt 7), (''gate_shutdown_appeal_window_hours'', VInt 48)]"

lemma locked_gate_state:
  "lock_state gate_config ''g'' locked_gate_chain =
     Inr \<lparr>lk_locked = True, lk_at = Some (Fin 6), lk_by = [''b'', ''a'']\<rparr>"
  by code_simp

theorem gate_locked_iff_enough_paid_witness:
  "\<exists>ms es. compute_member_set ''g'' locked_gate_chain = Inr ms \<and> events_for_gate ''g'' locked_gate_chain = Inr es \<and>
    {n. \<exists>e \<in> set es. paying_lock (Fin 10) ms n e} = {''a'', ''b''}"
proof -
  have cfg: "cfg_int gate_config ''gate_lock_cost_per_member'' = Inr 10" "int_to_float 10 = Inr (Fin 10)"
    "cfg_int gate_config ''gate_lock_min_members'' = Inr 2" by code_simp+
  note locked = gate_locked_iff_enough_paid [OF locked_gate_state cfg, unfolded Let_def]
  let ?s = "\<lparr>lk_locked = True, lk_at = Some (Fin 6), lk_by = [''b'', ''a'']\<rparr>"
  from locked show ?thesis
  proof (elim exE conjE)
    fix ms es
    assume run: "compute_member_set ''g'' locked_gate_chain = Inr ms" "events_for_gate ''g'' locked_gate_chain = Inr es"
      and payers: "lk_locked ?s \<longrightarrow> distinct (lk_by ?s) \<and> set (lk_by ?s) = {n. \<exists>e \<in> set es. paying_lock (Fin 10) ms n e}"
    from payers have "{n. \<exists>e \<in> set es. paying_lock (Fin 10) ms n e} = set [''b'', ''a'']"
      by (simp del: set_simps)
    then have "{n. \<exists>e \<in> set es. paying_lock (Fin 10) ms n e} = {''a'', ''b''}"
      by (simp only: list.set insert_commute)
    with run show ?thesis by blast
  qed
qed

theorem members_are_inside_witness:
  "\<exists>es. events_for_gate ''g'' locked_gate_chain = Inr es \<and> distinct [''a'', ''b''] \<and>
    (\<exists>pre e post. es = pre @ e # post \<and> enters ''b'' e)"
proof -
  have "compute_member_set ''g'' locked_gate_chain = Inr [''a'', ''b'']" by code_simp
  from members_are_inside [OF this] show ?thesis by (metis list.set_intros)
qed

subsection \<open>Two tiers\<close>

definition last_of :: "string \<Rightarrow> event list \<Rightarrow> event option" where
  "last_of t es = List.find (\<lambda>e. etype e t) (rev es)"

lemma last_of_snoc: "last_of t (es @ [e]) = (if etype e t then Some e else last_of t es)"
  by (simp add: last_of_def)

lemma foldR_snoc: "foldR f (xs @ [x]) s = rbind (foldR f xs s) (f x)"
proof -
  have "foldR f [x] = f x" by (rule ext) simp
  then show ?thesis by (simp add: foldR_append)
qed

lemma gate_times_fold:
  assumes "foldR gate_time_step es no_gate_times = Inr g"
  shows "(gt_executed g = None \<longleftrightarrow> last_of ''gate_shutdown_execute'' es = None) \<and>
    (\<forall>t. gt_suspended g = Some t \<longleftrightarrow> (\<exists>e. last_of ''gate_suspend_execute'' es = Some e \<and> event_ts e = Inr t)) \<and>
    (\<forall>t. gt_unsuspended g = Some t \<longleftrightarrow> (\<exists>e. last_of ''gate_unsuspend'' es = Some e \<and> event_ts e = Inr t))"
  using assms
proof (induction es arbitrary: g rule: rev_induct)
  case Nil
  then show ?case by (auto simp: no_gate_times_def last_of_def)
next
  case (snoc e es)
  from snoc.prems obtain g0 where g0: "foldR gate_time_step es no_gate_times = Inr g0"
    and g: "gate_time_step e g0 = Inr g" by (auto simp: foldR_snoc rbind_Inr_iff)
  from g obtain ts where ts: "event_ts e = Inr ts" by (auto simp: gate_time_step_def rbind_Inr_iff)
  have other: "etype e t \<Longrightarrow> etype e u \<longleftrightarrow> t = u" for t u by (auto simp: etype_def)
  have "gt_executed g = (if etype e ''gate_shutdown_execute'' then Some ts else gt_executed g0) \<and>
      gt_suspended g = (if etype e ''gate_suspend_execute'' then Some ts else gt_suspended g0) \<and>
      gt_unsuspended g = (if etype e ''gate_unsuspend'' then Some ts else gt_unsuspended g0)"
    using g [symmetric] by (cases "etype e ''gate_shutdown_execute''"; cases "etype e ''gate_suspend_execute''";
      cases "etype e ''gate_unsuspend''"; cases "etype e ''gate_shutdown_file''")
      (auto simp: gate_time_step_def ts other)
  then show ?case using snoc.IH [OF g0] ts by (simp add: last_of_snoc)
qed

lemma last_of_Some: "last_of t es = Some e \<Longrightarrow> e \<in> set es \<and> etype e t"
  by (auto simp: last_of_def find_Some_iff) (metis nth_mem length_rev set_rev)

lemma suspended_since:
  assumes "compute_suspension_state cfg gid c now = Inr s" and "sp_status s = GATE_SUSPENDED"
  shows "\<exists>es e ts days. events_for_gate gid c = Inr es \<and> last_of ''gate_shutdown_execute'' es = None \<and>
    last_of ''gate_suspend_execute'' es = Some e \<and> event_ts e = Inr ts \<and>
    (\<forall>u tu. last_of ''gate_unsuspend'' es = Some u \<longrightarrow> event_ts u = Inr tu \<longrightarrow> \<not> flt ts tu) \<and>
    cfg_float cfg ''gate_suspend_duration_days'' = Inr days \<and> \<not> fle (fadd ts (fmul days SECONDS_PER_DAY_GATE)) now"
proof -
  from assms(1) obtain es g where es: "events_for_gate gid c = Inr es"
    and g: "foldR gate_time_step es no_gate_times = Inr g"
    by (auto simp: compute_suspension_state_def rbind_Inr_iff)
  from assms obtain ts days where none: "gt_executed g = None" and ts: "gt_suspended g = Some ts"
    and unsus: "(case gt_unsuspended g of None \<Rightarrow> False | Some u \<Rightarrow> flt ts u) = False"
    and days: "cfg_float cfg ''gate_suspend_duration_days'' = Inr days"
      "\<not> fle (fadd ts (fmul days SECONDS_PER_DAY_GATE)) now"
    by (auto simp: compute_suspension_state_def rbind_Inr_iff es g Let_def split: if_split_asm option.split_asm)
  note times = gate_times_fold [OF g]
  have shut: "last_of ''gate_shutdown_execute'' es = None" using times none by blast
  obtain e where e: "last_of ''gate_suspend_execute'' es = Some e" "event_ts e = Inr ts" using times ts by blast
  have "\<not> flt ts tu" if "last_of ''gate_unsuspend'' es = Some u" "event_ts u = Inr tu" for u tu
  proof -
    have "gt_unsuspended g = Some tu" using times that by blast
    then show ?thesis using unsus by simp
  qed
  with es days shut e show ?thesis by blast
qed

lemma shutdown_state_pending:
  assumes "compute_shutdown_state cfg gid c = Inr sd"
  shows "\<exists>ps. shutdown_petitions_of cfg gid c = Inr ps \<and>
    (ss_has_pending sd \<longleftrightarrow> (\<exists>p \<in> set ps. pending_status (sd_status (snd p)))) \<and>
    (\<forall>st. ss_pending_status sd = Some st \<longrightarrow> (\<exists>p \<in> set ps. sd_status (snd p) = st))"
proof -
  from assms obtain ps where ps: "shutdown_petitions_of cfg gid c = Inr ps"
    and has: "ss_has_pending sd \<longleftrightarrow> List.find (\<lambda>(pid, p). pending_status (sd_status p)) ps \<noteq> None"
    and st: "ss_pending_status sd =
      map_option (\<lambda>p. sd_status (snd p)) (List.find (\<lambda>(pid, p). pending_status (sd_status p)) ps)"
    by (auto simp: compute_shutdown_state_def rbind_Inr_iff Let_def)
  have "ss_has_pending sd \<longleftrightarrow> (\<exists>p \<in> set ps. pending_status (sd_status (snd p)))"
    unfolding has find_None_iff by (metis (mono_tags, lifting) case_prod_unfold)
  moreover have "\<exists>p \<in> set ps. sd_status (snd p) = t" if t: "ss_pending_status sd = Some t" for t
  proof -
    from t st obtain p where "List.find (\<lambda>(pid, p). pending_status (sd_status p)) ps = Some p" "sd_status (snd p) = t"
      by auto
    then show ?thesis by (metis (no_types, lifting) find_Some_iff nth_mem)
  qed
  ultimately show ?thesis using ps by blast
qed

text \<open>
  C23: A gate cannot be shut down without surviving a suspension. A shutdown filing is accepted only
  for a gate that was created and never shut down, whose latest suspension is not lifted by a later
  unsuspend event and has not run out, and against which no shutdown petition is pending.
\<close>

theorem shutdown_needs_suspension:
  assumes "validate_shutdown_filing cfg gid reason evidence c now cooldown = Inr v" and "gf_accepted v"
  shows "(\<exists>e \<in> set (dict_events c). etype e ''gate_create'' \<and> gate_id_of e = gid) \<and>
    (\<exists>es e ts days. events_for_gate gid c = Inr es \<and> (\<forall>x \<in> set es. \<not> etype x ''gate_shutdown_execute'') \<and>
       last_of ''gate_suspend_execute'' es = Some e \<and> event_ts e = Inr ts \<and>
       (\<forall>u tu. last_of ''gate_unsuspend'' es = Some u \<longrightarrow> event_ts u = Inr tu \<longrightarrow> \<not> flt ts tu) \<and>
       cfg_float cfg ''gate_suspend_duration_days'' = Inr days \<and>
       \<not> fle (fadd ts (fmul days SECONDS_PER_DAY_GATE)) now) \<and>
    (\<exists>ps. shutdown_petitions_of cfg gid c = Inr ps \<and> (\<forall>p \<in> set ps. \<not> pending_status (sd_status (snd p))))"
proof -
  from assms obtain m s sd where meta: "get_gate_meta gid c = Inr (Some m)"
    and s: "compute_suspension_state cfg gid c now = Inr s" "sp_status s = GATE_SUSPENDED"
    and sd: "compute_shutdown_state cfg gid c = Inr sd" "\<not> ss_has_pending sd"
    by (auto simp: validate_shutdown_filing_def gate_filing_of_def rbind_Inr_iff split: if_split_asm)
  from meta have "\<exists>e \<in> set (dict_events c). etype e ''gate_create'' \<and> gate_id_of e = gid"
    by (auto simp: get_gate_meta_def find_Some_iff split: option.split_asm) 
  moreover from suspended_since [OF s] have "\<exists>es e ts days. events_for_gate gid c = Inr es \<and>
       (\<forall>x \<in> set es. \<not> etype x ''gate_shutdown_execute'') \<and>
       last_of ''gate_suspend_execute'' es = Some e \<and> event_ts e = Inr ts \<and>
       (\<forall>u tu. last_of ''gate_unsuspend'' es = Some u \<longrightarrow> event_ts u = Inr tu \<longrightarrow> \<not> flt ts tu) \<and>
       cfg_float cfg ''gate_suspend_duration_days'' = Inr days \<and>
       \<not> fle (fadd ts (fmul days SECONDS_PER_DAY_GATE)) now"
    by (auto simp: last_of_def find_None_iff)
  moreover from sd have "\<exists>ps. shutdown_petitions_of cfg gid c = Inr ps \<and>
      (\<forall>p \<in> set ps. \<not> pending_status (sd_status (snd p)))"
    using shutdown_state_pending by blast
  ultimately show ?thesis by blast
qed

definition suspended_gate_chain :: chain where
  "suspended_gate_chain = map VDict
     [gate_event ''gate_create'' ''a'' 1 [], gate_event ''gate_suspend_execute'' ''a'' 2 []]"

lemma suspended_gate_filing:
  "validate_shutdown_filing gate_config ''g'' (VStr ''r'') (VList [VStr ''h'']) suspended_gate_chain (Fin 9) None =
     Inr \<lparr>gf_accepted = True, gf_reason = ''ok''\<rparr>"
  by code_simp

theorem shutdown_needs_suspension_witness:
  "\<exists>es. events_for_gate ''g'' suspended_gate_chain = Inr es \<and>
    (\<exists>e ts. last_of ''gate_suspend_execute'' es = Some e \<and> event_ts e = Inr ts)"
  using shutdown_needs_suspension [OF suspended_gate_filing] by auto

subsection \<open>Appeals\<close>

text \<open>
  C24: Appeals cannot stall a shutdown. An appeal is accepted only for a filed shutdown petition that
  has no appeal yet, while some petition of the gate is executing and the filing window after the
  passing vote is open. Once an appeal event for a petition is on the chain, no further appeal for it
  is ever accepted, whatever is appended and whenever it is tried.
\<close>

theorem one_appeal_per_shutdown:
  assumes "validate_appeal_filing cfg gid target reason evidence c now cooldown = Inr v" and "gf_accepted v"
  shows "(\<exists>e \<in> set (dict_events c). etype e ''gate_shutdown_file'' \<and> eget (payload e) ''petition_id'' = VStr target) \<and>
    \<not> has_appeal target c \<and>
    (\<exists>ps. shutdown_petitions_of cfg gid c = Inr ps \<and> (\<exists>p \<in> set ps. sd_status (snd p) = SD_EXECUTING)) \<and>
    (\<exists>ts hours. shutdown_vote_passed_at target c = Inr (Some ts) \<and>
       cfg_float cfg ''gate_shutdown_appeal_window_hours'' = Inr hours \<and>
       \<not> flt (fadd ts (fmul hours SECONDS_PER_HOUR_GATE)) now) \<and>
    (\<forall>a more reason' evidence' later cooldown' w.
       etype a ''gate_shutdown_appeal_file'' \<and> eget (payload a) ''target_petition_id'' = VStr target \<and>
       validate_appeal_filing cfg gid target reason' evidence' (c @ [VDict a] @ more) later cooldown' = Inr w \<longrightarrow>
       \<not> gf_accepted w)"
proof -
  note unfold = validate_appeal_filing_def gate_filing_of_def rbind_Inr_iff
  from assms obtain ft where filed: "shutdown_petition_filed_at target c = Inr (Some ft)"
    by (auto simp: unfold split: if_split_asm)
  from assms have fresh: "\<not> has_appeal target c" by (auto simp: unfold split: if_split_asm)
  from assms obtain sd where sd: "compute_shutdown_state cfg gid c = Inr sd" "ss_pending_status sd = Some SD_EXECUTING"
    by (auto simp: unfold split: if_split_asm)
  from assms obtain ts hours where window: "shutdown_vote_passed_at target c = Inr (Some ts)"
      "cfg_float cfg ''gate_shutdown_appeal_window_hours'' = Inr hours"
      "\<not> flt (fadd ts (fmul hours SECONDS_PER_HOUR_GATE)) now"
    by (auto simp: unfold split: if_split_asm option.split_asm) (blast | simp)+
  from filed have "\<exists>e \<in> set (dict_events c). etype e ''gate_shutdown_file'' \<and> eget (payload e) ''petition_id'' = VStr target"
    by (auto simp: shutdown_petition_filed_at_def find_Some_iff split: option.split_asm)
  moreover from sd have "\<exists>ps. shutdown_petitions_of cfg gid c = Inr ps \<and> (\<exists>p \<in> set ps. sd_status (snd p) = SD_EXECUTING)"
    using shutdown_state_pending by blast
  moreover have "\<not> gf_accepted w" if "has_appeal target c'"
    "validate_appeal_filing cfg gid target reason' evidence' c' later cooldown' = Inr w"
    for c' reason' evidence' later cooldown' w
    using that by (auto simp: validate_appeal_filing_def gate_filing_of_def rbind_Inr_iff split: if_split_asm option.split_asm)
  moreover have "has_appeal target (c @ [VDict a] @ more)"
    if "etype a ''gate_shutdown_appeal_file''" "eget (payload a) ''target_petition_id'' = VStr target" for a more
    using that by (auto simp: has_appeal_def)
  ultimately show ?thesis using fresh window by blast
qed

text \<open>A shutdown petition whose vote passed one hour ago.\<close>

definition appealable_chain :: chain where
  "appealable_chain = suspended_gate_chain @ map VDict
     [gate_event ''gate_shutdown_file'' ''a'' 10 [(''petition_id'', VStr ''p'')],
      gate_event ''gate_shutdown_vote'' ''a'' 20 [(''petition_id'', VStr ''p''), (''vote'', VStr ''passed'')]]"

lemma appealable_filing:
  "validate_appeal_filing gate_config ''g'' ''p'' (VStr ''r'') (VList [VStr ''h'']) appealable_chain (Fin 3620) None =
     Inr \<lparr>gf_accepted = True, gf_reason = ''ok''\<rparr>"
  by code_simp

theorem one_appeal_per_shutdown_witness:
  "\<exists>ps. shutdown_petitions_of gate_config ''g'' appealable_chain = Inr ps \<and>
    (\<exists>p \<in> set ps. sd_status (snd p) = SD_EXECUTING)"
  using one_appeal_per_shutdown [OF appealable_filing] by simp

end
