(* ===== verification/Mesh_Protocol.thy ===== *)
theory Mesh_Protocol
  imports Py_Hashlib Chain_Events
begin

section \<open>Canonical payloads of mesh events\<close>

text \<open>
  Models \<open>services/mesh/mesh_protocol.py\<close>: the protocol constants, one normalizer per event type,
  and the signed context that binds a write to its endpoint, author, sequence and body. A
  normalizer raises only where \<open>_safe_int\<close> lets OverflowError pass (an infinite float).
\<close>

subsection \<open>String methods and dictionary access\<close>

text \<open>\<open>str.lower\<close> on the first 256 code points.\<close>

definition lower_char :: "char \<Rightarrow> char" where
  "lower_char c =
     (let n = (of_char c :: int) in
      if 65 \<le> n \<and> n \<le> 90 \<or> 192 \<le> n \<and> n \<le> 222 \<and> n \<noteq> 215 then char_of (n + 32) else c)"

definition py_lower :: "string \<Rightarrow> string" where
  "py_lower s = map lower_char s"

definition strip_lower :: "string \<Rightarrow> string" where
  "strip_lower s = py_lower (py_strip s)"

text \<open>\<open>d.get(k, default)\<close>, \<open>str(d.get(k, default))\<close> and \<open>str(d.get(k, "") or "")\<close>\<close>

definition mget :: "event \<Rightarrow> string \<Rightarrow> pyval \<Rightarrow> pyval" where
  "mget d k v = get_or (map_of d k) v"

definition sget :: "event \<Rightarrow> string \<Rightarrow> string \<Rightarrow> string" where
  "sget d k v = py_str (mget d k (VStr v))"

definition sget_or :: "event \<Rightarrow> string \<Rightarrow> string \<Rightarrow> string" where
  "sget_or d k v = py_str (py_or (mget d k (VStr v)) (VStr v))"

text \<open>\<open>_safe_int(v, 0)\<close>: OverflowError is not caught.\<close>

definition int_or_zero :: "pyval \<Rightarrow> int res" where
  "int_or_zero v = rbind (catch_tv (py_int v)) (\<lambda>x. Inr (get_or x 0))"

definition iget :: "event \<Rightarrow> string \<Rightarrow> int res" where
  "iget d k = int_or_zero (mget d k (VInt 0))"

text \<open>\<open>if s: normalized[k] = s\<close> for a key that is not set before.\<close>

definition with_str :: "string \<Rightarrow> string \<Rightarrow> event \<Rightarrow> event" where
  "with_str k s d = (if s = [] then d else d @ [(k, VStr s)])"

text \<open>
  The test \<open>==\<close> on JSON values. Dictionaries compare without order, numbers by value across
  types. Two NaN count as equal, since the values compared here are the same objects.
\<close>

fun py_eq :: "pyval \<Rightarrow> pyval \<Rightarrow> bool"
  and py_eq_list :: "pyval list \<Rightarrow> pyval list \<Rightarrow> bool"
  and py_eq_items :: "event \<Rightarrow> event \<Rightarrow> bool" where
  "py_eq (VStr s) b \<longleftrightarrow> b = VStr s"
| "py_eq VNone b \<longleftrightarrow> b = VNone"
| "py_eq (VList xs) b \<longleftrightarrow> (case b of VList ys \<Rightarrow> py_eq_list xs ys | _ \<Rightarrow> False)"
| "py_eq (VDict d) b \<longleftrightarrow>
     (case b of VDict e \<Rightarrow> length d = length e \<and> py_eq_items d e | _ \<Rightarrow> False)"
| "py_eq a b \<longleftrightarrow> num_of a = num_of b"
| "py_eq_list [] ys \<longleftrightarrow> ys = []"
| "py_eq_list (x # xs) ys \<longleftrightarrow> (case ys of [] \<Rightarrow> False | y # ys \<Rightarrow> py_eq x y \<and> py_eq_list xs ys)"
| "py_eq_items [] e \<longleftrightarrow> True"
| "py_eq_items ((k, v) # d) e \<longleftrightarrow>
     (case map_of e k of None \<Rightarrow> False | Some w \<Rightarrow> py_eq v w) \<and> py_eq_items d e"

definition canonical_json :: "event \<Rightarrow> string" where
  "canonical_json d = json_dumps (VDict d)"

subsection \<open>Constants\<close>

definition PROTOCOL_VERSION :: string where
  "PROTOCOL_VERSION = ''infonet/2''"

definition NETWORK_ID :: string where
  "NETWORK_ID = ''sb-testnet-0''"

definition SIGNED_CONTEXT_PROTOCOL :: string where
  "SIGNED_CONTEXT_PROTOCOL = ''vincent_os''"

definition SIGNED_CONTEXT_VERSION :: int where
  "SIGNED_CONTEXT_VERSION = 1"

definition SIGNED_CONTEXT_FIELD :: string where
  "SIGNED_CONTEXT_FIELD = ''signed_context''"

subsection \<open>The signed context\<close>

definition normalize_signed_context :: "pyval \<Rightarrow> event res" where
  "normalize_signed_context v =
     (case v of VDict d \<Rightarrow>
        rbind (iget d ''version'') (\<lambda>version.
        rbind (iget d ''sequence'') (\<lambda>sequence.
        Inr (with_str ''target_id'' (py_strip (sget_or d ''target_id'' []))
            (with_str ''recipient_id'' (py_strip (sget_or d ''recipient_id'' []))
            (with_str ''gate_id'' (strip_lower (sget_or d ''gate_id'' []))
            [(''protocol'', VStr (sget_or d ''protocol'' [])), (''version'', VInt version),
             (''event_type'', VStr (sget_or d ''event_type'' [])), (''kind'', VStr (sget_or d ''kind'' [])),
             (''endpoint'', VStr (sget_or d ''endpoint'' [])),
             (''lane_floor'', VStr (strip_lower (sget_or d ''lane_floor'' []))),
             (''sequence_domain'', VStr (sget_or d ''sequence_domain'' [])),
             (''node_id'', VStr (sget_or d ''node_id'' [])), (''sequence'', VInt sequence),
             (''body_hash'', VStr (strip_lower (sget_or d ''body_hash'' [])))])))))
      | _ \<Rightarrow> Inr [])"

definition copy_signed_context :: "event \<Rightarrow> event \<Rightarrow> event res" where
  "copy_signed_context normalized p =
     rbind (normalize_signed_context (eget p SIGNED_CONTEXT_FIELD)) (\<lambda>ctx.
     Inr (if ctx = [] then normalized else normalized @ [(SIGNED_CONTEXT_FIELD, VDict ctx)]))"

subsection \<open>Normalizers\<close>

definition transport_lock :: "event \<Rightarrow> string" where
  "transport_lock p = strip_lower (sget_or p ''transport_lock'' [])"

text \<open>\<open>_normalize_number\<close>: any exception of \<open>float\<close> gives 0, an integral float becomes an integer.\<close>

definition normalize_number :: "pyval \<Rightarrow> pyval" where
  "normalize_number v =
     (case py_float v of
        Inl _ \<Rightarrow> VInt 0
      | Inr (Fin q) \<Rightarrow> if q = of_int \<lfloor>q\<rfloor> then VInt \<lfloor>q\<rfloor> else VFloat (Fin q)
      | Inr f \<Rightarrow> VFloat f)"

definition message_fields :: "event \<Rightarrow> event res" where
  "message_fields p =
     Inr
       (with_str ''transport_lock'' (transport_lock p)
        [(''message'', VStr (sget p ''message'' [])), (''destination'', VStr (sget p ''destination'' [])),
         (''channel'', VStr (sget p ''channel'' ''LongFast'')), (''priority'', VStr (sget p ''priority'' ''normal'')),
         (''ephemeral'', VBool (truthy (mget p ''ephemeral'' (VBool False))))])"

definition normalize_message_payload :: "event \<Rightarrow> event res" where
  "normalize_message_payload p = rbind (message_fields p) (\<lambda>n. copy_signed_context n p)"

definition gate_message_fields :: "event \<Rightarrow> event res" where
  "gate_message_fields p =
     rbind (iget p ''epoch'') (\<lambda>epoch.
     Inr
       (with_str ''transport_lock'' (transport_lock p)
       (with_str ''reply_to'' (py_strip (sget_or p ''reply_to'' []))
       (with_str ''envelope_hash'' (py_strip (sget_or p ''envelope_hash'' []))
       (with_str ''gate_envelope'' (py_strip (sget_or p ''gate_envelope'' []))
        ([(''gate'', VStr (strip_lower (sget p ''gate'' []))), (''ciphertext'', VStr (sget p ''ciphertext'' [])),
          (''nonce'', VStr (py_str (mget p ''nonce'' (mget p ''iv'' (VStr []))))),
          (''sender_ref'', VStr (sget p ''sender_ref'' [])),
          (''format'', VStr (strip_lower (sget_or p ''format'' ''mls1'')))] @
         (if 0 < epoch then [(''epoch'', VInt epoch)] else [])))))))"

definition normalize_gate_message_payload :: "event \<Rightarrow> event res" where
  "normalize_gate_message_payload p = rbind (gate_message_fields p) (\<lambda>n. copy_signed_context n p)"

definition vote_fields :: "event \<Rightarrow> event res" where
  "vote_fields p =
     rbind (iget p ''vote'') (\<lambda>vote.
     Inr
       [(''target_id'', VStr (sget p ''target_id'' [])), (''vote'', VInt vote), (''gate'', VStr (sget p ''gate'' []))])"

definition normalize_vote_payload :: "event \<Rightarrow> event res" where
  "normalize_vote_payload p = rbind (vote_fields p) (\<lambda>n. copy_signed_context n p)"

definition gate_create_fields :: "event \<Rightarrow> event res" where
  "gate_create_fields p =
     Inr
       [(''gate_id'', VStr (py_lower (sget p ''gate_id'' []))),
        (''display_name'', VStr (take 64 (sget p ''display_name'' []))),
        (''rules'', (case mget p ''rules'' (VDict []) of VDict r \<Rightarrow> VDict r | _ \<Rightarrow> VDict []))]"

definition normalize_gate_create_payload :: "event \<Rightarrow> event res" where
  "normalize_gate_create_payload p = rbind (gate_create_fields p) (\<lambda>n. copy_signed_context n p)"

definition normalize_prediction_payload :: "event \<Rightarrow> event res" where
  "normalize_prediction_payload p =
     Inr [(''market_title'', VStr (sget p ''market_title'' [])), (''side'', VStr (sget p ''side'' [])),
          (''stake_amount'', normalize_number (mget p ''stake_amount'' (VFloat (Fin 0))))]"

definition normalize_stake_payload :: "event \<Rightarrow> event res" where
  "normalize_stake_payload p =
     rbind (iget p ''duration_days'') (\<lambda>days.
     Inr [(''message_id'', VStr (sget p ''message_id'' [])), (''poster_id'', VStr (sget p ''poster_id'' [])),
          (''side'', VStr (sget p ''side'' [])),
          (''amount'', normalize_number (mget p ''amount'' (VFloat (Fin 0)))), (''duration_days'', VInt days)])"

definition dm_key_fields :: "event \<Rightarrow> event res" where
  "dm_key_fields p =
     rbind (iget p ''timestamp'') (\<lambda>ts.
     Inr
       (with_str ''transport_lock'' (transport_lock p)
        [(''dh_pub_key'', VStr (sget p ''dh_pub_key'' [])), (''dh_algo'', VStr (sget p ''dh_algo'' [])),
         (''timestamp'', VInt ts)]))"

definition normalize_dm_key_payload :: "event \<Rightarrow> event res" where
  "normalize_dm_key_payload p = rbind (dm_key_fields p) (\<lambda>n. copy_signed_context n p)"

definition dm_message_fields :: "event \<Rightarrow> event res" where
  "dm_message_fields p =
     rbind (iget p ''timestamp'') (\<lambda>ts.
     Inr
       (with_str ''transport_lock'' (transport_lock p)
       (with_str ''relay_salt'' (strip_lower (sget_or p ''relay_salt'' []))
       (with_str ''sender_seal'' (sget_or p ''sender_seal'' [])
       (with_str ''session_welcome''
          (let w = eget p ''session_welcome'' in if truthy w then py_str w else [])
        [(''recipient_id'', VStr (sget p ''recipient_id'' [])),
         (''delivery_class'', VStr (py_lower (sget p ''delivery_class'' []))),
         (''recipient_token'', VStr (sget p ''recipient_token'' [])),
         (''ciphertext'', VStr (sget p ''ciphertext'' [])), (''msg_id'', VStr (sget p ''msg_id'' [])),
         (''timestamp'', VInt ts), (''format'', VStr (strip_lower (sget_or p ''format'' ''dm1'')))])))))"

definition normalize_dm_message_payload :: "event \<Rightarrow> event res" where
  "normalize_dm_message_payload p = rbind (dm_message_fields p) (\<lambda>n. copy_signed_context n p)"

definition normalize_dm_message_payload_legacy :: "event \<Rightarrow> event res" where
  "normalize_dm_message_payload_legacy p =
     rbind (iget p ''timestamp'') (\<lambda>ts.
     Inr [(''recipient_id'', VStr (sget p ''recipient_id'' [])),
          (''delivery_class'', VStr (py_lower (sget p ''delivery_class'' []))),
          (''recipient_token'', VStr (sget p ''recipient_token'' [])),
          (''ciphertext'', VStr (sget p ''ciphertext'' [])), (''msg_id'', VStr (sget p ''msg_id'' [])),
          (''timestamp'', VInt ts)])"

definition normalize_mailbox_claims :: "event \<Rightarrow> pyval list" where
  "normalize_mailbox_claims p =
     (case mget p ''mailbox_claims'' (VList []) of
        VList cs \<Rightarrow> map (\<lambda>c. VDict [(''type'', VStr (py_lower (sget c ''type'' []))),
                                     (''token'', VStr (sget c ''token'' []))]) (dict_events cs)
      | _ \<Rightarrow> [])"

definition dm_poll_fields :: "event \<Rightarrow> event res" where
  "dm_poll_fields p =
     rbind (iget p ''timestamp'') (\<lambda>ts.
     Inr
       (with_str ''transport_lock'' (transport_lock p)
        [(''mailbox_claims'', VList (normalize_mailbox_claims p)), (''timestamp'', VInt ts),
         (''nonce'', VStr (sget p ''nonce'' []))]))"

definition normalize_dm_poll_payload :: "event \<Rightarrow> event res" where
  "normalize_dm_poll_payload p = rbind (dm_poll_fields p) (\<lambda>n. copy_signed_context n p)"

definition normalize_dm_count_payload :: "event \<Rightarrow> event res" where
  "normalize_dm_count_payload p = normalize_dm_poll_payload p"

definition dm_block_fields :: "event \<Rightarrow> event res" where
  "dm_block_fields p =
     Inr
       (with_str ''transport_lock'' (transport_lock p)
        [(''blocked_id'', VStr (sget p ''blocked_id'' [])),
         (''action'', VStr (py_lower (sget p ''action'' ''block'')))])"

definition normalize_dm_block_payload :: "event \<Rightarrow> event res" where
  "normalize_dm_block_payload p = rbind (dm_block_fields p) (\<lambda>n. copy_signed_context n p)"

definition dm_key_witness_fields :: "event \<Rightarrow> event res" where
  "dm_key_witness_fields p =
     rbind (iget p ''timestamp'') (\<lambda>ts.
     Inr
       (with_str ''transport_lock'' (transport_lock p)
        [(''target_id'', VStr (sget p ''target_id'' [])), (''dh_pub_key'', VStr (sget p ''dh_pub_key'' [])),
         (''timestamp'', VInt ts)]))"

definition normalize_dm_key_witness_payload :: "event \<Rightarrow> event res" where
  "normalize_dm_key_witness_payload p = rbind (dm_key_witness_fields p) (\<lambda>n. copy_signed_context n p)"

definition trust_vouch_fields :: "event \<Rightarrow> event res" where
  "trust_vouch_fields p =
     rbind (iget p ''timestamp'') (\<lambda>ts.
     Inr
       (with_str ''transport_lock'' (transport_lock p)
        [(''target_id'', VStr (sget p ''target_id'' [])), (''note'', VStr (take 140 (sget p ''note'' []))),
         (''timestamp'', VInt ts)]))"

definition normalize_trust_vouch_payload :: "event \<Rightarrow> event res" where
  "normalize_trust_vouch_payload p = rbind (trust_vouch_fields p) (\<lambda>n. copy_signed_context n p)"

definition key_rotate_fields :: "event \<Rightarrow> event res" where
  "key_rotate_fields p =
     rbind (iget p ''timestamp'') (\<lambda>ts.
     Inr
       (with_str ''transport_lock'' (transport_lock p)
        [(''old_node_id'', VStr (sget p ''old_node_id'' [])), (''old_public_key'', VStr (sget p ''old_public_key'' [])),
         (''old_public_key_algo'', VStr (sget p ''old_public_key_algo'' [])),
         (''new_public_key'', VStr (sget p ''new_public_key'' [])),
         (''new_public_key_algo'', VStr (sget p ''new_public_key_algo'' [])), (''timestamp'', VInt ts),
         (''old_signature'', VStr (sget p ''old_signature'' []))]))"

definition normalize_key_rotate_payload :: "event \<Rightarrow> event res" where
  "normalize_key_rotate_payload p = rbind (key_rotate_fields p) (\<lambda>n. copy_signed_context n p)"

definition key_revoke_fields :: "event \<Rightarrow> event res" where
  "key_revoke_fields p =
     rbind (iget p ''revoked_at'') (\<lambda>revoked.
     rbind (iget p ''grace_until'') (\<lambda>grace.
     Inr
       (with_str ''transport_lock'' (transport_lock p)
        [(''revoked_public_key'', VStr (sget p ''revoked_public_key'' [])),
         (''revoked_public_key_algo'', VStr (sget p ''revoked_public_key_algo'' [])),
         (''revoked_at'', VInt revoked), (''grace_until'', VInt grace),
         (''reason'', VStr (take 140 (sget p ''reason'' [])))])))"

definition normalize_key_revoke_payload :: "event \<Rightarrow> event res" where
  "normalize_key_revoke_payload p = rbind (key_revoke_fields p) (\<lambda>n. copy_signed_context n p)"

definition normalize_abuse_report_payload :: "event \<Rightarrow> event res" where
  "normalize_abuse_report_payload p =
     Inr [(''target_id'', VStr (sget p ''target_id'' [])), (''reason'', VStr (take 280 (sget p ''reason'' []))),
          (''gate'', VStr (sget p ''gate'' [])), (''evidence'', VStr (take 256 (sget p ''evidence'' [])))]"

text \<open>The helpers \<open>_f\<close> and \<open>_i\<close> of the anomaly normalizer; \<open>_i\<close> does not catch OverflowError.\<close>

definition sar_float :: "event \<Rightarrow> string \<Rightarrow> pyval res" where
  "sar_float p k =
     rbind (catch_tv (py_float (py_or (mget p k (VFloat (Fin 0))) (VFloat (Fin 0))))) (\<lambda>x.
     Inr (VFloat (get_or x (Fin 0))))"

definition sar_int :: "event \<Rightarrow> string \<Rightarrow> pyval res" where
  "sar_int p k =
     rbind (catch_tv (py_int (py_or (mget p k (VInt 0)) (VInt 0)))) (\<lambda>x. Inr (VInt (get_or x 0)))"

definition normalize_sar_anomaly_payload :: "event \<Rightarrow> event res" where
  "normalize_sar_anomaly_payload p =
     (let txt = (\<lambda>k n. (k, VStr (take n (sget p k [])))) in
      rbind (sar_float p ''lat'') (\<lambda>lat.
      rbind (sar_float p ''lon'') (\<lambda>lon.
      rbind (sar_float p ''magnitude'') (\<lambda>magnitude.
      rbind (sar_float p ''confidence'') (\<lambda>confidence.
      rbind (sar_int p ''scene_count'') (\<lambda>scenes.
      Inr [txt ''anomaly_id'' 128, txt ''kind'' 48, (''lat'', lat), (''lon'', lon), (''magnitude'', magnitude),
           txt ''magnitude_unit'' 32, (''confidence'', confidence), txt ''first_seen'' 32, txt ''last_seen'' 32,
           txt ''stack_id'' 64, (''scene_count'', scenes), txt ''evidence_hash'' 128, txt ''solver'' 64,
           txt ''source_constellation'' 64]))))))"

definition normalize_payload :: "string \<Rightarrow> event \<Rightarrow> event res" where
  "normalize_payload t p =
     (if t = ''message'' then normalize_message_payload p
      else if t = ''gate_message'' then normalize_gate_message_payload p
      else if t = ''vote'' then normalize_vote_payload p
      else if t = ''gate_create'' then normalize_gate_create_payload p
      else if t = ''prediction'' then normalize_prediction_payload p
      else if t = ''stake'' then normalize_stake_payload p
      else if t = ''dm_key'' then normalize_dm_key_payload p
      else if t = ''dm_message'' then normalize_dm_message_payload p
      else if t = ''dm_poll'' then normalize_dm_poll_payload p
      else if t = ''dm_count'' then normalize_dm_count_payload p
      else if t = ''dm_block'' then normalize_dm_block_payload p
      else if t = ''dm_key_witness'' then normalize_dm_key_witness_payload p
      else if t = ''trust_vouch'' then normalize_trust_vouch_payload p
      else if t = ''key_rotate'' then normalize_key_rotate_payload p
      else if t = ''key_revoke'' then normalize_key_revoke_payload p
      else if t = ''abuse_report'' then normalize_abuse_report_payload p
      else if t = ''sar_anomaly'' then normalize_sar_anomaly_payload p
      else Inr p)"

subsection \<open>Binding a payload to its context\<close>

definition without_context :: "event \<Rightarrow> event" where
  "without_context p = filter (\<lambda>(k, v). k \<noteq> SIGNED_CONTEXT_FIELD) p"

definition payload_body_hash :: "string \<Rightarrow> event \<Rightarrow> string res" where
  "payload_body_hash t p =
     rbind (normalize_payload t (without_context p)) (\<lambda>n.
     Inr (sha256_hex (canonical_json (without_context n))))"

record write_context =
  wc_event_type :: string
  wc_kind :: string
  wc_endpoint :: string
  wc_lane_floor :: string
  wc_sequence_domain :: string
  wc_node_id :: string
  wc_sequence :: int
  wc_gate_id :: string
  wc_recipient_id :: string
  wc_target_id :: string

definition with_arg :: "string \<Rightarrow> string \<Rightarrow> (string \<Rightarrow> string) \<Rightarrow> event \<Rightarrow> event" where
  "with_arg k s f d = (if s = [] then d else d @ [(k, VStr (f s))])"

definition build_signed_context :: "write_context \<Rightarrow> event \<Rightarrow> event res" where
  "build_signed_context w p =
     rbind (payload_body_hash (wc_event_type w) p) (\<lambda>body.
     Inr (with_arg ''target_id'' (wc_target_id w) py_strip
         (with_arg ''recipient_id'' (wc_recipient_id w) py_strip
         (with_arg ''gate_id'' (wc_gate_id w) strip_lower
         [(''protocol'', VStr SIGNED_CONTEXT_PROTOCOL), (''version'', VInt SIGNED_CONTEXT_VERSION),
          (''event_type'', VStr (wc_event_type w)), (''kind'', VStr (wc_kind w)),
          (''endpoint'', VStr (wc_endpoint w)), (''lane_floor'', VStr (strip_lower (wc_lane_floor w))),
          (''sequence_domain'', VStr (wc_sequence_domain w)), (''node_id'', VStr (wc_node_id w)),
          (''sequence'', VInt (wc_sequence w)), (''body_hash'', VStr body)]))))"

definition validate_signed_context :: "write_context \<Rightarrow> event \<Rightarrow> (bool \<times> string) res" where
  "validate_signed_context w p =
     rbind (normalize_signed_context (eget p SIGNED_CONTEXT_FIELD)) (\<lambda>supplied.
     if supplied = [] then Inr (True, ''signed_context_absent'')
     else rbind (build_signed_context w p) (\<lambda>expected.
       Inr (if \<not> py_eq (VDict supplied) (VDict expected) then (False, ''signed_context_mismatch'')
            else (True, ''signed_context_ok''))))"

end
