(* ===== verification/Mesh_Protocol_Claims.thy ===== *)
theory Mesh_Protocol_Claims
  imports Mesh_Protocol
begin

section \<open>Normal forms and signed contexts\<close>

text \<open>
  Properties of \<open>mesh_protocol.py\<close>: normalizing is idempotent, and a context built for a write is
  accepted for that write and for no other.
\<close>

subsection \<open>Strings\<close>

named_theorems norm_simps

lemma of_char_bounds: "0 \<le> (of_char c :: int)" "(of_char c :: int) < 256"
proof -
  have "(of_char c :: int) = of_nat (of_char c)" by (rule of_nat_of_char [symmetric])
  moreover have "(of_char c :: nat) < 256" by (rule nat_of_char_less_256)
  ultimately show "0 \<le> (of_char c :: int)" "(of_char c :: int) < 256" by linarith+
qed

lemma of_lower_char:
  "(of_char (lower_char c) :: int) =
     (let n = of_char c in if 65 \<le> n \<and> n \<le> 90 \<or> 192 \<le> n \<and> n \<le> 222 \<and> n \<noteq> 215 then n + 32 else n)"
  using of_char_bounds [of c] by (auto simp: lower_char_def Let_def take_bit_eq_mod)

lemma is_space_lower_char: "is_space (lower_char c) \<longleftrightarrow> is_space c"
  by (auto simp: is_space_def of_lower_char Let_def)

lemma lower_char_idem: "lower_char (lower_char c) = lower_char c"
proof -
  define m where "m = (of_char (lower_char c) :: int)"
  have "\<not> (65 \<le> n \<and> n \<le> 90 \<or> 192 \<le> n \<and> n \<le> 222 \<and> n \<noteq> 215)" if "n = (of_char (lower_char c) :: int)" for n
    using that by (auto simp: of_lower_char Let_def split: if_splits)
  then have "\<not> (65 \<le> m \<and> m \<le> 90 \<or> 192 \<le> m \<and> m \<le> 222 \<and> m \<noteq> 215)" by (simp add: m_def)
  then show ?thesis unfolding lower_char_def [of "lower_char c"] Let_def m_def [symmetric] by (simp only: if_False)
qed

lemma py_lower_idem [norm_simps]: "py_lower (py_lower s) = py_lower s"
  by (simp add: py_lower_def lower_char_idem)

lemma dropWhile_rev_dropWhile:
  "dropWhile P (rev (dropWhile P (rev (dropWhile P s)))) = rev (dropWhile P (rev (dropWhile P s)))"
proof (cases "dropWhile P s")
  case Nil
  then show ?thesis by (simp only: rev.simps dropWhile.simps)
next
  case (Cons c t)
  then have "\<not> P c" by (metis dropWhile_eq_Cons_conv)
  have "dropWhile P (rev t @ [c]) = dropWhile P (rev t) @ [c]" if "dropWhile P (rev t) \<noteq> []"
    using that by (metis dropWhile_append dropWhile_eq_Nil_conv)
  moreover have "dropWhile P (rev t @ [c]) = [c]" if "dropWhile P (rev t) = []"
    using that \<open>\<not> P c\<close> by (simp add: dropWhile_append)
  ultimately have "\<exists>u. dropWhile P (rev t @ [c]) = u @ [c]" by (metis append_Nil)
  then obtain u where "dropWhile P (rev (dropWhile P s)) = u @ [c]" using Cons by auto
  then show ?thesis using \<open>\<not> P c\<close> by simp
qed

lemma py_strip_idem [norm_simps]: "py_strip (py_strip s) = py_strip s"
  unfolding py_strip_def dropWhile_rev_dropWhile
  by (metis dropWhile_idem rev_rev_ident)

lemma py_strip_lower: "py_strip (py_lower s) = py_lower (py_strip s)"
proof -
  have *: "dropWhile is_space (map lower_char xs) = map lower_char (dropWhile is_space xs)" for xs
    by (simp add: dropWhile_map comp_def is_space_lower_char)
  show ?thesis by (simp add: py_strip_def py_lower_def * rev_map)
qed

lemma strip_lower_idem [norm_simps]: "strip_lower (strip_lower s) = strip_lower s"
  by (simp add: strip_lower_def py_strip_lower py_strip_idem py_lower_idem)

lemma py_str_VStr [norm_simps]: "py_str (VStr s) = s"
  by (simp add: py_str_def)

lemma py_or_VStr [norm_simps]: "py_or (VStr s) (VStr d) = VStr (if s = [] then d else s)"
  by (simp add: py_or_def)

lemma int_or_zero_VInt [norm_simps]: "int_or_zero (VInt n) = Inr n"
  by (simp add: int_or_zero_def)

subsection \<open>Reading a normalized dictionary\<close>

lemma map_of_with_str [norm_simps]:
  "map_of (with_str k s d) k' =
     (if k' = k \<and> s \<noteq> [] \<and> map_of d k = None then Some (VStr s) else map_of d k')"
  by (auto simp: with_str_def map_add_def split: option.splits)

lemma map_of_append_one [norm_simps]:
  "map_of (d @ [(k, v)]) k' = (if k' = k \<and> map_of d k = None then Some v else map_of d k')"
  by (auto simp: map_add_def split: option.splits)

text \<open>The normal form of a context, by its values.\<close>

definition context_form ::
  "string \<Rightarrow> int \<Rightarrow> string \<Rightarrow> string \<Rightarrow> string \<Rightarrow> string \<Rightarrow> string \<Rightarrow> string \<Rightarrow> int \<Rightarrow> string \<Rightarrow>
    string \<Rightarrow> string \<Rightarrow> string \<Rightarrow> event" where
  "context_form pr v et kd ep lf sd nd sq bh gi ri ti =
     with_str ''target_id'' (py_strip ti) (with_str ''recipient_id'' (py_strip ri)
       (with_str ''gate_id'' (strip_lower gi)
        [(''protocol'', VStr pr), (''version'', VInt v), (''event_type'', VStr et), (''kind'', VStr kd),
         (''endpoint'', VStr ep), (''lane_floor'', VStr (strip_lower lf)), (''sequence_domain'', VStr sd),
         (''node_id'', VStr nd), (''sequence'', VInt sq), (''body_hash'', VStr (strip_lower bh))]))"

lemma sget_or_blank: "sget_or d k [] = (case map_of d k of None \<Rightarrow> [] | Some v \<Rightarrow> py_str (py_or v (VStr [])))"
  by (simp add: sget_or_def mget_def norm_simps split: option.splits)

lemma context_form_reads:
  fixes pr et kd ep lf sd nd bh gi ri ti :: string and v sq :: int
  defines "d \<equiv> context_form pr v et kd ep lf sd nd sq bh gi ri ti"
  shows "sget_or d ''protocol'' [] = pr" "sget_or d ''event_type'' [] = et" "sget_or d ''kind'' [] = kd"
    "sget_or d ''endpoint'' [] = ep" "sget_or d ''lane_floor'' [] = strip_lower lf"
    "sget_or d ''sequence_domain'' [] = sd" "sget_or d ''node_id'' [] = nd"
    "sget_or d ''body_hash'' [] = strip_lower bh" "sget_or d ''gate_id'' [] = strip_lower gi"
    "sget_or d ''recipient_id'' [] = py_strip ri" "sget_or d ''target_id'' [] = py_strip ti"
    "iget d ''version'' = Inr v" "iget d ''sequence'' = Inr sq"
  by (simp_all add: d_def context_form_def sget_or_blank norm_simps iget_def mget_def)

lemma normalize_context_form:
  "normalize_signed_context (VDict d) =
     rbind (iget d ''version'') (\<lambda>v. rbind (iget d ''sequence'') (\<lambda>sq.
       Inr (context_form (sget_or d ''protocol'' []) v (sget_or d ''event_type'' []) (sget_or d ''kind'' [])
         (sget_or d ''endpoint'' []) (sget_or d ''lane_floor'' []) (sget_or d ''sequence_domain'' [])
         (sget_or d ''node_id'' []) sq (sget_or d ''body_hash'' []) (sget_or d ''gate_id'' [])
         (sget_or d ''recipient_id'' []) (sget_or d ''target_id'' []))))"
  by (simp add: normalize_signed_context_def context_form_def)

lemma normalize_context_form_idem:
  "normalize_signed_context (VDict (context_form pr v et kd ep lf sd nd sq bh gi ri ti)) =
     Inr (context_form pr v et kd ep lf sd nd sq bh gi ri ti)"
  unfolding normalize_context_form context_form_reads
  by (simp add: context_form_def norm_simps)

lemma context_idem:
  assumes "normalize_signed_context v = Inr ctx" and "ctx \<noteq> []"
  shows "normalize_signed_context (VDict ctx) = Inr ctx"
proof -
  from assms obtain d where "v = VDict d" by (cases v) (auto simp: normalize_signed_context_def)
  with assms(1) obtain x y where "ctx = context_form (sget_or d ''protocol'' []) x (sget_or d ''event_type'' [])
      (sget_or d ''kind'' []) (sget_or d ''endpoint'' []) (sget_or d ''lane_floor'' []) (sget_or d ''sequence_domain'' [])
      (sget_or d ''node_id'' []) y (sget_or d ''body_hash'' []) (sget_or d ''gate_id'' [])
      (sget_or d ''recipient_id'' []) (sget_or d ''target_id'' [])"
    by (auto simp: normalize_context_form rbind_Inr_iff)
  then show ?thesis by (simp only: normalize_context_form_idem)
qed

lemma copy_context:
  assumes q: "copy_signed_context n p = Inr q" and fresh: "map_of n SIGNED_CONTEXT_FIELD = None"
  shows "copy_signed_context n q = Inr q" "k \<noteq> SIGNED_CONTEXT_FIELD \<Longrightarrow> map_of q k = map_of n k"
proof -
  from q obtain ctx where ctx: "normalize_signed_context (eget p SIGNED_CONTEXT_FIELD) = Inr ctx"
    and q': "q = (if ctx = [] then n else n @ [(SIGNED_CONTEXT_FIELD, VDict ctx)])"
    by (auto simp: copy_signed_context_def rbind_Inr_iff split: if_splits)
  have "normalize_signed_context (eget q SIGNED_CONTEXT_FIELD) = Inr ctx"
  proof (cases "ctx = []")
    case True
    then show ?thesis using fresh by (simp add: q' eget_def normalize_signed_context_def)
  next
    case False
    then show ?thesis using context_idem [OF ctx] fresh by (simp add: q' eget_def norm_simps del: map_of_append)
  qed
  then show "copy_signed_context n q = Inr q" by (simp add: copy_signed_context_def q')
  show "map_of q k = map_of n k" if "k \<noteq> SIGNED_CONTEXT_FIELD" using that by (simp add: q' norm_simps del: map_of_append)
qed


subsection \<open>Normalizing is idempotent\<close>

lemma normalize_number_idem [norm_simps]: "normalize_number (normalize_number v) = normalize_number v"
proof (cases "py_float v")
  case (Inl e)
  then show ?thesis by (simp add: normalize_number_def int_to_float_def)
next
  case (Inr f)
  then have "canon64 f = f" by (simp add: valid64_py_float canon64_valid)
  then have round: "round64 q = Fin q" if "f = Fin q" for q using that by simp
  show ?thesis
  proof (cases f)
    case (Fin q)
    then have n: "normalize_number v = (if q = of_int \<lfloor>q\<rfloor> then VInt \<lfloor>q\<rfloor> else VFloat (Fin q))"
      using Inr by (simp add: normalize_number_def)
    show ?thesis
    proof (cases "q = of_int \<lfloor>q\<rfloor>")
      case True
      then have "round64 (of_int \<lfloor>q\<rfloor>) = Fin (of_int \<lfloor>q\<rfloor>)" using round [OF Fin] by simp
      then show ?thesis using True n by (simp add: normalize_number_def int_to_float_def)
    next
      case False
      then show ?thesis using n round [OF Fin] by (simp add: normalize_number_def)
    qed
  qed (use Inr in \<open>simp_all add: normalize_number_def\<close>)
qed

lemma context_key [norm_simps]: "SIGNED_CONTEXT_FIELD = ''signed_context''"
  by (simp add: SIGNED_CONTEXT_FIELD_def)

lemma blank_simps [norm_simps]: "py_strip [] = []" "py_lower [] = []" "strip_lower [] = []"
  by (simp_all add: py_strip_def py_lower_def strip_lower_def)

lemmas reads = transport_lock_def sget_def sget_or_def mget_def iget_def eget_def rbind_Inr_iff norm_simps

text \<open>An optional field reads back as it was set; an absent one reads as empty.\<close>

lemma optional_reads [norm_simps]:
  "py_str (py_or (get_or (if s \<noteq> [] then Some (VStr s) else None) (VStr [])) (VStr [])) = s"
  "(let w = get_or (if s \<noteq> [] then Some (VStr s) else None) VNone in if truthy w then py_str w else []) = s"
  "py_str (py_or (get_or (if s = [] then None else Some (VStr s)) (VStr [])) (VStr [])) = s"
  "(let w = get_or (if s = [] then None else Some (VStr s)) VNone in if truthy w then py_str w else []) = s"
  "int_or_zero (get_or (if 0 < n then Some (VInt n) else None) (VInt 0)) = Inr (if 0 < n then n else 0)"
  by (auto simp: norm_simps)

lemma map_of_append_if [norm_simps]:
  "map_of (d @ (if b then [(k, v)] else [])) k' =
     (if k' = k \<and> b \<and> map_of d k = None then Some v else map_of d k')"
  by (auto simp: map_add_def split: option.splits)

lemma dict_events_VDicts: "dict_events (map (\<lambda>c. VDict (f c)) cs) = map f cs"
  by (induction cs) auto

text \<open>A payload whose \<open>format\<close> is given but blank is normalized to no format, and that to the default.\<close>

definition format_not_blank :: "event \<Rightarrow> bool" where
  "format_not_blank p \<longleftrightarrow> strip_lower (sget_or p ''format'' ''mls1'') \<noteq> []"

text \<open>
  A normalizer builds its fields from the payload and copies the context. It is idempotent if its
  fields are, since it does not read the context.
\<close>

lemma fields_idem:
  assumes q: "rbind (F p) (\<lambda>n. copy_signed_context n p) = Inr q"
    and fresh: "\<And>n. F p = Inr n \<Longrightarrow> map_of n SIGNED_CONTEXT_FIELD = None"
    and idem: "\<And>n. F p = Inr n \<Longrightarrow> F n = Inr n"
    and ignores: "\<And>n x. F (n @ [(SIGNED_CONTEXT_FIELD, x)]) = F n"
  shows "rbind (F q) (\<lambda>n. copy_signed_context n q) = Inr q"
proof -
  from q obtain n where n: "F p = Inr n" "copy_signed_context n p = Inr q" by (auto simp: rbind_Inr_iff)
  then have "q = n \<or> (\<exists>x. q = n @ [(SIGNED_CONTEXT_FIELD, x)])"
    by (auto simp: copy_signed_context_def rbind_Inr_iff split: if_splits)
  then have "F q = Inr n" using idem [OF n(1)] ignores by auto
  then show ?thesis using copy_context(1) [OF n(2) fresh [OF n(1)]] by simp
qed

lemma message_idem: "normalize_message_payload p = Inr q \<Longrightarrow> normalize_message_payload q = Inr q"
  unfolding normalize_message_payload_def
  by (erule fields_idem) (auto simp: message_fields_def reads simp del: map_of_append)

text \<open>The two messages with many optional fields, by their values.\<close>

definition gate_message_form ::
  "string \<Rightarrow> string \<Rightarrow> string \<Rightarrow> string \<Rightarrow> string \<Rightarrow> int \<Rightarrow> string \<Rightarrow> string \<Rightarrow> string \<Rightarrow> string \<Rightarrow> event" where
  "gate_message_form gt ct nc sr fm ep gv eh rt lk =
     with_str ''transport_lock'' lk (with_str ''reply_to'' rt (with_str ''envelope_hash'' eh
       (with_str ''gate_envelope'' gv
         ([(''gate'', VStr gt), (''ciphertext'', VStr ct), (''nonce'', VStr nc), (''sender_ref'', VStr sr),
           (''format'', VStr fm)] @ (if 0 < ep then [(''epoch'', VInt ep)] else [])))))"

lemma gate_message_form_reads:
  fixes gt ct nc sr fm gv eh rt lk :: string and ep :: int
  defines "d \<equiv> gate_message_form gt ct nc sr fm ep gv eh rt lk"
  shows "map_of d ''gate'' = Some (VStr gt)" "map_of d ''ciphertext'' = Some (VStr ct)"
    "map_of d ''nonce'' = Some (VStr nc)" "map_of d ''sender_ref'' = Some (VStr sr)"
    "map_of d ''format'' = Some (VStr fm)" "map_of d ''epoch'' = (if 0 < ep then Some (VInt ep) else None)"
    "map_of d ''gate_envelope'' = (if gv \<noteq> [] then Some (VStr gv) else None)"
    "map_of d ''envelope_hash'' = (if eh \<noteq> [] then Some (VStr eh) else None)"
    "map_of d ''reply_to'' = (if rt \<noteq> [] then Some (VStr rt) else None)"
    "map_of d ''transport_lock'' = (if lk \<noteq> [] then Some (VStr lk) else None)"
    "map_of d SIGNED_CONTEXT_FIELD = None"
  by (simp_all add: d_def gate_message_form_def norm_simps del: append_Cons map_of_append)

lemma gate_message_fields_form:
  "gate_message_fields p = rbind (iget p ''epoch'') (\<lambda>ep.
     Inr (gate_message_form (strip_lower (sget p ''gate'' [])) (sget p ''ciphertext'' [])
       (py_str (mget p ''nonce'' (mget p ''iv'' (VStr [])))) (sget p ''sender_ref'' [])
       (strip_lower (sget_or p ''format'' ''mls1'')) ep (py_strip (sget_or p ''gate_envelope'' []))
       (py_strip (sget_or p ''envelope_hash'' [])) (py_strip (sget_or p ''reply_to'' [])) (transport_lock p)))"
  by (simp add: gate_message_fields_def gate_message_form_def)

lemma gate_message_idem:
  "normalize_gate_message_payload p = Inr q \<Longrightarrow> format_not_blank p \<Longrightarrow> normalize_gate_message_payload q = Inr q"
  unfolding normalize_gate_message_payload_def
proof (erule fields_idem)
  fix n assume "gate_message_fields p = Inr n" and fmt: "format_not_blank p"
  then obtain ep where n: "n = gate_message_form (strip_lower (sget p ''gate'' [])) (sget p ''ciphertext'' [])
       (py_str (mget p ''nonce'' (mget p ''iv'' (VStr [])))) (sget p ''sender_ref'' [])
       (strip_lower (sget_or p ''format'' ''mls1'')) ep (py_strip (sget_or p ''gate_envelope'' []))
       (py_strip (sget_or p ''envelope_hash'' [])) (py_strip (sget_or p ''reply_to'' [])) (transport_lock p)"
    by (auto simp: gate_message_fields_form rbind_Inr_iff)
  show "map_of n SIGNED_CONTEXT_FIELD = None" by (simp only: n gate_message_form_reads)
  have "gate_message_form a b c d e (if 0 < ep then ep else 0) f g h i = gate_message_form a b c d e ep f g h i"
    for a b c d e f g h i by (simp add: gate_message_form_def)
  then show "gate_message_fields n = Inr n" using fmt [unfolded format_not_blank_def]
    unfolding gate_message_fields_form n transport_lock_def
    by (simp only: iget_def sget_def sget_or_def mget_def gate_message_form_reads get_or_simps norm_simps
      rbind.simps if_False)
next
  show "gate_message_fields (n @ [(SIGNED_CONTEXT_FIELD, x)]) = gate_message_fields n" for n x
    by (simp add: gate_message_fields_form reads del: map_of_append)
qed

lemma vote_idem: "normalize_vote_payload p = Inr q \<Longrightarrow> normalize_vote_payload q = Inr q"
  unfolding normalize_vote_payload_def
  by (erule fields_idem) (auto simp: vote_fields_def reads simp del: map_of_append)

lemma gate_create_idem: "normalize_gate_create_payload p = Inr q \<Longrightarrow> normalize_gate_create_payload q = Inr q"
  unfolding normalize_gate_create_payload_def
  by (erule fields_idem) (auto simp: gate_create_fields_def reads split: pyval.splits simp del: map_of_append)

lemma dm_key_idem: "normalize_dm_key_payload p = Inr q \<Longrightarrow> normalize_dm_key_payload q = Inr q"
  unfolding normalize_dm_key_payload_def
  by (erule fields_idem) (auto simp: dm_key_fields_def reads simp del: map_of_append)

definition dm_message_form ::
  "string \<Rightarrow> string \<Rightarrow> string \<Rightarrow> string \<Rightarrow> string \<Rightarrow> int \<Rightarrow> string \<Rightarrow> string \<Rightarrow> string \<Rightarrow> string \<Rightarrow> string \<Rightarrow>
    event" where
  "dm_message_form ri dc rt ct mi ts fm sw ss rs lk =
     with_str ''transport_lock'' lk (with_str ''relay_salt'' rs (with_str ''sender_seal'' ss
       (with_str ''session_welcome'' sw
         [(''recipient_id'', VStr ri), (''delivery_class'', VStr dc), (''recipient_token'', VStr rt),
          (''ciphertext'', VStr ct), (''msg_id'', VStr mi), (''timestamp'', VInt ts), (''format'', VStr fm)])))"

lemma dm_message_form_reads:
  fixes ri dc rt ct mi fm sw ss rs lk :: string and ts :: int
  defines "d \<equiv> dm_message_form ri dc rt ct mi ts fm sw ss rs lk"
  shows "map_of d ''recipient_id'' = Some (VStr ri)" "map_of d ''delivery_class'' = Some (VStr dc)"
    "map_of d ''recipient_token'' = Some (VStr rt)" "map_of d ''ciphertext'' = Some (VStr ct)"
    "map_of d ''msg_id'' = Some (VStr mi)" "map_of d ''timestamp'' = Some (VInt ts)"
    "map_of d ''format'' = Some (VStr fm)"
    "map_of d ''session_welcome'' = (if sw \<noteq> [] then Some (VStr sw) else None)"
    "map_of d ''sender_seal'' = (if ss \<noteq> [] then Some (VStr ss) else None)"
    "map_of d ''relay_salt'' = (if rs \<noteq> [] then Some (VStr rs) else None)"
    "map_of d ''transport_lock'' = (if lk \<noteq> [] then Some (VStr lk) else None)"
    "map_of d SIGNED_CONTEXT_FIELD = None"
  by (simp_all add: d_def dm_message_form_def norm_simps)

lemma dm_message_fields_form:
  "dm_message_fields p = rbind (iget p ''timestamp'') (\<lambda>ts.
     Inr (dm_message_form (sget p ''recipient_id'' []) (py_lower (sget p ''delivery_class'' []))
       (sget p ''recipient_token'' []) (sget p ''ciphertext'' []) (sget p ''msg_id'' []) ts
       (strip_lower (sget_or p ''format'' ''dm1''))
       (let w = get_or (map_of p ''session_welcome'') VNone in if truthy w then py_str w else [])
       (sget_or p ''sender_seal'' []) (strip_lower (sget_or p ''relay_salt'' [])) (transport_lock p)))"
  by (simp add: dm_message_fields_def dm_message_form_def eget_def)

lemma dm_message_idem:
  "normalize_dm_message_payload p = Inr q \<Longrightarrow> strip_lower (sget_or p ''format'' ''dm1'') \<noteq> [] \<Longrightarrow>
    normalize_dm_message_payload q = Inr q"
  unfolding normalize_dm_message_payload_def
proof (erule fields_idem)
  fix n assume "dm_message_fields p = Inr n" and fmt: "strip_lower (sget_or p ''format'' ''dm1'') \<noteq> []"
  then obtain ts where n: "n = dm_message_form (sget p ''recipient_id'' []) (py_lower (sget p ''delivery_class'' []))
       (sget p ''recipient_token'' []) (sget p ''ciphertext'' []) (sget p ''msg_id'' []) ts
       (strip_lower (sget_or p ''format'' ''dm1''))
       (let w = get_or (map_of p ''session_welcome'') VNone in if truthy w then py_str w else [])
       (sget_or p ''sender_seal'' []) (strip_lower (sget_or p ''relay_salt'' [])) (transport_lock p)"
    by (auto simp: dm_message_fields_form rbind_Inr_iff)
  show "map_of n SIGNED_CONTEXT_FIELD = None" by (simp only: n dm_message_form_reads)
  show "dm_message_fields n = Inr n" using fmt
    unfolding dm_message_fields_form n transport_lock_def
    by (simp only: iget_def sget_def sget_or_def mget_def dm_message_form_reads get_or_simps norm_simps
      rbind.simps if_False)
next
  show "dm_message_fields (n @ [(SIGNED_CONTEXT_FIELD, x)]) = dm_message_fields n" for n x
    by (simp add: dm_message_fields_form reads del: map_of_append)
qed

lemma dm_poll_idem: "normalize_dm_poll_payload p = Inr q \<Longrightarrow> normalize_dm_poll_payload q = Inr q"
  unfolding normalize_dm_poll_payload_def
  by (erule fields_idem) (auto simp: dm_poll_fields_def normalize_mailbox_claims_def dict_events_VDicts comp_def reads split: pyval.splits simp del: map_of_append)

lemma dm_block_idem: "normalize_dm_block_payload p = Inr q \<Longrightarrow> normalize_dm_block_payload q = Inr q"
  unfolding normalize_dm_block_payload_def
  by (erule fields_idem) (auto simp: dm_block_fields_def reads simp del: map_of_append)

lemma dm_key_witness_idem: "normalize_dm_key_witness_payload p = Inr q \<Longrightarrow> normalize_dm_key_witness_payload q = Inr q"
  unfolding normalize_dm_key_witness_payload_def
  by (erule fields_idem) (auto simp: dm_key_witness_fields_def reads simp del: map_of_append)

lemma trust_vouch_idem: "normalize_trust_vouch_payload p = Inr q \<Longrightarrow> normalize_trust_vouch_payload q = Inr q"
  unfolding normalize_trust_vouch_payload_def
  by (erule fields_idem) (auto simp: trust_vouch_fields_def reads simp del: map_of_append)

lemma key_rotate_idem: "normalize_key_rotate_payload p = Inr q \<Longrightarrow> normalize_key_rotate_payload q = Inr q"
  unfolding normalize_key_rotate_payload_def
  by (erule fields_idem) (auto simp: key_rotate_fields_def reads simp del: map_of_append)

lemma key_revoke_idem: "normalize_key_revoke_payload p = Inr q \<Longrightarrow> normalize_key_revoke_payload q = Inr q"
  unfolding normalize_key_revoke_payload_def
  by (erule fields_idem) (auto simp: key_revoke_fields_def reads simp del: map_of_append)

lemma prediction_idem: "normalize_prediction_payload p = Inr q \<Longrightarrow> normalize_prediction_payload q = Inr q"
  by (auto simp: normalize_prediction_payload_def reads simp del: map_of_append)

lemma stake_idem: "normalize_stake_payload p = Inr q \<Longrightarrow> normalize_stake_payload q = Inr q"
  by (auto simp: normalize_stake_payload_def reads simp del: map_of_append)

lemma abuse_report_idem: "normalize_abuse_report_payload p = Inr q \<Longrightarrow> normalize_abuse_report_payload q = Inr q"
  by (auto simp: normalize_abuse_report_payload_def reads simp del: map_of_append)

lemma sar_float_idem: "sar_float p k = Inr v \<Longrightarrow> map_of q k = Some v \<Longrightarrow> sar_float q k = Inr v"
proof -
  assume "sar_float p k = Inr v" and q: "map_of q k = Some v"
  then obtain f where v: "v = VFloat f" and f: "valid64 f"
    by (auto simp: sar_float_def rbind_Inr_iff catch_tv_Some get_or_def valid64_py_float split: option.splits)
  then show ?thesis using q canon64_valid [OF f] canon64_valid [of "Fin 0"]
    by (simp add: sar_float_def mget_def py_or_def del: canon64.simps)
qed

lemma sar_int_idem: "sar_int p k = Inr v \<Longrightarrow> map_of q k = Some v \<Longrightarrow> sar_int q k = Inr v"
  by (auto simp: sar_int_def rbind_Inr_iff mget_def py_or_def)

lemma sar_anomaly_idem:
  assumes "normalize_sar_anomaly_payload p = Inr q"
  shows "normalize_sar_anomaly_payload q = Inr q"
proof -
  from assms obtain la lo mg cf sc where v: "sar_float p ''lat'' = Inr la" "sar_float p ''lon'' = Inr lo"
      "sar_float p ''magnitude'' = Inr mg" "sar_float p ''confidence'' = Inr cf" "sar_int p ''scene_count'' = Inr sc"
    and q: "q = (let txt = (\<lambda>k n. (k, VStr (take n (sget p k [])))) in
      [txt ''anomaly_id'' 128, txt ''kind'' 48, (''lat'', la), (''lon'', lo), (''magnitude'', mg),
           txt ''magnitude_unit'' 32, (''confidence'', cf), txt ''first_seen'' 32, txt ''last_seen'' 32,
           txt ''stack_id'' 64, (''scene_count'', sc), txt ''evidence_hash'' 128, txt ''solver'' 64,
           txt ''source_constellation'' 64])"
    by (auto simp: normalize_sar_anomaly_payload_def rbind_Inr_iff Let_def)
  have "sar_float q ''lat'' = Inr la" "sar_float q ''lon'' = Inr lo" "sar_float q ''magnitude'' = Inr mg"
      "sar_float q ''confidence'' = Inr cf" "sar_int q ''scene_count'' = Inr sc"
    using sar_float_idem [OF v(1)] sar_float_idem [OF v(2)] sar_float_idem [OF v(3)] sar_float_idem [OF v(4)]
      sar_int_idem [OF v(5)] by (simp_all add: q Let_def)
  then have "normalize_sar_anomaly_payload q = Inr (let txt = (\<lambda>k n. (k, VStr (take n (sget q k [])))) in
      [txt ''anomaly_id'' 128, txt ''kind'' 48, (''lat'', la), (''lon'', lo), (''magnitude'', mg),
           txt ''magnitude_unit'' 32, (''confidence'', cf), txt ''first_seen'' 32, txt ''last_seen'' 32,
           txt ''stack_id'' 64, (''scene_count'', sc), txt ''evidence_hash'' 128, txt ''solver'' 64,
           txt ''source_constellation'' 64])"
    by (simp add: normalize_sar_anomaly_payload_def)
  also have "\<dots> = Inr q" by (simp add: q Let_def sget_def mget_def norm_simps)
  finally show ?thesis .
qed

lemma dm_format: "format_not_blank p \<Longrightarrow> strip_lower (sget_or p ''format'' ''dm1'') \<noteq> []"
proof -
  have dm1: "strip_lower ''dm1'' \<noteq> []" by code_simp
  assume "format_not_blank p"
  then show ?thesis using dm1
    by (auto simp: format_not_blank_def sget_or_def mget_def py_or_def py_str_VStr get_or_def
        split: option.splits if_splits)
qed

text \<open>
  Canonical payloads are fixed points. Normalizing the payload of any event type gives a payload
  that normalizes to itself, for a gate message or a DM under the condition that its \<open>format\<close> field
  is not blank. So a writer that normalizes once always produces what the schema check
  (\<open>normalized != payload\<close>) accepts, and signer and verifier hash the same text.
\<close>

theorem normalize_payload_idempotent:
  assumes "normalize_payload t p = Inr q"
    and "t = ''gate_message'' \<or> t = ''dm_message'' \<longrightarrow> format_not_blank p"
  shows "normalize_payload t q = Inr q"
proof -
  note cases = message_idem gate_message_idem vote_idem gate_create_idem prediction_idem stake_idem dm_key_idem
    dm_message_idem [OF _ dm_format] dm_poll_idem dm_block_idem dm_key_witness_idem trust_vouch_idem key_rotate_idem key_revoke_idem
    abuse_report_idem sar_anomaly_idem
  show ?thesis using assms(1) assms(2)
    unfolding normalize_payload_def normalize_dm_count_payload_def
    by (auto split: if_split_asm intro: cases)
qed

theorem normalize_payload_idempotent_witness:
  "\<exists>q. normalize_payload ''vote'' [(''vote'', VStr ''1''), (''extra'', VInt 3)] = Inr q \<and>
    normalize_payload ''vote'' q = Inr q"
proof -
  have "normalize_payload ''vote'' [(''vote'', VStr ''1''), (''extra'', VInt 3)] =
    Inr [(''target_id'', VStr []), (''vote'', VInt 1), (''gate'', VStr [])]" by code_simp
  with normalize_payload_idempotent [OF this] show ?thesis by simp
qed

text \<open>A blank format is not a fixed point: its normal form is normalized to another payload.\<close>

lemma blank_format_not_idempotent:
  "rmap (\<lambda>q. normalize_payload ''gate_message'' q = Inr q) (normalize_payload ''gate_message'' [(''format'', VStr '' '')]) =
    Inr False"
  by code_simp

subsection \<open>The signed context\<close>

definition is_hex :: "char \<Rightarrow> bool" where
  "is_hex c \<longleftrightarrow> (let n = (of_char c :: int) in 48 \<le> n \<and> n \<le> 57 \<or> 97 \<le> n \<and> n \<le> 102)"

lemma hex_digit_is_hex: "0 \<le> n \<Longrightarrow> n < 16 \<Longrightarrow> is_hex (hex_digit n)"
  by (simp add: is_hex_def hex_digit_def Let_def take_bit_eq_mod)

lemma sha256_hex_is_hex: "c \<in> set (sha256_hex s) \<Longrightarrow> is_hex c"
  by (auto simp: sha256_hex_def hex_word_def hex_byte_def intro!: hex_digit_is_hex)

lemma is_hex_plain: "is_hex c \<Longrightarrow> \<not> is_space c \<and> lower_char c = c"
  by (auto simp: is_hex_def is_space_def lower_char_def Let_def)

lemma strip_lower_hex: "\<forall>c \<in> set s. is_hex c \<Longrightarrow> strip_lower s = s"
proof -
  assume hex: "\<forall>c \<in> set s. is_hex c"
  have keep: "dropWhile is_space xs = xs" if "\<forall>c \<in> set xs. \<not> is_space c" for xs using that by (cases xs) auto
  have "py_strip s = s" unfolding py_strip_def using hex is_hex_plain by (simp add: keep)
  moreover have "map lower_char s = s" using hex is_hex_plain by (simp add: map_idI)
  ultimately show ?thesis by (simp add: strip_lower_def py_lower_def)
qed

lemma body_hash_normal: "payload_body_hash t p = Inr b \<Longrightarrow> strip_lower b = b"
  by (auto simp: payload_body_hash_def rbind_Inr_iff intro!: strip_lower_hex dest: sha256_hex_is_hex)

lemma py_eq_items_get: "py_eq_items d e \<Longrightarrow> (k, v) \<in> set d \<Longrightarrow> \<exists>w. map_of e k = Some w \<and> py_eq v w"
  by (induction d) (auto split: option.splits)

lemma py_eq_items_string:
  "py_eq_items d e \<Longrightarrow> map_of d k = Some (VStr s) \<Longrightarrow> map_of e k = Some (VStr s)"
  by (drule map_of_SomeD) (auto dest: py_eq_items_get)

lemma py_eq_items_int:
  "py_eq_items d e \<Longrightarrow> map_of d k = Some (VInt n) \<Longrightarrow> map_of e k = Some (VInt m) \<Longrightarrow> n = m"
  by (drule map_of_SomeD) (auto dest!: py_eq_items_get)

definition context_args :: "write_context \<Rightarrow> string \<Rightarrow> event" where
  "context_args w body =
     with_arg ''target_id'' (wc_target_id w) py_strip
       (with_arg ''recipient_id'' (wc_recipient_id w) py_strip
       (with_arg ''gate_id'' (wc_gate_id w) strip_lower
       [(''protocol'', VStr SIGNED_CONTEXT_PROTOCOL), (''version'', VInt SIGNED_CONTEXT_VERSION),
        (''event_type'', VStr (wc_event_type w)), (''kind'', VStr (wc_kind w)),
        (''endpoint'', VStr (wc_endpoint w)), (''lane_floor'', VStr (strip_lower (wc_lane_floor w))),
        (''sequence_domain'', VStr (wc_sequence_domain w)), (''node_id'', VStr (wc_node_id w)),
        (''sequence'', VInt (wc_sequence w)), (''body_hash'', VStr body)]))"

lemma build_context_args:
  "build_signed_context w p = rbind (payload_body_hash (wc_event_type w) p) (\<lambda>b. Inr (context_args w b))"
  by (simp add: build_signed_context_def context_args_def)

lemma map_of_with_arg [norm_simps]:
  "map_of (with_arg k s f d) k' =
     (if k' = k \<and> s \<noteq> [] \<and> map_of d k = None then Some (VStr (f s)) else map_of d k')"
  by (auto simp: with_arg_def map_add_def split: option.splits)

lemma context_args_reads:
  fixes w b
  defines "d \<equiv> context_args w b"
  shows "map_of d ''event_type'' = Some (VStr (wc_event_type w))" "map_of d ''kind'' = Some (VStr (wc_kind w))"
    "map_of d ''endpoint'' = Some (VStr (wc_endpoint w))"
    "map_of d ''lane_floor'' = Some (VStr (strip_lower (wc_lane_floor w)))"
    "map_of d ''sequence_domain'' = Some (VStr (wc_sequence_domain w))"
    "map_of d ''node_id'' = Some (VStr (wc_node_id w))" "map_of d ''sequence'' = Some (VInt (wc_sequence w))"
    "map_of d ''body_hash'' = Some (VStr b)"
  by (simp_all add: d_def context_args_def norm_simps)

lemma context_form_map:
  fixes pr et kd ep lf sd nd bh gi ri ti :: string and v sq :: int
  defines "d \<equiv> context_form pr v et kd ep lf sd nd sq bh gi ri ti"
  shows "map_of d ''event_type'' = Some (VStr et)" "map_of d ''kind'' = Some (VStr kd)"
    "map_of d ''endpoint'' = Some (VStr ep)" "map_of d ''lane_floor'' = Some (VStr (strip_lower lf))"
    "map_of d ''sequence_domain'' = Some (VStr sd)" "map_of d ''node_id'' = Some (VStr nd)"
    "map_of d ''sequence'' = Some (VInt sq)" "map_of d ''body_hash'' = Some (VStr (strip_lower bh))" "d \<noteq> []"
  by (simp_all add: d_def context_form_def norm_simps) (simp add: with_str_def)

text \<open>The optional identifiers: equal dictionaries have the same keys.\<close>

lemma py_eq_items_keys:
  assumes eq: "py_eq_items d e" and len: "length d = length e" and dist: "distinct (map fst d)" "distinct (map fst e)"
  shows "fst ` set d = fst ` set e"
proof (rule card_subset_eq)
  show "fst ` set d \<subseteq> fst ` set e"
    using py_eq_items_get [OF eq] by (force dest: map_of_SomeD)
  show "card (fst ` set d) = card (fst ` set e)"
    using len distinct_card [OF dist(1)] distinct_card [OF dist(2)] by simp
qed simp

lemma py_eq_dict_string:
  assumes eq: "py_eq (VDict d) (VDict e)" and dist: "distinct (map fst d)" "distinct (map fst e)"
    and k: "map_of e k = Some (VStr s)" and str: "\<And>v. map_of d k = Some v \<Longrightarrow> \<exists>t. v = VStr t"
  shows "map_of d k = Some (VStr s)"
proof -
  have "k \<in> fst ` set d"
    using py_eq_items_keys [of d e] eq dist map_of_SomeD [OF k] by force
  then obtain v where v: "map_of d k = Some v" by (metis map_of_eq_None_iff option.exhaust)
  then obtain t where "v = VStr t" using str by blast
  with v eq k show ?thesis using py_eq_items_string [of d e k t] by simp
qed

lemma distinct_with_str: "map_of d k = None \<Longrightarrow> distinct (map fst d) \<Longrightarrow> distinct (map fst (with_str k s d))"
  by (auto simp: with_str_def map_of_eq_None_iff)

lemma distinct_with_arg: "map_of d k = None \<Longrightarrow> distinct (map fst d) \<Longrightarrow> distinct (map fst (with_arg k s f d))"
  by (auto simp: with_arg_def map_of_eq_None_iff)

lemma context_form_optional:
  fixes pr et kd ep lf sd nd bh gi ri ti :: string and v sq :: int
  defines "d \<equiv> context_form pr v et kd ep lf sd nd sq bh gi ri ti"
  shows "map_of d ''gate_id'' = (if strip_lower gi = [] then None else Some (VStr (strip_lower gi)))"
    "map_of d ''recipient_id'' = (if py_strip ri = [] then None else Some (VStr (py_strip ri)))"
    "map_of d ''target_id'' = (if py_strip ti = [] then None else Some (VStr (py_strip ti)))"
    "distinct (map fst d)"
  unfolding d_def context_form_def
  by (simp_all add: norm_simps distinct_with_str)

lemma context_args_optional:
  "map_of (context_args w b) ''gate_id'' = (if wc_gate_id w = [] then None else Some (VStr (strip_lower (wc_gate_id w))))"
  "map_of (context_args w b) ''recipient_id'' = (if wc_recipient_id w = [] then None else Some (VStr (py_strip (wc_recipient_id w))))"
  "map_of (context_args w b) ''target_id'' = (if wc_target_id w = [] then None else Some (VStr (py_strip (wc_target_id w))))"
  "distinct (map fst (context_args w b))"
  by (simp_all add: context_args_def norm_simps distinct_with_arg)

text \<open>An optional argument of a context that is given is not blank.\<close>

definition context_args_ok :: "write_context \<Rightarrow> bool" where
  "context_args_ok w \<longleftrightarrow> (\<forall>s \<in> {wc_gate_id w, wc_recipient_id w, wc_target_id w}. s = [] \<or> py_strip s \<noteq> [])"

text \<open>What a context in normal form has to be to equal the expected one\<close>

lemma context_equal_optional:
  assumes eq: "py_eq (VDict (context_form pr v et kd ep lf sd nd sq bh gi ri ti)) (VDict (context_args w b))"
  shows "strip_lower gi = strip_lower (wc_gate_id w)" "py_strip ri = py_strip (wc_recipient_id w)"
    "py_strip ti = py_strip (wc_target_id w)"
    "context_args_ok w"
proof -
  let ?f = "context_form pr v et kd ep lf sd nd sq bh gi ri ti"
  note forth = py_eq_items_string [of ?f "context_args w b"] and opt = context_form_optional [of pr v et kd ep lf sd nd sq bh gi ri ti]
  note conv = py_eq_dict_string [OF eq opt(4) context_args_optional(4)]
  note args = context_args_optional [of w b]
  have items: "py_eq_items ?f (context_args w b)" using eq by simp
  have blank: "strip_lower [] = []" "py_strip [] = []" "strip_lower s = [] \<longleftrightarrow> py_strip s = []" for s
    by (simp_all add: strip_lower_def py_lower_def py_strip_def)
  have g: "map_of ?f ''gate_id'' = map_of (context_args w b) ''gate_id''"
    using forth [OF items, of "''gate_id''"] conv [of "''gate_id''"] opt(1) args(1)
    by (cases "wc_gate_id w = []"; cases "strip_lower gi = []") (simp_all split: if_splits)
  have r: "map_of ?f ''recipient_id'' = map_of (context_args w b) ''recipient_id''"
    using forth [OF items, of "''recipient_id''"] conv [of "''recipient_id''"] opt(2) args(2)
    by (cases "wc_recipient_id w = []"; cases "py_strip ri = []") (simp_all split: if_splits)
  have t: "map_of ?f ''target_id'' = map_of (context_args w b) ''target_id''"
    using forth [OF items, of "''target_id''"] conv [of "''target_id''"] opt(3) args(3)
    by (cases "wc_target_id w = []"; cases "py_strip ti = []") (simp_all split: if_splits)
  show "strip_lower gi = strip_lower (wc_gate_id w)"
    using g opt(1) args(1) blank(1) by (auto split: if_splits)
  show "py_strip ri = py_strip (wc_recipient_id w)"
    using r opt(2) args(2) blank(2) by (auto split: if_splits)
  show "py_strip ti = py_strip (wc_target_id w)"
    using t opt(3) args(3) blank(2) by (auto split: if_splits)
  have "wc_gate_id w = [] \<or> strip_lower (wc_gate_id w) \<noteq> []"
    using g opt(1) args(1) by (simp split: if_splits)
  moreover have "wc_recipient_id w = [] \<or> py_strip (wc_recipient_id w) \<noteq> []"
    using r opt(2) args(2) by (simp split: if_splits)
  moreover have "wc_target_id w = [] \<or> py_strip (wc_target_id w) \<noteq> []"
    using t opt(3) args(3) by (simp split: if_splits)
  ultimately show "context_args_ok w"
    using blank(3) by (simp add: context_args_ok_def)
qed

text \<open>What an accepted context is compared with\<close>

abbreviation context_of :: "event \<Rightarrow> int \<Rightarrow> int \<Rightarrow> event" where
  "context_of ctx v sq \<equiv>
     context_form (sget_or ctx ''protocol'' []) v (sget_or ctx ''event_type'' []) (sget_or ctx ''kind'' [])
       (sget_or ctx ''endpoint'' []) (sget_or ctx ''lane_floor'' []) (sget_or ctx ''sequence_domain'' [])
       (sget_or ctx ''node_id'' []) sq (sget_or ctx ''body_hash'' []) (sget_or ctx ''gate_id'' [])
       (sget_or ctx ''recipient_id'' []) (sget_or ctx ''target_id'' [])"

lemma accepted_context:
  assumes "validate_signed_context w p = Inr (True, r)" and "eget p SIGNED_CONTEXT_FIELD = VDict ctx"
  shows "\<exists>b v sq. iget ctx ''sequence'' = Inr sq \<and> payload_body_hash (wc_event_type w) p = Inr b \<and>
    py_eq (VDict (context_of ctx v sq)) (VDict (context_args w b))"
proof -
  from assms obtain v sq where sq: "iget ctx ''sequence'' = Inr sq"
    and norm: "normalize_signed_context (VDict ctx) = Inr (context_of ctx v sq)"
    by (auto simp: validate_signed_context_def normalize_context_form rbind_Inr_iff)
  have "context_of ctx v sq \<noteq> []" by (rule context_form_map)
  with assms norm sq show ?thesis
    by (auto simp: validate_signed_context_def build_context_args rbind_Inr_iff simp del: py_eq.simps split: if_split_asm)
qed

text \<open>
  C14: A signed context binds the write. If the context in a payload is accepted for a write, it names
  that event type, kind, endpoint, lane, sequence domain, author, sequence number, gate, recipient
  and target (an absent one counting as empty, all three up to surrounding blanks and the gate up to
  case), and its body hash is the hash of the normalized payload without the context: a context
  signed for one write is rejected for every write that differs in any of them.
\<close>

theorem signed_context_binds:
  assumes ok: "validate_signed_context w p = Inr (True, r)" and ctx: "eget p SIGNED_CONTEXT_FIELD = VDict ctx"
  shows "sget_or ctx ''event_type'' [] = wc_event_type w \<and> sget_or ctx ''kind'' [] = wc_kind w \<and>
    sget_or ctx ''endpoint'' [] = wc_endpoint w \<and>
    strip_lower (sget_or ctx ''lane_floor'' []) = strip_lower (wc_lane_floor w) \<and>
    sget_or ctx ''sequence_domain'' [] = wc_sequence_domain w \<and> sget_or ctx ''node_id'' [] = wc_node_id w \<and>
    iget ctx ''sequence'' = Inr (wc_sequence w) \<and>
    strip_lower (sget_or ctx ''gate_id'' []) = strip_lower (wc_gate_id w) \<and>
    py_strip (sget_or ctx ''recipient_id'' []) = py_strip (wc_recipient_id w) \<and>
    py_strip (sget_or ctx ''target_id'' []) = py_strip (wc_target_id w) \<and>
    payload_body_hash (wc_event_type w) p = Inr (strip_lower (sget_or ctx ''body_hash'' []))"
proof -
  from accepted_context [OF ok ctx] obtain b v sq where sq: "iget ctx ''sequence'' = Inr sq"
    and b: "payload_body_hash (wc_event_type w) p = Inr b"
    and eq: "py_eq (VDict (context_of ctx v sq)) (VDict (context_args w b))" by blast
  then have items: "py_eq_items (context_of ctx v sq) (context_args w b)" by simp
  note s = py_eq_items_string [OF items] and reads = context_args_reads [of w b]
  show ?thesis
    using s [OF context_form_map(1)] s [OF context_form_map(2)] s [OF context_form_map(3)] s [OF context_form_map(4)]
      s [OF context_form_map(5)] s [OF context_form_map(6)] s [OF context_form_map(8)]
      py_eq_items_int [OF items context_form_map(7) reads(7)] sq b context_equal_optional(1-3) [OF eq]
    by (simp only: reads option.inject pyval.inject)
qed

lemma with_arg_str: "s = [] \<or> f s \<noteq> [] \<Longrightarrow> f [] = [] \<Longrightarrow> with_arg k s f d = with_str k (f s) d"
  by (auto simp: with_arg_def with_str_def)

lemma context_args_form:
  assumes "context_args_ok w" and "strip_lower b = b"
  shows "context_args w b = context_form SIGNED_CONTEXT_PROTOCOL SIGNED_CONTEXT_VERSION (wc_event_type w) (wc_kind w)
    (wc_endpoint w) (wc_lane_floor w) (wc_sequence_domain w) (wc_node_id w) (wc_sequence w) b
    (wc_gate_id w) (wc_recipient_id w) (wc_target_id w)"
  using assms
  by (auto simp: context_args_def context_form_def context_args_ok_def with_arg_str strip_lower_def py_lower_def
      blank_simps)

lemma py_eq_items_refl:
  "distinct (map fst d) \<Longrightarrow> (\<And>k v. (k, v) \<in> set d \<Longrightarrow> py_eq v v) \<Longrightarrow> set e \<subseteq> set d \<Longrightarrow> py_eq_items e d"
  by (induction e) (auto simp: map_of_is_SomeI)

lemma context_form_eq: "py_eq (VDict (context_form pr v et kd ep lf sd nd sq bh gi ri ti))
    (VDict (context_form pr v et kd ep lf sd nd sq bh gi ri ti))"
proof -
  let ?d = "context_form pr v et kd ep lf sd nd sq bh gi ri ti"
  have "distinct (map fst ?d)"
    unfolding context_form_def by (intro distinct_with_str) (simp_all add: norm_simps)
  moreover have "py_eq x x" if "(k, x) \<in> set ?d" for k x
    using that by (auto simp: context_form_def with_str_def split: if_splits)
  ultimately show ?thesis by (simp add: py_eq_items_refl)
qed

lemma without_context_append: "without_context (p @ q) = without_context p @ without_context q"
  by (simp add: without_context_def)

lemma without_context_idem: "without_context (without_context p) = without_context p"
  by (simp add: without_context_def)

lemma context_accepted:
  assumes b: "payload_body_hash (wc_event_type w) p = Inr b" and ok: "context_args_ok w"
  defines "q \<equiv> without_context p @ [(SIGNED_CONTEXT_FIELD, VDict (context_args w b))]"
  shows "validate_signed_context w q = Inr (True, ''signed_context_ok'')"
    and "eget q SIGNED_CONTEXT_FIELD = VDict (context_args w b)"
proof -
  let ?c = "context_args w b"
  have form: "?c = context_form SIGNED_CONTEXT_PROTOCOL SIGNED_CONTEXT_VERSION (wc_event_type w)
    (wc_kind w) (wc_endpoint w) (wc_lane_floor w) (wc_sequence_domain w) (wc_node_id w) (wc_sequence w) b
    (wc_gate_id w) (wc_recipient_id w) (wc_target_id w)"
    by (rule context_args_form [OF ok body_hash_normal [OF b]])
  have "without_context q = without_context p"
    by (simp add: q_def without_context_append without_context_idem) (simp add: without_context_def)
  then have "payload_body_hash (wc_event_type w) q = Inr b" using b by (simp add: payload_body_hash_def)
  then have build: "build_signed_context w q = Inr ?c" by (simp add: build_context_args)
  have "map_of (without_context p) SIGNED_CONTEXT_FIELD = None"
    by (auto simp: without_context_def map_of_eq_None_iff)
  then show get: "eget q SIGNED_CONTEXT_FIELD = VDict ?c"
    by (simp add: q_def eget_def map_of_append_one del: map_of_append)
  have "normalize_signed_context (VDict ?c) = Inr ?c" unfolding form by (rule normalize_context_form_idem)
  moreover have "?c \<noteq> []" "py_eq (VDict ?c) (VDict ?c)" unfolding form by (rule context_form_map, rule context_form_eq)
  ultimately show "validate_signed_context w q = Inr (True, ''signed_context_ok'')"
    using build get by (simp add: validate_signed_context_def del: py_eq.simps)
qed

text \<open>
  C15: Contexts round trip. A payload that carries the context built for a write is accepted for that
  write, whatever the payload is, exactly if none of the optional identifiers of the write (gate,
  recipient, target) is a nonempty string of blanks.
\<close>

theorem signed_context_roundtrip:
  assumes "build_signed_context w p = Inr ctx"
  shows "validate_signed_context w (without_context p @ [(SIGNED_CONTEXT_FIELD, VDict ctx)]) = Inr (True, ''signed_context_ok'') \<longleftrightarrow>
    context_args_ok w"
proof -
  from assms obtain b where b: "payload_body_hash (wc_event_type w) p = Inr b" "ctx = context_args w b"
    by (auto simp: build_context_args rbind_Inr_iff)
  let ?q = "without_context p @ [(SIGNED_CONTEXT_FIELD, VDict ctx)]"
  have "map_of (without_context p) SIGNED_CONTEXT_FIELD = None"
    by (auto simp: without_context_def map_of_eq_None_iff)
  then have get: "eget ?q SIGNED_CONTEXT_FIELD = VDict ctx"
    by (simp add: eget_def map_of_append_one del: map_of_append)
  show ?thesis
    using context_accepted(1) [OF b(1)] accepted_context [OF _ get] context_equal_optional(4) b(2) by blast
qed

definition demo_write :: write_context where
  "demo_write = \<lparr>wc_event_type = ''abuse_report'', wc_kind = ''k'', wc_endpoint = ''/e'', wc_lane_floor = ''public'',
     wc_sequence_domain = ''d'', wc_node_id = ''n'', wc_sequence = 7, wc_gate_id = [], wc_recipient_id = ''r'',
     wc_target_id = []\<rparr>"

definition demo_payload :: event where
  "demo_payload = [(''target_id'', VStr ''t''), (''reason'', VStr ''spam'')]"

lemma demo_body: "\<exists>b. payload_body_hash (wc_event_type demo_write) demo_payload = Inr b"
proof -
  have "returns (normalize_payload ''abuse_report'' (without_context demo_payload))" by code_simp
  then show ?thesis by (auto simp: payload_body_hash_def demo_write_def returns_iff)
qed

lemma demo_args: "context_args_ok demo_write"
  by code_simp

lemma demo_recipient: "py_strip ''r'' = ''r''"
  by code_simp

theorem signed_context_roundtrip_witness:
  "\<exists>ctx. validate_signed_context demo_write (without_context demo_payload @ [(SIGNED_CONTEXT_FIELD, VDict ctx)]) =
    Inr (True, ''signed_context_ok'')"
proof -
  from demo_body obtain b where "payload_body_hash (wc_event_type demo_write) demo_payload = Inr b" by blast
  then have "build_signed_context demo_write demo_payload = Inr (context_args demo_write b)"
    by (simp add: build_context_args)
  from signed_context_roundtrip [OF this] demo_args show ?thesis by blast
qed

theorem signed_context_binds_witness:
  "\<exists>ctx. sget_or ctx ''node_id'' [] = ''n'' \<and> iget ctx ''sequence'' = Inr 7 \<and> py_strip (sget_or ctx ''recipient_id'' []) = ''r''"
proof -
  from demo_body obtain b where b: "payload_body_hash (wc_event_type demo_write) demo_payload = Inr b" by blast
  from signed_context_binds [OF context_accepted [OF b demo_args]] demo_recipient show ?thesis by (auto simp: demo_write_def)
qed

end
