(* ===== verification/Mesh_Merkle.thy ===== *)
theory Mesh_Merkle
  imports Mesh_Protocol
begin

section \<open>Merkle proofs\<close>

text \<open>
  Models \<open>services/mesh/mesh_merkle.py\<close>: the levels of the tree over the event identifiers, the
  proof of one leaf and its verification. A node without a right sibling is paired with itself.
\<close>

definition hash_leaf :: "string \<Rightarrow> string" where
  "hash_leaf v = sha256_hex v"

definition hash_pair :: "string \<Rightarrow> string \<Rightarrow> string" where
  "hash_pair l r = sha256_hex (l @ r)"

fun next_level :: "string list \<Rightarrow> string list" where
  "next_level [] = []"
| "next_level [x] = [hash_pair x x]"
| "next_level (x # y # zs) = hash_pair x y # next_level zs"

lemma length_next_level: "length (next_level xs) = (length xs + 1) div 2"
  by (induction xs rule: next_level.induct) auto

function levels_from :: "string list \<Rightarrow> string list list" where
  "levels_from level = (if length level \<le> 1 then [level] else level # levels_from (next_level level))"
  by pat_completeness auto
termination
  by (relation "measure length") (auto simp: length_next_level)

declare levels_from.simps [simp del]

definition build_merkle_levels :: "string list \<Rightarrow> string list list" where
  "build_merkle_levels leaves = (if leaves = [] then [] else levels_from (map hash_leaf leaves))"

definition merkle_root :: "string list \<Rightarrow> string" where
  "merkle_root leaves =
     (let levels = build_merkle_levels leaves in if levels = [] then [] else hd (last levels))"

text \<open>One entry of a proof, and the entries for the levels below the root.\<close>

definition proof_step :: "string list \<Rightarrow> nat \<Rightarrow> event" where
  "proof_step level i =
     (let is_right = odd i; sibling = (if is_right then i - 1 else i + 1) in
      [(''hash'', VStr (if length level \<le> sibling then level ! i else level ! sibling)),
       (''side'', VStr (if is_right then ''left'' else ''right''))])"

fun proof_steps :: "string list list \<Rightarrow> nat \<Rightarrow> event list" where
  "proof_steps [] i = []"
| "proof_steps (level # levels) i = proof_step level i # proof_steps levels (i div 2)"

definition merkle_proof_from_levels :: "string list list \<Rightarrow> int \<Rightarrow> event list" where
  "merkle_proof_from_levels levels index =
     (if levels = [] then []
      else if index < 0 \<or> int (length (hd levels)) \<le> index then []
      else proof_steps (butlast levels) (nat index))"

definition climb :: "string \<Rightarrow> event \<Rightarrow> string" where
  "climb current s =
     (let sibling = sget s ''hash'' []; side = py_lower (sget s ''side'' ''right'') in
      if side = ''left'' then hash_pair sibling current else hash_pair current sibling)"

text \<open>The index is halved along the way and otherwise not used.\<close>

definition verify_merkle_proof :: "string \<Rightarrow> int \<Rightarrow> event list \<Rightarrow> string \<Rightarrow> bool" where
  "verify_merkle_proof leaf index steps rt \<longleftrightarrow> foldl climb (hash_leaf leaf) steps = rt"

subsection \<open>Proofs verify\<close>

lemma next_level_nth:
  "i < length xs \<Longrightarrow> next_level xs ! (i div 2) =
    (if odd i then hash_pair (xs ! (i - 1)) (xs ! i)
     else hash_pair (xs ! i) (if i + 1 < length xs then xs ! (i + 1) else xs ! i))"
proof (induction xs arbitrary: i rule: next_level.induct)
  case (3 x y zs)
  show ?case
  proof (cases "i < 2")
    case True
    then have "i = 0 \<or> i = 1" by auto
    then show ?thesis by auto
  next
    case False
    then obtain j where i: "i = j + 2" by (metis add.commute le_Suc_ex not_less)
    with 3 have "j < length zs" by simp
    from 3(1) [OF this] show ?thesis unfolding i by (cases j) auto
  qed
qed auto

lemma climb_step:
  assumes "i < length xs"
  shows "climb (xs ! i) (proof_step xs i) = next_level xs ! (i div 2)"
  using next_level_nth [OF assms] assms
  by (auto simp: climb_def proof_step_def sget_def mget_def py_str_def Let_def py_lower_def lower_char_def)

lemma levels_from_nonempty [simp]: "levels_from xs \<noteq> []"
  by (subst levels_from.simps) simp

lemma climb_to_root:
  "i < length xs \<Longrightarrow> foldl climb (xs ! i) (proof_steps (butlast (levels_from xs)) i) = hd (last (levels_from xs))"
proof (induction xs arbitrary: i rule: levels_from.induct)
  case (1 xs)
  show ?case
  proof (cases "length xs \<le> 1")
    case True
    with 1 have "xs ! i = hd xs" by (cases xs) auto
    then show ?thesis using True by (simp add: levels_from.simps [of xs])
  next
    case False
    have "i div 2 < length (next_level xs)" using 1(2) by (simp add: length_next_level)
    from 1(1) [OF False this] show ?thesis
      using False climb_step [OF 1(2)] by (simp add: levels_from.simps [of xs])
  qed
qed

lemma hd_levels_from: "hd (levels_from xs) = xs"
  by (subst levels_from.simps) simp

text \<open>
  C16: Merkle proofs are complete. For every event of a non-empty chain the proof computed from the
  levels verifies against the root, also where a level has an odd number of nodes.
\<close>

theorem merkle_proof_verifies:
  assumes "i < length leaves"
  shows "verify_merkle_proof (leaves ! i) (int i)
    (merkle_proof_from_levels (build_merkle_levels leaves) (int i)) (merkle_root leaves)"
proof -
  have "leaves \<noteq> []" using assms by auto
  with assms climb_to_root [of i "map hash_leaf leaves"] show ?thesis
    by (simp add: verify_merkle_proof_def merkle_proof_from_levels_def build_merkle_levels_def merkle_root_def
        hd_levels_from Let_def)
qed

theorem merkle_proof_verifies_witness:
  "verify_merkle_proof ''c'' 2 (merkle_proof_from_levels (build_merkle_levels [''a'', ''b'', ''c'']) 2)
    (merkle_root [''a'', ''b'', ''c''])"
  using merkle_proof_verifies [of 2 "[''a'', ''b'', ''c'']"] by (simp add: numeral_2_eq_2)

subsection \<open>Proofs are sound\<close>

definition steps_from_left :: "event list \<Rightarrow> bool list" where
  "steps_from_left ps = map (\<lambda>s. py_lower (sget s ''side'' ''right'') = ''left'') ps"

text \<open>The strings that the verification of a proof hashes, from the leaf up\<close>

definition climb_input :: "string \<Rightarrow> event \<Rightarrow> string" where
  "climb_input current s =
     (if py_lower (sget s ''side'' ''right'') = ''left'' then sget s ''hash'' [] @ current else current @ sget s ''hash'' [])"

fun inputs_above :: "string \<Rightarrow> event list \<Rightarrow> string list" where
  "inputs_above current [] = []"
| "inputs_above current (s # ps) = climb_input current s # inputs_above (climb current s) ps"

definition hash_inputs :: "string \<Rightarrow> event list \<Rightarrow> string list" where
  "hash_inputs leaf ps = leaf # inputs_above (hash_leaf leaf) ps"

text \<open>Two lists of strings collide if they have different strings with the same digest at one place.\<close>

definition collide :: "string list \<Rightarrow> string list \<Rightarrow> bool" where
  "collide xs ys \<longleftrightarrow> (\<exists>k < min (length xs) (length ys). xs ! k \<noteq> ys ! k \<and> sha256_hex (xs ! k) = sha256_hex (ys ! k))"

lemma collide_Cons:
  "collide (x # xs) (y # ys) \<longleftrightarrow> x \<noteq> y \<and> sha256_hex x = sha256_hex y \<or> collide xs ys"
proof
  assume "collide (x # xs) (y # ys)"
  then obtain k where k: "k < min (length (x # xs)) (length (y # ys))" "(x # xs) ! k \<noteq> (y # ys) ! k"
    "sha256_hex ((x # xs) ! k) = sha256_hex ((y # ys) ! k)" unfolding collide_def by blast
  then show "x \<noteq> y \<and> sha256_hex x = sha256_hex y \<or> collide xs ys"
    by (cases k) (auto simp: collide_def)
next
  assume "x \<noteq> y \<and> sha256_hex x = sha256_hex y \<or> collide xs ys"
  then show "collide (x # xs) (y # ys)"
    unfolding collide_def by (auto intro: exI [of _ 0] exI [of _ "Suc k" for k])
qed

lemma climb_hash: "climb c s = sha256_hex (climb_input c s)"
  by (simp add: climb_def climb_input_def hash_pair_def Let_def)

lemma climb_input_injective:
  "climb_input c s = climb_input d t \<Longrightarrow> steps_from_left [s] = steps_from_left [t] \<Longrightarrow> length c = length d \<Longrightarrow> c = d"
  by (simp add: climb_input_def steps_from_left_def split: if_splits)

lemma climbs_injective:
  assumes "length ps = length qs" and "foldl climb c ps = foldl climb d qs"
    and "steps_from_left ps = steps_from_left qs" and "length c = length d"
  shows "c = d \<or> collide (inputs_above c ps) (inputs_above d qs)"
  using assms
proof (induction ps qs arbitrary: c d rule: list_induct2)
  case (Cons s ps t qs)
  have "climb c s = climb d t \<or> collide (inputs_above (climb c s) ps) (inputs_above (climb d t) qs)"
    by (rule Cons.IH) (use Cons.prems in \<open>simp_all add: steps_from_left_def climb_hash\<close>)
  then show ?case
    using climb_input_injective [of c s d t] Cons.prems(2,3)
    by (auto simp: collide_Cons climb_hash steps_from_left_def)
qed simp

text \<open>
  C17: Merkle proofs are sound. If two proofs that turn left and right at the same places verify
  against the same root, then they prove the same event identifier, or the two verifications hash
  different strings to the same digest at the same step of the path: the proofs themselves exhibit a
  collision of SHA-256. The sibling hashes in the proofs may be any strings.
\<close>

theorem merkle_proof_binds_leaf:
  assumes "verify_merkle_proof leaf i ps rt" and "verify_merkle_proof leaf' j qs rt"
    and "steps_from_left ps = steps_from_left qs"
  shows "leaf = leaf' \<or> (\<exists>k \<le> length ps. hash_inputs leaf ps ! k \<noteq> hash_inputs leaf' qs ! k \<and>
    sha256_hex (hash_inputs leaf ps ! k) = sha256_hex (hash_inputs leaf' qs ! k))"
proof -
  have len: "length ps = length qs" using assms(3) by (metis length_map steps_from_left_def)
  have "hash_leaf leaf = hash_leaf leaf' \<or> collide (inputs_above (hash_leaf leaf) ps) (inputs_above (hash_leaf leaf') qs)"
    by (rule climbs_injective [OF len _ assms(3)])
      (use assms(1,2) in \<open>simp_all add: verify_merkle_proof_def hash_leaf_def\<close>)
  then have "leaf = leaf' \<or> collide (hash_inputs leaf ps) (hash_inputs leaf' qs)"
    by (auto simp: hash_inputs_def collide_Cons hash_leaf_def)
  moreover have "length (hash_inputs l xs) = Suc (length xs)" for l xs
  proof -
    have "length (inputs_above c xs) = length xs" for c by (induction xs arbitrary: c) simp_all
    then show ?thesis by (simp add: hash_inputs_def)
  qed
  ultimately show ?thesis using len by (simp add: collide_def less_Suc_eq_le)
qed

theorem merkle_proof_binds_leaf_witness:
  "\<exists>ps. verify_merkle_proof ''c'' 2 ps (merkle_root [''a'', ''b'', ''c'']) \<and>
    {leaf. verify_merkle_proof leaf 2 ps (merkle_root [''a'', ''b'', ''c''])} \<subseteq>
    {leaf. ''c'' = leaf \<or> (\<exists>k \<le> length ps. hash_inputs ''c'' ps ! k \<noteq> hash_inputs leaf ps ! k \<and>
        sha256_hex (hash_inputs ''c'' ps ! k) = sha256_hex (hash_inputs leaf ps ! k))}"
proof -
  let ?ps = "proof_steps (butlast (build_merkle_levels [''a'', ''b'', ''c''])) 2"
  have v: "verify_merkle_proof ''c'' 2 ?ps (merkle_root [''a'', ''b'', ''c''])"
    using climb_to_root [of 2 "map hash_leaf [''a'', ''b'', ''c'']"]
    by (simp add: verify_merkle_proof_def build_merkle_levels_def merkle_root_def Let_def)
  from merkle_proof_binds_leaf [OF v _ refl] v show ?thesis by blast
qed

text \<open>The verifier does not check the position, and a repeated last leaf does not change the root.\<close>

lemma merkle_position_unchecked: "verify_merkle_proof leaf i  ps rt = verify_merkle_proof leaf j ps rt"
  by (simp add: verify_merkle_proof_def)

lemma merkle_root_repeated_leaf: "merkle_root [a, b, c] = merkle_root [a, b, c, c]"
  by (simp add: merkle_root_def build_merkle_levels_def levels_from.simps)

end
