(* ===== verification/Mesh_Crypto.thy ===== *)
theory Mesh_Crypto
  imports Mesh_Protocol
begin

section \<open>Node identities and signatures\<close>

text \<open>
  Models the parts of \<open>services/mesh/mesh_crypto.py\<close> that the chain uses: the decoding of keys and
  signatures, node identifiers as key digests, the text that is signed, and the two checks. The
  signature primitives of the \<open>cryptography\<close> package and the flags read from the environment are
  fields of \<open>mesh_env\<close>.
\<close>

record mesh_env =
  ed25519_verify :: "int list \<Rightarrow> int list \<Rightarrow> int list \<Rightarrow> bool"
  ecdsa_p256_verify :: "int list \<Rightarrow> int list \<Rightarrow> int list \<Rightarrow> bool"
  legacy_ids_blocked :: bool
  economy_registered :: bool
  max_event_age :: int
  log2_of :: "pyfloat \<Rightarrow> pyfloat"

subsection \<open>base64 and hexadecimal\<close>

definition b64_value :: "char \<Rightarrow> int option" where
  "b64_value c =
     (let n = (of_char c :: int) in
      if 65 \<le> n \<and> n \<le> 90 then Some (n - 65)
      else if 97 \<le> n \<and> n \<le> 122 then Some (n - 71)
      else if 48 \<le> n \<and> n \<le> 57 then Some (n + 4)
      else if n = 43 then Some 62
      else if n = 47 then Some 63
      else None)"

text \<open>
  The loop of \<open>binascii.a2b_base64\<close> of CPython 3.11: position in the quad, bits left over, pads seen
  and whether padding has started. \<open>None\<close> is \<open>binascii.Error\<close>.
\<close>

fun b64_loop :: "bool \<Rightarrow> string \<Rightarrow> nat \<Rightarrow> int \<Rightarrow> nat \<Rightarrow> bool \<Rightarrow> int list option" where
  "b64_loop strict [] quad left pads padding = (if quad = 0 then Some [] else None)"
| "b64_loop strict (c # cs) quad left pads padding =
     (if c = CHR ''='' then
        (if 2 \<le> quad \<and> 4 \<le> quad + Suc pads
         then (if strict \<and> cs \<noteq> [] then None else Some [])
         else b64_loop strict cs quad left (if 2 \<le> quad then Suc pads else pads) True)
      else case b64_value c of
        None \<Rightarrow> if strict then None else b64_loop strict cs quad left pads padding
      | Some v \<Rightarrow>
          if strict \<and> padding then None
          else if quad = 0 then b64_loop strict cs 1 v 0 padding
          else if quad = 1 then map_option ((#) (left * 4 + v div 16)) (b64_loop strict cs 2 (v mod 16) 0 padding)
          else if quad = 2 then map_option ((#) (left * 16 + v div 4)) (b64_loop strict cs 3 (v mod 4) 0 padding)
          else map_option ((#) (left * 64 + v)) (b64_loop strict cs 0 0 0 padding))"

text \<open>\<open>base64.b64decode\<close> of a string; \<open>url\<close> stands for \<open>altchars=b"-_"\<close>, \<open>strict\<close> for \<open>validate=True\<close>.\<close>

definition b64decode :: "bool \<Rightarrow> bool \<Rightarrow> string \<Rightarrow> int list option" where
  "b64decode url strict s =
     (if \<exists>c \<in> set s. 128 \<le> (of_char c :: int) then None
      else let t = (if url then map (\<lambda>c. if c = CHR ''-'' then CHR ''+'' else if c = CHR ''_'' then CHR ''/'' else c) s
                    else s) in
        if strict \<and> t \<noteq> [] \<and> hd t = CHR ''='' then None else b64_loop strict t 0 0 0 False)"

definition hex_value :: "char \<Rightarrow> int option" where
  "hex_value c =
     (let n = (of_char c :: int) in
      if 48 \<le> n \<and> n \<le> 57 then Some (n - 48)
      else if 97 \<le> n \<and> n \<le> 102 then Some (n - 87)
      else if 65 \<le> n \<and> n \<le> 70 then Some (n - 55)
      else None)"

definition is_ascii_space :: "char \<Rightarrow> bool" where
  "is_ascii_space c \<longleftrightarrow> (let n = (of_char c :: int) in 9 \<le> n \<and> n \<le> 13 \<or> n = 32)"

text \<open>\<open>bytes.fromhex\<close>: white space between the bytes is skipped.\<close>

fun from_hex :: "string \<Rightarrow> int list option" where
  "from_hex [] = Some []"
| "from_hex (c # cs) =
     (if is_ascii_space c then from_hex cs
      else case cs of
        [] \<Rightarrow> None
      | d # ds \<Rightarrow>
          (case (hex_value c, hex_value d) of
             (Some x, Some y) \<Rightarrow> map_option ((#) (16 * x + y)) (from_hex ds)
           | _ \<Rightarrow> None))"

subsection \<open>Node identifiers\<close>

definition NODE_ID_PREFIX :: string where
  "NODE_ID_PREFIX = ''!sb_''"

definition NODE_ID_HEX_LEN :: nat where
  "NODE_ID_HEX_LEN = 32"

definition NODE_ID_COMPAT_HEX_LEN :: nat where
  "NODE_ID_COMPAT_HEX_LEN = 16"

text \<open>\<open>hashlib.sha256(raw).hexdigest()\<close> of bytes\<close>

definition sha256_of_bytes :: "int list \<Rightarrow> string" where
  "sha256_of_bytes bs = concat (map hex_word (sha256_bytes bs))"

definition node_digest :: "string \<Rightarrow> string option" where
  "node_digest key = map_option sha256_of_bytes (b64decode False False key)"

definition derive_node_id_from_digest :: "string \<Rightarrow> nat \<Rightarrow> string" where
  "derive_node_id_from_digest digest n = NODE_ID_PREFIX @ take n digest"

definition derive_node_id :: "string \<Rightarrow> bool \<Rightarrow> string option" where
  "derive_node_id key legacy =
     map_option (\<lambda>d. derive_node_id_from_digest d (if legacy then NODE_ID_COMPAT_HEX_LEN else NODE_ID_HEX_LEN))
       (node_digest key)"

definition derive_node_id_candidates :: "string \<Rightarrow> string list option" where
  "derive_node_id_candidates key =
     map_option (\<lambda>d. remdups (map (derive_node_id_from_digest d) [NODE_ID_HEX_LEN, NODE_ID_COMPAT_HEX_LEN]))
       (node_digest key)"

text \<open>Every exception inside the check makes it fail; the telemetry it records is left out.\<close>

definition verify_node_binding :: "mesh_env \<Rightarrow> pyval \<Rightarrow> pyval \<Rightarrow> bool" where
  "verify_node_binding env node key =
     (case key of VStr k \<Rightarrow>
        (case derive_node_id_candidates k of
           Some (current # older) \<Rightarrow>
             (let raw = py_strip (py_str (py_or node (VStr []))) in
              if raw = current then True
              else if raw \<in> set older then \<not> legacy_ids_blocked env
              else False)
         | _ \<Rightarrow> False)
      | _ \<Rightarrow> False)"

subsection \<open>Signatures\<close>

text \<open>
  \<open>str.upper\<close>, as far as the comparison with the names of the algorithms needs it: no character
  beyond ASCII has an uppercase form that occurs in them.
\<close>

definition ascii_upper :: "string \<Rightarrow> string" where
  "ascii_upper s = map (\<lambda>c. let n = (of_char c :: int) in
     if 97 \<le> n \<and> n \<le> 122 then char_of (n - 32) else c) s"

definition parse_public_key_algo :: "pyval \<Rightarrow> string res" where
  "parse_public_key_algo v =
     (case py_or v (VStr []) of
        VStr s \<Rightarrow>
          (let a = ascii_upper (py_strip s) in
           Inr (if a \<in> {''ED25519'', ''EDDSA''} then ''Ed25519''
                else if a \<in> {''ECDSA'', ''ECDSA_P256'', ''P-256'', ''P256''} then ''ECDSA_P256''
                else []))
      | _ \<Rightarrow> Inl AttributeError)"

text \<open>\<open>normalized.pop("gate_envelope", None)\<close>\<close>

definition without_key :: "string \<Rightarrow> event \<Rightarrow> event" where
  "without_key k d = filter (\<lambda>p. fst p \<noteq> k) d"

definition build_signature_payload :: "string \<Rightarrow> string \<Rightarrow> int \<Rightarrow> event \<Rightarrow> string res" where
  "build_signature_payload t node seq p =
     rbind (normalize_payload t p) (\<lambda>n.
     let m = (if t = ''gate_message'' then without_key ''gate_envelope'' n else n) in
     Inr (join ''|'' [PROTOCOL_VERSION, NETWORK_ID, t, node, int_str seq, canonical_json m]))"

definition verify_signature :: "mesh_env \<Rightarrow> pyval \<Rightarrow> pyval \<Rightarrow> pyval \<Rightarrow> string \<Rightarrow> bool res" where
  "verify_signature env key algo sig text =
     (case (case sig of VStr s \<Rightarrow> from_hex s | _ \<Rightarrow> None) of
        None \<Rightarrow> Inr False
      | Some sig_bytes \<Rightarrow>
          (case (case key of VStr k \<Rightarrow> b64decode False False k | _ \<Rightarrow> None) of
             None \<Rightarrow> Inr False
           | Some pub \<Rightarrow>
               rbind (parse_public_key_algo algo) (\<lambda>a.
               Inr (if a = ''Ed25519'' then ed25519_verify env pub sig_bytes (utf8 text)
                    else if a = ''ECDSA_P256'' then ecdsa_p256_verify env pub sig_bytes (utf8 text)
                    else False))))"

end
