(* ===== verification/Mesh_Schema.thy ===== *)
theory Mesh_Schema
  imports Mesh_Crypto Event_Schema
begin

section \<open>Payload validation of mesh events\<close>

text \<open>
  Models \<open>services/mesh/mesh_schema.py\<close>: the validator of each event type, the dispatch with the
  normal-form check, and the three ledger policies (public, gate, DM). The extension registry holds
  the validators of the economy layer once \<open>_chain_cutover.perform_cutover\<close> has run
  (\<open>economy_registered\<close>).
\<close>

definition require_fields :: "event \<Rightarrow> string list \<Rightarrow> verdict" where
  "require_fields p ks =
     (case List.find (\<lambda>k. \<not> ehas p k) ks of None \<Rightarrow> (True, ''ok'') | Some k \<Rightarrow> (False, ''Missing field: '' @ k))"

text \<open>\<open>ok, reason = check; if not ok: return ok, reason\<close>\<close>

definition and_then :: "verdict \<Rightarrow> verdict res \<Rightarrow> verdict res" where
  "and_then v rest = (if \<not> fst v then Inr v else rest)"

definition fail :: "string \<Rightarrow> verdict res" where
  "fail reason = Inr (False, reason)"

definition pass :: "verdict res" where
  "pass = Inr (True, ''ok'')"

subsection \<open>Sealed bytes\<close>

definition SEALED_CIPHERTEXT_PREFIXES :: "string list" where
  "SEALED_CIPHERTEXT_PREFIXES = [''x3dh1:'', ''dm1:'', ''mls1:'', ''sealed:'']"

definition starts_with :: "string \<Rightarrow> string \<Rightarrow> bool" where
  "starts_with s pre \<longleftrightarrow> take (length pre) s = pre"

definition strip_sealed_ciphertext_prefix :: "string \<Rightarrow> string" where
  "strip_sealed_ciphertext_prefix s =
     (case List.find (starts_with (py_lower s)) SEALED_CIPHERTEXT_PREFIXES of
        None \<Rightarrow> s | Some pre \<Rightarrow> drop (length pre) s)"

definition sealed_ciphertext_has_known_prefix :: "string \<Rightarrow> bool" where
  "sealed_ciphertext_has_known_prefix s \<longleftrightarrow> list_ex (starts_with (strip_lower s)) SEALED_CIPHERTEXT_PREFIXES"

definition decode_base64ish :: "string \<Rightarrow> int list option" where
  "decode_base64ish v =
     (let raw = py_strip v; padded = raw @ replicate (nat ((- int (length raw)) mod 4)) (CHR ''='') in
      if raw = [] \<or> list_ex is_space raw then None
      else case b64decode False True padded of Some bs \<Rightarrow> Some bs | None \<Rightarrow> b64decode True True padded)"

definition decode_sealed_ciphertext_value :: "string \<Rightarrow> int list option" where
  "decode_sealed_ciphertext_value v =
     (let raw = py_strip v in
      if raw = [] then None else decode_base64ish (strip_sealed_ciphertext_prefix raw))"

text \<open>Whether \<open>bytes.decode("utf-8")\<close> succeeds: the well-formed byte sequences of the Unicode standard.\<close>

definition utf8_tail :: "int \<Rightarrow> bool" where
  "utf8_tail b \<longleftrightarrow> 128 \<le> b \<and> b \<le> 191"

fun utf8_valid :: "int list \<Rightarrow> bool" where
  "utf8_valid [] = True"
| "utf8_valid (a # bs) =
     (if a < 128 then utf8_valid bs
      else if 194 \<le> a \<and> a \<le> 223 then (case bs of b # r \<Rightarrow> utf8_tail b \<and> utf8_valid r | _ \<Rightarrow> False)
      else if 224 \<le> a \<and> a \<le> 239 then
        (case bs of b # c # r \<Rightarrow>
           (if a = 224 then 160 \<le> b \<and> b \<le> 191 else if a = 237 then 128 \<le> b \<and> b \<le> 159 else utf8_tail b) \<and>
           utf8_tail c \<and> utf8_valid r
         | _ \<Rightarrow> False)
      else if 240 \<le> a \<and> a \<le> 244 then
        (case bs of b # c # d # r \<Rightarrow>
           (if a = 240 then 144 \<le> b \<and> b \<le> 191 else if a = 244 then 128 \<le> b \<and> b \<le> 143 else utf8_tail b) \<and>
           utf8_tail c \<and> utf8_tail d \<and> utf8_valid r
         | _ \<Rightarrow> False)
      else False)"

definition byte_entropy :: "(pyfloat \<Rightarrow> pyfloat) \<Rightarrow> int list \<Rightarrow> pyfloat res" where
  "byte_entropy lg bs =
     (if bs = [] then Inr (Fin 0)
      else let counts = map (\<lambda>b. length (filter (\<lambda>x. x = int b) bs)) [0..<256] in
        rbind (foldR (\<lambda>n s. rbind (int_div (int n) (int (length bs))) (\<lambda>q. Inr (fadd s (fmul q (lg q)))))
          (filter (\<lambda>n. n \<noteq> 0) counts) (Fin 0)) (\<lambda>s. Inr (fneg s)))"

definition sealed_min_bytes :: nat where
  "sealed_min_bytes = 8"

definition sealed_entropy_floor :: pyfloat where
  "sealed_entropy_floor = Fin (5 / 2)"

definition printable_byte :: "int \<Rightarrow> bool" where
  "printable_byte b \<longleftrightarrow> 32 \<le> b \<and> b \<le> 126 \<or> b \<in> {9, 10, 13}"

definition validate_sealed_bytes_field :: "mesh_env \<Rightarrow> event \<Rightarrow> string \<Rightarrow> verdict res" where
  "validate_sealed_bytes_field env p field =
     (let raw = py_strip (sget_or p field []) in
      case decode_sealed_ciphertext_value raw of
        None \<Rightarrow> fail (field @ '' must be base64-encoded sealed bytes'')
      | Some bs \<Rightarrow>
          if length bs < sealed_min_bytes then fail (field @ '' is too short'')
          else if sealed_ciphertext_has_known_prefix raw then pass
          else if 32 \<le> length bs then
            rbind (int_div (int (length (filter printable_byte bs))) (int (length bs))) (\<lambda>share.
            if flt (round64 (9 / 10)) share \<and> utf8_valid bs then fail (field @ '' looks like encoded plaintext'')
            else rbind (byte_entropy (log2_of env) bs) (\<lambda>h.
              if flt h sealed_entropy_floor then fail (field @ '' entropy is too low for sealed bytes'') else pass))
          else pass)"

subsection \<open>Validators\<close>

text \<open>\<open>payload.get(k) in (s1, s2, ...)\<close> for strings\<close>

definition one_of_strings :: "event \<Rightarrow> string \<Rightarrow> string list \<Rightarrow> bool" where
  "one_of_strings p k ss \<longleftrightarrow> eget p k \<in> VStr ` set ss"

definition validate_message :: "event \<Rightarrow> verdict res" where
  "validate_message p =
     and_then (require_fields p [''message'', ''destination'', ''channel'', ''priority'', ''ephemeral''])
       (if \<not> one_of_strings p ''priority'' [''normal'', ''high'', ''emergency'', ''low''] then fail ''Invalid priority''
        else case eget p ''ephemeral'' of VBool _ \<Rightarrow> pass | _ \<Rightarrow> fail ''ephemeral must be boolean'')"

definition blank_field :: "event \<Rightarrow> string \<Rightarrow> bool" where
  "blank_field p k \<longleftrightarrow> py_strip (sget p k []) = []"

definition validate_gate_message :: "event \<Rightarrow> verdict res" where
  "validate_gate_message p =
     and_then (require_fields p [''gate'', ''ciphertext'', ''nonce'', ''sender_ref''])
       (if ehas p ''message'' then fail ''plaintext gate message field is not allowed''
        else if blank_field p ''gate'' then fail ''gate cannot be empty''
        else rbind (if ehas p ''epoch'' then int_or_zero (py_or (eget p ''epoch'') (VInt 0)) else Inr 1) (\<lambda>epoch.
          if ehas p ''epoch'' \<and> epoch \<le> 0 then fail ''epoch must be a positive integer''
          else if \<not> ehas p ''epoch'' \<and> blank_field p ''ciphertext'' \<and> blank_field p ''nonce'' \<and>
                  blank_field p ''sender_ref''
          then fail ''epoch must be a positive integer''
          else if blank_field p ''ciphertext'' then fail ''ciphertext cannot be empty''
          else if blank_field p ''nonce'' then fail ''nonce cannot be empty''
          else if blank_field p ''sender_ref'' then fail ''sender_ref cannot be empty''
          else if strip_lower (sget_or p ''format'' ''mls1'') \<noteq> ''mls1''
          then fail ''Unsupported gate message format''
          else pass))"

definition validate_vote :: "event \<Rightarrow> verdict res" where
  "validate_vote p =
     and_then (require_fields p [''target_id'', ''vote'', ''gate''])
       (if num_of (eget p ''vote'') \<notin> {Some (Fin (- 1)), Some (Fin 1)} then fail ''Invalid vote'' else pass)"

definition validate_gate_create :: "event \<Rightarrow> verdict res" where
  "validate_gate_create p =
     and_then (require_fields p [''gate_id'', ''display_name'', ''rules''])
       (case eget p ''rules'' of VDict _ \<Rightarrow> pass | _ \<Rightarrow> fail ''rules must be an object'')"

definition validate_prediction :: "event \<Rightarrow> verdict res" where
  "validate_prediction p = Inr (require_fields p [''market_title'', ''side'', ''stake_amount''])"

definition validate_stake :: "event \<Rightarrow> verdict res" where
  "validate_stake p = Inr (require_fields p [''message_id'', ''poster_id'', ''side'', ''amount'', ''duration_days''])"

definition validate_dm_block :: "event \<Rightarrow> verdict res" where
  "validate_dm_block p =
     and_then (require_fields p [''blocked_id'', ''action''])
       (if \<not> one_of_strings p ''action'' [''block'', ''unblock''] then fail ''Invalid action'' else pass)"

definition validate_dm_key :: "event \<Rightarrow> verdict res" where
  "validate_dm_key p =
     and_then (require_fields p [''dh_pub_key'', ''dh_algo'', ''timestamp''])
       (if \<not> one_of_strings p ''dh_algo'' [''X25519'', ''ECDH'', ''ECDH_P256''] then fail ''Invalid dh_algo'' else pass)"

definition validate_dm_message :: "event \<Rightarrow> verdict res" where
  "validate_dm_message p =
     and_then (require_fields p [''recipient_id'', ''delivery_class'', ''recipient_token'', ''ciphertext'', ''msg_id'', ''timestamp''])
       (let cls = py_lower (sget p ''delivery_class'' []); fmt = strip_lower (sget_or p ''format'' ''mls1'') in
        if cls \<notin> {''request'', ''shared''} then fail ''Invalid delivery_class''
        else if cls = ''shared'' \<and> blank_field p ''recipient_token''
        then fail ''recipient_token required for shared delivery''
        else if fmt \<notin> {''mls1'', ''dm1''} then fail (''Unknown DM format: '' @ fmt)
        else pass)"

fun check_claims :: "pyval list \<Rightarrow> verdict" where
  "check_claims [] = (True, ''ok'')"
| "check_claims (VDict c # cs) =
     (let ct = py_lower (sget c ''type'' []) in
      if ct \<notin> {''self'', ''requests'', ''shared''} then (False, ''Invalid mailbox claim type'')
      else if blank_field c ''token'' then (False, ct @ '' mailbox claims require token'')
      else check_claims cs)"
| "check_claims (_ # cs) = (False, ''mailbox_claims entries must be objects'')"

definition validate_mailbox_claims :: "pyval \<Rightarrow> verdict" where
  "validate_mailbox_claims v =
     (case v of VList (c # cs) \<Rightarrow> check_claims (c # cs) | _ \<Rightarrow> (False, ''mailbox_claims must be a non-empty list''))"

definition validate_dm_poll :: "event \<Rightarrow> verdict res" where
  "validate_dm_poll p =
     and_then (require_fields p [''mailbox_claims'', ''timestamp'', ''nonce''])
       (Inr (validate_mailbox_claims (eget p ''mailbox_claims'')))"

definition validate_dm_count :: "event \<Rightarrow> verdict res" where
  "validate_dm_count p = validate_dm_poll p"

definition validate_key_rotate :: "event \<Rightarrow> verdict res" where
  "validate_key_rotate p =
     and_then (require_fields p [''old_node_id'', ''old_public_key'', ''old_public_key_algo'', ''new_public_key'',
       ''new_public_key_algo'', ''timestamp'', ''old_signature'']) pass"

definition validate_key_revoke :: "event \<Rightarrow> verdict res" where
  "validate_key_revoke p =
     and_then (require_fields p [''revoked_public_key'', ''revoked_public_key_algo'', ''revoked_at'', ''grace_until'', ''reason''])
       (rbind (int_or_zero (py_or (eget p ''revoked_at'') (VInt 0))) (\<lambda>revoked_at.
        rbind (int_or_zero (py_or (eget p ''grace_until'') (VInt 0))) (\<lambda>grace_until.
        if revoked_at \<le> 0 then fail ''revoked_at must be a positive timestamp''
        else if grace_until < revoked_at then fail ''grace_until must be >= revoked_at''
        else pass)))"

definition validate_abuse_report :: "event \<Rightarrow> verdict res" where
  "validate_abuse_report p =
     and_then (require_fields p [''target_id'', ''reason''])
       (if blank_field p ''reason'' then fail ''reason cannot be empty'' else pass)"

definition MESH_SCHEMA_REGISTRY :: "(string \<times> (event \<Rightarrow> verdict res)) list" where
  "MESH_SCHEMA_REGISTRY =
     [(''message'', validate_message), (''gate_message'', validate_gate_message), (''vote'', validate_vote),
      (''gate_create'', validate_gate_create), (''prediction'', validate_prediction), (''stake'', validate_stake),
      (''dm_block'', validate_dm_block), (''dm_key'', validate_dm_key), (''dm_message'', validate_dm_message),
      (''dm_poll'', validate_dm_poll), (''dm_count'', validate_dm_count), (''key_rotate'', validate_key_rotate),
      (''key_revoke'', validate_key_revoke), (''abuse_report'', validate_abuse_report)]"

definition ACTIVE_PUBLIC_LEDGER_EVENT_TYPES :: "string list" where
  "ACTIVE_PUBLIC_LEDGER_EVENT_TYPES =
     [''message'', ''vote'', ''gate_create'', ''prediction'', ''stake'', ''key_rotate'', ''key_revoke'', ''abuse_report'']"

definition LEGACY_PUBLIC_LEDGER_EVENT_TYPES :: "string list" where
  "LEGACY_PUBLIC_LEDGER_EVENT_TYPES = [''gate_message'', ''dm_message'']"

definition PUBLIC_LEDGER_EVENT_TYPES :: "string list" where
  "PUBLIC_LEDGER_EVENT_TYPES = ACTIVE_PUBLIC_LEDGER_EVENT_TYPES @ LEGACY_PUBLIC_LEDGER_EVENT_TYPES"

definition PUBLIC_LEDGER_FORBIDDEN_FIELDS :: "string list" where
  "PUBLIC_LEDGER_FORBIDDEN_FIELDS =
     [''ip'', ''ip_address'', ''origin_ip'', ''source_ip'', ''client_ip'', ''host'', ''hostname'', ''origin'', ''originator'',
      ''originator_hint'', ''routing_hint'', ''route'', ''route_hint'', ''route_reason'', ''routed_via'', ''transport'',
      ''transport_handle'', ''transport_lock'', ''recipient_id'', ''recipient_token'', ''delivery_class'',
      ''mailbox_claims'', ''dh_pub_key'', ''sender_token'']"

definition is_extension_event_type :: "mesh_env \<Rightarrow> string \<Rightarrow> bool" where
  "is_extension_event_type env t \<longleftrightarrow> economy_registered env \<and> t \<in> set INFONET_ECONOMY_EVENT_TYPES"

text \<open>A payload that is not a dictionary has no \<open>.get\<close> and raises.\<close>

definition validate_event_payload :: "mesh_env \<Rightarrow> string \<Rightarrow> pyval \<Rightarrow> verdict res" where
  "validate_event_payload env t v =
     (case map_of MESH_SCHEMA_REGISTRY t of
        None \<Rightarrow>
          if is_extension_event_type env t then validate_infonet_event_payload t v
          else fail ''Unknown event_type''
      | Some validate \<Rightarrow>
          (case v of VDict p \<Rightarrow>
             rbind (normalize_payload t p) (\<lambda>n.
             if \<not> py_eq (VDict n) (VDict p) then fail ''Payload is not normalized''
             else if t \<notin> {''message'', ''gate_message''} \<and> ehas p ''ephemeral''
             then fail ''ephemeral not allowed for this event type''
             else validate p)
           | _ \<Rightarrow> Inl AttributeError))"

text \<open>\<open>sorted(key for key in payload.keys() if test(str(key or "").strip().lower()))\<close>\<close>

definition keys_where :: "(string \<Rightarrow> bool) \<Rightarrow> event \<Rightarrow> string list" where
  "keys_where test p = sort (filter (\<lambda>k. test (strip_lower k)) (map fst p))"

definition PRIVATE_GATE_LEDGER_ALLOWED_FIELDS :: "string list" where
  "PRIVATE_GATE_LEDGER_ALLOWED_FIELDS =
     [''gate'', ''ciphertext'', ''nonce'', ''sender_ref'', ''format'', ''epoch'', ''gate_envelope'', ''envelope_hash'',
      ''reply_to'', ''transport_lock'', ''signed_context'']"

definition PRIVATE_DM_LEDGER_ALLOWED_FIELDS :: "string list" where
  "PRIVATE_DM_LEDGER_ALLOWED_FIELDS =
     [''recipient_id'', ''delivery_class'', ''recipient_token'', ''ciphertext'', ''msg_id'', ''timestamp'', ''format'',
      ''session_welcome'', ''sender_seal'', ''relay_salt'', ''transport_lock'', ''signed_context'']"

definition validate_private_gate_ledger_payload :: "mesh_env \<Rightarrow> event \<Rightarrow> verdict res" where
  "validate_private_gate_ledger_payload env p =
     rbind (validate_event_payload env ''gate_message'' (VDict p)) (\<lambda>v. and_then v
       (let unexpected = keys_where (\<lambda>k. k \<notin> set PRIVATE_GATE_LEDGER_ALLOWED_FIELDS) p; lock = transport_lock p in
        if unexpected \<noteq> []
        then fail (''private gate ledger payload contains unsupported fields: '' @ join '', '' unexpected)
        else if ehas p ''message'' \<or> ehas p ''_local_plaintext'' \<or> ehas p ''_local_reply_to''
        then fail ''private gate ledger payload must not contain plaintext''
        else if lock \<noteq> [] \<and> lock \<notin> {''private'', ''private_strong'', ''rns'', ''onion''}
        then fail ''gate messages require private transport_lock''
        else rbind (validate_sealed_bytes_field env p ''ciphertext'') (\<lambda>c. and_then c
          (rbind (validate_sealed_bytes_field env p ''nonce'') (\<lambda>n. and_then n pass)))))"

definition validate_private_dm_ledger_payload :: "mesh_env \<Rightarrow> event \<Rightarrow> verdict res" where
  "validate_private_dm_ledger_payload env p =
     rbind (validate_event_payload env ''dm_message'' (VDict p)) (\<lambda>v. and_then v
       (let unexpected = keys_where (\<lambda>k. k \<notin> set PRIVATE_DM_LEDGER_ALLOWED_FIELDS) p in
        if unexpected \<noteq> []
        then fail (''private DM ledger payload contains unsupported fields: '' @ join '', '' unexpected)
        else if ehas p ''message'' \<or> ehas p ''plaintext'' \<or> ehas p ''_local_plaintext''
        then fail ''private DM ledger payload must not contain plaintext''
        else if transport_lock p \<noteq> ''private_strong''
        then fail ''DM hashchain spool requires private_strong transport_lock''
        else if py_strip (sget_or p ''ciphertext'' []) = [] then fail ''ciphertext cannot be empty''
        else rbind (validate_sealed_bytes_field env p ''ciphertext'') (\<lambda>c. and_then c pass)))"

definition validate_public_ledger_payload :: "mesh_env \<Rightarrow> string \<Rightarrow> event \<Rightarrow> verdict res" where
  "validate_public_ledger_payload env t p =
     (if t = ''gate_message'' then validate_private_gate_ledger_payload env p
      else if t \<notin> set PUBLIC_LEDGER_EVENT_TYPES \<and> \<not> is_extension_event_type env t
      then fail (t @ '' is not allowed on the public ledger'')
      else let forbidden = keys_where (\<lambda>k. k \<in> set PUBLIC_LEDGER_FORBIDDEN_FIELDS) p;
               destination = strip_lower (sget_or p ''destination'' []) in
        if forbidden \<noteq> []
        then fail (''public ledger payload contains forbidden fields: '' @ join '', '' forbidden)
        else if t = ''message'' \<and> destination \<noteq> [] \<and> destination \<noteq> ''broadcast''
        then fail ''public ledger message destination must be broadcast''
        else pass)"

definition validate_protocol_fields :: "string \<Rightarrow> string \<Rightarrow> verdict" where
  "validate_protocol_fields version network =
     (if version \<noteq> PROTOCOL_VERSION then (False, ''Unsupported protocol_version'')
      else if network \<noteq> NETWORK_ID then (False, ''network_id mismatch'')
      else (True, ''ok''))"

end
