(* ===== verification/Chain_Event.thy ===== *)
theory Chain_Event
  imports Mesh_Schema
begin

section \<open>Events of the hashchain\<close>

text \<open>
  Models the class \<open>ChainEvent\<close> of \<open>services/mesh/mesh_hashchain.py\<close> and its constants. The fields
  are JSON values, since \<open>from_dict\<close> takes them from the network without a type test. The clock
  reading used for a missing timestamp is an argument.
\<close>

definition GENESIS_HASH :: string where
  "GENESIS_HASH = replicate 64 (CHR ''0'')"

definition MAX_CHAIN_MEMORY :: nat where
  "MAX_CHAIN_MEMORY = 50000"

definition EPHEMERAL_TTL :: int where
  "EPHEMERAL_TTL = 86400"

definition MESSAGE_RETENTION_DAYS :: int where
  "MESSAGE_RETENTION_DAYS = 90"

definition CHAIN_LOCK_DEPTH :: nat where
  "CHAIN_LOCK_DEPTH = 6"

definition MAX_PAYLOAD_BYTES :: nat where
  "MAX_PAYLOAD_BYTES = 4096"

definition CRITICAL_EVENT_TYPES :: "string list" where
  "CRITICAL_EVENT_TYPES = [''key_rotate'', ''key_revoke'']"

definition MIN_CONFIRMATIONS_CRITICAL :: int where
  "MIN_CONFIRMATIONS_CRITICAL = 3"

text \<open>The cutover adds the types of the economy layer to the first set and not to the second.\<close>

definition ACTIVE_APPEND_EVENT_TYPES :: "mesh_env \<Rightarrow> string list" where
  "ACTIVE_APPEND_EVENT_TYPES env =
     ACTIVE_PUBLIC_LEDGER_EVENT_TYPES @ (if economy_registered env then INFONET_ECONOMY_EVENT_TYPES else [])"

definition ALLOWED_EVENT_TYPES :: "string list" where
  "ALLOWED_EVENT_TYPES = PUBLIC_LEDGER_EVENT_TYPES"

record chain_event =
  ce_prev_hash :: pyval
  ce_event_type :: pyval
  ce_node_id :: pyval
  ce_payload :: pyval
  ce_timestamp :: pyval
  ce_sequence :: pyval
  ce_signature :: pyval
  ce_network_id :: pyval
  ce_public_key :: pyval
  ce_public_key_algo :: pyval
  ce_protocol_version :: pyval

text \<open>The defaults the constructor fills in\<close>

definition init_event :: "pyfloat \<Rightarrow> chain_event \<Rightarrow> chain_event" where
  "init_event now ev =
     ev\<lparr>ce_timestamp := py_or (ce_timestamp ev) (VFloat now),
        ce_network_id := py_or (ce_network_id ev) (VStr NETWORK_ID),
        ce_protocol_version := py_or (ce_protocol_version ev) (VStr PROTOCOL_VERSION)\<rparr>"

definition hash_content :: "chain_event \<Rightarrow> string" where
  "hash_content ev =
     join '':'' [py_str (ce_prev_hash ev), py_str (ce_event_type ev), py_str (ce_node_id ev),
       json_dumps (ce_payload ev), py_str (ce_timestamp ev), py_str (ce_sequence ev), py_str (ce_network_id ev)]"

definition compute_hash :: "chain_event \<Rightarrow> string" where
  "compute_hash ev = sha256_hex (hash_content ev)"

definition to_dict :: "chain_event \<Rightarrow> event" where
  "to_dict ev =
     [(''event_id'', VStr (compute_hash ev)), (''prev_hash'', ce_prev_hash ev), (''event_type'', ce_event_type ev),
      (''node_id'', ce_node_id ev), (''payload'', ce_payload ev), (''timestamp'', ce_timestamp ev),
      (''sequence'', ce_sequence ev), (''signature'', ce_signature ev), (''network_id'', ce_network_id ev),
      (''public_key'', ce_public_key ev), (''public_key_algo'', ce_public_key_algo ev),
      (''protocol_version'', ce_protocol_version ev)]"

definition req :: "event \<Rightarrow> string \<Rightarrow> pyval res" where
  "req d k = (case map_of d k of None \<Rightarrow> Inl KeyError | Some v \<Rightarrow> Inr v)"

definition read_event :: "pyfloat \<Rightarrow> event \<Rightarrow> chain_event res" where
  "read_event now d =
     rbind (req d ''prev_hash'') (\<lambda>prev. rbind (req d ''event_type'') (\<lambda>t. rbind (req d ''node_id'') (\<lambda>node.
     rbind (req d ''payload'') (\<lambda>p. rbind (req d ''timestamp'') (\<lambda>ts.
     Inr (init_event now
       \<lparr>ce_prev_hash = prev, ce_event_type = t, ce_node_id = node, ce_payload = p, ce_timestamp = ts,
        ce_sequence = mget d ''sequence'' (VInt 0), ce_signature = mget d ''signature'' (VStr []),
        ce_network_id = mget d ''network_id'' (VStr NETWORK_ID), ce_public_key = mget d ''public_key'' (VStr []),
        ce_public_key_algo = mget d ''public_key_algo'' (VStr []),
        ce_protocol_version = mget d ''protocol_version'' (VStr PROTOCOL_VERSION)\<rparr>))))))"

text \<open>
  The message of the ValueError slices the stored identifier, which fails for values that are
  neither strings nor lists.
\<close>

definition from_dict :: "pyfloat \<Rightarrow> event \<Rightarrow> chain_event res" where
  "from_dict now d =
     rbind (read_event now d) (\<lambda>ev.
     if VStr (compute_hash ev) = eget d ''event_id'' then Inr ev
     else case mget d ''event_id'' (VStr ''?'') of
            VStr _ \<Rightarrow> Inl ValueError | VList _ \<Rightarrow> Inl ValueError | _ \<Rightarrow> Inl TypeError)"

subsection \<open>Round trip\<close>

lemma init_event_idem: "truthy (VFloat now) \<Longrightarrow> init_event later (init_event now ev) = init_event now ev"
  by (simp add: init_event_def py_or_def NETWORK_ID_def PROTOCOL_VERSION_def)

lemma read_to_dict: "read_event now (to_dict ev) = Inr (init_event now ev)"
  by (cases ev) (simp add: read_event_def to_dict_def req_def mget_def)

lemma to_dict_id: "eget (to_dict ev) ''event_id'' = VStr (compute_hash ev)"
  by (simp add: to_dict_def eget_def)

lemma from_dict_id: "from_dict now d = Inr ev \<Longrightarrow> eget d ''event_id'' = VStr (compute_hash ev)"
  by (auto simp: from_dict_def res_simps split: if_splits pyval.splits)

lemma from_dict_read: "from_dict now d = Inr ev \<Longrightarrow> read_event now d = Inr ev"
  by (auto simp: from_dict_def res_simps split: if_splits pyval.splits)

text \<open>
  An event survives its dictionary form. What the constructor made at a nonzero clock reading is
  read back from its dictionary, with the same fields and the same identifier, at any later time.
\<close>

theorem event_roundtrip:
  assumes "truthy (VFloat now)"
  shows "from_dict later (to_dict (init_event now ev)) = Inr (init_event now ev)"
  using init_event_idem [OF assms] by (simp add: from_dict_def read_to_dict to_dict_id)

definition demo_chain_event :: chain_event where
  "demo_chain_event =
     \<lparr>ce_prev_hash = VStr GENESIS_HASH, ce_event_type = VStr ''vote'', ce_node_id = VStr ''!sb_1'',
      ce_payload = VDict [(''vote'', VInt 1)], ce_timestamp = VInt 0, ce_sequence = VInt 1, ce_signature = VStr ''aa'',
      ce_network_id = VStr [], ce_public_key = VStr ''AAAA'', ce_public_key_algo = VStr ''Ed25519'',
      ce_protocol_version = VStr []\<rparr>"

theorem event_roundtrip_witness:
  "from_dict (Fin 9) (to_dict (init_event (Fin 5) demo_chain_event)) = Inr (init_event (Fin 5) demo_chain_event)"
  by (rule event_roundtrip) simp

end
