(* ===== verification/Replay_Filter.thy ===== *)
theory Replay_Filter
  imports Mesh_Crypto
begin

section \<open>The replay filter\<close>

text \<open>
  Models the class \<open>ReplayFilter\<close> of \<open>services/mesh/mesh_hashchain.py\<close>: a Bloom filter in two byte
  arrays, of which the older one is dropped at each rotation. The clock and the salt drawn from
  \<open>os.urandom\<close> are arguments. The bytes refine a set of positions; on it the filter has no false
  negative for a value until the second rotation after the value was added.
\<close>

unbundle bit_operations_syntax

subsection \<open>State and operations\<close>

definition REPLAY_FILTER_BITS :: int where
  "REPLAY_FILTER_BITS = 1000000"

definition REPLAY_FILTER_HASHES :: int where
  "REPLAY_FILTER_HASHES = 3"

definition REPLAY_FILTER_ROTATE_S :: int where
  "REPLAY_FILTER_ROTATE_S = 3600"

record replay_filter =
  rf_size_bits :: int
  rf_hash_count :: int
  rf_rotate_s :: int
  rf_salt :: "int list"
  rf_active :: "8 word list"
  rf_previous :: "8 word list"
  rf_last_rotate :: pyfloat

definition empty_bits :: "int \<Rightarrow> 8 word list" where
  "empty_bits n = replicate (nat (n div 8 + 1)) 0"

definition new_replay_filter :: "int \<Rightarrow> int \<Rightarrow> int \<Rightarrow> int list \<Rightarrow> pyfloat \<Rightarrow> replay_filter" where
  "new_replay_filter n hashes interval salt now =
     (let bits = max 1024 n in
      \<lparr>rf_size_bits = bits, rf_hash_count = max 2 hashes, rf_rotate_s = max 60 interval, rf_salt = salt,
       rf_active = empty_bits bits, rf_previous = empty_bits bits, rf_last_rotate = now\<rparr>)"

text \<open>The elapsed time, a float, is compared exactly with the interval, an integer.\<close>

definition rotation_due :: "pyfloat \<Rightarrow> replay_filter \<Rightarrow> bool" where
  "rotation_due now f \<longleftrightarrow> \<not> flt (fsub now (rf_last_rotate f)) (Fin (of_int (rf_rotate_s f)))"

definition rotate_if_needed :: "pyfloat \<Rightarrow> replay_filter \<Rightarrow> replay_filter" where
  "rotate_if_needed now f =
     (if rotation_due now f
      then f\<lparr>rf_previous := rf_active f, rf_active := empty_bits (rf_size_bits f), rf_last_rotate := now\<rparr>
      else f)"

text \<open>The first eight bytes of the digest as a big-endian number, modulo the number of bits.\<close>

definition position :: "replay_filter \<Rightarrow> string \<Rightarrow> nat \<Rightarrow> nat" where
  "position f v i =
     (let digest = sha256_bytes (rf_salt f @ [int i div 256, int i mod 256] @ utf8 v) in
      nat ((uint (digest ! 0) * 2 ^ 32 + uint (digest ! 1)) mod rf_size_bits f))"

definition positions :: "replay_filter \<Rightarrow> string \<Rightarrow> nat list" where
  "positions f v = map (position f v) [0..<nat (rf_hash_count f)]"

definition set_bit_of :: "nat \<Rightarrow> 8 word list \<Rightarrow> 8 word list" where
  "set_bit_of p bs = bs[p div 8 := bs ! (p div 8) OR push_bit (p mod 8) 1]"

definition has_bit :: "8 word list \<Rightarrow> nat \<Rightarrow> bool" where
  "has_bit bs p \<longleftrightarrow> bs ! (p div 8) AND push_bit (p mod 8) 1 \<noteq> 0"

definition filter_add :: "pyfloat \<Rightarrow> string \<Rightarrow> replay_filter \<Rightarrow> replay_filter" where
  "filter_add now v f =
     (let g = rotate_if_needed now f in g\<lparr>rf_active := fold set_bit_of (positions g v) (rf_active g)\<rparr>)"

definition filter_seen :: "pyfloat \<Rightarrow> string \<Rightarrow> replay_filter \<Rightarrow> bool \<times> replay_filter" where
  "filter_seen now v f =
     (let g = rotate_if_needed now f in
      (\<forall>p \<in> set (positions g v). has_bit (rf_active g) p \<or> has_bit (rf_previous g) p, g))"

subsection \<open>Bytes as a set of positions\<close>

definition bits_of :: "8 word list \<Rightarrow> nat set" where
  "bits_of bs = {p. p < 8 * length bs \<and> has_bit bs p}"

lemma has_bit_iff: "has_bit bs p \<longleftrightarrow> bit (bs ! (p div 8)) (p mod 8)"
proof -
  have "push_bit (p mod 8) (1 :: 8 word) = 2 ^ (p mod 8)" by (simp add: push_bit_eq_mult)
  then show ?thesis by (simp add: has_bit_def and_exp_eq_0_iff_not_bit)
qed

lemma length_set_bit_of [simp]: "length (set_bit_of p bs) = length bs"
  by (simp add: set_bit_of_def)

lemma bits_of_empty [simp]: "bits_of (empty_bits n) = {}"
  by (auto simp: bits_of_def has_bit_def empty_bits_def div_less_iff_less_mult mult.commute)

lemma byte_index: "p < 8 * n \<longleftrightarrow> p div 8 < (n :: nat)"
  by (simp add: div_less_iff_less_mult mult.commute)

lemma bits_of_set:
  assumes "p < 8 * length bs"
  shows "bits_of (set_bit_of p bs) = insert p (bits_of bs)"
proof -
  have eq: "q div 8 = p div 8 \<Longrightarrow> q mod 8 = p mod 8 \<Longrightarrow> q = p" for q :: nat
    by (metis div_mult_mod_eq)
  have "has_bit (set_bit_of p bs) q \<longleftrightarrow> q = p \<or> has_bit bs q" if "q < 8 * length bs" for q
    using assms that eq [of q]
    by (auto simp: has_bit_iff set_bit_of_def byte_index nth_list_update bit_or_iff push_bit_eq_mult bit_exp_iff
        possible_bit_word)
  then show ?thesis using assms by (auto simp: bits_of_def)
qed

lemma bits_of_fold_set:
  "\<forall>p \<in> set ps. p < 8 * length bs \<Longrightarrow> bits_of (fold set_bit_of ps bs) = set ps \<union> bits_of bs"
  by (induction ps arbitrary: bs) (auto simp: bits_of_set)

lemma length_fold_set [simp]: "length (fold set_bit_of ps bs) = length bs"
  by (induction ps arbitrary: bs) auto

text \<open>Both arrays have a byte for every position.\<close>

definition filter_ok :: "replay_filter \<Rightarrow> bool" where
  "filter_ok f \<longleftrightarrow> 0 < rf_size_bits f \<and>
     length (rf_active f) = nat (rf_size_bits f div 8 + 1) \<and> length (rf_previous f) = nat (rf_size_bits f div 8 + 1)"

lemma filter_ok_new: "filter_ok (new_replay_filter n hashes interval salt now)"
  by (simp add: filter_ok_def new_replay_filter_def empty_bits_def Let_def)

lemma filter_ok_rotate: "filter_ok f \<Longrightarrow> filter_ok (rotate_if_needed now f)"
  by (simp add: filter_ok_def rotate_if_needed_def empty_bits_def)

lemma filter_ok_add: "filter_ok f \<Longrightarrow> filter_ok (filter_add now v f)"
  using filter_ok_rotate [of f now] by (simp add: filter_ok_def filter_add_def Let_def)

lemma filter_ok_seen: "filter_ok f \<Longrightarrow> filter_ok (snd (filter_seen now v f))"
  by (simp add: filter_seen_def Let_def filter_ok_rotate)

lemma positions_in_range:
  assumes "filter_ok f" and "p \<in> set (positions f v)"
  shows "p < 8 * length (rf_active f)" "p < 8 * length (rf_previous f)"
proof -
  have b: "int p < rf_size_bits f" "0 < rf_size_bits f"
    using assms by (auto simp: positions_def position_def Let_def filter_ok_def)
  then have "p < 8 * nat (rf_size_bits f div 8 + 1)" by linarith
  then show "p < 8 * length (rf_active f)" "p < 8 * length (rf_previous f)"
    using assms(1) by (simp_all add: filter_ok_def)
qed

lemma filter_seen_iff:
  assumes "filter_ok f"
  shows "fst (filter_seen now v f) \<longleftrightarrow>
    (let g = rotate_if_needed now f in set (positions g v) \<subseteq> bits_of (rf_active g) \<union> bits_of (rf_previous g))"
  using positions_in_range [OF filter_ok_rotate [OF assms, of now], of _ v]
  by (auto simp: filter_seen_def Let_def bits_of_def)

lemma filter_add_bits:
  assumes "filter_ok f"
  shows "bits_of (rf_active (filter_add now v f)) =
    set (positions (rotate_if_needed now f) v) \<union> bits_of (rf_active (rotate_if_needed now f))"
  using positions_in_range(1) [OF filter_ok_rotate [OF assms, of now]]
  by (simp add: filter_add_def Let_def bits_of_fold_set)

subsection \<open>No false negatives before the second rotation\<close>

text \<open>A use of the filter: when it happens, and the value that is added or looked up.\<close>

datatype filter_use = Add pyfloat string | Look pyfloat string

fun use_filter :: "filter_use \<Rightarrow> replay_filter \<Rightarrow> replay_filter" where
  "use_filter (Add now v) f = filter_add now v f"
| "use_filter (Look now v) f = snd (filter_seen now v f)"

fun use_time :: "filter_use \<Rightarrow> pyfloat" where
  "use_time (Add now v) = now"
| "use_time (Look now v) = now"

fun rotations :: "filter_use list \<Rightarrow> replay_filter \<Rightarrow> nat" where
  "rotations [] f = 0"
| "rotations (u # us) f = (if rotation_due (use_time u) f then 1 else 0) + rotations us (use_filter u f)"

lemma positions_update [simp]:
  "positions (f\<lparr>rf_active := a\<rparr>) v = positions f v" "positions (f\<lparr>rf_previous := a\<rparr>) v = positions f v"
  "positions (f\<lparr>rf_last_rotate := t\<rparr>) v = positions f v"
proof -
  have "position (f\<lparr>rf_active := a\<rparr>) v = position f v" "position (f\<lparr>rf_previous := a\<rparr>) v = position f v"
    "position (f\<lparr>rf_last_rotate := t\<rparr>) v = position f v"
    by (simp_all add: position_def fun_eq_iff)
  then show "positions (f\<lparr>rf_active := a\<rparr>) v = positions f v" "positions (f\<lparr>rf_previous := a\<rparr>) v = positions f v"
    "positions (f\<lparr>rf_last_rotate := t\<rparr>) v = positions f v"
    by (simp_all add: positions_def)
qed

lemma positions_rotate [simp]: "positions (rotate_if_needed now f) v = positions f v"
  by (simp add: rotate_if_needed_def)

lemma positions_use [simp]: "positions (use_filter u f) v = positions f v"
  by (cases u) (simp_all add: filter_add_def filter_seen_def Let_def)

lemma filter_ok_use: "filter_ok f \<Longrightarrow> filter_ok (use_filter u f)"
  by (cases u) (simp_all add: filter_ok_add filter_ok_seen)

text \<open>One use keeps the active positions; a rotation moves them to the older array.\<close>

lemma no_rotation: "\<not> rotation_due now f \<Longrightarrow> rotate_if_needed now f = f"
  by (simp add: rotate_if_needed_def)

lemma use_previous: "rf_previous (use_filter u f) = rf_previous (rotate_if_needed (use_time u) f)"
  by (cases u) (simp_all add: filter_add_def filter_seen_def Let_def)

lemma use_active:
  assumes "filter_ok f"
  shows "bits_of (rf_active (rotate_if_needed (use_time u) f)) \<subseteq> bits_of (rf_active (use_filter u f))"
proof (cases u)
  case (Add now v)
  then show ?thesis using filter_add_bits [OF assms, of now v] by simp
qed (simp add: filter_seen_def Let_def)

lemma use_keeps:
  assumes "filter_ok f"
  shows "\<not> rotation_due (use_time u) f \<Longrightarrow>
      bits_of (rf_active f) \<subseteq> bits_of (rf_active (use_filter u f)) \<and> rf_previous (use_filter u f) = rf_previous f"
    and "rotation_due (use_time u) f \<Longrightarrow> rf_previous (use_filter u f) = rf_active f"
proof -
  show "bits_of (rf_active f) \<subseteq> bits_of (rf_active (use_filter u f)) \<and> rf_previous (use_filter u f) = rf_previous f"
    if "\<not> rotation_due (use_time u) f"
    using use_active [OF assms, of u] no_rotation [OF that] by (simp add: use_previous)
  show "rf_previous (use_filter u f) = rf_active f" if "rotation_due (use_time u) f"
    using that by (simp add: use_previous rotate_if_needed_def)
qed

lemma uses_keep_previous:
  assumes "filter_ok f" and "set ps \<subseteq> bits_of (rf_active f) \<union> bits_of (rf_previous f)"
    and "rotations us f = 0"
  shows "set ps \<subseteq> bits_of (rf_active (fold use_filter us f)) \<union> bits_of (rf_previous (fold use_filter us f))"
  using assms
proof (induction us arbitrary: f)
  case (Cons u us)
  then have no: "\<not> rotation_due (use_time u) f" and rest: "rotations us (use_filter u f) = 0"
    by (simp_all split: if_splits)
  have "set ps \<subseteq> bits_of (rf_active (use_filter u f)) \<union> bits_of (rf_previous (use_filter u f))"
    using use_keeps(1) [OF Cons.prems(1) no] Cons.prems(2) by auto
  from Cons.IH [OF filter_ok_use [OF Cons.prems(1)] this rest] show ?case by simp
qed simp

lemma uses_keep_active:
  assumes "filter_ok f" and "set ps \<subseteq> bits_of (rf_active f)" and "rotations us f \<le> 1"
  shows "set ps \<subseteq> bits_of (rf_active (fold use_filter us f)) \<union> bits_of (rf_previous (fold use_filter us f))"
  using assms
proof (induction us arbitrary: f)
  case (Cons u us)
  show ?case
  proof (cases "rotation_due (use_time u) f")
    case True
    then have "rotations us (use_filter u f) = 0" using Cons.prems(3) by simp
    moreover have "set ps \<subseteq> bits_of (rf_active (use_filter u f)) \<union> bits_of (rf_previous (use_filter u f))"
      using use_keeps(2) [OF Cons.prems(1) True] Cons.prems(2) by auto
    ultimately show ?thesis
      using uses_keep_previous [OF filter_ok_use [OF Cons.prems(1), of u], of ps us] by simp
  next
    case False
    then have rest: "rotations us (use_filter u f) \<le> 1" using Cons.prems(3) by simp
    have "set ps \<subseteq> bits_of (rf_active (use_filter u f))"
      using use_keeps(1) [OF Cons.prems(1) False] Cons.prems(2) by blast
    from Cons.IH [OF filter_ok_use [OF Cons.prems(1)] this rest] show ?thesis by simp
  qed
qed auto

lemma rotations_snoc: "rotations (us @ [u]) f = rotations us f + (if rotation_due (use_time u) (fold use_filter us f) then 1 else 0)"
  by (induction us arbitrary: f) auto

lemma positions_fold [simp]: "positions (fold use_filter us f) v = positions f v"
  by (induction us arbitrary: f) auto

lemma filter_ok_fold: "filter_ok f \<Longrightarrow> filter_ok (fold use_filter us f)"
  by (induction us arbitrary: f) (auto simp: filter_ok_use)

text \<open>
  C13: The replay filter has no false negatives. After a value was added, any sequence of additions
  and lookups of other values with at most one rotation, the one of the final lookup included,
  leaves the value recognized.
\<close>

theorem replay_filter_remembers:
  assumes "filter_ok f" and "rotations (us @ [Look now v]) (filter_add t v f) \<le> 1"
  shows "fst (filter_seen now v (fold use_filter us (filter_add t v f)))"
proof -
  let ?f = "filter_add t v f" and ?g = "fold use_filter (us @ [Look now v]) (filter_add t v f)"
  have "positions ?f v = positions f v" using positions_use [of "Add t v" f v] by simp
  then have "set (positions ?f v) \<subseteq> bits_of (rf_active ?f)"
    using filter_add_bits [OF assms(1), of t v] by simp
  from uses_keep_active [OF filter_ok_add [OF assms(1)] this assms(2)]
  have "set (positions ?f v) \<subseteq> bits_of (rf_active ?g) \<union> bits_of (rf_previous ?g)" .
  then show ?thesis using filter_seen_iff [OF filter_ok_fold [OF filter_ok_add [OF assms(1), of t v]], of now v us]
    by (simp add: filter_seen_def Let_def)
qed

theorem replay_filter_remembers_witness:
  "fst (filter_seen (Fin 4000) ''b''
     (fold use_filter [Look (Fin 20) ''a'', Add (Fin 30) ''c'']
       (filter_add (Fin 10) ''b'' (new_replay_filter 1000000 3 3600 [7] (Fin 0)))))"
proof -
  let ?f = "new_replay_filter 1000000 3 3600 [7] (Fin 0)"
  have due: "rotation_due (Fin t) g \<longleftrightarrow> 3600 \<le> t" if "rf_last_rotate g = Fin 0" "rf_rotate_s g = 3600" "rep64 t" "\<bar>t\<bar> < 2 ^ 1024" for t g
    using that by (simp add: rotation_due_def fsub_def not_flt round64_rep not_less)
  have keep: "rf_last_rotate (filter_add (Fin t) v g) = Fin 0 \<and> rf_rotate_s (filter_add (Fin t) v g) = 3600"
    if "rf_last_rotate g = Fin 0" "rf_rotate_s g = 3600" "t < 3600" "rep64 t" "\<bar>t\<bar> < 2 ^ 1024" for t v g
    using that due [of g t] by (simp add: filter_add_def Let_def rotate_if_needed_def)
  have look: "snd (filter_seen (Fin t) v g) = g"
    if "rf_last_rotate g = Fin 0" "rf_rotate_s g = 3600" "t < 3600" "rep64 t" "\<bar>t\<bar> < 2 ^ 1024" for t v g
    using that due [of g t] by (simp add: filter_seen_def Let_def rotate_if_needed_def)
  have new: "rf_last_rotate ?f = Fin 0" "rf_rotate_s ?f = 3600"
    by (simp_all add: new_replay_filter_def Let_def)
  have "rotations ([Look (Fin 20) ''a'', Add (Fin 30) ''c''] @ [Look (Fin 4000) ''b'']) (filter_add (Fin 10) ''b'' ?f) \<le> 1"
    by (simp add: due keep look new)
  from replay_filter_remembers [OF filter_ok_new this] show ?thesis .
qed

end
