(* ===== verification/Ledger_Prog.thy ===== *)
theory Ledger_Prog
  imports Infonet_Prelude
begin

section \<open>Checks and state-changing programs\<close>

text \<open>
  The methods of the hashchain object read and write its fields, return early with a reason, and
  raise. A check is a value of type \<open>'a checked\<close>: it goes on with a result or stops. A program
  passes the object through, and keeps the changes made before it stopped, as Python does.
\<close>

named_theorems prog_simps \<open>rewrite rules for checks and programs\<close>

subsection \<open>Checks\<close>

text \<open>
  \<open>Duplicate\<close> and \<open>Refused\<close> are early returns (for \<open>append\<close>, a ValueError with the reason as its
  message); \<open>Raised\<close> is any other exception.
\<close>

datatype refusal =
    Duplicate
  | Refused string
  | Raised pyexc

type_synonym 'a checked = "refusal + 'a"

fun cbind :: "'a checked \<Rightarrow> ('a \<Rightarrow> 'b checked) \<Rightarrow> 'b checked" where
  "cbind (Inl e) f = Inl e"
| "cbind (Inr x) f = f x"

definition raising :: "'a res \<Rightarrow> 'a checked" where
  "raising r = (case r of Inl e \<Rightarrow> Inl (Raised e) | Inr x \<Rightarrow> Inr x)"

text \<open>\<open>if not b: return reason\<close>, then the rest\<close>

definition ensure :: "bool \<Rightarrow> string \<Rightarrow> 'a checked \<Rightarrow> 'a checked" where
  "ensure b reason rest = (if b then rest else Inl (Refused reason))"

text \<open>\<open>ok, reason = verdict; if not ok: return reason\<close>\<close>

definition accept :: "(bool \<times> string) res \<Rightarrow> 'a checked \<Rightarrow> 'a checked" where
  "accept r rest = cbind (raising r) (\<lambda>v. ensure (fst v) (snd v) rest)"

lemma cbind_Inr_iff [prog_simps]: "cbind r f = Inr y \<longleftrightarrow> (\<exists>x. r = Inr x \<and> f x = Inr y)"
  by (cases r) auto

lemma raising_Inr_iff [prog_simps]: "raising r = Inr x \<longleftrightarrow> r = Inr x"
  by (cases r) (auto simp: raising_def)

lemma raising_Inr_iff' [prog_simps]: "Inr x = raising r \<longleftrightarrow> r = Inr x"
  by (cases r) (auto simp: raising_def)

lemma ensure_Inr_iff [prog_simps]: "ensure b reason rest = Inr x \<longleftrightarrow> b \<and> rest = Inr x"
  by (simp add: ensure_def)

lemma accept_Inr_iff [prog_simps]: "accept r rest = Inr x \<longleftrightarrow> (\<exists>m. r = Inr (True, m)) \<and> rest = Inr x"
  by (cases r) (auto simp: accept_def raising_def ensure_def)

lemma raising_simps [simp]: "raising (Inl e) = Inl (Raised e)" "raising (Inr x) = Inr x"
  by (simp_all add: raising_def)

lemma ensure_simps [simp]: "ensure True reason rest = rest" "ensure False reason rest = Inl (Refused reason)"
  by (simp_all add: ensure_def)

lemma accept_simps [simp]:
  "accept (Inr (True, m)) rest = rest" "accept (Inr (False, m)) rest = Inl (Refused m)"
  "accept (Inl e) rest = Inl (Raised e)"
  by (simp_all add: accept_def)

subsection \<open>Programs\<close>

type_synonym ('s, 'a) prog = "'s \<Rightarrow> 'a checked \<times> 's"

definition pdone :: "'a \<Rightarrow> ('s, 'a) prog" where
  "pdone x s = (Inr x, s)"

definition pbind :: "('s, 'a) prog \<Rightarrow> ('a \<Rightarrow> ('s, 'b) prog) \<Rightarrow> ('s, 'b) prog" where
  "pbind m f s = (case m s of (Inl e, t) \<Rightarrow> (Inl e, t) | (Inr x, t) \<Rightarrow> f x t)"

definition reading :: "('s \<Rightarrow> 'a checked) \<Rightarrow> ('s, 'a) prog" where
  "reading f s = (f s, s)"

definition updating :: "('s \<Rightarrow> 's) \<Rightarrow> ('s, unit) prog" where
  "updating f s = (Inr (), f s)"

text \<open>A \<open>for\<close> loop over the state; it stops where its body stops.\<close>

fun each :: "('b \<Rightarrow> ('s, unit) prog) \<Rightarrow> 'b list \<Rightarrow> ('s, unit) prog" where
  "each f [] = pdone ()"
| "each f (x # xs) = pbind (f x) (\<lambda>_. each f xs)"

lemma pdone_eq [prog_simps]: "pdone x s = (r, t) \<longleftrightarrow> r = Inr x \<and> t = s"
  by (auto simp: pdone_def)

lemma reading_eq [prog_simps]: "reading f s = (r, t) \<longleftrightarrow> r = f s \<and> t = s"
  by (auto simp: reading_def)

lemma updating_eq [prog_simps]: "updating f s = (r, t) \<longleftrightarrow> r = Inr () \<and> t = f s"
  by (auto simp: updating_def)

lemma pbind_Inr_iff [prog_simps]:
  "pbind m f s = (Inr y, t) \<longleftrightarrow> (\<exists>x u. m s = (Inr x, u) \<and> f x u = (Inr y, t))"
  by (auto simp: pbind_def split: prod.splits sum.splits)

lemma pbind_Inl_iff:
  "pbind m f s = (Inl e, t) \<longleftrightarrow> m s = (Inl e, t) \<or> (\<exists>x u. m s = (Inr x, u) \<and> f x u = (Inl e, t))"
  by (auto simp: pbind_def split: prod.splits sum.splits)

lemma pbind_updating: "pbind (updating f) g s = g () (f s)"
  by (simp add: pbind_def updating_def)

lemma pbind_reading_Inr: "r s = Inr x \<Longrightarrow> pbind (reading r) g s = g x s"
  by (simp add: pbind_def reading_def)

subsection \<open>Triples\<close>

text \<open>
  \<open>triple P m Q E\<close>: from a state with \<open>P\<close>, the program \<open>m\<close> ends with a result that satisfies \<open>Q\<close>, or
  stops early in a state that satisfies \<open>E\<close>.
\<close>

definition triple :: "('s \<Rightarrow> bool) \<Rightarrow> ('s, 'a) prog \<Rightarrow> ('a \<Rightarrow> 's \<Rightarrow> bool) \<Rightarrow> ('s \<Rightarrow> bool) \<Rightarrow> bool" where
  "triple P m Q E \<longleftrightarrow> (\<forall>s r t. P s \<longrightarrow> m s = (r, t) \<longrightarrow> (case r of Inl _ \<Rightarrow> E t | Inr x \<Rightarrow> Q x t))"

lemma tripleI:
  assumes "\<And>s e t. P s \<Longrightarrow> m s = (Inl e, t) \<Longrightarrow> E t" and "\<And>s x t. P s \<Longrightarrow> m s = (Inr x, t) \<Longrightarrow> Q x t"
  shows "triple P m Q E"
  using assms by (simp add: triple_def split: sum.split)

lemma triple_resultD: "triple P m Q E \<Longrightarrow> P s \<Longrightarrow> m s = (Inr x, t) \<Longrightarrow> Q x t"
  by (fastforce simp: triple_def)

lemma triple_stopD: "triple P m Q E \<Longrightarrow> P s \<Longrightarrow> m s = (Inl e, t) \<Longrightarrow> E t"
  by (fastforce simp: triple_def)

lemma triple_pbind:
  assumes "triple P m R E" and "\<And>x. triple (R x) (f x) Q E"
  shows "triple P (pbind m f) Q E"
proof (rule tripleI)
  fix s e t assume "P s" and "pbind m f s = (Inl e, t)"
  then show "E t"
    using triple_stopD [OF assms(1)] triple_resultD [OF assms(1)] triple_stopD [OF assms(2)]
    unfolding pbind_Inl_iff by blast
next
  fix s x t assume "P s" and "pbind m f s = (Inr x, t)"
  then show "Q x t"
    using triple_resultD [OF assms(1)] triple_resultD [OF assms(2)] unfolding pbind_Inr_iff by blast
qed

lemma triple_weaken:
  "triple P m Q E \<Longrightarrow> (\<And>s. P' s \<Longrightarrow> P s) \<Longrightarrow> (\<And>x s. Q x s \<Longrightarrow> Q' x s) \<Longrightarrow> (\<And>s. E s \<Longrightarrow> E' s) \<Longrightarrow> triple P' m Q' E'"
  by (rule tripleI) (blast dest: triple_resultD triple_stopD)+

lemma triple_pdone: "(\<And>s. P s \<Longrightarrow> Q x s) \<Longrightarrow> triple P (pdone x) Q E"
  by (rule tripleI) (auto simp: pdone_eq)

lemma triple_reading:
  "(\<And>s. P s \<Longrightarrow> E s) \<Longrightarrow> (\<And>s x. P s \<Longrightarrow> f s = Inr x \<Longrightarrow> Q x s) \<Longrightarrow> triple P (reading f) Q E"
  by (rule tripleI) (auto simp: reading_eq)

lemma triple_updating: "(\<And>s. P s \<Longrightarrow> Q () (f s)) \<Longrightarrow> triple P (updating f) Q E"
  by (rule tripleI) (auto simp: updating_eq)

lemma triple_each:
  "(\<And>x. x \<in> set xs \<Longrightarrow> triple P (f x) (\<lambda>_. P) E) \<Longrightarrow> triple P (each f xs) (\<lambda>_. P) E"
  by (induction xs) (auto intro: triple_pdone triple_pbind)

lemma triple_each_upto:
  assumes "\<And>k. k < length xs \<Longrightarrow> triple (P k) (f (xs ! k)) (\<lambda>_. P (Suc k)) E"
  shows "triple (P 0) (each f xs) (\<lambda>_. P (length xs)) E"
proof -
  have "triple (P k) (each f (drop k xs)) (\<lambda>_. P (length xs)) E" if "k \<le> length xs" for k
    using that
  proof (induction k rule: inc_induct)
    case base
    show ?case by (simp add: triple_pdone)
  next
    case (step k)
    then show ?case using assms [of k] by (simp add: Cons_nth_drop_Suc [symmetric] triple_pbind)
  qed
  from this [of 0] show ?thesis by simp
qed

lemma triple_prod: "(\<And>a b. triple (P (a, b)) (f a b) Q E) \<Longrightarrow> triple (P x) (case x of (a, b) \<Rightarrow> f a b) Q E"
  by (cases x) simp

lemma triple_assume: "(b \<Longrightarrow> triple P m Q E) \<Longrightarrow> triple (\<lambda>s. P s \<and> b) m Q E"
  by (auto simp: triple_def)

lemma triple_state: "(\<And>s. triple (\<lambda>t. t = s \<and> P s) (m s) Q E) \<Longrightarrow> triple P (\<lambda>s. m s s) Q E"
  by (fastforce simp: triple_def)

subsection \<open>Programs that leave a part of the state alone\<close>

definition leaves :: "('s \<Rightarrow> 'c) \<Rightarrow> ('s, 'a) prog \<Rightarrow> bool" where
  "leaves v m \<longleftrightarrow> (\<forall>s. v (snd (m s)) = v s)"

lemma leaves_pdone: "leaves v (pdone x)"
  by (simp add: leaves_def pdone_def)

lemma leaves_reading: "leaves v (reading f)"
  by (simp add: leaves_def reading_def)

lemma leaves_updating: "(\<And>s. v (f s) = v s) \<Longrightarrow> leaves v (updating f)"
  by (simp add: leaves_def updating_def)

lemma leaves_pbind:
  assumes "leaves v m" and "\<And>x. leaves v (f x)"
  shows "leaves v (pbind m f)"
  unfolding leaves_def
proof
  fix s
  obtain r t where "m s = (r, t)" by fastforce
  then show "v (snd (pbind m f s)) = v s"
    using assms by (cases r) (auto simp: pbind_def leaves_def dest: spec [of _ s])
qed

lemma leaves_each: "(\<And>x. x \<in> set xs \<Longrightarrow> leaves v (f x)) \<Longrightarrow> leaves v (each f xs)"
  by (induction xs) (simp_all add: leaves_pdone leaves_pbind)

lemma leaves_state: "(\<And>s. leaves v (m s)) \<Longrightarrow> leaves v (\<lambda>s. m s s)"
  by (simp add: leaves_def)

lemmas leaves_rules = leaves_pdone leaves_reading leaves_pbind leaves_each

lemma triple_leaves:
  assumes "leaves v m" and "\<And>s t. v s = v t \<Longrightarrow> P s \<Longrightarrow> P t" and "\<And>s. P s \<Longrightarrow> E s"
  shows "triple P m (\<lambda>_. P) E"
proof (rule tripleI)
  show "E t" if "P s" "m s = (Inl e, t)" for s e t
    using assms(1) that assms(2) [of s t] assms(3) by (metis leaves_def snd_conv)
  show "P t" if "P s" "m s = (Inr x, t)" for s x t
    using assms(1) that assms(2) [of s t] by (metis leaves_def snd_conv)
qed

text \<open>The predicate holds after the program, however it ends.\<close>

definition preserves :: "('s \<Rightarrow> bool) \<Rightarrow> ('s, 'a) prog \<Rightarrow> bool" where
  "preserves P m \<longleftrightarrow> triple P m (\<lambda>_. P) P"

lemma preservesD: "preserves P m \<Longrightarrow> P s \<Longrightarrow> P (snd (m s))"
  by (cases "m s"; cases "fst (m s)") (auto simp: preserves_def triple_def split: sum.splits)

lemma preservesI: "(\<And>s. P s \<Longrightarrow> P (snd (m s))) \<Longrightarrow> preserves P m"
  unfolding preserves_def by (rule tripleI) (metis snd_conv)+

lemma preserves_pdone: "preserves P (pdone x)"
  by (simp add: preserves_def triple_pdone)

lemma preserves_reading: "preserves P (reading f)"
  by (simp add: preserves_def triple_reading)

lemma preserves_updating: "(\<And>s. P s \<Longrightarrow> P (f s)) \<Longrightarrow> preserves P (updating f)"
  by (simp add: preserves_def triple_updating)

lemma preserves_pbind: "preserves P m \<Longrightarrow> (\<And>x. preserves P (f x)) \<Longrightarrow> preserves P (pbind m f)"
  unfolding preserves_def by (rule triple_pbind)

lemma preserves_each: "(\<And>x. x \<in> set xs \<Longrightarrow> preserves P (f x)) \<Longrightarrow> preserves P (each f xs)"
  unfolding preserves_def by (rule triple_each)

lemmas preserves_rules = preserves_pdone preserves_reading preserves_pbind preserves_each

lemma preserves_leaves:
  "leaves v m \<Longrightarrow> (\<And>s t. v s = v t \<Longrightarrow> P s \<Longrightarrow> P t) \<Longrightarrow> preserves P m"
  unfolding preserves_def by (rule triple_leaves)

end
