(* ===== verification/Ledger_State.thy ===== *)
theory Ledger_State
  imports Chain_Event Replay_Filter Ledger_Prog Mesh_Merkle
begin

section \<open>The state of the hashchain object\<close>

text \<open>
  Models the fields of the class \<open>Infonet\<close> of \<open>services/mesh/mesh_hashchain.py\<close>, with the files it
  writes, and the methods its operations share. \<open>host\<close> is what one call reads from outside: the
  clock (read once per call), the salt of a new replay filter, the limits set in the environment and
  whether a write to disk succeeds (\<open>orjson\<close> refuses integers beyond 64 bits). The status
  field \<open>_chain_bytes\<close>, the logs and the metrics are left out; a dictionary key is a JSON value.
\<close>

record revocation =
  rv_public_key :: pyval
  rv_public_key_algo :: pyval
  rv_revoked_at :: int
  rv_grace_until :: int
  rv_reason :: pyval
  rv_event_id :: pyval
  rv_node_id :: pyval

record cold_segment =
  cs_filename :: string
  cs_count :: nat
  cs_first_id :: string
  cs_last_id :: string

record saved_chain =
  sv_head :: pyval
  sv_node_sequences :: "(pyval, int) dict"
  sv_sequence_domains :: "(pyval, int) dict"
  sv_cold_segments :: "cold_segment list"
  sv_events :: "event list"

record ledger =
  lg_events :: "event list"
  lg_head :: pyval
  lg_node_sequences :: "(pyval, int) dict"
  lg_sequence_domains :: "(pyval, int) dict"
  lg_index :: "(pyval, nat) dict"
  lg_bindings :: "(string, pyval) dict"
  lg_revocations :: "(pyval, revocation) dict"
  lg_cold_segments :: "cold_segment list"
  lg_filter :: replay_filter
  lg_last_validated :: nat
  lg_type_counts :: "(pyval, int) dict"
  lg_active_count :: int
  lg_registered :: "string set"
  lg_merkle :: "(string list list \<times> nat) option"
  lg_dirty :: bool
  lg_wal :: "event option"
  lg_file :: "saved_chain option"
  lg_archive :: "(string \<times> event list) list"

record host =
  h_mesh :: mesh_env
  h_now :: pyfloat
  h_salt :: "int list"
  h_saves :: "saved_chain \<Rightarrow> bool"
  h_archives :: "event list \<Rightarrow> bool"
  h_logs :: "event \<Rightarrow> bool"
  h_spool_limit :: int
  h_spool_sender_limit :: int
  h_spool_ttl :: int

definition fresh_filter :: "host \<Rightarrow> replay_filter" where
  "fresh_filter h =
     new_replay_filter REPLAY_FILTER_BITS REPLAY_FILTER_HASHES REPLAY_FILTER_ROTATE_S (h_salt h) (h_now h)"

definition new_ledger :: "host \<Rightarrow> ledger" where
  "new_ledger h =
     \<lparr>lg_events = [], lg_head = VStr GENESIS_HASH, lg_node_sequences = [], lg_sequence_domains = [], lg_index = [],
      lg_bindings = [], lg_revocations = [], lg_cold_segments = [], lg_filter = fresh_filter h,
      lg_last_validated = 0, lg_type_counts = [], lg_active_count = 0, lg_registered = {}, lg_merkle = None,
      lg_dirty = False, lg_wal = None, lg_file = None, lg_archive = []\<rparr>"

definition reset_to_genesis :: "host \<Rightarrow> ledger \<Rightarrow> ledger" where
  "reset_to_genesis h lg =
     lg\<lparr>lg_events := [], lg_head := VStr GENESIS_HASH, lg_node_sequences := [], lg_sequence_domains := [],
        lg_index := [], lg_bindings := [], lg_revocations := [], lg_filter := fresh_filter h,
        lg_last_validated := 0, lg_type_counts := [], lg_active_count := 0, lg_registered := {}\<rparr>"

subsection \<open>Dictionary access\<close>

text \<open>\<open>table.get(key)\<close>\<close>

definition table_get :: "(pyval, 'a) dict \<Rightarrow> pyval \<Rightarrow> 'a option res" where
  "table_get t k = (if hashable k then Inr (dict_get t k) else Inl TypeError)"

text \<open>\<open>_safe_int(value, default)\<close>\<close>

definition int_or :: "int \<Rightarrow> pyval \<Rightarrow> int res" where
  "int_or d v = rbind (catch_tv (py_int v)) (\<lambda>x. Inr (get_or x d))"

text \<open>\<open>_safe_int(evt.get("sequence", 0) or 0, 0)\<close>\<close>

definition event_sequence :: "event \<Rightarrow> int res" where
  "event_sequence e = int_or 0 (py_or (mget e ''sequence'' (VInt 0)) (VInt 0))"

definition payload_dict :: "event \<Rightarrow> event res" where
  "payload_dict e = (case mget e ''payload'' (VDict []) of VDict p \<Rightarrow> Inr p | _ \<Rightarrow> Inl AttributeError)"

subsection \<open>Merkle cache\<close>

definition event_ids :: "event list \<Rightarrow> string list" where
  "event_ids es = map (\<lambda>e. py_str (eget e ''event_id'')) es"

definition invalidate_merkle_cache :: "ledger \<Rightarrow> ledger" where
  "invalidate_merkle_cache lg = lg\<lparr>lg_merkle := None\<rparr>"

definition get_merkle_levels :: "ledger \<Rightarrow> string list list \<times> ledger" where
  "get_merkle_levels lg =
     (let levels = build_merkle_levels (event_ids (lg_events lg)); fresh = lg\<lparr>lg_merkle := Some (levels, length (lg_events lg))\<rparr> in
      case lg_merkle lg of
        Some (cached, n) \<Rightarrow> if n = length (lg_events lg) then (cached, lg) else (levels, fresh)
      | None \<Rightarrow> (levels, fresh))"

subsection \<open>Key bindings and revocations\<close>

definition bind_public_key :: "pyval \<Rightarrow> pyval \<Rightarrow> (ledger, unit) prog" where
  "bind_public_key public_key node_id lg =
     (let key = py_str (py_or public_key (VStr [])); node = py_str (py_or node_id (VStr []));
          existing = get_or (dict_get (lg_bindings lg) key) VNone in
      if key = [] \<or> node = [] then (Inl (Refused ''Missing public key binding fields''), lg)
      else if truthy existing \<and> existing \<noteq> VStr node
      then (Inl (Refused (''public key already bound to '' @ py_str existing)), lg)
      else (Inr (), lg\<lparr>lg_bindings := dict_set (lg_bindings lg) key (VStr node)\<rparr>))"

definition revocation_info :: "event \<Rightarrow> event \<Rightarrow> pyval \<Rightarrow> revocation res" where
  "revocation_info e p public_key =
     rbind (int_or 0 (py_or (mget p ''revoked_at'' (VInt 0)) (VInt 0))) (\<lambda>revoked_at.
     rbind (int_or revoked_at (py_or (mget p ''grace_until'' (VInt revoked_at)) (VInt revoked_at))) (\<lambda>grace_until.
     Inr \<lparr>rv_public_key = public_key,
          rv_public_key_algo = py_or (eget p ''revoked_public_key_algo'') (eget e ''public_key_algo''),
          rv_revoked_at = revoked_at, rv_grace_until = grace_until, rv_reason = mget p ''reason'' (VStr []),
          rv_event_id = mget e ''event_id'' (VStr []), rv_node_id = mget e ''node_id'' (VStr [])\<rparr>))"

definition apply_revocation :: "event \<Rightarrow> (ledger, unit) prog" where
  "apply_revocation e =
     pbind (reading (\<lambda>lg. raising
       (rbind (payload_dict e) (\<lambda>p.
        let public_key = py_or (eget p ''revoked_public_key'') (mget e ''public_key'' (VStr [])) in
        if \<not> truthy public_key then Inr (lg_revocations lg)
        else rbind (revocation_info e p public_key) (\<lambda>info.
             rbind (table_get (lg_revocations lg) public_key) (\<lambda>existing.
             Inr (if case existing of None \<Rightarrow> True | Some old \<Rightarrow> rv_revoked_at old \<le> rv_revoked_at info
                  then dict_set (lg_revocations lg) public_key info else lg_revocations lg)))))))
     (\<lambda>revocations. updating (\<lambda>lg. lg\<lparr>lg_revocations := revocations\<rparr>))"

definition revocation_status :: "host \<Rightarrow> pyval \<Rightarrow> ledger \<Rightarrow> (bool \<times> revocation option) res" where
  "revocation_status h public_key lg =
     rbind (table_get (lg_revocations lg) public_key) (\<lambda>info.
     Inr (case info of
            None \<Rightarrow> (False, None)
          | Some i \<Rightarrow> (flt (Fin (of_int (rv_grace_until i))) (h_now h), Some i)))"

subsection \<open>Sequences\<close>

text \<open>Gate messages and DMs count in their own domain of the second table.\<close>

datatype sequence_table = Node_Sequences | Sequence_Domains

type_synonym slot = "sequence_table \<times> pyval"

definition sequence_table_for_event :: "pyval \<Rightarrow> pyval \<Rightarrow> slot" where
  "sequence_table_for_event event_type node_id =
     (let normalized = strip_lower (py_str (py_or event_type (VStr []))) in
      if normalized = ''gate_message'' then (Sequence_Domains, VStr (py_str node_id @ ''|gate_message''))
      else if normalized = ''dm_message'' then (Sequence_Domains, VStr (py_str node_id @ ''|dm_message''))
      else (Node_Sequences, node_id))"

fun sequences :: "sequence_table \<Rightarrow> ledger \<Rightarrow> (pyval, int) dict" where
  "sequences Node_Sequences lg = lg_node_sequences lg"
| "sequences Sequence_Domains lg = lg_sequence_domains lg"

definition last_sequence :: "slot \<Rightarrow> ledger \<Rightarrow> int res" where
  "last_sequence sl lg = rbind (table_get (sequences (fst sl) lg) (snd sl)) (\<lambda>n. Inr (get_or n 0))"

fun set_sequence :: "slot \<Rightarrow> int \<Rightarrow> ledger \<Rightarrow> ledger" where
  "set_sequence (Node_Sequences, k) n lg = lg\<lparr>lg_node_sequences := dict_set (lg_node_sequences lg) k n\<rparr>"
| "set_sequence (Sequence_Domains, k) n lg = lg\<lparr>lg_sequence_domains := dict_set (lg_sequence_domains lg) k n\<rparr>"

definition check_replay :: "string \<Rightarrow> int \<Rightarrow> ledger \<Rightarrow> bool" where
  "check_replay node_id sequence lg \<longleftrightarrow> sequence \<le> get_or (dict_get (lg_node_sequences lg) (VStr node_id)) 0"

subsection \<open>The DM spool\<close>

definition dm_spool_target_key :: "event \<Rightarrow> string \<times> string" where
  "dm_spool_target_key p =
     (let delivery_class = strip_lower (sget_or p ''delivery_class'' []) in
      (delivery_class, py_strip (sget_or p (if delivery_class = ''shared'' then ''recipient_token'' else ''recipient_id'') [])))"

text \<open>The loop over the events, newest first, with its early exit once both limits are reached.\<close>

fun spool_scan :: "host \<Rightarrow> string \<times> string \<Rightarrow> string \<Rightarrow> event list \<Rightarrow> int \<times> int \<Rightarrow> (int \<times> int) res" where
  "spool_scan h target sender [] counts = Inr counts"
| "spool_scan h target sender (e # es) (all, own) =
     (if eget e ''event_type'' \<noteq> VStr ''dm_message'' \<or> dm_spool_target_key (payload e) \<noteq> target
      then spool_scan h target sender es (all, own)
      else rbind (py_float (py_or (mget (payload e) ''timestamp'' (mget e ''timestamp'' (VInt 0))) (VInt 0))) (\<lambda>ts.
        if flt (Fin 0) ts \<and> flt (Fin (of_int (h_spool_ttl h))) (fsub (h_now h) ts)
        then spool_scan h target sender es (all, own)
        else let all' = all + 1;
                 own' = (if sender \<noteq> [] \<and> py_strip (sget_or e ''node_id'' []) = sender then own + 1 else own) in
          if h_spool_limit h \<le> all' \<and> (sender = [] \<or> h_spool_sender_limit h \<le> own') then Inr (all', own')
          else spool_scan h target sender es (all', own')))"

definition dm_spool_active_counts :: "host \<Rightarrow> event \<Rightarrow> string \<Rightarrow> ledger \<Rightarrow> (int \<times> int) res" where
  "dm_spool_active_counts h p sender_id lg =
     (let target = dm_spool_target_key p in
      if snd target = [] then Inr (0, 0)
      else spool_scan h target (py_strip sender_id) (rev (lg_events lg)) (0, 0))"

subsection \<open>Counters\<close>

text \<open>\<open>now - ts\<close> for a JSON value\<close>

definition elapsed :: "pyfloat \<Rightarrow> pyval \<Rightarrow> pyfloat res" where
  "elapsed now ts =
     (if num_of ts = None then Inl TypeError else rbind (py_float ts) (\<lambda>t. Inr (fsub now t)))"

definition count_type :: "event \<Rightarrow> (ledger, unit) prog" where
  "count_type e =
     (let t = mget e ''event_type'' (VStr ''unknown''); node = sget_or e ''node_id'' [] in
      pbind (reading (\<lambda>lg. raising (table_get (lg_type_counts lg) t))) (\<lambda>n.
      updating (\<lambda>lg. lg\<lparr>lg_type_counts := dict_set (lg_type_counts lg) t (get_or n 0 + 1),
        lg_registered := (if t = VStr ''node_register'' \<and> node \<noteq> [] then insert node (lg_registered lg)
                          else lg_registered lg)\<rparr>)))"

definition counts_as_active :: "host \<Rightarrow> event \<Rightarrow> bool res" where
  "counts_as_active h e =
     rbind (payload_dict e) (\<lambda>p.
     if \<not> truthy (py_or (eget p ''ephemeral'') (eget p ''_ephemeral'')) then Inr True
     else rbind (elapsed (h_now h) (mget e ''timestamp'' (VInt 0))) (\<lambda>age.
          Inr (flt age (Fin (of_int EPHEMERAL_TTL)))))"

definition rebuild_counters :: "host \<Rightarrow> (ledger, unit) prog" where
  "rebuild_counters h lg =
     pbind (updating (\<lambda>lg. lg\<lparr>lg_type_counts := [], lg_active_count := 0, lg_registered := {}\<rparr>)) (\<lambda>_.
     each (\<lambda>e. pbind (count_type e) (\<lambda>_.
               pbind (reading (\<lambda>lg. raising (counts_as_active h e))) (\<lambda>active.
               updating (\<lambda>lg. lg\<lparr>lg_active_count := lg_active_count lg + (if active then 1 else 0)\<rparr>))))
       (lg_events lg)) lg"

definition update_counters_for_event :: "event \<Rightarrow> (ledger, unit) prog" where
  "update_counters_for_event e =
     pbind (count_type e) (\<lambda>_. updating (\<lambda>lg. lg\<lparr>lg_active_count := lg_active_count lg + 1\<rparr>))"

subsection \<open>Rebuilding the derived state\<close>

definition ends_with :: "string \<Rightarrow> string \<Rightarrow> bool" where
  "ends_with s suf \<longleftrightarrow> length suf \<le> length s \<and> drop (length s - length suf) s = suf"

definition preserved_domains :: "(pyval, int) dict \<Rightarrow> (pyval, int) dict" where
  "preserved_domains d = filter (\<lambda>(k, n). \<not> ends_with (py_str (py_or k (VStr []))) ''|gate_message'') d"

definition rebuild_index :: "host \<Rightarrow> nat \<Rightarrow> event \<Rightarrow> (ledger, unit) prog" where
  "rebuild_index h i e =
     (let event_id = mget e ''event_id'' (VStr []) in
      if \<not> truthy event_id then pdone ()
      else pbind (reading (\<lambda>lg. raising (table_get (lg_index lg) event_id))) (\<lambda>_.
        pbind (updating (\<lambda>lg. lg\<lparr>lg_index := dict_set (lg_index lg) event_id i\<rparr>)) (\<lambda>_.
        case event_id of
          VStr s \<Rightarrow> updating (\<lambda>lg. lg\<lparr>lg_filter := filter_add (h_now h) s (lg_filter lg)\<rparr>)
        | _ \<Rightarrow> reading (\<lambda>lg. Inl (Raised AttributeError)))))"

definition rebuild_sequence :: "event \<Rightarrow> (ledger, unit) prog" where
  "rebuild_sequence e =
     (let node_id = mget e ''node_id'' (VStr []);
          sl = sequence_table_for_event (mget e ''event_type'' (VStr [])) node_id in
      pbind (reading (\<lambda>lg. raising (event_sequence e))) (\<lambda>sequence.
      if \<not> truthy node_id \<or> sequence = 0 then pdone ()
      else pbind (reading (\<lambda>lg. raising (last_sequence sl lg))) (\<lambda>last.
        updating (\<lambda>lg. if last < sequence then set_sequence sl sequence lg else lg))))"

definition rebuild_binding :: "event \<Rightarrow> ledger \<Rightarrow> ledger" where
  "rebuild_binding e lg =
     (let public_key = sget_or e ''public_key'' []; node_id = mget e ''node_id'' (VStr []) in
      if public_key \<noteq> [] \<and> truthy node_id \<and> \<not> truthy (get_or (dict_get (lg_bindings lg) public_key) VNone)
      then lg\<lparr>lg_bindings := dict_set (lg_bindings lg) public_key node_id\<rparr> else lg)"

definition revoke_if :: "event \<Rightarrow> (ledger, unit) prog" where
  "revoke_if e = (if etype e ''key_revoke'' then apply_revocation e else pdone ())"

definition rebuild_event :: "host \<Rightarrow> nat \<times> event \<Rightarrow> (ledger, unit) prog" where
  "rebuild_event h ie =
     pbind (rebuild_index h (fst ie) (snd ie)) (\<lambda>_.
     pbind (rebuild_sequence (snd ie)) (\<lambda>_.
     pbind (updating (rebuild_binding (snd ie))) (\<lambda>_. revoke_if (snd ie))))"

definition head_of :: "event list \<Rightarrow> pyval" where
  "head_of es = (if es = [] then VStr GENESIS_HASH else mget (last es) ''event_id'' (VStr GENESIS_HASH))"

definition rebuild_state :: "host \<Rightarrow> (ledger, unit) prog" where
  "rebuild_state h lg =
     pbind (updating (\<lambda>lg. lg\<lparr>lg_index := [], lg_node_sequences := [],
         lg_sequence_domains := preserved_domains (lg_sequence_domains lg), lg_bindings := [], lg_revocations := [],
         lg_filter := fresh_filter h\<rparr>)) (\<lambda>_.
     pbind (each (rebuild_event h) (zip [0..<length (lg_events lg)] (lg_events lg))) (\<lambda>_.
     updating (\<lambda>lg. lg\<lparr>lg_head := head_of (lg_events lg)\<rparr>))) lg"

definition rebuild_revocations :: "(ledger, unit) prog" where
  "rebuild_revocations lg =
     pbind (updating (\<lambda>lg. lg\<lparr>lg_revocations := []\<rparr>)) (\<lambda>_. each revoke_if (lg_events lg)) lg"

subsection \<open>Files\<close>

definition write_wal :: "host \<Rightarrow> event \<Rightarrow> ledger \<Rightarrow> ledger" where
  "write_wal h e lg = (if h_logs h e then lg\<lparr>lg_wal := Some e\<rparr> else lg)"

definition snapshot_of :: "ledger \<Rightarrow> saved_chain" where
  "snapshot_of lg =
     \<lparr>sv_head = lg_head lg, sv_node_sequences = lg_node_sequences lg, sv_sequence_domains = lg_sequence_domains lg,
      sv_cold_segments = lg_cold_segments lg, sv_events = lg_events lg\<rparr>"

definition flush :: "host \<Rightarrow> ledger \<Rightarrow> ledger" where
  "flush h lg =
     (if lg_dirty lg \<and> h_saves h (snapshot_of lg)
      then lg\<lparr>lg_file := Some (snapshot_of lg), lg_dirty := False, lg_wal := None\<rparr> else lg)"

definition ensure_materialized :: "host \<Rightarrow> (ledger, unit) prog" where
  "ensure_materialized h lg =
     (if h_saves h (snapshot_of lg) then (Inr (), lg\<lparr>lg_file := Some (snapshot_of lg)\<rparr>)
      else (Inl (Raised TypeError), lg))"

definition cold_segment_of :: "nat \<Rightarrow> event list \<Rightarrow> cold_segment" where
  "cold_segment_of n cold =
     \<lparr>cs_filename = ''cold_'' @ pad_left 8 (int_str (int n)) @ ''.orjson'', cs_count = length cold,
      cs_first_id = sget_or (hd cold) ''event_id'' [], cs_last_id = sget_or (last cold) ''event_id'' []\<rparr>"

definition index_of_events :: "event list \<Rightarrow> (pyval, nat) dict" where
  "index_of_events es =
     fold (\<lambda>(i, e) d. if truthy (eget e ''event_id'')
                      then dict_set d (VStr (sget_or e ''event_id'' [])) i else d)
       (zip [0..<length es] es) []"

definition spill :: "nat \<Rightarrow> ledger \<Rightarrow> ledger" where
  "spill overflow lg =
     (let cold = take overflow (lg_events lg); segment = cold_segment_of (length (lg_cold_segments lg)) cold;
          hot = drop overflow (lg_events lg) in
      lg\<lparr>lg_archive := dict_set (lg_archive lg) (cs_filename segment) cold,
         lg_cold_segments := lg_cold_segments lg @ [segment], lg_events := hot, lg_index := index_of_events hot\<rparr>)"

definition enforce_memory_cap :: "host \<Rightarrow> (ledger, unit) prog" where
  "enforce_memory_cap h lg =
     (let overflow = length (lg_events lg) - MAX_CHAIN_MEMORY in
      if overflow = 0 then (Inr (), lg)
      else if \<not> h_archives h (take overflow (lg_events lg)) then (Inl (Raised TypeError), lg)
      else pbind (updating (spill overflow)) (\<lambda>_.
           pbind (rebuild_counters h) (\<lambda>_.
           updating (\<lambda>lg. (invalidate_merkle_cache lg)\<lparr>lg_dirty := True\<rparr>))) lg)"

definition save :: "host \<Rightarrow> (ledger, unit) prog" where
  "save h = pbind (enforce_memory_cap h) (\<lambda>_. updating (\<lambda>lg. lg\<lparr>lg_dirty := True\<rparr>))"

definition reset_chain :: "host \<Rightarrow> ledger \<Rightarrow> ledger" where
  "reset_chain h lg =
     flush h ((reset_to_genesis h lg)\<lparr>lg_registered := lg_registered lg, lg_dirty := True\<rparr>)"

definition validate_and_set_sequence :: "host \<Rightarrow> string \<Rightarrow> int \<Rightarrow> string \<Rightarrow> (ledger, unit) prog" where
  "validate_and_set_sequence h node_id sequence domain =
     (let normalized = strip_lower domain;
          sl = (if normalized \<noteq> [] then (Sequence_Domains, VStr (node_id @ ''|'' @ normalized))
                else (Node_Sequences, VStr node_id)) in
      pbind (reading (\<lambda>lg.
        ensure (0 < sequence) ''Sequence must be a positive integer''
          (cbind (raising (last_sequence sl lg)) (\<lambda>last.
           ensure (last < sequence)
             (''Replay detected: sequence '' @ int_str sequence @ '' <= last '' @ int_str last) (Inr ()))))) (\<lambda>_.
      pbind (updating (set_sequence sl sequence)) (\<lambda>_. save h)))"

subsection \<open>Reading the chain\<close>

definition confirmations_for_event :: "pyval \<Rightarrow> ledger \<Rightarrow> int res" where
  "confirmations_for_event event_id lg =
     rbind (table_get (lg_index lg) event_id) (\<lambda>i.
     Inr (case i of None \<Rightarrow> 0 | Some i \<Rightarrow> max 0 (int (length (lg_events lg)) - 1 - int i)))"

definition decorate_event :: "event \<Rightarrow> ledger \<Rightarrow> event res" where
  "decorate_event e lg =
     (if \<not> hashable (eget e ''event_type'') then Inl TypeError
      else if eget e ''event_type'' \<notin> VStr ` set CRITICAL_EVENT_TYPES then Inr e
      else rbind (confirmations_for_event (mget e ''event_id'' (VStr [])) lg) (\<lambda>n.
        Inr (dict_set (dict_set e ''confirmations'' (VInt n)) ''confirmed'' (VBool (MIN_CONFIRMATIONS_CRITICAL \<le> n)))))"

record lock_info =
  lock_depth :: nat
  lock_event_id :: pyval
  lock_active :: bool

definition chain_lock :: "ledger \<Rightarrow> lock_info" where
  "chain_lock lg =
     (if length (lg_events lg) \<le> CHAIN_LOCK_DEPTH
      then \<lparr>lock_depth = CHAIN_LOCK_DEPTH, lock_event_id = VStr [], lock_active = False\<rparr>
      else let i = length (lg_events lg) - 1 - CHAIN_LOCK_DEPTH in
        \<lparr>lock_depth = CHAIN_LOCK_DEPTH, lock_event_id = mget (lg_events lg ! i) ''event_id'' (VStr []),
         lock_active = True\<rparr>)"

definition get_event :: "string \<Rightarrow> ledger \<Rightarrow> event option" where
  "get_event event_id lg =
     (case dict_get (lg_index lg) (VStr event_id) of
        Some i \<Rightarrow> if i < length (lg_events lg) then Some (lg_events lg ! i) else None
      | None \<Rightarrow> None)"

definition annotate_event :: "host \<Rightarrow> string \<Rightarrow> event \<Rightarrow> (ledger, bool) prog" where
  "annotate_event h event_id meta lg =
     (case dict_get (lg_index lg) (VStr event_id) of
        Some i \<Rightarrow>
          if i < length (lg_events lg)
          then pbind (updating (\<lambda>lg. lg\<lparr>lg_events :=
                   (lg_events lg)[i := dict_set (lg_events lg ! i) ''meta'' (VDict meta)]\<rparr>)) (\<lambda>_.
                 pbind (save h) (\<lambda>_. pdone True)) lg
          else (Inr False, lg)
      | None \<Rightarrow> (Inr False, lg))"

end
