(* ===== verification/Ledger_Append.thy ===== *)
theory Ledger_Append
  imports Ledger_State
begin

section \<open>Adding events to the chain\<close>

text \<open>
  Models the operations of \<open>services/mesh/mesh_hashchain.py\<close> that extend the chain: \<open>append\<close> and the
  two private appends for events of this node, \<open>ingest_events\<close> for events of others. Each one is a
  sequence of checks, the binding of the public key (which is written before the signature is
  checked), the signature, and the commit. The hooks and the radio bridge that are told of a new
  event are outputs and left out.
\<close>

subsection \<open>What is signed\<close>

text \<open>\<open>_private_gate_signature_payload\<close>\<close>

definition gate_signature_fields :: "string \<Rightarrow> event \<Rightarrow> bool \<Rightarrow> event res" where
  "gate_signature_fields gate_id e include_reply_to =
     (let p = payload e; reply_to = py_strip (sget_or p ''reply_to'' []) in
      rbind (int_or 0 (py_or (mget p ''epoch'' (VInt 0)) (VInt 0))) (\<lambda>epoch.
      Inr (with_str ''reply_to'' (if include_reply_to then reply_to else [])
          (with_str ''transport_lock'' (strip_lower (sget_or p ''transport_lock'' []))
          (with_str ''envelope_hash'' (py_strip (sget_or p ''envelope_hash'' []))
          ([(''gate'', VStr (strip_lower gate_id)), (''ciphertext'', VStr (sget_or p ''ciphertext'' [])),
            (''nonce'', VStr (sget_or p ''nonce'' [])), (''sender_ref'', VStr (sget_or p ''sender_ref'' [])),
            (''format'', VStr (sget_or p ''format'' ''mls1''))]
           @ (if 0 < epoch then [(''epoch'', VInt epoch)] else [])))))))"

definition private_gate_signature_payload :: "string \<Rightarrow> event \<Rightarrow> bool \<Rightarrow> event res" where
  "private_gate_signature_payload gate_id e include_reply_to =
     rbind (gate_signature_fields gate_id e include_reply_to) (normalize_payload ''gate_message'')"

text \<open>The loop that drops repeated variants by their canonical text\<close>

fun dedupe_by :: "('a \<Rightarrow> 'b) \<Rightarrow> 'b list \<Rightarrow> 'a list \<Rightarrow> 'a list" where
  "dedupe_by f seen [] = []"
| "dedupe_by f seen (x # xs) =
     (if f x \<in> set seen then dedupe_by f seen xs else x # dedupe_by f (f x # seen) xs)"

definition private_gate_signature_payload_variants :: "string \<Rightarrow> event \<Rightarrow> event list res" where
  "private_gate_signature_payload_variants gate_id e =
     (let has_reply = py_strip (sget_or (payload e) ''reply_to'' []) \<noteq> [] in
      rbind (private_gate_signature_payload gate_id e True) (\<lambda>p.
      rbind (private_gate_signature_payload gate_id e False) (\<lambda>no_reply.
      Inr (dedupe_by canonical_json []
        ([p] @ (if has_reply then [no_reply] else [])
         @ (if ehas p ''epoch'' then [without_key ''epoch'' p] @ (if has_reply then [without_key ''epoch'' no_reply] else [])
            else []))))))"

text \<open>One of the payloads carries a valid signature; the loop stops at the first.\<close>

fun signed_over :: "mesh_env \<Rightarrow> string \<Rightarrow> pyval \<Rightarrow> int \<Rightarrow> pyval \<Rightarrow> pyval \<Rightarrow> pyval \<Rightarrow> event list \<Rightarrow> bool res" where
  "signed_over env t node seq key algo sig [] = Inr False"
| "signed_over env t node seq key algo sig (p # ps) =
     (case node of
        VStr n \<Rightarrow>
          rbind (build_signature_payload t n seq p) (\<lambda>text.
          rbind (verify_signature env key algo sig text) (\<lambda>ok.
          if ok then Inr True else signed_over env t node seq key algo sig ps))
      | _ \<Rightarrow> Inl TypeError)"

definition payload_bytes :: "event \<Rightarrow> nat" where
  "payload_bytes p = length (utf8 (canonical_json p))"

subsection \<open>Committing an event\<close>

definition link_event :: "host \<Rightarrow> slot \<Rightarrow> int \<Rightarrow> string \<Rightarrow> event \<Rightarrow> ledger \<Rightarrow> ledger" where
  "link_event h sl sequence event_id e lg =
     set_sequence sl sequence
       (lg\<lparr>lg_events := lg_events lg @ [e], lg_index := dict_set (lg_index lg) (VStr event_id) (length (lg_events lg)),
           lg_head := VStr event_id\<rparr>)"

definition remember_event :: "host \<Rightarrow> string \<Rightarrow> ledger \<Rightarrow> ledger" where
  "remember_event h event_id lg = lg\<lparr>lg_filter := filter_add (h_now h) event_id (lg_filter lg)\<rparr>"

definition commit_event :: "host \<Rightarrow> slot \<Rightarrow> int \<Rightarrow> bool \<Rightarrow> chain_event \<Rightarrow> (ledger, event) prog" where
  "commit_event h sl sequence revokes ev =
     (let e = to_dict ev; event_id = compute_hash ev in
      pbind (updating (\<lambda>lg. invalidate_merkle_cache (remember_event h event_id
               (link_event h sl sequence event_id e (write_wal h e lg))))) (\<lambda>_.
      pbind (update_counters_for_event e) (\<lambda>_.
      pbind (if revokes then apply_revocation e else pdone ()) (\<lambda>_.
      pbind (save h) (\<lambda>_. pdone e)))))"

subsection \<open>Events of this node\<close>

record append_args =
  ap_event_type :: string
  ap_node_id :: string
  ap_payload :: event
  ap_signature :: string
  ap_sequence :: int
  ap_ephemeral :: bool
  ap_public_key :: string
  ap_public_key_algo :: string
  ap_protocol_version :: string
  ap_timestamp :: pyfloat
  ap_timestamp_bucket :: int

definition version_of :: "append_args \<Rightarrow> string" where
  "version_of a = (if ap_protocol_version a = [] then PROTOCOL_VERSION else ap_protocol_version a)"

text \<open>The checks every append makes on size, version, signature fields and identity\<close>

definition identity_checks :: "host \<Rightarrow> append_args \<Rightarrow> event \<Rightarrow> event checked" where
  "identity_checks h a p =
     ensure (payload_bytes p \<le> MAX_PAYLOAD_BYTES) ''payload exceeds max size''
     (accept (Inr (validate_protocol_fields (version_of a) NETWORK_ID))
     (ensure (ap_signature a \<noteq> [] \<and> ap_public_key a \<noteq> [] \<and> ap_public_key_algo a \<noteq> []) ''Missing signature fields''
     (cbind (raising (parse_public_key_algo (VStr (ap_public_key_algo a)))) (\<lambda>algo.
      ensure (algo \<noteq> []) ''Unsupported public_key_algo''
     (ensure (verify_node_binding (h_mesh h) (VStr (ap_node_id a)) (VStr (ap_public_key a))) ''node_id mismatch''
     (Inr p))))))"

definition sequence_checks :: "append_args \<Rightarrow> slot \<Rightarrow> ledger \<Rightarrow> unit checked" where
  "sequence_checks a sl lg =
     ensure (0 < ap_sequence a) ''sequence is required and must be > 0''
     (cbind (raising (last_sequence sl lg)) (\<lambda>last.
      ensure (last < ap_sequence a)
        (''Replay detected: sequence '' @ int_str (ap_sequence a) @ '' <= last '' @ int_str last) (Inr ())))"

definition signature_checks :: "host \<Rightarrow> append_args \<Rightarrow> string \<Rightarrow> event list \<Rightarrow> ledger \<Rightarrow> unit checked" where
  "signature_checks h a t variants lg =
     cbind (raising (signed_over (h_mesh h) t (VStr (ap_node_id a)) (ap_sequence a) (VStr (ap_public_key a))
              (VStr (ap_public_key_algo a)) (VStr (ap_signature a)) variants)) (\<lambda>ok.
     ensure ok ''Invalid signature''
     (cbind (raising (revocation_status h (VStr (ap_public_key a)) lg)) (\<lambda>revoked.
      ensure (\<not> (fst revoked \<and> t \<noteq> ''key_revoke'')) ''public key is revoked'' (Inr ()))))"

definition event_of_args :: "host \<Rightarrow> append_args \<Rightarrow> string \<Rightarrow> event \<Rightarrow> pyfloat \<Rightarrow> ledger \<Rightarrow> chain_event" where
  "event_of_args h a t p ts lg =
     init_event (h_now h)
       \<lparr>ce_prev_hash = lg_head lg, ce_event_type = VStr t, ce_node_id = VStr (ap_node_id a), ce_payload = VDict p,
        ce_timestamp = VFloat ts, ce_sequence = VInt (ap_sequence a), ce_signature = VStr (ap_signature a),
        ce_network_id = VStr [], ce_public_key = VStr (ap_public_key a),
        ce_public_key_algo = VStr (ap_public_key_algo a), ce_protocol_version = VStr (version_of a)\<rparr>"

text \<open>Common to the three appends: checks, key binding, signature, commit.\<close>

definition add_event ::
    "host \<Rightarrow> append_args \<Rightarrow> string \<Rightarrow> slot \<Rightarrow> (ledger \<Rightarrow> event checked) \<Rightarrow> (event \<Rightarrow> event list res)
      \<Rightarrow> (event \<Rightarrow> pyfloat checked) \<Rightarrow> (ledger, event) prog" where
  "add_event h a t sl checks variants stamp =
     pbind (reading (\<lambda>lg. cbind (sequence_checks a sl lg) (\<lambda>_. cbind (checks lg) (identity_checks h a)))) (\<lambda>p.
     pbind (bind_public_key (VStr (ap_public_key a)) (VStr (ap_node_id a))) (\<lambda>_.
     pbind (reading (\<lambda>lg. cbind (raising (variants p)) (\<lambda>vs. cbind (signature_checks h a t vs lg) (\<lambda>_. stamp p)))) (\<lambda>ts.
     (\<lambda>lg. commit_event h sl (ap_sequence a) (t = ''key_revoke'') (event_of_args h a t p ts lg) lg))))"

definition payload_size_flag :: "append_args \<Rightarrow> event \<Rightarrow> event" where
  "payload_size_flag a p =
     (if ap_event_type a = ''message''
      then (if ehas p ''ephemeral'' then p else p @ [(''ephemeral'', VBool (ap_ephemeral a))])
      else without_key ''ephemeral'' p)"

definition public_payload_checks :: "host \<Rightarrow> append_args \<Rightarrow> event checked" where
  "public_payload_checks h a =
     (let t = ap_event_type a in
      cbind (raising (normalize_payload t (ap_payload a))) (\<lambda>p.
      accept (validate_event_payload (h_mesh h) t (VDict p))
      (accept (validate_public_ledger_payload (h_mesh h) t p)
      (Inr (payload_size_flag a p)))))"

text \<open>A key may only revoke itself.\<close>

definition revokes_own_key :: "string \<Rightarrow> event \<Rightarrow> pyval \<Rightarrow> pyval \<Rightarrow> 'a checked \<Rightarrow> 'a checked" where
  "revokes_own_key whose p key algo rest =
     ensure (\<not> (truthy (eget p ''revoked_public_key'') \<and> eget p ''revoked_public_key'' \<noteq> key))
       (''revoked_public_key must match '' @ whose @ ''public_key'')
     (ensure (\<not> (truthy (eget p ''revoked_public_key_algo'') \<and> eget p ''revoked_public_key_algo'' \<noteq> algo))
       (''revoked_public_key_algo must match '' @ whose @ ''public_key_algo'') rest)"

definition bucketed_time :: "host \<Rightarrow> int \<Rightarrow> pyfloat res" where
  "bucketed_time h bucket =
     (if 0 < bucket
      then rbind (int_to_float bucket) (\<lambda>b. rbind (fdiv (h_now h) b) (\<lambda>q. rbind (py_int (VFloat q)) (\<lambda>n.
           int_to_float (n * bucket))))
      else Inr (h_now h))"

definition append_event :: "host \<Rightarrow> append_args \<Rightarrow> (ledger, event) prog" where
  "append_event h a =
     (let t = ap_event_type a in
      pbind (reading (\<lambda>_. ensure (t \<in> set (ACTIVE_APPEND_EVENT_TYPES (h_mesh h))) (''Unsupported event_type: '' @ t) (Inr ()))) (\<lambda>_.
      add_event h a t (Node_Sequences, VStr (ap_node_id a)) (\<lambda>_. public_payload_checks h a) (\<lambda>p. Inr [p])
        (\<lambda>p. (if t = ''key_revoke''
              then revokes_own_key ''event '' p (VStr (ap_public_key a)) (VStr (ap_public_key_algo a)) else id)
             (raising (bucketed_time h (ap_timestamp_bucket a))))))"

definition given_time :: "host \<Rightarrow> append_args \<Rightarrow> pyfloat" where
  "given_time h a = (if ap_timestamp a = Fin 0 then h_now h else ap_timestamp a)"

text \<open>A full spool is refused, for the sender first.\<close>

definition spool_checks :: "host \<Rightarrow> event \<Rightarrow> string \<Rightarrow> ledger \<Rightarrow> 'a checked \<Rightarrow> 'a checked" where
  "spool_checks h p sender lg rest =
     cbind (raising (dm_spool_active_counts h p sender lg)) (\<lambda>(all, own).
     ensure (own < h_spool_sender_limit h) ''DM hashchain sender spool full for recipient''
     (ensure (all < h_spool_limit h) ''DM hashchain spool full for recipient'' rest))"

definition dm_payload_checks :: "host \<Rightarrow> append_args \<Rightarrow> ledger \<Rightarrow> event checked" where
  "dm_payload_checks h a lg =
     (let raw = ap_payload a in
      ensure (\<not> (ehas raw ''message'' \<or> ehas raw ''plaintext'' \<or> ehas raw ''_local_plaintext''))
        ''private DM ledger payload must not contain plaintext''
      (ensure (transport_lock raw = ''private_strong'') ''DM hashchain spool requires private_strong transport_lock''
      (cbind (raising (normalize_payload ''dm_message'' raw)) (\<lambda>p.
       accept (validate_private_dm_ledger_payload (h_mesh h) p)
       (spool_checks h p (ap_node_id a) lg (Inr p))))))"

definition append_private_dm_message :: "host \<Rightarrow> append_args \<Rightarrow> (ledger, event) prog" where
  "append_private_dm_message h a =
     add_event h a ''dm_message'' (sequence_table_for_event (VStr ''dm_message'') (VStr (ap_node_id a)))
       (dm_payload_checks h a) (\<lambda>p. Inr [p]) (\<lambda>_. Inr (given_time h a))"

definition gate_payload_checks :: "host \<Rightarrow> append_args \<Rightarrow> event checked" where
  "gate_payload_checks h a =
     (let raw = ap_payload a in
      ensure (\<not> (ehas raw ''message'' \<or> ehas raw ''_local_plaintext'' \<or> ehas raw ''_local_reply_to''))
        ''private gate ledger payload must not contain plaintext''
      (ensure (transport_lock raw = ''private_strong'') ''gate messages require private_strong transport_lock''
      (cbind (raising (normalize_payload ''gate_message'' raw)) (\<lambda>p.
       accept (validate_private_gate_ledger_payload (h_mesh h) p) (Inr p)))))"

definition append_private_gate_message :: "host \<Rightarrow> append_args \<Rightarrow> (ledger, event) prog" where
  "append_private_gate_message h a =
     add_event h a ''gate_message'' (sequence_table_for_event (VStr ''gate_message'') (VStr (ap_node_id a)))
       (\<lambda>_. gate_payload_checks h a)
       (\<lambda>p. private_gate_signature_payload_variants (sget_or p ''gate'' []) [(''payload'', VDict p)])
       (\<lambda>_. Inr (given_time h a))"

subsection \<open>Events of others\<close>

text \<open>The event type as a string, once it is known to be allowed; a list or object is not hashable.\<close>

definition allowed_type :: "string \<Rightarrow> pyval \<Rightarrow> string checked" where
  "allowed_type reason v =
     (case v of
        VStr t \<Rightarrow> ensure (t \<in> set ALLOWED_EVENT_TYPES) reason (Inr t)
      | VList _ \<Rightarrow> Inl (Raised TypeError)
      | VDict _ \<Rightarrow> Inl (Raised TypeError)
      | _ \<Rightarrow> Inl (Refused reason))"

definition ingest_new :: "event \<Rightarrow> ledger \<Rightarrow> (string \<times> string \<times> int) checked" where
  "ingest_new e lg =
     cbind (raising (event_sequence e)) (\<lambda>sequence.
     cbind (allowed_type ''Unsupported event_type'' (mget e ''event_type'' (VStr []))) (\<lambda>t.
     let event_id = mget e ''event_id'' (VStr []) in
     ensure (truthy event_id \<and> truthy (mget e ''prev_hash'' (VStr []))) ''Missing event_id or prev_hash''
     (cbind (raising (table_get (lg_index lg) event_id)) (\<lambda>known.
      if known \<noteq> None then Inl Duplicate
      else case event_id of VStr s \<Rightarrow> Inr (t, s, sequence) | _ \<Rightarrow> Inl (Raised AttributeError)))))"

definition ingest_seen :: "host \<Rightarrow> string \<Rightarrow> (ledger, unit) prog" where
  "ingest_seen h event_id lg =
     (case filter_seen (h_now h) event_id (lg_filter lg) of
        (seen, f) \<Rightarrow> (if seen then Inl Duplicate else Inr (), lg\<lparr>lg_filter := f\<rparr>))"

definition fresh_timestamp :: "host \<Rightarrow> event \<Rightarrow> bool res" where
  "fresh_timestamp h e =
     (let max_age = max_event_age (h_mesh h) in
      if max_age \<le> 0 then Inr True
      else rbind (int_or 0 (py_or (mget e ''timestamp'' (VInt 0)) (VInt 0))) (\<lambda>ts.
           rbind (py_int (VFloat (h_now h))) (\<lambda>now. Inr (\<not> (0 < ts \<and> max_age < \<bar>now - ts\<bar>)))))"

definition ingest_position :: "host \<Rightarrow> pyval \<Rightarrow> event \<Rightarrow> string \<Rightarrow> int \<Rightarrow> ledger \<Rightarrow> slot checked" where
  "ingest_position h expected_prev e t sequence lg =
     (let prev = mget e ''prev_hash'' (VStr []);
          sl = sequence_table_for_event (VStr t) (mget e ''node_id'' (VStr [])) in
      ensure (prev = expected_prev) ''prev_hash does not match head''
      (ensure (eget e ''network_id'' = VStr NETWORK_ID) ''network_id mismatch''
      (ensure (prev = lg_head lg) ''prev_hash does not match head''
      (ensure (0 < sequence) ''Invalid sequence''
      (cbind (raising (last_sequence sl lg)) (\<lambda>last.
       ensure (last < sequence) ''Replay detected''
      (cbind (raising (fresh_timestamp h e)) (\<lambda>fresh.
       ensure fresh ''Event timestamp outside freshness window'' (Inr sl)))))))))"

definition ingest_payload :: "host \<Rightarrow> event \<Rightarrow> string \<Rightarrow> ledger \<Rightarrow> event checked" where
  "ingest_payload h e t lg =
     accept (validate_event_payload (h_mesh h) t (mget e ''payload'' (VDict [])))
     (cbind (raising (payload_dict e)) (\<lambda>p.
      let rest =
        ensure (\<not> (t = ''message'' \<and> \<not> ehas p ''ephemeral'')) ''Missing ephemeral flag''
        (ensure (payload_bytes p \<le> MAX_PAYLOAD_BYTES) ''Payload too large'' (Inr p)) in
      if t = ''gate_message'' then accept (validate_private_gate_ledger_payload (h_mesh h) p) rest
      else if t = ''dm_message''
      then accept (validate_private_dm_ledger_payload (h_mesh h) p) (spool_checks h p (sget_or e ''node_id'' []) lg rest)
      else accept (validate_public_ledger_payload (h_mesh h) t p) rest))"

definition ingest_identity :: "host \<Rightarrow> event \<Rightarrow> string \<Rightarrow> event \<Rightarrow> slot \<Rightarrow> int \<Rightarrow> ledger \<Rightarrow> unit checked" where
  "ingest_identity h e t p sl sequence lg =
     (let sig = mget e ''signature'' (VStr []); key = mget e ''public_key'' (VStr []);
          algo = mget e ''public_key_algo'' (VStr []) in
      ensure (py_or (eget e ''protocol_version'') (VStr PROTOCOL_VERSION) = VStr PROTOCOL_VERSION)
        ''Unsupported protocol_version''
      (ensure (truthy sig \<and> truthy key \<and> truthy algo) ''Missing signature fields''
      (cbind (raising (parse_public_key_algo algo)) (\<lambda>a.
       ensure (a \<noteq> []) ''Unsupported public_key_algo''
      ((if t = ''key_revoke'' then revokes_own_key [] p key algo else id)
      (cbind (raising (revocation_status h key lg)) (\<lambda>revoked.
       ensure (\<not> (fst revoked \<and> t \<noteq> ''key_revoke'')) ''public key is revoked''
      (cbind (raising (last_sequence sl lg)) (\<lambda>last.
       ensure (last < sequence)
         (''Replay detected: sequence '' @ int_str sequence @ '' <= last '' @ int_str last)
      (ensure (verify_node_binding (h_mesh h) (mget e ''node_id'' (VStr [])) key) ''node_id mismatch''
      (Inr ())))))))))))"

definition signature_payloads :: "string \<Rightarrow> event \<Rightarrow> event \<Rightarrow> event list res" where
  "signature_payloads t p e =
     (if t = ''gate_message'' then private_gate_signature_payload_variants (sget_or p ''gate'' []) e else Inr [p])"

definition ingest_signature :: "host \<Rightarrow> event \<Rightarrow> string \<Rightarrow> event \<Rightarrow> int \<Rightarrow> string \<Rightarrow> unit checked" where
  "ingest_signature h e t p sequence event_id =
     cbind (raising (signature_payloads t p e)) (\<lambda>variants.
     cbind (raising (signed_over (h_mesh h) t (mget e ''node_id'' (VStr [])) sequence (mget e ''public_key'' (VStr []))
              (mget e ''public_key_algo'' (VStr [])) (mget e ''signature'' (VStr [])) variants)) (\<lambda>ok.
     ensure ok ''Invalid signature''
     (case from_dict (h_now h) e of
        Inl x \<Rightarrow> if x \<in> {ValueError, KeyError, TypeError} then Inl (Refused ''event_id hash mismatch'') else Inl (Raised x)
      | Inr ev \<Rightarrow> ensure (compute_hash ev = event_id) ''event_id mismatch'' (Inr ()))))"

definition ingest_checks :: "host \<Rightarrow> pyval \<Rightarrow> event \<Rightarrow> string \<Rightarrow> int \<Rightarrow> ledger \<Rightarrow> (slot \<times> event) checked" where
  "ingest_checks h expected_prev e t sequence lg =
     cbind (ingest_position h expected_prev e t sequence lg) (\<lambda>sl.
     cbind (ingest_payload h e t lg) (\<lambda>p.
     cbind (ingest_identity h e t p sl sequence lg) (\<lambda>_. Inr (sl, p))))"

definition accept_event :: "host \<Rightarrow> event \<Rightarrow> string \<Rightarrow> string \<Rightarrow> int \<Rightarrow> slot \<Rightarrow> (ledger, string) prog" where
  "accept_event h e t event_id sequence sl =
     pbind (updating (link_event h sl sequence event_id e)) (\<lambda>_.
     pbind (update_counters_for_event e) (\<lambda>_.
     pbind (updating (remember_event h event_id)) (\<lambda>_.
     pbind (if t = ''key_revoke'' then apply_revocation e else pdone ()) (\<lambda>_.
     pdone event_id))))"

text \<open>One round of the loop; the result is the identifier the next event must name.\<close>

definition ingest_event :: "host \<Rightarrow> pyval \<Rightarrow> pyval \<Rightarrow> (ledger, string) prog" where
  "ingest_event h expected_prev v =
     (case v of
        VDict e \<Rightarrow>
          pbind (reading (ingest_new e)) (\<lambda>(t, event_id, sequence).
          pbind (ingest_seen h event_id) (\<lambda>_.
          pbind (reading (ingest_checks h expected_prev e t sequence)) (\<lambda>(sl, p).
          pbind (bind_public_key (mget e ''public_key'' (VStr [])) (mget e ''node_id'' (VStr []))) (\<lambda>_.
          pbind (reading (\<lambda>_. ingest_signature h e t p sequence event_id)) (\<lambda>_.
          accept_event h e t event_id sequence sl)))))
      | _ \<Rightarrow> reading (\<lambda>_. Inl (Refused ''Event is not an object'')))"

record ingest_report =
  ir_accepted :: nat
  ir_duplicates :: nat
  ir_rejected :: "(nat \<times> string) list"

fun ingest_loop :: "host \<Rightarrow> pyval list \<Rightarrow> nat \<Rightarrow> pyval \<Rightarrow> ingest_report \<Rightarrow> (ledger, ingest_report) prog" where
  "ingest_loop h [] i expected_prev rep lg = (Inr rep, lg)"
| "ingest_loop h (v # vs) i expected_prev rep lg =
     (case ingest_event h expected_prev v lg of
        (Inr event_id, lg') \<Rightarrow> ingest_loop h vs (Suc i) (VStr event_id) (rep\<lparr>ir_accepted := Suc (ir_accepted rep)\<rparr>) lg'
      | (Inl Duplicate, lg') \<Rightarrow>
          ingest_loop h vs (Suc i) expected_prev (rep\<lparr>ir_duplicates := Suc (ir_duplicates rep)\<rparr>) lg'
      | (Inl (Refused reason), lg') \<Rightarrow>
          ingest_loop h vs (Suc i) expected_prev (rep\<lparr>ir_rejected := ir_rejected rep @ [(i, reason)]\<rparr>) lg'
      | (Inl (Raised x), lg') \<Rightarrow> (Inl (Raised x), lg'))"

definition ingest_events :: "host \<Rightarrow> pyval list \<Rightarrow> (ledger, ingest_report) prog" where
  "ingest_events h vs lg =
     pbind (ingest_loop h vs 0 (lg_head lg) \<lparr>ir_accepted = 0, ir_duplicates = 0, ir_rejected = []\<rparr>) (\<lambda>rep.
     if 0 < ir_accepted rep
     then pbind (updating invalidate_merkle_cache) (\<lambda>_. pbind (save h) (\<lambda>_. pdone rep))
     else pdone rep) lg"

end
