(* ===== verification/Ledger_Fork.thy ===== *)
theory Ledger_Fork
  imports Ledger_Append
begin

section \<open>Forks, validation and cleanup\<close>

text \<open>
  Models the operations of \<open>services/mesh/mesh_hashchain.py\<close> that look at the whole chain:
  \<open>apply_fork\<close> with \<open>_order_chain_from\<close>, \<open>validate_chain\<close>, \<open>validate_chain_incremental\<close>, \<open>cleanup\<close>.
  Following the links of a fork need not end, so it is a partial function: \<open>None\<close> is not returning.
\<close>

subsection \<open>Ordering a fork\<close>

fun by_prev_of :: "event list \<Rightarrow> (pyval, event) dict \<Rightarrow> (pyval, event) dict option res" where
  "by_prev_of [] d = Inr (Some d)"
| "by_prev_of (e # es) d =
     (let p = mget e ''prev_hash'' (VStr []) in
      if \<not> truthy p then Inr None
      else if \<not> hashable p then Inl TypeError
      else if dict_has d p then Inr None
      else by_prev_of es (dict_set d p e))"

partial_function (option) follow_links :: "(pyval, event) dict \<Rightarrow> pyval \<Rightarrow> event list \<Rightarrow> event list option res option" where
  "follow_links d current ordered =
     (if \<not> hashable current then Some (Inl TypeError)
      else case dict_get d current of
        None \<Rightarrow> Some (Inr (Some ordered))
      | Some e \<Rightarrow>
          if truthy (mget e ''event_id'' (VStr []))
          then follow_links d (mget e ''event_id'' (VStr [])) (ordered @ [e])
          else Some (Inr None))"

definition same_number :: "event list \<Rightarrow> event list option \<Rightarrow> event list option" where
  "same_number es ordered =
     (case ordered of Some xs \<Rightarrow> if length xs = length es then Some xs else None | None \<Rightarrow> None)"

definition order_chain_from :: "pyval \<Rightarrow> event list \<Rightarrow> event list option res option" where
  "order_chain_from prev_hash es =
     (case by_prev_of es [] of
        Inl x \<Rightarrow> Some (Inl x)
      | Inr None \<Rightarrow> Some (Inr None)
      | Inr (Some d) \<Rightarrow> map_option (rmap (same_number es)) (follow_links d prev_hash []))"

subsection \<open>Applying a fork\<close>

text \<open>\<open>dict(payload or {})\<close>: a list of pairs is a dictionary too; keys that are not strings are dropped.\<close>

fun pair_item :: "pyval \<Rightarrow> (pyval \<times> pyval) res" where
  "pair_item (VList [k, v]) = Inr (k, v)"
| "pair_item (VList _) = Inl ValueError"
| "pair_item (VStr [k, v]) = Inr (VStr [k], VStr [v])"
| "pair_item (VStr _) = Inl ValueError"
| "pair_item (VDict [(k, _), (k', _)]) = Inr (VStr k, VStr k')"
| "pair_item (VDict _) = Inl ValueError"
| "pair_item _ = Inl TypeError"

fun add_pairs :: "(pyval \<times> pyval) list \<Rightarrow> event \<Rightarrow> event res" where
  "add_pairs [] d = Inr d"
| "add_pairs ((k, v) # ps) d =
     (case k of VStr s \<Rightarrow> add_pairs ps (dict_set d s v)
      | _ \<Rightarrow> if hashable k then add_pairs ps d else Inl TypeError)"

definition dict_of :: "pyval \<Rightarrow> event res" where
  "dict_of v =
     (if \<not> truthy v then Inr []
      else case v of
        VDict d \<Rightarrow> Inr d
      | VList vs \<Rightarrow> rbind (mapR pair_item vs) (\<lambda>ps. add_pairs ps [])
      | VStr _ \<Rightarrow> Inl ValueError
      | _ \<Rightarrow> Inl TypeError)"

type_synonym fork_view = "(pyval, int) dict \<times> (pyval, pyval) dict"

definition sequence_key :: "event \<Rightarrow> pyval" where
  "sequence_key e = snd (sequence_table_for_event (mget e ''event_type'' (VStr [])) (mget e ''node_id'' (VStr [])))"

text \<open>The last sequences and key bindings of the common prefix\<close>

definition view_prefix_event :: "event \<Rightarrow> fork_view \<Rightarrow> fork_view res" where
  "view_prefix_event e view =
     (case view of (last_seq, seen_keys) \<Rightarrow>
        let node_id = mget e ''node_id'' (VStr []); key = sequence_key e; public_key = sget_or e ''public_key'' [] in
        rbind (event_sequence e) (\<lambda>sequence.
        rbind (if truthy node_id \<and> sequence \<noteq> 0
               then rbind (table_get last_seq key) (\<lambda>n. Inr (dict_set last_seq key (max (get_or n 0) sequence)))
               else Inr last_seq) (\<lambda>last_seq'.
        Inr (last_seq',
             if public_key \<noteq> [] \<and> truthy node_id \<and> \<not> dict_has seen_keys (VStr public_key)
             then dict_set seen_keys (VStr public_key) node_id else seen_keys))))"

definition fork_payload :: "string \<Rightarrow> event \<Rightarrow> event res" where
  "fork_payload t e =
     rbind (dict_of (mget e ''payload'' (VDict []))) (\<lambda>d. if t = ''gate_message'' then Inr d else normalize_payload t d)"

definition ledger_policy :: "host \<Rightarrow> string \<Rightarrow> event \<Rightarrow> verdict res" where
  "ledger_policy h t p =
     (if t = ''gate_message'' then validate_private_gate_ledger_payload (h_mesh h) p
      else if t = ''dm_message'' then validate_private_dm_ledger_payload (h_mesh h) p
      else validate_public_ledger_payload (h_mesh h) t p)"

definition fork_event_content :: "host \<Rightarrow> ledger \<Rightarrow> nat \<Rightarrow> event \<Rightarrow> (string \<times> event) checked" where
  "fork_event_content h lg prev_index e =
     cbind (allowed_type ''unsupported event_type'' (mget e ''event_type'' (VStr []))) (\<lambda>t.
     ensure (truthy (mget e ''event_id'' (VStr [])) \<and> truthy (mget e ''node_id'' (VStr []))) ''missing fields''
     (ensure (eget e ''network_id'' = VStr NETWORK_ID) ''network mismatch''
     (cbind (raising (table_get (lg_index lg) (mget e ''event_id'' (VStr [])))) (\<lambda>existing.
      ensure (case existing of None \<Rightarrow> True | Some i \<Rightarrow> prev_index < i) ''duplicate event_id''
     (cbind (raising (fork_payload t e)) (\<lambda>p.
      accept (validate_event_payload (h_mesh h) t (VDict p))
     (accept (ledger_policy h t p) (Inr (t, p)))))))))"

definition fork_event_identity :: "host \<Rightarrow> ledger \<Rightarrow> event \<Rightarrow> string \<Rightarrow> event \<Rightarrow> int \<Rightarrow> fork_view \<Rightarrow> fork_view checked" where
  "fork_event_identity h lg e t p sequence view =
     (case view of (last_seq, seen_keys) \<Rightarrow>
        let sig = mget e ''signature'' (VStr []); key = mget e ''public_key'' (VStr []);
            algo = mget e ''public_key_algo'' (VStr []); node_id = mget e ''node_id'' (VStr []) in
        ensure (py_or (eget e ''protocol_version'') (VStr PROTOCOL_VERSION) = VStr PROTOCOL_VERSION)
          ''unsupported protocol_version''
        (ensure (truthy sig \<and> truthy key \<and> truthy algo) ''missing signature fields''
        (cbind (raising (revocation_status h key lg)) (\<lambda>revoked.
         ensure (\<not> (fst revoked \<and> t \<noteq> ''key_revoke'')) ''public key revoked''
        (cbind (raising (table_get last_seq (sequence_key e))) (\<lambda>last.
         ensure (get_or last 0 < sequence) ''sequence replay''
        (cbind (raising (parse_public_key_algo algo)) (\<lambda>a.
         ensure (a \<noteq> []) ''unsupported public_key_algo''
        (ensure (verify_node_binding (h_mesh h) node_id key) ''node_id mismatch''
        (cbind (raising (table_get seen_keys key)) (\<lambda>existing.
         ensure (\<not> (truthy (get_or existing VNone) \<and> get_or existing VNone \<noteq> node_id)) ''public key binding conflict''
        (Inr (dict_set last_seq (sequence_key e) sequence, dict_set seen_keys key node_id)))))))))))))"

definition fork_event_signature :: "host \<Rightarrow> event \<Rightarrow> string \<Rightarrow> event \<Rightarrow> int \<Rightarrow> unit checked" where
  "fork_event_signature h e t p sequence =
     cbind (raising (signature_payloads t p e)) (\<lambda>variants.
     cbind (raising (signed_over (h_mesh h) t (mget e ''node_id'' (VStr [])) sequence (mget e ''public_key'' (VStr []))
              (mget e ''public_key_algo'' (VStr [])) (mget e ''signature'' (VStr [])) variants)) (\<lambda>ok.
     ensure ok ''invalid signature''
     (cbind (raising (from_dict (h_now h) e)) (\<lambda>ev.
      ensure (VStr (compute_hash ev) = mget e ''event_id'' (VStr [])) ''event_id mismatch'' (Inr ())))))"

definition check_fork_event :: "host \<Rightarrow> ledger \<Rightarrow> nat \<Rightarrow> event \<Rightarrow> fork_view \<Rightarrow> fork_view checked" where
  "check_fork_event h lg prev_index e view =
     cbind (raising (event_sequence e)) (\<lambda>sequence.
     cbind (fork_event_content h lg prev_index e) (\<lambda>(t, p).
     cbind (fork_event_identity h lg e t p sequence view) (\<lambda>view'.
     cbind (fork_event_signature h e t p sequence) (\<lambda>_. Inr view'))))"

fun check_fork_events :: "host \<Rightarrow> ledger \<Rightarrow> nat \<Rightarrow> event list \<Rightarrow> fork_view \<Rightarrow> unit checked" where
  "check_fork_events h lg prev_index [] view = Inr ()"
| "check_fork_events h lg prev_index (e # es) view =
     cbind (check_fork_event h lg prev_index e view) (check_fork_events h lg prev_index es)"

text \<open>The depth of the ancestor and the admissibility of the ordered fork\<close>

definition fork_ancestor :: "event list \<Rightarrow> int \<Rightarrow> int \<Rightarrow> ledger \<Rightarrow> (pyval \<times> nat) checked" where
  "fork_ancestor es proof_count quorum lg =
     ensure (es \<noteq> []) ''empty fork''
     (ensure (max 2 quorum \<le> proof_count) ''insufficient quorum''
     (let prev_hash = mget (hd es) ''prev_hash'' (VStr []) in
      ensure (truthy prev_hash) ''missing prev_hash''
     (cbind (raising (table_get (lg_index lg) prev_hash)) (\<lambda>i.
      case i of
        None \<Rightarrow> Inl (Refused ''unknown ancestor'')
      | Some prev_index \<Rightarrow>
          ensure (int (length (lg_events lg)) - 1 - int prev_index \<le> int CHAIN_LOCK_DEPTH) ''chain lock prevents reorg''
          (Inr (prev_hash, prev_index))))))"

definition fork_checks :: "host \<Rightarrow> event list \<Rightarrow> string \<Rightarrow> nat \<Rightarrow> ledger \<Rightarrow> unit checked" where
  "fork_checks h ordered head_hash prev_index lg =
     ensure (ordered \<noteq> []) ''non-contiguous fork''
     (ensure (mget (last ordered) ''event_id'' (VStr []) = VStr head_hash) ''head_hash mismatch''
     (ensure (int (length (lg_events lg)) - 1 - int prev_index < int (length ordered)) ''fork not longer''
     (cbind (raising (foldR view_prefix_event (take (Suc prev_index) (lg_events lg)) ([], []))) (\<lambda>view.
      check_fork_events h lg prev_index ordered view))))"

definition replace_tail :: "host \<Rightarrow> nat \<Rightarrow> event list \<Rightarrow> (ledger, unit) prog" where
  "replace_tail h prev_index ordered =
     pbind (updating (\<lambda>lg. lg\<lparr>lg_events := take (Suc prev_index) (lg_events lg) @ ordered\<rparr>)) (\<lambda>_.
     pbind (rebuild_state h) (\<lambda>_.
     pbind rebuild_revocations (\<lambda>_.
     pbind (rebuild_counters h) (\<lambda>_.
     pbind (updating invalidate_merkle_cache) (\<lambda>_. save h)))))"

definition apply_fork ::
    "host \<Rightarrow> event list \<Rightarrow> string \<Rightarrow> int \<Rightarrow> int \<Rightarrow> ledger \<Rightarrow> (unit checked \<times> ledger) option" where
  "apply_fork h es head_hash proof_count quorum lg =
     (case fork_ancestor es proof_count quorum lg of
        Inl e \<Rightarrow> Some (Inl e, lg)
      | Inr (prev_hash, prev_index) \<Rightarrow>
          (case order_chain_from prev_hash es of
             None \<Rightarrow> None
           | Some (Inl x) \<Rightarrow> Some (Inl (Raised x), lg)
           | Some (Inr ordered) \<Rightarrow>
               Some (pbind (reading (fork_checks h (get_or ordered []) head_hash prev_index)) (\<lambda>_.
                     replace_tail h prev_index (get_or ordered [])) lg)))"

subsection \<open>Validating the chain\<close>

text \<open>The index and the hashes in the messages are left out; slicing a \<open>prev_hash\<close> for the message may raise. \<open>seen_keys\<close> is only used by the full validation.\<close>

definition link_checks :: "host \<Rightarrow> event \<Rightarrow> pyval \<Rightarrow> unit checked" where
  "link_checks h e prev =
     cbind (raising (req e ''prev_hash'')) (\<lambda>p.
     if p \<noteq> prev then Inl (case p of VStr _ \<Rightarrow> Refused ''Broken link'' | VList _ \<Rightarrow> Refused ''Broken link'' | _ \<Rightarrow> Raised TypeError)
     else cbind (raising (from_dict (h_now h) e)) (\<lambda>ev.
      cbind (raising (req e ''event_id'')) (\<lambda>event_id.
      ensure (VStr (compute_hash ev) = event_id) ''Hash mismatch'' (Inr ()))))"

definition signature_check_at :: "host \<Rightarrow> bool \<Rightarrow> event \<Rightarrow> (pyval, pyval) dict \<Rightarrow> (pyval, pyval) dict checked" where
  "signature_check_at h full e seen_keys =
     (let sig = mget e ''signature'' (VStr []); key = mget e ''public_key'' (VStr []);
          algo = mget e ''public_key_algo'' (VStr []); node_id = mget e ''node_id'' (VStr []);
          etype = mget e ''event_type'' (VStr []); pl = mget e ''payload'' (VDict []) in
      ensure (py_or (eget e ''protocol_version'') (VStr PROTOCOL_VERSION) = VStr PROTOCOL_VERSION)
        ''Unsupported protocol_version''
      (ensure (truthy sig \<and> truthy key \<and> truthy algo) ''Missing signature fields''
      (cbind (raising (parse_public_key_algo algo)) (\<lambda>a.
       ensure (a \<noteq> []) ''Unsupported public_key_algo''
      (ensure (verify_node_binding (h_mesh h) node_id key) ''node_id mismatch''
      (cbind (if full then raising (table_get seen_keys key) else Inr None) (\<lambda>existing.
       ensure (\<not> (truthy (get_or existing VNone) \<and> get_or existing VNone \<noteq> node_id)) ''public key binding conflict''
      (cbind (raising (case etype of VStr t \<Rightarrow> Inr t | _ \<Rightarrow> Inl TypeError)) (\<lambda>t.
       cbind (raising (case pl of VDict p \<Rightarrow> Inr p | _ \<Rightarrow> Inl AttributeError)) (\<lambda>p.
       (if t = ''gate_message'' then accept (validate_private_gate_ledger_payload (h_mesh h) p)
        else if t = ''dm_message'' then accept (validate_private_dm_ledger_payload (h_mesh h) p) else id)
      (cbind (raising (if t = ''gate_message'' then signature_payloads t p e
                       else rbind (normalize_payload t p) (\<lambda>n. Inr [n]))) (\<lambda>variants.
       cbind (raising (event_sequence e)) (\<lambda>sequence.
       cbind (raising (signed_over (h_mesh h) t node_id sequence key algo sig variants)) (\<lambda>ok.
       ensure ok ''Invalid signature''
         (Inr (if full then dict_set seen_keys key node_id else seen_keys))))))))))))))))"

fun validate_from :: "host \<Rightarrow> bool \<Rightarrow> bool \<Rightarrow> event list \<Rightarrow> pyval \<Rightarrow> (pyval, pyval) dict \<Rightarrow> pyval checked" where
  "validate_from h full verify_signatures [] prev seen_keys = Inr prev"
| "validate_from h full verify_signatures (e # es) prev seen_keys =
     cbind (link_checks h e prev) (\<lambda>_.
     cbind (if verify_signatures then signature_check_at h full e seen_keys else Inr seen_keys) (\<lambda>seen_keys'.
     validate_from h full verify_signatures es (eget e ''event_id'') seen_keys'))"

definition validate_chain :: "host \<Rightarrow> bool \<Rightarrow> ledger \<Rightarrow> unit checked" where
  "validate_chain h verify_signatures lg =
     (if lg_events lg = [] then Inr ()
      else cbind (validate_from h True verify_signatures (lg_events lg) (VStr GENESIS_HASH) []) (\<lambda>prev.
           ensure (prev = lg_head lg) ''Head hash mismatch'' (Inr ())))"

definition validate_chain_incremental :: "host \<Rightarrow> bool \<Rightarrow> (ledger, unit) prog" where
  "validate_chain_incremental h verify_signatures lg =
     (let es = lg_events lg; start = lg_last_validated lg in
      if length es < start then (validate_chain h verify_signatures lg, lg\<lparr>lg_last_validated := 0\<rparr>)
      else if start = length es then (Inr (), lg)
      else pbind (reading (\<lambda>lg.
             cbind (raising (if start = 0 then Inr (VStr GENESIS_HASH) else req (es ! (start - 1)) ''event_id'')) (\<lambda>prev.
             cbind (validate_from h False verify_signatures (drop start es) prev []) (\<lambda>prev.
             ensure (prev = lg_head lg) ''Head hash mismatch'' (Inr ()))))) (\<lambda>_.
           updating (\<lambda>lg. lg\<lparr>lg_last_validated := length es\<rparr>)) lg)"

subsection \<open>Cleanup\<close>

definition is_ephemeral :: "event \<Rightarrow> bool" where
  "is_ephemeral p \<longleftrightarrow> truthy (mget p ''ephemeral'' (mget p ''_ephemeral'' (VBool False)))"

text \<open>\<open>evt["timestamp"] < cutoff\<close>, evaluated first\<close>

definition cleanup_keeps :: "host \<Rightarrow> event \<Rightarrow> bool res" where
  "cleanup_keeps h e =
     rbind (payload_dict e) (\<lambda>p.
     rbind (req e ''timestamp'') (\<lambda>ts.
     rbind (elapsed (h_now h) ts) (\<lambda>age.
     Inr (\<not> (is_ephemeral p \<and> flt (Fin (of_int EPHEMERAL_TTL)) age) \<and>
          \<not> (flt (get_or (num_of ts) NaN) (fsub (h_now h) (Fin (of_int (MESSAGE_RETENTION_DAYS * 86400)))) \<and>
             is_ephemeral p)))))"

fun cleanup_events :: "host \<Rightarrow> event list \<Rightarrow> event list res" where
  "cleanup_events h [] = Inr []"
| "cleanup_events h (e # es) =
     rbind (cleanup_keeps h e) (\<lambda>keep. rbind (cleanup_events h es) (\<lambda>kept. Inr (if keep then e # kept else kept)))"

definition cleanup :: "host \<Rightarrow> (ledger, unit) prog" where
  "cleanup h =
     pbind (reading (\<lambda>lg. raising (cleanup_events h (lg_events lg)))) (\<lambda>kept lg.
     if length kept = length (lg_events lg) then (Inr (), lg)
     else pbind (updating (\<lambda>lg. lg\<lparr>lg_events := kept\<rparr>)) (\<lambda>_.
          pbind (rebuild_state h) (\<lambda>_.
          pbind rebuild_revocations (\<lambda>_.
          pbind (rebuild_counters h) (\<lambda>_.
          pbind (updating invalidate_merkle_cache) (\<lambda>_. save h))))) lg)"

end
