(* ===== verification/Ledger_Invariant.thy ===== *)
theory Ledger_Invariant
  imports Ledger_Fork
begin

section \<open>The invariant of the chain and the operations that extend it\<close>

text \<open>
  What every ledger satisfies: the events are linked by their hashes and end in the head, each one
  is authentic, the index finds each one, the sequences of an author increase and the tables bound
  them, and each public key goes with one node identifier. Appending and ingesting keep it, also
  when they raise in the middle.
\<close>

subsection \<open>The invariant\<close>

definition eid :: "event \<Rightarrow> pyval" where
  "eid e = eget e ''event_id''"

fun prev_linked :: "pyval \<Rightarrow> event list \<Rightarrow> bool" where
  "prev_linked b [] \<longleftrightarrow> True"
| "prev_linked b (e # es) \<longleftrightarrow> eget e ''prev_hash'' = b \<and> prev_linked (eid e) es"

definition tip :: "pyval \<Rightarrow> event list \<Rightarrow> pyval" where
  "tip b es = (if es = [] then b else eid (last es))"

definition slot_of :: "event \<Rightarrow> slot" where
  "slot_of e = sequence_table_for_event (mget e ''event_type'' (VStr [])) (mget e ''node_id'' (VStr []))"

definition seq_of :: "event \<Rightarrow> int" where
  "seq_of e = (case event_sequence e of Inr n \<Rightarrow> n | Inl _ \<Rightarrow> 0)"

definition bound_of :: "slot \<Rightarrow> ledger \<Rightarrow> int" where
  "bound_of sl lg = get_or (dict_get (sequences (fst sl) lg) (snd sl)) 0"

definition key_of :: "event \<Rightarrow> string" where
  "key_of e = sget_or e ''public_key'' []"

text \<open>
  An event is authentic: its identifier is the hash of its content, its node identifier is the
  digest of its public key, and this key signed one of its canonical payloads together with its
  type, author and sequence.
\<close>

definition carries_signature :: "mesh_env \<Rightarrow> event \<Rightarrow> string \<Rightarrow> string \<Rightarrow> int \<Rightarrow> bool" where
  "carries_signature env e t n seq \<longleftrightarrow>
     (\<exists>p sp text. (payload_dict e = Inr p \<or> fork_payload t e = Inr p) \<and>
        (\<exists>vs. signature_payloads t p e = Inr vs \<and> sp \<in> set vs) \<and>
        build_signature_payload t n seq sp = Inr text \<and>
        verify_signature env (mget e ''public_key'' (VStr [])) (mget e ''public_key_algo'' (VStr []))
          (mget e ''signature'' (VStr [])) text = Inr True)"

definition authentic :: "mesh_env \<Rightarrow> event \<Rightarrow> bool" where
  "authentic env e \<longleftrightarrow>
     (\<exists>t n s seq. mget e ''event_type'' (VStr []) = VStr t \<and> mget e ''node_id'' (VStr []) = VStr n \<and> eid e = VStr s \<and>
        event_sequence e = Inr seq \<and> 0 < seq \<and>
        truthy (mget e ''public_key'' (VStr [])) \<and>
        verify_node_binding env (VStr n) (mget e ''public_key'' (VStr [])) \<and>
        carries_signature env e t n seq \<and> (\<exists>now ev. from_dict now e = Inr ev))"

definition index_ok :: "event list \<Rightarrow> (pyval, nat) dict \<Rightarrow> bool" where
  "index_ok es d \<longleftrightarrow>
     (\<forall>k i. dict_get d k = Some i \<longrightarrow> i < length es \<and> eid (es ! i) = k) \<and>
     (\<forall>e \<in> set es. dict_get d (eid e) \<noteq> None)"

definition increasing :: "event list \<Rightarrow> bool" where
  "increasing es \<longleftrightarrow> sorted_wrt (\<lambda>a b. slot_of a = slot_of b \<longrightarrow> seq_of a < seq_of b) es"

definition bounded :: "event list \<Rightarrow> ledger \<Rightarrow> bool" where
  "bounded es lg \<longleftrightarrow> (\<forall>e \<in> set es. seq_of e \<le> bound_of (slot_of e) lg)"

definition bound_keys :: "event list \<Rightarrow> (string, pyval) dict \<Rightarrow> bool" where
  "bound_keys es d \<longleftrightarrow> (\<forall>e \<in> set es. dict_get d (key_of e) = Some (mget e ''node_id'' (VStr [])))"

definition ledger_ok :: "mesh_env \<Rightarrow> ledger \<Rightarrow> bool" where
  "ledger_ok env lg \<longleftrightarrow>
     (\<exists>b. prev_linked b (lg_events lg) \<and> lg_head lg = tip b (lg_events lg)) \<and>
     (\<forall>e \<in> set (lg_events lg). authentic env e) \<and>
     index_ok (lg_events lg) (lg_index lg) \<and>
     increasing (lg_events lg) \<and> bounded (lg_events lg) lg \<and>
     bound_keys (lg_events lg) (lg_bindings lg) \<and>
     filter_ok (lg_filter lg)"

text \<open>The fields the invariant reads\<close>

definition core :: "ledger \<Rightarrow> _" where
  "core lg = (lg_events lg, lg_head lg, lg_node_sequences lg, lg_sequence_domains lg, lg_index lg, lg_bindings lg,
     lg_filter lg)"

lemma core_fields:
  "core lg = core lg' \<longleftrightarrow> lg_events lg = lg_events lg' \<and> lg_head lg = lg_head lg' \<and>
     lg_node_sequences lg = lg_node_sequences lg' \<and> lg_sequence_domains lg = lg_sequence_domains lg' \<and>
     lg_index lg = lg_index lg' \<and> lg_bindings lg = lg_bindings lg' \<and> lg_filter lg = lg_filter lg'"
  by (simp only: core_def prod.inject)

lemma sequences_core: "core lg = core lg' \<Longrightarrow> sequences sl lg = sequences sl lg'"
  by (cases sl) (simp_all only: sequences.simps core_fields)

lemma bound_of_core: "core lg = core lg' \<Longrightarrow> bound_of sl lg = bound_of sl lg'"
  unfolding bound_of_def using sequences_core [of lg lg' "fst sl"] by simp

lemma ledger_ok_core:
  assumes "core lg = core lg'" and "ledger_ok env lg"
  shows "ledger_ok env lg'"
proof -
  have "bounded es lg \<Longrightarrow> bounded es lg'" for es
    unfolding bounded_def using bound_of_core [OF assms(1)] by metis
  then show ?thesis using assms unfolding ledger_ok_def core_fields by metis
qed

subsection \<open>Programs that do not touch these fields\<close>

lemma leaves_count_type: "leaves core (count_type e)"
  unfolding count_type_def Let_def
  by (intro leaves_rules leaves_updating) (simp add: core_def)

lemma leaves_update_counters: "leaves core (update_counters_for_event e)"
  unfolding update_counters_for_event_def
  by (intro leaves_rules leaves_count_type leaves_updating) (simp add: core_def)

lemma leaves_rebuild_counters: "leaves core (rebuild_counters h)"
  unfolding rebuild_counters_def
  by (rule leaves_state) (intro leaves_rules leaves_count_type leaves_updating, simp_all add: core_def)

lemma leaves_apply_revocation: "leaves core (apply_revocation e)"
  unfolding apply_revocation_def
  by (intro leaves_rules leaves_updating) (simp add: core_def)

lemma leaves_revoke_if: "leaves core (revoke_if e)"
  by (simp add: revoke_if_def leaves_apply_revocation leaves_pdone)

lemma leaves_rebuild_revocations: "leaves core rebuild_revocations"
  unfolding rebuild_revocations_def
  by (rule leaves_state) (intro leaves_rules leaves_revoke_if leaves_updating, simp add: core_def)

lemma ok_if_core: "leaves core m \<Longrightarrow> preserves (ledger_ok env) m"
  by (erule preserves_leaves) (rule ledger_ok_core)

lemma ok_update: "(\<And>s. core (f s) = core s) \<Longrightarrow> preserves (ledger_ok env) (updating f)"
  by (intro ok_if_core leaves_updating)

subsection \<open>The memory cap\<close>

lemma linked_append: "prev_linked b (xs @ ys) \<longleftrightarrow> prev_linked b xs \<and> prev_linked (tip b xs) ys"
  by (induction xs arbitrary: b) (auto simp: tip_def)

lemma tip_append: "tip b (xs @ ys) = tip (tip b xs) ys"
  by (simp add: tip_def)

lemma index_ok_snoc: "index_ok es d \<Longrightarrow> index_ok (es @ [e]) (dict_set d (eid e) (length es))"
  by (auto simp: index_ok_def dict_get_set nth_append less_Suc_eq split: if_splits)

lemma index_ok_Nil [simp]: "index_ok [] []"
  by (simp add: index_ok_def)

lemma authentic_id:
  assumes "authentic env e"
  obtains s where "eid e = VStr s" "s \<noteq> []"
proof -
  from assms obtain now ev where "from_dict now e = Inr ev" unfolding authentic_def by blast
  then have "eid e = VStr (compute_hash ev)" by (simp add: eid_def from_dict_id)
  then show thesis by (rule that) (simp add: compute_hash_def)
qed

lemma index_of_events_snoc:
  assumes "eid e = VStr s" and "s \<noteq> []"
  shows "index_of_events (es @ [e]) = dict_set (index_of_events es) (eid e) (length es)"
proof -
  have "map_of e ''event_id'' = Some (VStr s)"
    using assms by (simp add: eid_def eget_def get_or_def split: option.splits)
  then have "eget e ''event_id'' = VStr s" "sget_or e ''event_id'' [] = s"
    using assms(2) by (simp_all add: eget_def sget_or_def mget_def py_or_def py_str_def)
  then show ?thesis using assms by (simp add: index_of_events_def)
qed

lemma index_ok_events: "\<forall>e \<in> set es. authentic env e \<Longrightarrow> index_ok es (index_of_events es)"
proof (induction es rule: rev_induct)
  case (snoc e es)
  obtain s where "eid e = VStr s" "s \<noteq> []" using authentic_id [of env e] snoc.prems by auto
  then show ?case using snoc index_ok_snoc [of es "index_of_events es" e] by (simp add: index_of_events_snoc)
qed (simp add: index_of_events_def)

lemma ledger_ok_spill:
  assumes "ledger_ok env lg"
  shows "ledger_ok env (spill n lg)"
proof -
  let ?es = "lg_events lg" and ?hot = "drop n (lg_events lg)"
  from assms obtain b where b: "prev_linked b ?es" "lg_head lg = tip b ?es" by (auto simp: ledger_ok_def)
  then have "prev_linked (tip b (take n ?es)) ?hot \<and> lg_head lg = tip (tip b (take n ?es)) ?hot"
    using linked_append [of b "take n ?es" ?hot] tip_append [of b "take n ?es" ?hot] by simp
  moreover have "increasing ?es" using assms by (simp add: ledger_ok_def)
  then have "increasing ?hot"
    using sorted_wrt_append [of "\<lambda>a b. slot_of a = slot_of b \<longrightarrow> seq_of a < seq_of b" "take n ?es" ?hot]
    by (simp add: increasing_def)
  moreover have sub: "set ?hot \<subseteq> set ?es" by (rule set_drop_subset)
  moreover have "bound_of sl (spill n lg) = bound_of sl lg" for sl
    by (cases "fst sl") (simp_all add: bound_of_def spill_def Let_def)
  then have "bounded ?hot (spill n lg)"
    using assms sub unfolding ledger_ok_def bounded_def by (metis subsetD)
  moreover have auth: "\<forall>e \<in> set ?hot. authentic env e" and "bound_keys ?hot (lg_bindings lg)" and "filter_ok (lg_filter lg)"
    using assms sub by (auto simp: ledger_ok_def bound_keys_def)
  moreover have "index_ok ?hot (index_of_events ?hot)" by (rule index_ok_events [OF auth])
  moreover have "lg_events (spill n lg) = ?hot" "lg_head (spill n lg) = lg_head lg"
    "lg_index (spill n lg) = index_of_events ?hot" "lg_bindings (spill n lg) = lg_bindings lg"
    "lg_filter (spill n lg) = lg_filter lg"
    by (simp_all add: spill_def Let_def)
  ultimately show ?thesis unfolding ledger_ok_def by metis
qed

lemma ok_enforce_memory_cap: "preserves (ledger_ok env) (enforce_memory_cap h)"
proof (rule preservesI)
  fix lg assume ok: "ledger_ok env lg"
  have "preserves (ledger_ok env) (pbind (updating (spill n)) (\<lambda>_. pbind (rebuild_counters h) (\<lambda>_.
      updating (\<lambda>lg. (invalidate_merkle_cache lg)\<lparr>lg_dirty := True\<rparr>))))" for n
    by (intro preserves_pbind preserves_updating ledger_ok_spill ok_if_core [OF leaves_rebuild_counters] ok_update)
      (simp_all add: invalidate_merkle_cache_def core_def)
  from preservesD [OF this ok] ok show "ledger_ok env (snd (enforce_memory_cap h lg))"
    by (simp add: enforce_memory_cap_def Let_def)
qed

lemma ok_save: "preserves (ledger_ok env) (save h)"
  unfolding save_def by (intro preserves_pbind ok_enforce_memory_cap ok_update) (simp add: core_def)

subsection \<open>Linking an event\<close>

lemma bound_of_set: "bound_of sl' (set_sequence sl n lg) = (if sl' = sl then n else bound_of sl' lg)"
  by (cases sl; cases "fst sl"; cases sl'; cases "fst sl'") (auto simp: bound_of_def dict_get_set)

lemma set_sequence_fields [simp]:
  "lg_events (set_sequence sl n lg) = lg_events lg" "lg_head (set_sequence sl n lg) = lg_head lg"
  "lg_index (set_sequence sl n lg) = lg_index lg" "lg_bindings (set_sequence sl n lg) = lg_bindings lg"
  "lg_filter (set_sequence sl n lg) = lg_filter lg"
  by (cases sl; cases "fst sl"; simp)+

lemma bound_of_last: "last_sequence sl lg = Inr n \<Longrightarrow> bound_of sl lg = n"
  by (auto simp: last_sequence_def table_get_def bound_of_def res_simps split: if_splits)

lemma ledger_ok_set_sequence:
  assumes "ledger_ok env lg" and "bound_of sl lg \<le> n"
  shows "ledger_ok env (set_sequence sl n lg)"
  using assms by (fastforce simp: ledger_ok_def bounded_def bound_of_set)

lemma ledger_ok_link:
  assumes ok: "ledger_ok env lg" and e: "authentic env e" "eid e = VStr event_id" "eget e ''prev_hash'' = lg_head lg"
    and seq: "slot_of e = sl" "seq_of e = n" "bound_of sl lg < n"
    and key: "dict_get (lg_bindings lg) (key_of e) = Some (mget e ''node_id'' (VStr []))"
  shows "ledger_ok env (link_event h sl n event_id e lg)"
proof -
  let ?es = "lg_events lg"
  obtain b where b: "prev_linked b ?es" "lg_head lg = tip b ?es" using ok by (auto simp: ledger_ok_def)
  then have "prev_linked b (?es @ [e])" "tip b (?es @ [e]) = VStr event_id"
    using e by (simp_all add: linked_append) (simp add: tip_def)
  moreover have "increasing (?es @ [e])"
    using ok seq by (fastforce simp: ledger_ok_def increasing_def bounded_def sorted_wrt_append)
  moreover have "bound_of sl' (link_event h sl n event_id e lg) = (if sl' = sl then n else bound_of sl' lg)" for sl'
    unfolding link_event_def bound_of_set by (cases "fst sl'") (simp_all add: bound_of_def)
  then have "bounded (?es @ [e]) (link_event h sl n event_id e lg)"
    using ok seq unfolding ledger_ok_def bounded_def by (metis Un_iff empty_iff empty_set insert_iff less_le_not_le linear list.simps(15) order.trans set_append)
  moreover have "index_ok (?es @ [e]) (dict_set (lg_index lg) (VStr event_id) (length ?es))"
    using ok e(2) index_ok_snoc [of ?es "lg_index lg" e] by (simp add: ledger_ok_def)
  ultimately show ?thesis
    using ok e(1) key by (auto simp: ledger_ok_def link_event_def bound_keys_def)
qed

end
