(* ===== verification/Ledger_Extend.thy ===== *)
theory Ledger_Extend
  imports Ledger_Invariant
begin

section \<open>Appending and ingesting keep the invariant\<close>

text \<open>
  Each check of the two operations contributes a fact about the event; together they are what the
  lemma on linking an event asks for. A key is bound before the signature is checked, which the
  invariant allows: it only says which identifier the key of a stored event has.
\<close>

subsection \<open>Key binding\<close>

lemma node_id_not_empty:
  assumes "verify_node_binding env (VStr n) key"
  shows "n \<noteq> []"
proof
  assume "n = []"
  moreover have "x \<in> set xs \<Longrightarrow> x \<noteq> []" if "derive_node_id_candidates k = Some xs" for x xs k
    using that by (auto simp: derive_node_id_candidates_def derive_node_id_from_digest_def NODE_ID_PREFIX_def
        split: if_splits)
  ultimately show False
    using assms
    by (auto simp: verify_node_binding_def py_or_def py_str_def py_strip_def Let_def split: pyval.splits option.splits
        list.splits if_splits) fastforce+
qed

lemma binding_key: "verify_node_binding env node key \<Longrightarrow> \<exists>k. key = VStr k"
  by (simp add: verify_node_binding_def split: pyval.splits)

lemma authentic_node:
  assumes "authentic env e"
  shows "\<exists>n. mget e ''node_id'' (VStr []) = VStr n \<and> n \<noteq> []"
  using assms node_id_not_empty unfolding authentic_def by blast

lemma bind_cases:
  assumes "bind_public_key key node s = (r, t)"
  obtains (refused) reason where "r = Inl (Refused reason)" "t = s"
  | (bound) "r = Inr ()" "let k = py_str (py_or key (VStr [])); n = VStr (py_str (py_or node (VStr []))) in
      t = s\<lparr>lg_bindings := dict_set (lg_bindings s) k n\<rparr> \<and>
      (\<not> truthy (get_or (dict_get (lg_bindings s) k) VNone) \<or> dict_get (lg_bindings s) k = Some n)"
  using assms unfolding bind_public_key_def Let_def
  by (cases "dict_get (lg_bindings s) (py_str (py_or key (VStr [])))") (auto split: if_splits)

lemma ledger_ok_bind:
  assumes "ledger_ok env s" and "\<not> truthy (get_or (dict_get (lg_bindings s) k) VNone) \<or> dict_get (lg_bindings s) k = Some n"
  shows "ledger_ok env (s\<lparr>lg_bindings := dict_set (lg_bindings s) k n\<rparr>)"
proof -
  have "dict_get (dict_set (lg_bindings s) k n) (key_of e) = Some (mget e ''node_id'' (VStr []))"
    if "e \<in> set (lg_events s)" for e
  proof (cases "key_of e = k")
    case True
    have "dict_get (lg_bindings s) (key_of e) = Some (mget e ''node_id'' (VStr []))" "authentic env e"
      using assms(1) that by (auto simp: ledger_ok_def bound_keys_def)
    then show ?thesis using authentic_node [of env e] assms(2) True by auto
  next
    case False
    then show ?thesis using assms(1) that by (auto simp: ledger_ok_def bound_keys_def dict_get_set)
  qed
  moreover have "bounded es (s\<lparr>lg_bindings := d\<rparr>) = bounded es s" for es d
  proof -
    have "bound_of sl (s\<lparr>lg_bindings := d\<rparr>) = bound_of sl s" for sl by (cases "fst sl") (simp_all add: bound_of_def)
    then show ?thesis by (simp add: bounded_def)
  qed
  ultimately show ?thesis using assms(1) by (simp add: ledger_ok_def bound_keys_def)
qed

lemma ok_bind: "preserves (ledger_ok env) (bind_public_key key node)"
proof (rule preservesI)
  fix s assume ok: "ledger_ok env s"
  obtain r u where b: "bind_public_key key node s = (r, u)" by fastforce
  then show "ledger_ok env (snd (bind_public_key key node s))"
    by (cases rule: bind_cases) (use ok b in \<open>auto simp: Let_def intro: ledger_ok_bind\<close>)
qed

subsection \<open>What a checked event has\<close>

definition ready :: "mesh_env \<Rightarrow> event \<Rightarrow> string \<Rightarrow> string \<Rightarrow> int \<Rightarrow> slot \<Rightarrow> ledger \<Rightarrow> bool" where
  "ready env e t event_id n sl lg \<longleftrightarrow>
     ledger_ok env lg \<and> eid e = VStr event_id \<and> mget e ''event_type'' (VStr []) = VStr t \<and>
     event_sequence e = Inr n \<and> 0 < n \<and> sl = slot_of e \<and> eget e ''prev_hash'' = lg_head lg \<and> bound_of sl lg < n"

definition key_bound :: "event \<Rightarrow> ledger \<Rightarrow> bool" where
  "key_bound e lg \<longleftrightarrow> dict_get (lg_bindings lg) (key_of e) = Some (mget e ''node_id'' (VStr []))"

lemma ready_ok: "ready env e t event_id n sl lg \<Longrightarrow> ledger_ok env lg"
  by (simp add: ready_def)

lemma triple_bind:
  assumes "mget e ''node_id'' (VStr []) = VStr m" and "mget e ''public_key'' (VStr []) = VStr k"
  shows "triple (ready env e t event_id n sl) (bind_public_key (VStr k) (VStr m))
    (\<lambda>_ s. ready env e t event_id n sl s \<and> key_bound e s) (ledger_ok env)"
proof (rule tripleI)
  fix s x u assume "ready env e t event_id n sl s" "bind_public_key (VStr k) (VStr m) s = (Inl x, u)"
  then show "ledger_ok env u" by (auto elim!: bind_cases intro: ready_ok)
next
  fix s x u assume r: "ready env e t event_id n sl s" and b: "bind_public_key (VStr k) (VStr m) s = (Inr x, u)"
  have str: "py_str (py_or (VStr w) (VStr [])) = w" for w by (simp add: py_or_def py_str_def)
  from b have u: "u = s\<lparr>lg_bindings := dict_set (lg_bindings s) k (VStr m)\<rparr>"
      "\<not> truthy (get_or (dict_get (lg_bindings s) k) VNone) \<or> dict_get (lg_bindings s) k = Some (VStr m)"
    by (auto elim!: bind_cases simp: Let_def str)
  have "bound_of sl u = bound_of sl s" by (cases "fst sl") (simp_all add: bound_of_def u(1))
  moreover have "ledger_ok env u" unfolding u(1) using r u(2) by (intro ledger_ok_bind ready_ok)
  moreover have "key_of e = k" using assms(2) by (simp add: key_of_def sget_or_def str)
  ultimately show "ready env e t event_id n sl u \<and> key_bound e u"
    using r assms(1) by (auto simp: ready_def key_bound_def u(1))
qed

lemma mget_truthy: "truthy (mget e k (VStr [])) \<Longrightarrow> eget e k = mget e k (VStr [])"
  by (cases "map_of e k") (auto simp: eget_def mget_def)

lemma signed_over_True:
  "signed_over env t node seq key algo sig vs = Inr True \<Longrightarrow>
    \<exists>n sp text. node = VStr n \<and> sp \<in> set vs \<and> build_signature_payload t n seq sp = Inr text \<and>
      verify_signature env key algo sig text = Inr True"
  by (induction vs) (auto simp: res_simps split: pyval.splits if_splits)

text \<open>The last part of both operations: the event is linked and the counters follow.\<close>

lemma ok_link:
  "ready env e t event_id n sl s \<Longrightarrow> key_bound e s \<Longrightarrow> authentic env e \<Longrightarrow> ledger_ok env (link_event h sl n event_id e s)"
  by (rule ledger_ok_link) (auto simp: ready_def key_bound_def seq_of_def)

lemma ledger_ok_filter: "ledger_ok env s \<Longrightarrow> filter_ok f \<Longrightarrow> ledger_ok env (s\<lparr>lg_filter := f\<rparr>)"
proof -
  assume "ledger_ok env s" "filter_ok f"
  moreover have "bound_of sl (s\<lparr>lg_filter := f\<rparr>) = bound_of sl s" for sl by (cases "fst sl") (simp_all add: bound_of_def)
  ultimately show ?thesis by (simp add: ledger_ok_def bounded_def)
qed

lemma ok_remember: "ledger_ok env s \<Longrightarrow> ledger_ok env (remember_event h event_id s)"
  unfolding remember_event_def by (rule ledger_ok_filter) (simp_all add: ledger_ok_def filter_ok_add)

subsection \<open>Ingesting\<close>

lemma ingest_new_facts:
  assumes "ingest_new e s = Inr (t, event_id, n)"
  shows "eid e = VStr event_id" "mget e ''event_type'' (VStr []) = VStr t" "event_sequence e = Inr n"
    "truthy (mget e ''prev_hash'' (VStr []))"
  using assms mget_truthy [of e "''event_id''"]
  by (auto simp: ingest_new_def Let_def prog_simps allowed_type_def eid_def split: if_splits pyval.splits)

lemma ingest_position_facts:
  assumes "ingest_position h prev e t n s = Inr sl"
  shows "sl = sequence_table_for_event (VStr t) (mget e ''node_id'' (VStr []))" "0 < n" "bound_of sl s < n"
    "mget e ''prev_hash'' (VStr []) = lg_head s"
  using assms by (auto simp: ingest_position_def Let_def prog_simps bound_of_last)

lemma ingest_payload_facts: "ingest_payload h e t s = Inr p \<Longrightarrow> payload_dict e = Inr p"
  by (auto simp: ingest_payload_def Let_def prog_simps spool_checks_def split: if_splits prod.splits)

lemma ingest_identity_facts:
  "ingest_identity h e t p sl n s = Inr () \<Longrightarrow>
    verify_node_binding (h_mesh h) (mget e ''node_id'' (VStr [])) (mget e ''public_key'' (VStr [])) \<and>
    truthy (mget e ''public_key'' (VStr []))"
  by (auto simp: ingest_identity_def Let_def prog_simps revokes_own_key_def split: if_splits)

lemma ingest_signature_facts:
  assumes "ingest_signature h e t p n event_id = Inr ()" and "payload_dict e = Inr p"
  shows "\<exists>m. mget e ''node_id'' (VStr []) = VStr m \<and> carries_signature (h_mesh h) e t m n"
    "\<exists>ev. from_dict (h_now h) e = Inr ev"
proof -
  from assms(1) obtain vs where vs: "signature_payloads t p e = Inr vs"
      "signed_over (h_mesh h) t (mget e ''node_id'' (VStr [])) n (mget e ''public_key'' (VStr []))
        (mget e ''public_key_algo'' (VStr [])) (mget e ''signature'' (VStr [])) vs = Inr True"
      and ev: "\<exists>ev. from_dict (h_now h) e = Inr ev"
    by (auto simp: ingest_signature_def prog_simps split: sum.splits if_splits)
  from signed_over_True [OF vs(2)] vs(1) assms(2)
  show "\<exists>m. mget e ''node_id'' (VStr []) = VStr m \<and> carries_signature (h_mesh h) e t m n"
    unfolding carries_signature_def by blast
  show "\<exists>ev. from_dict (h_now h) e = Inr ev" by (rule ev)
qed

lemma ok_ingest_seen: "preserves (ledger_ok env) (ingest_seen h event_id)"
proof (rule preservesI)
  fix s assume ok: "ledger_ok env s"
  then have "filter_ok (snd (filter_seen (h_now h) event_id (lg_filter s)))"
    by (simp add: ledger_ok_def filter_ok_seen)
  with ok show "ledger_ok env (snd (ingest_seen h event_id s))"
    by (auto simp: ingest_seen_def split: prod.splits intro: ledger_ok_filter)
qed

lemma ok_accept:
  "triple (\<lambda>s. ready env e t event_id n sl s \<and> key_bound e s \<and> authentic env e) (accept_event h e t event_id n sl)
    (\<lambda>_. ledger_ok env) (ledger_ok env)"
  unfolding accept_event_def
proof (rule triple_pbind [where R = "\<lambda>_. ledger_ok env"], rule triple_updating)
  show "triple (ledger_ok env) (pbind (update_counters_for_event e) (\<lambda>_.
     pbind (updating (remember_event h event_id)) (\<lambda>_.
     pbind (if t = ''key_revoke'' then apply_revocation e else pdone ()) (\<lambda>_. pdone event_id))))
     (\<lambda>_. ledger_ok env) (ledger_ok env)" for x
    unfolding preserves_def [symmetric]
    by (intro preserves_rules preserves_updating ok_if_core leaves_update_counters ok_remember)
      (auto simp: leaves_apply_revocation leaves_pdone)
qed (blast intro: ok_link)

definition new_event :: "event \<Rightarrow> string \<Rightarrow> string \<Rightarrow> int \<Rightarrow> bool" where
  "new_event e t event_id n \<longleftrightarrow> (\<exists>s. ingest_new e s = Inr (t, event_id, n))"

definition checked_event :: "mesh_env \<Rightarrow> event \<Rightarrow> string \<Rightarrow> event \<Rightarrow> bool" where
  "checked_event env e t p \<longleftrightarrow> payload_dict e = Inr p \<and> truthy (mget e ''public_key'' (VStr [])) \<and>
     verify_node_binding env (mget e ''node_id'' (VStr [])) (mget e ''public_key'' (VStr []))"

lemma ingest_checks_facts:
  assumes "ingest_checks h prev e t n s = Inr (sl, p)" and "new_event e t event_id n" and "ledger_ok (h_mesh h) s"
  shows "ready (h_mesh h) e t event_id n sl s" "checked_event (h_mesh h) e t p"
proof -
  from assms(2) obtain s0 where new: "ingest_new e s0 = Inr (t, event_id, n)" by (auto simp: new_event_def)
  from assms(1) have parts: "ingest_position h prev e t n s = Inr sl" "ingest_payload h e t s = Inr p"
    "ingest_identity h e t p sl n s = Inr ()" by (auto simp: ingest_checks_def prog_simps)
  show "ready (h_mesh h) e t event_id n sl s"
    using ingest_new_facts [OF new] ingest_position_facts [OF parts(1)] mget_truthy [of e "''prev_hash''"] assms(3)
    by (simp add: ready_def slot_of_def)
  show "checked_event (h_mesh h) e t p"
    using ingest_payload_facts [OF parts(2)] ingest_identity_facts [OF parts(3)] by (simp add: checked_event_def)
qed

lemma signature_authentic:
  assumes "ready (h_mesh h) e t event_id n sl s" and "checked_event (h_mesh h) e t p"
    and "ingest_signature h e t p n event_id = Inr ()"
  shows "authentic (h_mesh h) e"
proof -
  have p: "payload_dict e = Inr p" using assms(2) by (simp add: checked_event_def)
  obtain m where "mget e ''node_id'' (VStr []) = VStr m" "carries_signature (h_mesh h) e t m n"
    using ingest_signature_facts(1) [OF assms(3) p] by blast
  moreover obtain ev where "from_dict (h_now h) e = Inr ev" using ingest_signature_facts(2) [OF assms(3) p] by blast
  ultimately show ?thesis
    using assms(1,2) unfolding authentic_def ready_def checked_event_def by metis
qed

lemma ok_ingest_event:
  assumes env: "h_mesh h = env"
  shows "preserves (ledger_ok env) (ingest_event h prev v)"
proof (cases v)
  case (VDict e)
  have tail: "triple (\<lambda>s. ready env e t event_id n sl s \<and> checked_event env e t p)
      (pbind (bind_public_key (mget e ''public_key'' (VStr [])) (mget e ''node_id'' (VStr []))) (\<lambda>_.
       pbind (reading (\<lambda>_. ingest_signature h e t p n event_id)) (\<lambda>_. accept_event h e t event_id n sl)))
      (\<lambda>_. ledger_ok env) (ledger_ok env)" for t event_id n sl p
  proof (rule triple_assume)
    assume c: "checked_event env e t p"
    then obtain k where k: "mget e ''public_key'' (VStr []) = VStr k" by (auto simp: checked_event_def dest: binding_key)
    show "triple (ready env e t event_id n sl)
      (pbind (bind_public_key (mget e ''public_key'' (VStr [])) (mget e ''node_id'' (VStr []))) (\<lambda>_.
       pbind (reading (\<lambda>_. ingest_signature h e t p n event_id)) (\<lambda>_. accept_event h e t event_id n sl)))
      (\<lambda>_. ledger_ok env) (ledger_ok env)"
    proof (cases "\<exists>m. mget e ''node_id'' (VStr []) = VStr m")
      case True
      then obtain m where m: "mget e ''node_id'' (VStr []) = VStr m" by blast
      have "triple (\<lambda>s. ready env e t event_id n sl s \<and> key_bound e s)
        (pbind (reading (\<lambda>_. ingest_signature h e t p n event_id)) (\<lambda>_. accept_event h e t event_id n sl))
        (\<lambda>_. ledger_ok env) (ledger_ok env)"
        by (rule triple_pbind [OF triple_reading ok_accept])
          (use c env in \<open>auto intro: signature_authentic ready_ok\<close>)
      then show ?thesis unfolding k m by (rule triple_pbind [OF triple_bind [OF m k]])
    next
      case False
      have "ingest_signature h e t p n event_id \<noteq> Inr ()"
        using ingest_signature_facts(1) [of h e t p n event_id] c False by (auto simp: checked_event_def)
      then have "triple (ledger_ok env)
        (pbind (reading (\<lambda>_. ingest_signature h e t p n event_id)) (\<lambda>_. accept_event h e t event_id n sl))
        (\<lambda>_. ledger_ok env) (ledger_ok env)"
        by (auto simp: triple_def pbind_def reading_def split: sum.splits)
      then have "triple (ledger_ok env)
        (pbind (bind_public_key (mget e ''public_key'' (VStr [])) (mget e ''node_id'' (VStr []))) (\<lambda>_.
         pbind (reading (\<lambda>_. ingest_signature h e t p n event_id)) (\<lambda>_. accept_event h e t event_id n sl)))
        (\<lambda>_. ledger_ok env) (ledger_ok env)"
        by (rule triple_pbind [OF ok_bind [unfolded preserves_def]])
      then show ?thesis by (rule triple_weaken) (auto intro: ready_ok)
    qed
  qed
  have "triple (ledger_ok env) (ingest_event h prev (VDict e)) (\<lambda>_. ledger_ok env) (ledger_ok env)"
    unfolding ingest_event_def pyval.case
  proof (rule triple_pbind [OF triple_reading
        [where Q = "\<lambda>(t, event_id, n) s. ledger_ok env s \<and> new_event e t event_id n"]], goal_cases)
    case (3 x)
    show ?case
    proof (rule triple_prod, rule triple_prod, unfold prod.case, rule triple_assume, goal_cases)
      case (1 t rest event_id n)
      show ?case
      proof (rule triple_pbind [OF ok_ingest_seen [unfolded preserves_def]],
          rule triple_pbind [OF triple_reading
            [where Q = "\<lambda>(sl, p) s. ready env e t event_id n sl s \<and> checked_event env e t p"]], goal_cases)
        case (2 u s y)
        then show ?case using ingest_checks_facts [of h prev e t n s] 1 env by (cases y) auto
      next
        case (3 u y)
        show ?case by (rule triple_prod) (simp add: tail)
      qed
    qed
  qed (auto simp: new_event_def)
  then show ?thesis using VDict by (simp add: preserves_def)
qed (simp_all add: ingest_event_def preserves_reading)

lemma ok_ingest_loop:
  assumes "h_mesh h = env" and "ledger_ok env lg"
  shows "ledger_ok env (snd (ingest_loop h vs i prev rep lg))"
  using assms(2)
proof (induction vs arbitrary: i prev rep lg)
  case (Cons v vs)
  obtain r lg' where step: "ingest_event h prev v lg = (r, lg')" by fastforce
  then have "ledger_ok env lg'"
    using preservesD [OF ok_ingest_event [OF assms(1)] Cons.prems, of prev v] by simp
  then show ?case using step Cons.IH by (simp split: sum.split refusal.split)
qed simp

lemma ok_ingest_events:
  assumes "h_mesh h = env"
  shows "preserves (ledger_ok env) (ingest_events h vs)"
proof (rule preservesI)
  fix lg assume ok: "ledger_ok env lg"
  have "preserves (ledger_ok env) (ingest_loop h vs 0 prev rep)" for prev rep
    by (rule preservesI) (rule ok_ingest_loop [OF assms])
  then have "preserves (ledger_ok env)
    (pbind (ingest_loop h vs 0 prev rep) (\<lambda>rep.
     if 0 < ir_accepted rep
     then pbind (updating invalidate_merkle_cache) (\<lambda>_. pbind (save h) (\<lambda>_. pdone rep)) else pdone rep))" for prev rep
    by (intro preserves_pbind) (auto intro!: preserves_rules ok_save ok_update simp: invalidate_merkle_cache_def core_def)
  from preservesD [OF this ok] show "ledger_ok env (snd (ingest_events h vs lg))"
    by (simp add: ingest_events_def)
qed

subsection \<open>Appending\<close>

lemma append_slot:
  assumes "t \<in> set (ACTIVE_APPEND_EVENT_TYPES env)"
  shows "sequence_table_for_event (VStr t) n = (Node_Sequences, n)" "t \<noteq> ''gate_message''"
proof -
  have "\<forall>t \<in> set (ACTIVE_PUBLIC_LEDGER_EVENT_TYPES @ INFONET_ECONOMY_EVENT_TYPES).
      strip_lower t \<noteq> ''gate_message'' \<and> strip_lower t \<noteq> ''dm_message'' \<and> t \<noteq> ''gate_message'' \<and> t \<noteq> []"
    by code_simp
  then have "strip_lower t \<noteq> ''gate_message'' \<and> strip_lower t \<noteq> ''dm_message'' \<and> t \<noteq> ''gate_message'' \<and> t \<noteq> []"
    using assms by (auto simp: ACTIVE_APPEND_EVENT_TYPES_def split: if_splits)
  then show "sequence_table_for_event (VStr t) n = (Node_Sequences, n)" "t \<noteq> ''gate_message''"
    by (simp_all add: sequence_table_for_event_def py_or_def py_str_def Let_def)
qed

text \<open>The fields of the event that is appended\<close>

definition new_entry :: "host \<Rightarrow> append_args \<Rightarrow> string \<Rightarrow> event \<Rightarrow> pyfloat \<Rightarrow> ledger \<Rightarrow> event" where
  "new_entry h a t p ts lg = to_dict (event_of_args h a t p ts lg)"

lemma new_entry_fields:
  "mget (new_entry h a t p ts lg) ''event_type'' d = VStr t"
  "mget (new_entry h a t p ts lg) ''node_id'' d = VStr (ap_node_id a)"
  "mget (new_entry h a t p ts lg) ''payload'' d = VDict p"
  "mget (new_entry h a t p ts lg) ''sequence'' d = VInt (ap_sequence a)"
  "mget (new_entry h a t p ts lg) ''signature'' d = VStr (ap_signature a)"
  "mget (new_entry h a t p ts lg) ''public_key'' d = VStr (ap_public_key a)"
  "mget (new_entry h a t p ts lg) ''public_key_algo'' d = VStr (ap_public_key_algo a)"
  "eget (new_entry h a t p ts lg) ''prev_hash'' = lg_head lg"
  "eid (new_entry h a t p ts lg) = VStr (compute_hash (event_of_args h a t p ts lg))"
  by (simp_all add: new_entry_def to_dict_def mget_def eget_def eid_def event_of_args_def init_event_def)

lemma new_entry_loads: "from_dict (h_now h) (new_entry h a t p ts lg) = Inr (event_of_args h a t p ts lg)"
proof -
  have "init_event now (init_event now ev) = init_event now ev" for now ev
    by (simp add: init_event_def py_or_def)
  then have "init_event (h_now h) (event_of_args h a t p ts lg) = event_of_args h a t p ts lg"
    unfolding event_of_args_def by blast
  then show ?thesis by (simp add: new_entry_def from_dict_def read_to_dict to_dict_id)
qed

lemma new_entry_sequence: "event_sequence (new_entry h a t p ts lg) = Inr (ap_sequence a)"
  by (simp add: event_sequence_def new_entry_fields int_or_def py_or_def)

lemma gate_variants_payload:
  "payload e = payload e' \<Longrightarrow>
    private_gate_signature_payload_variants g e = private_gate_signature_payload_variants g e'"
  by (simp add: private_gate_signature_payload_variants_def private_gate_signature_payload_def
      gate_signature_fields_def)

lemma payload_of_entry: "payload (new_entry h a t p ts lg) = p"
  by (simp add: payload_def new_entry_def to_dict_def eget_def event_of_args_def init_event_def)

text \<open>What the checks before the commit have established\<close>

definition checked_args :: "host \<Rightarrow> append_args \<Rightarrow> string \<Rightarrow> slot \<Rightarrow> ledger \<Rightarrow> bool" where
  "checked_args h a t sl lg \<longleftrightarrow>
     ap_public_key a \<noteq> [] \<and> ledger_ok (h_mesh h) lg \<and> 0 < ap_sequence a \<and> bound_of sl lg < ap_sequence a \<and>
     verify_node_binding (h_mesh h) (VStr (ap_node_id a)) (VStr (ap_public_key a))"

definition signed_args :: "host \<Rightarrow> append_args \<Rightarrow> string \<Rightarrow> event list res \<Rightarrow> bool" where
  "signed_args h a t vs \<longleftrightarrow>
     (\<exists>ps. vs = Inr ps \<and> signed_over (h_mesh h) t (VStr (ap_node_id a)) (ap_sequence a) (VStr (ap_public_key a))
        (VStr (ap_public_key_algo a)) (VStr (ap_signature a)) ps = Inr True)"

lemma entry_authentic:
  assumes "checked_args h a t sl lg" and "signed_args h a t vs"
    and "vs = signature_payloads t p (new_entry h a t p ts lg')"
  shows "authentic (h_mesh h) (new_entry h a t p ts lg')"
proof -
  let ?e = "new_entry h a t p ts lg'"
  from assms(2,3) obtain ps where ps: "signature_payloads t p ?e = Inr ps"
      "signed_over (h_mesh h) t (VStr (ap_node_id a)) (ap_sequence a) (VStr (ap_public_key a))
        (VStr (ap_public_key_algo a)) (VStr (ap_signature a)) ps = Inr True"
    by (auto simp: signed_args_def)
  have "payload_dict ?e = Inr p" by (simp add: payload_dict_def new_entry_fields)
  then have "carries_signature (h_mesh h) ?e t (ap_node_id a) (ap_sequence a)"
    using signed_over_True [OF ps(2)] ps(1) unfolding carries_signature_def new_entry_fields by blast
  then show ?thesis
    using assms(1) new_entry_loads [of h a t p ts lg'] new_entry_sequence [of h a t p ts lg']
    unfolding authentic_def new_entry_fields checked_args_def truthy.simps by blast
qed

lemma key_of_entry: "key_of (new_entry h a t p ts lg) = ap_public_key a"
  by (simp add: key_of_def sget_or_def new_entry_fields py_or_def py_str_def)

lemma ok_commit:
  assumes args: "checked_args h a t sl lg" and signed: "authentic (h_mesh h) (new_entry h a t p ts lg)"
    and slot: "sl = sequence_table_for_event (VStr t) (VStr (ap_node_id a))"
    and key: "dict_get (lg_bindings lg) (ap_public_key a) = Some (VStr (ap_node_id a))"
  shows "ledger_ok (h_mesh h) (snd (commit_event h sl (ap_sequence a) rv (event_of_args h a t p ts lg) lg))"
proof -
  let ?e = "new_entry h a t p ts lg" and ?id = "compute_hash (event_of_args h a t p ts lg)"
  let ?s = "write_wal h ?e lg"
  have core: "core lg = core ?s" by (simp add: write_wal_def core_def)
  have "ledger_ok (h_mesh h) ?s" by (rule ledger_ok_core [OF core]) (use args in \<open>simp add: checked_args_def\<close>)
  moreover have "bound_of sl ?s = bound_of sl lg" "lg_head ?s = lg_head lg" "lg_bindings ?s = lg_bindings lg"
    using bound_of_core [OF core, of sl] core by (simp_all add: core_fields)
  ultimately have "ledger_ok (h_mesh h) (link_event h sl (ap_sequence a) ?id ?e ?s)"
    using args signed slot key
    by (intro ledger_ok_link)
      (simp_all add: new_entry_fields slot_of_def seq_of_def new_entry_sequence checked_args_def key_of_entry)
  then have linked: "ledger_ok (h_mesh h)
      (invalidate_merkle_cache (remember_event h ?id (link_event h sl (ap_sequence a) ?id ?e ?s)))"
    by (rule ledger_ok_core [OF _ ok_remember, rotated]) (simp add: invalidate_merkle_cache_def core_def)
  have "preserves (ledger_ok (h_mesh h)) (pbind (update_counters_for_event ?e) (\<lambda>_.
      pbind (if rv then apply_revocation ?e else pdone ()) (\<lambda>_. pbind (save h) (\<lambda>_. pdone ?e))))"
    by (intro preserves_rules ok_save ok_if_core leaves_update_counters) (auto simp: leaves_apply_revocation leaves_pdone)
  from preservesD [OF this linked] show ?thesis
    by (simp only: commit_event_def Let_def pbind_updating new_entry_def)
qed

text \<open>The three appends\<close>

lemma sequence_checks_facts: "sequence_checks a sl lg = Inr () \<Longrightarrow> 0 < ap_sequence a \<and> bound_of sl lg < ap_sequence a"
  by (auto simp: sequence_checks_def prog_simps bound_of_last)

lemma identity_checks_facts:
  "identity_checks h a p = Inr q \<Longrightarrow> q = p \<and> ap_public_key a \<noteq> [] \<and> verify_node_binding (h_mesh h) (VStr (ap_node_id a)) (VStr (ap_public_key a))"
  by (auto simp: identity_checks_def prog_simps)

lemma signature_checks_facts:
  "signature_checks h a t vs lg = Inr () \<Longrightarrow> signed_args h a t (Inr vs)"
  by (auto simp: signature_checks_def prog_simps signed_args_def)

lemma ok_add_event:
  assumes slot: "sl = sequence_table_for_event (VStr t) (VStr (ap_node_id a))"
    and variants: "\<And>p ts lg. variants p = signature_payloads t p (new_entry h a t p ts lg)"
    and env: "h_mesh h = env"
  shows "preserves (ledger_ok env) (add_event h a t sl checks variants stamp)"
  unfolding preserves_def add_event_def
proof (rule triple_pbind [OF triple_reading [where Q = "\<lambda>p. checked_args h a t sl"]], goal_cases)
  case (2 lg p)
  then show ?case
    using env by (auto simp: prog_simps checked_args_def dest!: sequence_checks_facts identity_checks_facts)
next
  case (3 p)
  have str: "py_str (py_or (VStr w) (VStr [])) = w" for w by (simp add: py_or_def py_str_def)
  have bound: "triple (checked_args h a t sl) (bind_public_key (VStr (ap_public_key a)) (VStr (ap_node_id a)))
      (\<lambda>_ s. checked_args h a t sl s \<and> dict_get (lg_bindings s) (ap_public_key a) = Some (VStr (ap_node_id a)))
      (ledger_ok env)"
  proof (rule tripleI, goal_cases)
    case (1 s e u)
    then show ?case using env by (auto elim!: bind_cases simp: checked_args_def)
  next
    case (2 s x u)
    then have u: "u = s\<lparr>lg_bindings := dict_set (lg_bindings s) (ap_public_key a) (VStr (ap_node_id a))\<rparr>"
      by (auto elim!: bind_cases simp: Let_def str)
    have "bound_of sl u = bound_of sl s" by (cases "fst sl") (simp_all add: bound_of_def u)
    moreover have "ledger_ok env u"
      using preservesD [OF ok_bind, of env s "VStr (ap_public_key a)" "VStr (ap_node_id a)"] 2 env
      by (simp add: checked_args_def)
    ultimately show ?case using 2(1) env by (auto simp: checked_args_def u)
  qed
  show ?case
  proof (rule triple_pbind [OF bound], goal_cases)
    case (1 x)
    show ?case
    proof (rule triple_pbind [OF triple_reading [where Q = "\<lambda>ts s. checked_args h a t sl s \<and>
          dict_get (lg_bindings s) (ap_public_key a) = Some (VStr (ap_node_id a)) \<and> signed_args h a t (variants p)"]],
        goal_cases)
      case (1 s)
      then show ?case using env by (simp add: checked_args_def)
    next
      case (2 s ts)
      then show ?case by (auto simp: prog_simps dest!: signature_checks_facts)
    next
      case (3 ts)
      have "ledger_ok env (snd (commit_event h sl (ap_sequence a) rv (event_of_args h a t p ts s) s))"
        if "checked_args h a t sl s" "dict_get (lg_bindings s) (ap_public_key a) = Some (VStr (ap_node_id a))"
          "signed_args h a t (variants p)" for s rv
        using ok_commit [OF that(1) entry_authentic [OF that(1,3) variants] slot that(2)] env by simp
      then show ?case by (intro tripleI) (metis snd_conv)+
    qed
  qed
qed auto

lemma ok_append_event: "h_mesh h = env \<Longrightarrow> preserves (ledger_ok env) (append_event h a)"
proof (cases "ap_event_type a \<in> set (ACTIVE_APPEND_EVENT_TYPES (h_mesh h))")
  case True
  assume "h_mesh h = env"
  with append_slot [OF True] show ?thesis
    unfolding append_event_def Let_def
    by (intro preserves_pbind preserves_reading ok_add_event) (simp_all add: signature_payloads_def)
next
  case False
  then show ?thesis
    by (intro preservesI) (simp add: append_event_def Let_def pbind_def reading_def)
qed

lemma ok_append_private_dm_message: "h_mesh h = env \<Longrightarrow> preserves (ledger_ok env) (append_private_dm_message h a)"
  unfolding append_private_dm_message_def by (rule ok_add_event) (simp_all add: signature_payloads_def)

lemma ok_append_private_gate_message: "h_mesh h = env \<Longrightarrow> preserves (ledger_ok env) (append_private_gate_message h a)"
  unfolding append_private_gate_message_def
proof (rule ok_add_event)
  show "private_gate_signature_payload_variants (sget_or p ''gate'' []) [(''payload'', VDict p)] =
      signature_payloads ''gate_message'' p (new_entry h a ''gate_message'' p ts lg)" for p ts lg
  proof -
    have "payload [(''payload'', VDict p)] = payload (new_entry h a ''gate_message'' p ts lg)"
      by (simp add: payload_of_entry) (simp add: payload_def eget_def)
    from gate_variants_payload [OF this] show ?thesis by (simp add: signature_payloads_def)
  qed
qed simp_all

subsection \<open>Sequences outside the chain\<close>

lemma ok_validate_and_set_sequence: "preserves (ledger_ok env) (validate_and_set_sequence h node n domain)"
  unfolding validate_and_set_sequence_def Let_def preserves_def
proof (rule triple_pbind [OF triple_reading [where Q = "\<lambda>_ lg. ledger_ok env lg \<and>
      bound_of (if strip_lower domain \<noteq> [] then (Sequence_Domains, VStr (node @ ''|'' @ strip_lower domain))
                else (Node_Sequences, VStr node)) lg < n"]], goal_cases)
  case (3 x)
  show ?case
    by (rule triple_pbind [OF triple_updating ok_save [unfolded preserves_def]])
      (use ledger_ok_set_sequence in \<open>fastforce simp del: set_sequence.simps\<close>)
qed (auto simp: prog_simps bound_of_last)

end
