(* ===== verification/Ledger_Fork_Proofs.thy ===== *)
theory Ledger_Fork_Proofs
  imports Ledger_Extend
begin

section \<open>Forks keep the invariant\<close>

text \<open>
  A fork that is applied keeps the invariant: the ordering of its events follows their links, the
  checks against the common prefix show that the whole new chain is authentic, increasing and free
  of key conflicts, and the rebuilt tables belong to it. The ordering returns when the identifiers
  of the fork do not run in a circle, and does not return for an event that links to itself.
\<close>

subsection \<open>Following the links\<close>

lemma dict_set_new: "dict_get d k = None \<Longrightarrow> dict_set d k v = d @ [(k, v)]"
  by (induction d) (auto simp: dict_get_def dict_set_def split: if_splits)

lemma by_prev_entries:
  assumes "by_prev_of es d = Inr (Some d')"
  shows "d' = d @ map (\<lambda>e. (mget e ''prev_hash'' (VStr []), e)) es"
    and "\<forall>e \<in> set es. truthy (mget e ''prev_hash'' (VStr []))"
proof -
  have "d' = d @ map (\<lambda>e. (mget e ''prev_hash'' (VStr []), e)) es \<and>
      (\<forall>e \<in> set es. truthy (mget e ''prev_hash'' (VStr [])))"
    using assms
  proof (induction es arbitrary: d)
    case (Cons e es)
    let ?p = "mget e ''prev_hash'' (VStr [])"
    have "truthy ?p" "by_prev_of es (d @ [(?p, e)]) = Inr (Some d')"
      using Cons.prems by (auto simp: Let_def dict_has_def dict_set_new split: if_splits)
    with Cons.IH [of "d @ [(?p, e)]"] show ?case by simp
  qed simp
  then show "d' = d @ map (\<lambda>e. (mget e ''prev_hash'' (VStr []), e)) es"
    "\<forall>e \<in> set es. truthy (mget e ''prev_hash'' (VStr []))" by auto
qed

lemma follow_links_path:
  assumes "follow_links d current ordered = Some r"
  shows "r = Inr (Some xs) \<Longrightarrow> (\<forall>(k, e) \<in> set d. k = mget e ''prev_hash'' (VStr []) \<and> truthy k) \<Longrightarrow>
    \<exists>ys. xs = ordered @ ys \<and> prev_linked current ys \<and> set ys \<subseteq> snd ` set d \<and> (\<forall>e \<in> set ys. truthy (eid e))"
  using assms
proof (induction d current ordered r rule: follow_links.raw_induct [rotated, consumes 1])
  case (1 follow d current ordered r)
  show ?case
  proof (cases "dict_get d current")
    case None
    then show ?thesis using 1 by (auto split: if_splits)
  next
    case (Some e)
    let ?id = "mget e ''event_id'' (VStr [])"
    have step: "truthy ?id" "follow d ?id (ordered @ [e]) = Some r"
      using 1(2,3) Some by (auto split: if_splits)
    obtain ys where ys: "xs = (ordered @ [e]) @ ys" "prev_linked ?id ys" "set ys \<subseteq> snd ` set d" "\<forall>e \<in> set ys. truthy (eid e)"
      using 1(1) [OF step(2)] 1(3,4) by blast
    have "(current, e) \<in> set d" using Some by (rule dict_get_mem)
    moreover from this have "eget e ''prev_hash'' = current" "eid e = ?id"
      using 1(4) step(1) mget_truthy [of e "''prev_hash''"] mget_truthy [of e "''event_id''"] by (auto simp: eid_def)
    ultimately show ?thesis
      using ys step(1) by (intro exI [of _ "e # ys"]) force
  qed
qed

lemma order_chain_path:
  assumes "order_chain_from prev es = Some (Inr (Some xs))"
  shows "prev_linked prev xs" "set xs \<subseteq> set es" "length xs = length es" "\<forall>e \<in> set xs. truthy (eid e)"
proof -
  from assms obtain d where d: "by_prev_of es [] = Inr (Some d)" "follow_links d prev [] = Some (Inr (Some xs))"
      and l: "length xs = length es"
    by (auto simp: order_chain_from_def same_number_def rmap_def res_simps
        split: sum.splits option.splits if_splits)
  have "\<forall>(k, e) \<in> set d. k = mget e ''prev_hash'' (VStr []) \<and> truthy k" "snd ` set d = set es"
    using by_prev_entries [OF d(1)] by force+
  with follow_links_path [OF d(2) refl] have "prev_linked prev xs \<and> set xs \<subseteq> set es \<and> (\<forall>e \<in> set xs. truthy (eid e))"
    by auto
  with l show "prev_linked prev xs" "set xs \<subseteq> set es" "length xs = length es" "\<forall>e \<in> set xs. truthy (eid e)"
    by auto
qed

text \<open>If a rank of the hashes grows along every link, the loop ends.\<close>

lemma follow_links_returns:
  fixes rank :: "pyval \<Rightarrow> nat"
  assumes "\<And>k e. (k, e) \<in> set d \<Longrightarrow> rank k < rank (mget e ''event_id'' (VStr []))"
  shows "follow_links d current ordered \<noteq> None"
proof (induction "Max (insert 0 (rank ` fst ` set d)) + 1 - rank current" arbitrary: current ordered rule: less_induct)
  case less
  let ?m = "Max (insert 0 (rank ` fst ` set d))"
  show ?case
  proof (cases "dict_get d current")
    case None
    then show ?thesis by (simp add: follow_links.simps)
  next
    case (Some e)
    then have mem: "(current, e) \<in> set d" by (rule dict_get_mem)
    then have "rank current \<in> insert 0 (rank ` fst ` set d)" by force
    then have "rank current \<le> ?m" by (intro Max_ge) auto
    then have "?m + 1 - rank (mget e ''event_id'' (VStr [])) < ?m + 1 - rank current"
      using assms [OF mem] by linarith
    from less [OF this] Some show ?thesis by (subst follow_links.simps) simp
  qed
qed

text \<open>An event that names itself as its predecessor is followed for ever.\<close>

lemma follow_links_circle:
  assumes "follow_links d current ordered = Some r"
  shows "dict_get d current = Some e \<Longrightarrow> hashable current \<Longrightarrow> mget e ''event_id'' (VStr []) = current \<Longrightarrow>
    truthy current \<Longrightarrow> False"
  using assms
proof (induction d current ordered r rule: follow_links.raw_induct [rotated, consumes 1])
  case (1 follow d current ordered r)
  then show ?case by auto
qed

lemma order_chain_self_loop:
  assumes "eget e ''prev_hash'' = VStr p" and "eget e ''event_id'' = VStr p" and "p \<noteq> []"
  shows "order_chain_from (VStr p) [e] = None"
proof -
  have m: "mget e ''prev_hash'' (VStr []) = VStr p" "mget e ''event_id'' (VStr []) = VStr p"
    using assms by (auto simp: eget_def mget_def get_or_def split: option.splits)
  have "follow_links [(VStr p, e)] (VStr p) [] = None"
    using follow_links_circle [of "[(VStr p, e)]" "VStr p" "[]" _ e] m assms(3)
    by (cases "follow_links [(VStr p, e)] (VStr p) []") (auto simp: dict_get_def hashable_def)
  then show ?thesis
    using m assms(3) by (simp add: order_chain_from_def dict_has_def dict_set_new hashable_def)
qed

subsection \<open>The checks against the common prefix\<close>

definition one_name :: "event list \<Rightarrow> bool" where
  "one_name es \<longleftrightarrow> (\<forall>a \<in> set es. \<forall>b \<in> set es. key_of a = key_of b \<longrightarrow>
     mget a ''node_id'' (VStr []) = mget b ''node_id'' (VStr []))"

lemma one_nameD:
  "one_name es \<Longrightarrow> a \<in> set es \<Longrightarrow> b \<in> set es \<Longrightarrow> key_of a = key_of b \<Longrightarrow>
    mget a ''node_id'' (VStr []) = mget b ''node_id'' (VStr [])"
  unfolding one_name_def by blast

lemma one_name_snoc:
  assumes "one_name es" and "\<And>a. a \<in> set es \<Longrightarrow> key_of a = key_of e \<Longrightarrow>
    mget a ''node_id'' (VStr []) = mget e ''node_id'' (VStr [])"
  shows "one_name (es @ [e])"
  unfolding one_name_def
proof (intro ballI impI)
  fix a b assume "a \<in> set (es @ [e])" "b \<in> set (es @ [e])" "key_of a = key_of b"
  then consider "a \<in> set es" "b \<in> set es" | "a = e" "b \<in> set es" | "a \<in> set es" "b = e" | "a = b" by auto
  then show "mget a ''node_id'' (VStr []) = mget b ''node_id'' (VStr [])"
  proof cases
    case 1
    then show ?thesis using one_nameD [OF assms(1)] \<open>key_of a = key_of b\<close> by blast
  next
    case 2
    then show ?thesis using assms(2) [of b] \<open>key_of a = key_of b\<close> by simp
  next
    case 3
    then show ?thesis using assms(2) [of a] \<open>key_of a = key_of b\<close> by simp
  qed simp
qed

definition good_events :: "mesh_env \<Rightarrow> event list \<Rightarrow> bool" where
  "good_events env es \<longleftrightarrow> (\<forall>e \<in> set es. authentic env e) \<and> increasing es \<and> one_name es"

definition view_ok :: "event list \<Rightarrow> fork_view \<Rightarrow> bool" where
  "view_ok es view \<longleftrightarrow> (\<forall>k. 0 \<le> get_or (dict_get (fst view) k) 0) \<and> (\<forall>e \<in> set es. seq_of e \<le> get_or (dict_get (fst view) (sequence_key e)) 0 \<and>
     dict_get (snd view) (VStr (key_of e)) = Some (mget e ''node_id'' (VStr [])))"

lemma ledger_good: "ledger_ok env lg \<Longrightarrow> good_events env (lg_events lg)"
  unfolding ledger_ok_def good_events_def one_name_def bound_keys_def by (metis option.inject)

lemma good_take: "good_events env (es @ fs) \<Longrightarrow> good_events env es"
  by (auto simp: good_events_def one_name_def increasing_def sorted_wrt_append)

lemma authentic_facts:
  assumes "authentic env e"
  obtains n k s seq where "mget e ''node_id'' (VStr []) = VStr n" "n \<noteq> []" "mget e ''public_key'' (VStr []) = VStr k"
    "key_of e = k" "k \<noteq> []" "eid e = VStr s" "s \<noteq> []" "mget e ''event_id'' (VStr []) = VStr s" "event_sequence e = Inr seq"
    "seq_of e = seq" "0 < seq"
proof -
  obtain s where s: "eid e = VStr s" "s \<noteq> []" using assms by (rule authentic_id)
  then have m: "mget e ''event_id'' (VStr []) = VStr s"
    by (auto simp: eid_def eget_def mget_def get_or_def split: option.splits)
  obtain n where n: "mget e ''node_id'' (VStr []) = VStr n" "n \<noteq> []" using authentic_node [OF assms] by blast
  obtain k where k: "mget e ''public_key'' (VStr []) = VStr k"
    using assms unfolding authentic_def by (blast dest: binding_key)
  then have "k \<noteq> []" using assms unfolding authentic_def by force
  moreover have "key_of e = k" by (simp add: key_of_def sget_or_def k py_or_def py_str_def)
  moreover obtain seq where "event_sequence e = Inr seq" "0 < seq" using assms unfolding authentic_def by blast
  ultimately show thesis using that s m n k by (simp add: seq_of_def)
qed

lemma sequence_key_slot: "sequence_key e = snd (slot_of e)"
  by (simp add: sequence_key_def slot_of_def)

lemma view_prefix:
  assumes "foldR view_prefix_event es ([], []) = Inr view" and "good_events env es"
  shows "view_ok es view \<and>
    (\<forall>k v. dict_get (snd view) k = Some v \<longrightarrow> (\<exists>a \<in> set es. k = VStr (key_of a) \<and> v = mget a ''node_id'' (VStr [])))"
  using assms
proof (induction es arbitrary: view rule: rev_induct)
  case (snoc e es)
  obtain ls sk where v: "foldR view_prefix_event es ([], []) = Inr (ls, sk)" "view_prefix_event e (ls, sk) = Inr view"
    using snoc.prems(1) by (auto simp: foldR_append res_simps)
  have good: "good_events env es" using snoc.prems(2) by (rule good_take)
  note IH = snoc.IH [OF v(1) good]
  have "authentic env e" using snoc.prems(2) by (simp add: good_events_def)
  then obtain n k s seq where f: "mget e ''node_id'' (VStr []) = VStr n" "n \<noteq> []" "key_of e = k" "k \<noteq> []"
      "event_sequence e = Inr seq" "seq_of e = seq" "0 < seq"
    by (rule authentic_facts)
  have k: "sget_or e ''public_key'' [] = k" using f(3) by (simp add: key_of_def)
  have view: "view = (dict_set ls (sequence_key e) (max (get_or (dict_get ls (sequence_key e)) 0) seq),
      if dict_has sk (VStr k) then sk else dict_set sk (VStr k) (VStr n))"
  proof -
    have "hashable (sequence_key e)"
      using v(2) f(1,2,5,7) k by (simp add: view_prefix_event_def Let_def res_simps table_get_def split: if_splits)
    then show ?thesis
      using v(2) f(1,2,4,5,7) k by (cases "dict_has sk (VStr k)") (simp_all add: view_prefix_event_def Let_def table_get_def)
  qed
  have name: "mget a ''node_id'' (VStr []) = VStr n" if "a \<in> set (es @ [e])" "key_of a = k" for a
  proof -
    have "e \<in> set (es @ [e])" by simp
    then have "mget a ''node_id'' (VStr []) = mget e ''node_id'' (VStr [])"
      using snoc.prems(2) that f(3) unfolding good_events_def one_name_def by metis
    then show ?thesis using f(1) by simp
  qed
  have sk: "dict_get (snd view) (VStr k) = Some (VStr n)"
  proof (cases "dict_has sk (VStr k)")
    case True
    then obtain a where "a \<in> set es" "key_of a = k" "dict_get sk (VStr k) = Some (mget a ''node_id'' (VStr []))"
      using IH by (auto simp: dict_has_def)
    with True name show ?thesis by (simp add: view)
  qed (simp add: view)
  have "dict_get (snd view) (VStr (key_of a)) = Some (mget a ''node_id'' (VStr []))" if "a \<in> set (es @ [e])" for a
    using sk name [OF that] that IH f by (cases "key_of a = k") (auto simp: view view_ok_def dict_get_set)
  moreover have "seq_of a \<le> get_or (dict_get (fst view) (sequence_key a)) 0" if "a \<in> set (es @ [e])" for a
    using IH that f by (fastforce simp: view view_ok_def dict_get_set)
  moreover have "\<exists>a \<in> set (es @ [e]). k' = VStr (key_of a) \<and> v = mget a ''node_id'' (VStr [])"
    if "dict_get (snd view) k' = Some v" for k' v
    using that IH f by (cases "dict_has sk (VStr k)") (auto simp: view dict_get_set split: if_splits)
  moreover have "0 \<le> get_or (dict_get (fst view) k') 0" for k'
    using IH f(7) by (auto simp: view view_ok_def dict_get_set)
  ultimately show ?case by (simp add: view_ok_def)
qed (simp add: view_ok_def)

subsection \<open>The checks on the events of the fork\<close>

lemma fork_content_facts:
  assumes "fork_event_content h lg i e = Inr (t, p)"
  shows "mget e ''event_type'' (VStr []) = VStr t" "truthy (mget e ''event_id'' (VStr []))" "fork_payload t e = Inr p"
  using assms
  by (auto simp: fork_event_content_def prog_simps allowed_type_def split: pyval.splits if_splits)

lemma fork_identity_facts:
  assumes "fork_event_identity h lg e t p n (ls, sk) = Inr view"
  shows "get_or (dict_get ls (sequence_key e)) 0 < n" "truthy (mget e ''public_key'' (VStr []))"
    "verify_node_binding (h_mesh h) (mget e ''node_id'' (VStr [])) (mget e ''public_key'' (VStr []))"
    "view = (dict_set ls (sequence_key e) n, dict_set sk (mget e ''public_key'' (VStr [])) (mget e ''node_id'' (VStr [])))"
    "\<not> truthy (get_or (dict_get sk (mget e ''public_key'' (VStr []))) VNone) \<or>
      dict_get sk (mget e ''public_key'' (VStr [])) = Some (mget e ''node_id'' (VStr []))"
  using assms
  by (auto simp: fork_event_identity_def Let_def prog_simps table_get_def get_or_def split: if_splits option.splits)

lemma fork_signature_facts:
  assumes "fork_event_signature h e t p n = Inr ()" and "fork_payload t e = Inr p"
  shows "\<exists>m. mget e ''node_id'' (VStr []) = VStr m \<and> carries_signature (h_mesh h) e t m n"
    "\<exists>ev. from_dict (h_now h) e = Inr ev"
proof -
  from assms(1) obtain vs where vs: "signature_payloads t p e = Inr vs"
      "signed_over (h_mesh h) t (mget e ''node_id'' (VStr [])) n (mget e ''public_key'' (VStr []))
        (mget e ''public_key_algo'' (VStr [])) (mget e ''signature'' (VStr [])) vs = Inr True"
      and ev: "\<exists>ev. from_dict (h_now h) e = Inr ev"
    by (auto simp: fork_event_signature_def prog_simps)
  from signed_over_True [OF vs(2)] vs(1) assms(2)
  show "\<exists>m. mget e ''node_id'' (VStr []) = VStr m \<and> carries_signature (h_mesh h) e t m n"
    unfolding carries_signature_def by blast
  show "\<exists>ev. from_dict (h_now h) e = Inr ev" by (rule ev)
qed

lemma check_fork_event_good:
  assumes check: "check_fork_event h lg i e view = Inr view'"
    and good: "good_events (h_mesh h) es" and ok: "view_ok es view"
  shows "authentic (h_mesh h) e" "good_events (h_mesh h) (es @ [e])" "view_ok (es @ [e]) view'"
proof -
  obtain ls sk where view: "view = (ls, sk)" by (cases view)
  from check obtain n t p where parts: "event_sequence e = Inr n" "fork_event_content h lg i e = Inr (t, p)"
      "fork_event_identity h lg e t p n (ls, sk) = Inr view'" "fork_event_signature h e t p n = Inr ()"
    by (auto simp: check_fork_event_def prog_simps view split: prod.splits)
  note content = fork_content_facts [OF parts(2)] and ident = fork_identity_facts [OF parts(3)]
  obtain m where m: "mget e ''node_id'' (VStr []) = VStr m" "carries_signature (h_mesh h) e t m n"
    using fork_signature_facts(1) [OF parts(4) content(3)] by blast
  obtain k where k: "mget e ''public_key'' (VStr []) = VStr k" using ident(3) by (auto dest: binding_key)
  have key: "key_of e = k" by (simp add: key_of_def sget_or_def k py_or_def py_str_def)
  have id: "eid e = mget e ''event_id'' (VStr [])" using mget_truthy [OF content(2)] by (simp add: eid_def)
  obtain ev where ev: "from_dict (h_now h) e = Inr ev" using fork_signature_facts(2) [OF parts(4) content(3)] by blast
  then have "eid e = VStr (compute_hash ev)" by (simp add: eid_def from_dict_id)
  moreover have pos: "0 < n" using ok ident(1) by (auto simp: view_ok_def view dest: le_less_trans)
  ultimately show auth: "authentic (h_mesh h) e"
    unfolding authentic_def using content(1) m parts(1) ident(2,3) ev by metis
  have seq: "seq_of e = n" using parts(1) by (simp add: seq_of_def)
  have less: "seq_of a < n" if "a \<in> set es" "slot_of a = slot_of e" for a
    using ok that ident(1) by (force simp: view_ok_def view sequence_key_slot)
  have same: "mget a ''node_id'' (VStr []) = VStr m" if "a \<in> set es" "key_of a = k" for a
  proof -
    have "dict_get sk (VStr k) = Some (mget a ''node_id'' (VStr []))" "authentic (h_mesh h) a"
      using ok good that by (auto simp: view_ok_def view good_events_def)
    then show ?thesis using ident(5) authentic_node [of "h_mesh h" a] k m(1) by auto
  qed
  have "one_name (es @ [e])"
    by (rule one_name_snoc) (use good same key m(1) in \<open>simp_all add: good_events_def\<close>)
  moreover have "increasing (es @ [e])"
    using good less seq by (auto simp: good_events_def increasing_def sorted_wrt_append)
  ultimately show "good_events (h_mesh h) (es @ [e])" using good auth by (auto simp: good_events_def)
  have "seq_of a \<le> get_or (dict_get (fst view') (sequence_key a)) 0" if "a \<in> set (es @ [e])" for a
    using ok that ident(1,4) seq by (force simp: view_ok_def view dict_get_set)
  moreover have "dict_get (snd view') (VStr (key_of a)) = Some (mget a ''node_id'' (VStr []))" if "a \<in> set (es @ [e])" for a
    using ok that ident(4) same key k m(1) by (cases "key_of a = k") (auto simp: view_ok_def view dict_get_set)
  moreover have "0 \<le> get_or (dict_get (fst view') k') 0" for k'
    using ok pos ident(4) by (auto simp: view_ok_def view dict_get_set)
  ultimately show "view_ok (es @ [e]) view'" by (simp add: view_ok_def)
qed

lemma check_fork_events_good:
  assumes "check_fork_events h lg i fs view = Inr ()" and "good_events (h_mesh h) es" and "view_ok es view"
  shows "good_events (h_mesh h) (es @ fs)"
  using assms
proof (induction fs arbitrary: es view)
  case (Cons e fs)
  from Cons.prems(1) obtain view' where step: "check_fork_event h lg i e view = Inr view'"
      "check_fork_events h lg i fs view' = Inr ()" by (auto simp: prog_simps)
  from Cons.IH [OF step(2) check_fork_event_good(2,3) [OF step(1) Cons.prems(2,3)]] show ?case by simp
qed simp

subsection \<open>Rebuilding the tables\<close>

lemma bound_of_update [simp]:
  "bound_of sl (lg\<lparr>lg_index := a\<rparr>) = bound_of sl lg" "bound_of sl (lg\<lparr>lg_filter := f\<rparr>) = bound_of sl lg"
  "bound_of sl (lg\<lparr>lg_bindings := d\<rparr>) = bound_of sl lg"
  by (cases "fst sl"; simp add: bound_of_def)+

text \<open>The three tables are extended one after the other; between the steps each has its own length.\<close>

definition rebuilding :: "event list \<Rightarrow> nat \<Rightarrow> nat \<Rightarrow> nat \<Rightarrow> ledger \<Rightarrow> bool" where
  "rebuilding es i j k lg \<longleftrightarrow>
     lg_events lg = es \<and> index_ok (take i es) (lg_index lg) \<and> bounded (take j es) lg \<and>
     bound_keys (take k es) (lg_bindings lg) \<and>
     (\<forall>key v. dict_get (lg_bindings lg) key = Some v \<longrightarrow>
        (\<exists>e \<in> set (take k es). key = key_of e \<and> v = mget e ''node_id'' (VStr []))) \<and>
     filter_ok (lg_filter lg)"

lemma rebuilding_core: "core lg = core lg' \<Longrightarrow> rebuilding es i j k lg \<Longrightarrow> rebuilding es i j k lg'"
proof -
  assume core: "core lg = core lg'" and r: "rebuilding es i j k lg"
  have "bounded (take j es) lg \<Longrightarrow> bounded (take j es) lg'"
    unfolding bounded_def using bound_of_core [OF core] by metis
  with r core show ?thesis unfolding rebuilding_def core_fields by metis
qed

lemma entry_facts:
  assumes good: "good_events env es" and k: "k < length es"
  shows "authentic env (es ! k)" "take (Suc k) es = take k es @ [es ! k]" "length (take k es) = k"
  using good k by (simp_all add: good_events_def take_Suc_conv_app_nth)

lemma rebuild_index_step:
  assumes good: "good_events env es" and k: "k < length es"
  shows "triple (rebuilding es k k k) (rebuild_index h k (es ! k)) (\<lambda>_. rebuilding es (Suc k) k k) (\<lambda>_. True)"
proof -
  obtain s where s: "mget (es ! k) ''event_id'' (VStr []) = VStr s" "s \<noteq> []" "eid (es ! k) = VStr s"
    using authentic_facts [OF entry_facts(1) [OF good k]] by metis
  have step: "rebuilding es (Suc k) k k
      (lg\<lparr>lg_index := dict_set (lg_index lg) (VStr s) k, lg_filter := filter_add (h_now h) s (lg_filter lg)\<rparr>)"
    if "rebuilding es k k k lg" for lg
    using that index_ok_snoc [of "take k es" "lg_index lg" "es ! k"] entry_facts [OF good k] s(3)
    by (simp add: rebuilding_def filter_ok_add bounded_def)
  show ?thesis
    using s step by (auto simp: rebuild_index_def Let_def triple_def pbind_def reading_def updating_def table_get_def
        hashable_def)
qed

lemma rebuild_sequence_step:
  assumes good: "good_events env es" and k: "k < length es"
  shows "triple (rebuilding es (Suc k) k k) (rebuild_sequence (es ! k)) (\<lambda>_. rebuilding es (Suc k) (Suc k) k) (\<lambda>_. True)"
proof -
  obtain n seq where f: "mget (es ! k) ''node_id'' (VStr []) = VStr n" "n \<noteq> []" "event_sequence (es ! k) = Inr seq"
      "seq_of (es ! k) = seq" "0 < seq"
    using authentic_facts [OF entry_facts(1) [OF good k]] by metis
  let ?sl = "sequence_table_for_event (mget (es ! k) ''event_type'' (VStr [])) (VStr n)"
  have slot: "slot_of (es ! k) = ?sl" using f(1) by (simp add: slot_of_def)
  have keep: "rebuilding es (Suc k) (Suc k) k lg" if "rebuilding es (Suc k) k k lg" "seq \<le> bound_of ?sl lg" for lg
    using that entry_facts(2) [OF good k] slot f(4) by (auto simp: rebuilding_def bounded_def)
  have set: "rebuilding es (Suc k) (Suc k) k (set_sequence ?sl seq lg)"
    if "rebuilding es (Suc k) k k lg" "bound_of ?sl lg < seq" for lg
    using that entry_facts(2) [OF good k] slot f(4) by (fastforce simp: rebuilding_def bounded_def bound_of_set)
  show ?thesis
  proof (rule tripleI)
    fix lg lg' x assume r: "rebuilding es (Suc k) k k lg" and run: "rebuild_sequence (es ! k) lg = (Inr x, lg')"
    from run f(1,2,3,5) obtain last where "last_sequence ?sl lg = Inr last"
        "lg' = (if last < seq then set_sequence ?sl seq lg else lg)"
      by (auto simp: rebuild_sequence_def Let_def prog_simps)
    then show "rebuilding es (Suc k) (Suc k) k lg'" using keep [OF r] set [OF r] bound_of_last by fastforce
  qed simp
qed

lemma rebuild_binding_step:
  assumes good: "good_events env es" and k: "k < length es" and r: "rebuilding es (Suc k) (Suc k) k lg"
  shows "rebuilding es (Suc k) (Suc k) (Suc k) (rebuild_binding (es ! k) lg)"
proof -
  obtain n where f: "mget (es ! k) ''node_id'' (VStr []) = VStr n" "n \<noteq> []" "key_of (es ! k) \<noteq> []"
    using authentic_facts [OF entry_facts(1) [OF good k]] by metis
  have in_es: "set (take k es) \<subseteq> set es" "es ! k \<in> set es" using k by (auto dest: in_set_takeD)
  show ?thesis
  proof (cases "dict_get (lg_bindings lg) (key_of (es ! k))")
    case None
    then have "rebuild_binding (es ! k) lg =
        lg\<lparr>lg_bindings := dict_set (lg_bindings lg) (key_of (es ! k)) (VStr n)\<rparr>"
      using f by (simp add: rebuild_binding_def Let_def key_of_def)
    moreover have "key_of a \<noteq> key_of (es ! k)" if "a \<in> set (take k es)" for a
      using r that None unfolding rebuilding_def bound_keys_def by force
    ultimately show ?thesis
      using r entry_facts(2) [OF good k] f(1)
      by (auto simp: rebuilding_def bound_keys_def dict_get_set bounded_def split: if_splits)
  next
    case (Some v)
    then obtain a where a: "a \<in> set (take k es)" "key_of a = key_of (es ! k)" "v = mget a ''node_id'' (VStr [])"
      using r unfolding rebuilding_def by metis
    have "one_name es" using good by (simp add: good_events_def)
    from one_nameD [OF this _ in_es(2) a(2)] a(1,3) in_es(1) f(1) have v: "v = VStr n" by auto
    then have "rebuild_binding (es ! k) lg = lg"
      using f Some by (simp add: rebuild_binding_def Let_def key_of_def)
    then show ?thesis
      using r entry_facts(2) [OF good k] f(1) Some v by (auto simp: rebuilding_def bound_keys_def)
  qed
qed

lemma rebuild_event_step:
  assumes good: "good_events env es" and k: "k < length es"
  shows "triple (rebuilding es k k k) (rebuild_event h (k, es ! k)) (\<lambda>_. rebuilding es (Suc k) (Suc k) (Suc k)) (\<lambda>_. True)"
  unfolding rebuild_event_def fst_conv snd_conv
proof (rule triple_pbind [OF rebuild_index_step [OF good k]], rule triple_pbind [OF rebuild_sequence_step [OF good k]])
  show "triple (rebuilding es (Suc k) (Suc k) k)
      (pbind (updating (rebuild_binding (es ! k))) (\<lambda>_. revoke_if (es ! k)))
      (\<lambda>_. rebuilding es (Suc k) (Suc k) (Suc k)) (\<lambda>_. True)" for x y :: unit
  proof (rule triple_pbind [where R = "\<lambda>_. rebuilding es (Suc k) (Suc k) (Suc k)"])
    show "triple (rebuilding es (Suc k) (Suc k) k) (updating (rebuild_binding (es ! k)))
        (\<lambda>_. rebuilding es (Suc k) (Suc k) (Suc k)) (\<lambda>_. True)"
      by (rule triple_updating) (rule rebuild_binding_step [OF good k])
    show "triple (rebuilding es (Suc k) (Suc k) (Suc k)) (revoke_if (es ! k))
        (\<lambda>_. rebuilding es (Suc k) (Suc k) (Suc k)) (\<lambda>_. True)" for x
      by (rule triple_leaves [OF leaves_revoke_if]) (auto intro: rebuilding_core)
  qed
qed

lemma rebuild_state_good:
  assumes "rebuild_state h lg = (Inr (), lg')" and good: "good_events env (lg_events lg)"
  shows "rebuilding (lg_events lg) (length (lg_events lg)) (length (lg_events lg)) (length (lg_events lg)) lg'"
    "lg_head lg' = head_of (lg_events lg)"
proof -
  let ?es = "lg_events lg" and ?r = "\<lambda>k. rebuilding (lg_events lg) k k k"
  let ?s = "lg\<lparr>lg_index := [], lg_node_sequences := [],
         lg_sequence_domains := preserved_domains (lg_sequence_domains lg), lg_bindings := [], lg_revocations := [],
         lg_filter := fresh_filter h\<rparr>"
  have start: "?r 0 ?s" by (simp add: rebuilding_def fresh_filter_def filter_ok_new bounded_def bound_keys_def)
  have loop: "triple (?r 0) (each (rebuild_event h) (zip [0..<length ?es] ?es)) (\<lambda>_. ?r (length ?es)) (\<lambda>_. True)"
    using triple_each_upto [of "zip [0..<length ?es] ?es" ?r "rebuild_event h" "\<lambda>_. True"]
      rebuild_event_step [OF good] by simp
  from assms(1) obtain mid where mid: "each (rebuild_event h) (zip [0..<length ?es] ?es) ?s = (Inr (), mid)"
      "lg' = mid\<lparr>lg_head := head_of (lg_events mid)\<rparr>"
    by (auto simp: rebuild_state_def pbind_updating prog_simps)
  have r: "?r (length ?es) mid" by (rule triple_resultD [OF loop start mid(1)])
  then have "lg_events mid = ?es" by (simp add: rebuilding_def)
  then show "lg_head lg' = head_of ?es" by (simp add: mid(2))
  have "bound_of sl (mid\<lparr>lg_head := x\<rparr>) = bound_of sl mid" for sl x by (cases "fst sl") (simp_all add: bound_of_def)
  then show "?r (length ?es) lg'" using r by (simp add: rebuilding_def mid(2) bounded_def)
qed

lemma mget_eid: "eid e = VStr s \<Longrightarrow> mget e ''event_id'' d = VStr s"
  by (auto simp: eid_def eget_def mget_def get_or_def split: option.splits)

lemma rebuild_state_ok:
  assumes "rebuild_state h lg = (Inr (), lg')" and good: "good_events env (lg_events lg)" and link: "prev_linked b (lg_events lg)"
    and ne: "lg_events lg \<noteq> []"
  shows "ledger_ok env lg'" "lg_events lg' = lg_events lg"
proof -
  note r = rebuild_state_good [OF assms(1,2)]
  show ev: "lg_events lg' = lg_events lg" using r(1) by (simp add: rebuilding_def)
  have "authentic env (last (lg_events lg))" using good ne by (simp add: good_events_def)
  then obtain s where "eid (last (lg_events lg)) = VStr s" by (rule authentic_id)
  then have "head_of (lg_events lg) = tip b (lg_events lg)"
    using ne mget_eid [of "last (lg_events lg)" s] by (simp add: head_of_def tip_def)
  then show "ledger_ok env lg'"
    using r link good unfolding ledger_ok_def ev by (auto simp: rebuilding_def good_events_def)
qed

subsection \<open>Applying a fork\<close>

definition hot :: "event list \<Rightarrow> event list" where
  "hot es = drop (length es - MAX_CHAIN_MEMORY) es"

lemma core_events: "leaves core m \<Longrightarrow> leaves lg_events m"
  by (simp add: leaves_def core_fields)

lemma save_events: "save h lg = (Inr (), lg') \<Longrightarrow> lg_events lg' = hot (lg_events lg)"
proof -
  assume "save h lg = (Inr (), lg')"
  then obtain mid where mid: "enforce_memory_cap h lg = (Inr (), mid)" "lg' = mid\<lparr>lg_dirty := True\<rparr>"
    by (auto simp: save_def prog_simps)
  show ?thesis
  proof (cases "length (lg_events lg) - MAX_CHAIN_MEMORY = 0")
    case True
    then show ?thesis using mid by (simp add: enforce_memory_cap_def hot_def)
  next
    case False
    then obtain s where s: "rebuild_counters h (spill (length (lg_events lg) - MAX_CHAIN_MEMORY) lg) = (Inr (), s)"
        "mid = (invalidate_merkle_cache s)\<lparr>lg_dirty := True\<rparr>"
      using mid(1) by (auto simp: enforce_memory_cap_def Let_def pbind_updating prog_simps split: if_splits)
    let ?spilled = "spill (length (lg_events lg) - MAX_CHAIN_MEMORY) lg"
    have "lg_events (snd (rebuild_counters h ?spilled)) = lg_events ?spilled"
      using core_events [OF leaves_rebuild_counters, of h] by (simp add: leaves_def)
    then have "lg_events s = lg_events ?spilled" unfolding s(1) by simp
    then have "lg_events s = hot (lg_events lg)" by (simp add: hot_def spill_def Let_def)
    then show ?thesis by (simp add: mid(2) s(2) invalidate_merkle_cache_def)
  qed
qed

lemma fork_ancestor_facts:
  assumes "fork_ancestor es proof_count quorum lg = Inr (prev, i)" and "index_ok (lg_events lg) (lg_index lg)"
  shows "i < length (lg_events lg)" "eid (lg_events lg ! i) = prev" "length (lg_events lg) - 1 - i \<le> CHAIN_LOCK_DEPTH"
  using assms by (auto simp: fork_ancestor_def Let_def prog_simps table_get_def index_ok_def split: option.splits if_splits)

lemma fork_checks_good:
  assumes "fork_checks h ordered hd_hash i lg = Inr ()" and "ledger_ok (h_mesh h) lg"
  shows "good_events (h_mesh h) (take (Suc i) (lg_events lg) @ ordered)" "ordered \<noteq> []"
    "length (lg_events lg) - Suc i < length ordered" "mget (last ordered) ''event_id'' (VStr []) = VStr hd_hash"
proof -
  from assms(1) obtain view where v: "foldR view_prefix_event (take (Suc i) (lg_events lg)) ([], []) = Inr view"
      "check_fork_events h lg i ordered view = Inr ()" and o: "ordered \<noteq> []"
      "int (length (lg_events lg)) - 1 - int i < int (length ordered)"
      "mget (last ordered) ''event_id'' (VStr []) = VStr hd_hash"
    by (auto simp: fork_checks_def prog_simps)
  have "good_events (h_mesh h) (take (Suc i) (lg_events lg) @ drop (Suc i) (lg_events lg))"
    using ledger_good [OF assms(2)] by simp
  then have g: "good_events (h_mesh h) (take (Suc i) (lg_events lg))" by (rule good_take)
  show "good_events (h_mesh h) (take (Suc i) (lg_events lg) @ ordered)"
    using check_fork_events_good [OF v(2) g] view_prefix [OF v(1) g] by blast
  show "ordered \<noteq> []" "mget (last ordered) ''event_id'' (VStr []) = VStr hd_hash" by fact+
  show "length (lg_events lg) - Suc i < length ordered" using o(1,2) by (cases ordered) auto
qed

lemma replace_tail_ok:
  assumes "replace_tail h i ordered lg = (Inr (), lg')"
    and "good_events env (take (Suc i) (lg_events lg) @ ordered)" and "prev_linked b (take (Suc i) (lg_events lg) @ ordered)"
    and "ordered \<noteq> []"
  shows "ledger_ok env lg'" "lg_events lg' = hot (take (Suc i) (lg_events lg) @ ordered)"
proof -
  let ?es = "take (Suc i) (lg_events lg) @ ordered" and ?s = "lg\<lparr>lg_events := take (Suc i) (lg_events lg) @ ordered\<rparr>"
  from assms(1) obtain s1 s2 s3 where s: "rebuild_state h ?s = (Inr (), s1)" "rebuild_revocations s1 = (Inr (), s2)"
      "rebuild_counters h s2 = (Inr (), s3)" "save h (invalidate_merkle_cache s3) = (Inr (), lg')"
    by (auto simp: replace_tail_def pbind_updating prog_simps)
  have ok: "ledger_ok env s1" "lg_events s1 = ?es"
    using rebuild_state_ok [OF s(1), of env b] assms(2,3,4) by simp_all
  have "core s2 = core s1" using leaves_rebuild_revocations s(2) unfolding leaves_def by (metis snd_conv)
  moreover have "core s3 = core s2" using leaves_rebuild_counters [of h] s(3) unfolding leaves_def by (metis snd_conv)
  ultimately have core: "core s1 = core (invalidate_merkle_cache s3)"
    by (simp add: invalidate_merkle_cache_def core_def)
  have "ledger_ok env (snd (save h (invalidate_merkle_cache s3)))"
    by (rule preservesD [OF ok_save ledger_ok_core [OF core ok(1)]])
  then show "ledger_ok env lg'" unfolding s(4) by simp
  show "lg_events lg' = hot ?es"
    using save_events [OF s(4)] core ok(2) by (simp add: core_fields)
qed

text \<open>What an applied fork does to the chain\<close>

lemma apply_fork_applied:
  assumes "apply_fork h es hd_hash proof_count quorum lg = Some (Inr (), lg')" and ok: "ledger_ok (h_mesh h) lg"
  obtains i ordered where "i < length (lg_events lg)" "length (lg_events lg) - 1 - i \<le> CHAIN_LOCK_DEPTH"
    "lg_events lg' = hot (take (Suc i) (lg_events lg) @ ordered)" "length (lg_events lg) - Suc i < length ordered"
    "prev_linked (eid (lg_events lg ! i)) ordered" "set ordered \<subseteq> set es" "length ordered = length es"
    "eid (last ordered) = VStr hd_hash" "ledger_ok (h_mesh h) lg'"
proof -
  from assms(1) obtain prev i o' where parts: "fork_ancestor es proof_count quorum lg = Inr (prev, i)"
      "order_chain_from prev es = Some (Inr o')"
      "pbind (reading (fork_checks h (get_or o' []) hd_hash i)) (\<lambda>_. replace_tail h i (get_or o' [])) lg = (Inr (), lg')"
    by (auto simp: apply_fork_def split: sum.splits option.splits prod.splits)
  then have checks: "fork_checks h (get_or o' []) hd_hash i lg = Inr ()"
      and tail: "replace_tail h i (get_or o' []) lg = (Inr (), lg')"
    by (auto simp: prog_simps)
  have index: "index_ok (lg_events lg) (lg_index lg)" using ok by (simp add: ledger_ok_def)
  note anc = fork_ancestor_facts [OF parts(1) index]
  note good = fork_checks_good [OF checks ok]
  obtain ordered where o: "o' = Some ordered" using good(2) by (cases o') auto
  note path = order_chain_path [OF parts(2) [unfolded o]]
  obtain b where b: "prev_linked b (lg_events lg)" using ok by (auto simp: ledger_ok_def)
  have "prev_linked b (take (Suc i) (lg_events lg))"
    using b linked_append [of b "take (Suc i) (lg_events lg)" "drop (Suc i) (lg_events lg)"] by simp
  moreover have "tip b (take (Suc i) (lg_events lg)) = prev"
    using anc(1,2) by (simp add: tip_def take_Suc_conv_app_nth)
  ultimately have "prev_linked b (take (Suc i) (lg_events lg) @ ordered)" using path(1) by (simp add: linked_append)
  with replace_tail_ok [OF tail, of "h_mesh h" b] good o
  have "ledger_ok (h_mesh h) lg'" "lg_events lg' = hot (take (Suc i) (lg_events lg) @ ordered)" by simp_all
  moreover have "eid (last ordered) = VStr hd_hash"
  proof -
    have "truthy (eid (last ordered))" using good(2) o path(4) by simp
    then have "mget (last ordered) ''event_id'' (VStr []) = eid (last ordered)"
      by (auto simp: eid_def mget_def eget_def get_or_def split: option.splits)
    then show ?thesis using good(4) o by simp
  qed
  ultimately show thesis using that anc good(3) path o by simp
qed

end
