(* ===== verification/Ledger_Sync.thy ===== *)
theory Ledger_Sync
  imports Ledger_Fork_Proofs
begin

section \<open>Synchronizing chains\<close>

text \<open>
  Models the queries of \<open>services/mesh/mesh_hashchain.py\<close> a peer uses to catch up: the block
  locator, the events after it or after a hash, the Merkle root and the proofs. Two ledgers that
  share an event share everything below it, unless two of their events collide.
  Every stored event has an identifier (\<open>ledger_ok\<close>), so reading it raises nothing.
\<close>

subsection \<open>Locator and events after it\<close>

text \<open>The loop of \<open>get_locator\<close>; the step between two entries is \<open>2 ^ k\<close>.\<close>

function locator_loop :: "event list \<Rightarrow> int \<Rightarrow> int \<Rightarrow> nat \<Rightarrow> nat \<Rightarrow> pyval list \<Rightarrow> pyval list" where
  "locator_loop es max_entries idx k rounds loc =
     (if 0 \<le> idx \<and> int (length loc) < max_entries - 1
      then let k' = (if 9 \<le> rounds then Suc k else k) in
        locator_loop es max_entries (idx - 2 ^ k') k' (Suc rounds) (loc @ [eid (es ! nat idx)])
      else loc)"
  by pat_completeness auto
termination
  by (relation "measure (\<lambda>(es, n, idx, k, c, loc). nat (idx + 1))") (auto simp: Let_def)

declare locator_loop.simps [simp del]

definition get_locator :: "int \<Rightarrow> ledger \<Rightarrow> pyval list" where
  "get_locator max_entries lg =
     (if lg_events lg = [] then [VStr GENESIS_HASH]
      else locator_loop (lg_events lg) max_entries (int (length (lg_events lg)) - 1) 0 0 [] @ [VStr GENESIS_HASH])"

fun find_ancestor :: "pyval list \<Rightarrow> nat \<Rightarrow> ledger \<Rightarrow> (pyval \<times> int \<times> event list) res" where
  "find_ancestor [] limit lg = Inr (VStr [], - 1, [])"
| "find_ancestor (hsh # hs) limit lg =
     (if hsh = VStr GENESIS_HASH then Inr (VStr GENESIS_HASH, 0, take limit (lg_events lg))
      else rbind (table_get (lg_index lg) hsh) (\<lambda>i.
        case i of
          Some i \<Rightarrow> Inr (hsh, int (Suc i), take limit (drop (Suc i) (lg_events lg)))
        | None \<Rightarrow> find_ancestor hs limit lg))"

definition get_events_after_locator :: "pyval list \<Rightarrow> nat \<Rightarrow> ledger \<Rightarrow> (pyval \<times> int \<times> event list) res" where
  "get_events_after_locator locator limit lg =
     find_ancestor (if locator = [] then [VStr GENESIS_HASH] else locator) limit lg"

definition get_events_after :: "string \<Rightarrow> nat \<Rightarrow> ledger \<Rightarrow> event list" where
  "get_events_after after_hash limit lg =
     (if after_hash = GENESIS_HASH then take limit (lg_events lg)
      else case dict_get (lg_index lg) (VStr after_hash) of
        None \<Rightarrow> []
      | Some i \<Rightarrow> take limit (drop (Suc i) (lg_events lg)))"

subsection \<open>Merkle root and proofs\<close>

definition root_of_levels :: "string list list \<Rightarrow> string" where
  "root_of_levels levels =
     (if levels = [] \<or> last levels = [] then GENESIS_HASH
      else if hd (last levels) = [] then GENESIS_HASH else hd (last levels))"

definition get_merkle_root :: "ledger \<Rightarrow> string \<times> ledger" where
  "get_merkle_root lg =
     (if lg_events lg = [] then (GENESIS_HASH, lg)
      else case get_merkle_levels lg of (levels, lg') \<Rightarrow> (root_of_levels levels, lg'))"

record merkle_range =
  mr_root :: string
  mr_total :: nat
  mr_start :: int
  mr_proofs :: "(int \<times> string \<times> event list) list"

definition get_merkle_proofs :: "int \<Rightarrow> int \<Rightarrow> ledger \<Rightarrow> merkle_range \<times> ledger" where
  "get_merkle_proofs start_index n lg =
     (let es = lg_events lg; leaves = event_ids es in
      if es = [] then (\<lparr>mr_root = GENESIS_HASH, mr_total = 0, mr_start = 0, mr_proofs = []\<rparr>, lg)
      else let start = max 0 start_index; upto_index = min (int (length es)) (start + max 0 n) in
        case get_merkle_levels lg of (levels, lg') \<Rightarrow>
          (\<lparr>mr_root = (if levels \<noteq> [] \<and> last levels \<noteq> [] then hd (last levels) else GENESIS_HASH),
            mr_total = length es, mr_start = start,
            mr_proofs = map (\<lambda>i. (i, leaves ! nat i, merkle_proof_from_levels levels i)) [start..upto_index - 1]\<rparr>, lg'))"

subsection \<open>A shared event means a shared history\<close>

lemma linked_nth: "prev_linked b es \<Longrightarrow> Suc i < length es \<Longrightarrow> eget (es ! Suc i) ''prev_hash'' = eid (es ! i)"
proof (induction es arbitrary: b i)
  case (Cons e es)
  then show ?case by (cases i; cases es) auto
qed simp

lemma read_event_prev: "read_event now e = Inr ev \<Longrightarrow> ce_prev_hash ev = eget e ''prev_hash''"
  by (auto simp: read_event_def req_def eget_def init_event_def res_simps split: option.splits)

lemma hash_content_prev:
  "ce_prev_hash ev = VStr s \<Longrightarrow> \<exists>rest. hash_content ev = s @ rest"
  by (simp add: hash_content_def py_str_def)

text \<open>Two events collide if they are hashed from different texts to the same identifier.\<close>

definition events_collide :: "event \<Rightarrow> event \<Rightarrow> bool" where
  "events_collide a b \<longleftrightarrow> (\<exists>now later x y. from_dict now a = Inr x \<and> from_dict later b = Inr y \<and>
     hash_content x \<noteq> hash_content y \<and> sha256_hex (hash_content x) = sha256_hex (hash_content y))"

lemma same_id_same_prev:
  assumes "authentic env a" "authentic env b" and "eid a = eid b"
    and "eget a ''prev_hash'' = VStr s" "eget b ''prev_hash'' = VStr t" "length s = length t"
  shows "s = t \<or> events_collide a b"
proof -
  obtain u eva v evb where ev: "from_dict u a = Inr eva" "from_dict v b = Inr evb"
    using assms(1,2) unfolding authentic_def by metis
  have "compute_hash eva = compute_hash evb"
    using assms(3) from_dict_id [OF ev(1)] from_dict_id [OF ev(2)] by (simp add: eid_def)
  then have "hash_content eva = hash_content evb \<or> events_collide a b"
    using ev by (auto simp: compute_hash_def events_collide_def)
  moreover have "s = t" if "hash_content eva = hash_content evb"
    using that hash_content_prev [of eva s] hash_content_prev [of evb t] assms(4-6)
      read_event_prev [OF from_dict_read [OF ev(1)]] read_event_prev [OF from_dict_read [OF ev(2)]]
    by auto
  ultimately show ?thesis by blast
qed

lemma id_length: "authentic env e \<Longrightarrow> \<exists>s. eid e = VStr s \<and> length s = 64"
proof -
  assume "authentic env e"
  then obtain now ev where "from_dict now e = Inr ev" unfolding authentic_def by blast
  then show ?thesis by (simp add: eid_def from_dict_id compute_hash_def)
qed

lemma shared_history:
  assumes a: "ledger_ok env la" "i < length (lg_events la)" and b: "ledger_ok env lb" "j < length (lg_events lb)"
    and same: "eid (lg_events la ! i) = eid (lg_events lb ! j)" and k: "k \<le> i" "k \<le> j"
  shows "eid (lg_events la ! (i - k)) = eid (lg_events lb ! (j - k)) \<or>
    (\<exists>m < k. events_collide (lg_events la ! (i - m)) (lg_events lb ! (j - m)))"
  using k
proof (induction k)
  case 0
  then show ?case using same by simp
next
  case (Suc k)
  let ?as = "lg_events la" and ?bs = "lg_events lb"
  obtain x y where link: "prev_linked x ?as" "prev_linked y ?bs" using a(1) b(1) by (auto simp: ledger_ok_def)
  have idx: "i - k = Suc (i - Suc k)" "j - k = Suc (j - Suc k)" using Suc.prems by auto
  have auth: "authentic env (?as ! m)" if "m \<le> i" for m using a that by (simp add: ledger_ok_def)
  have auth': "authentic env (?bs ! m)" if "m \<le> j" for m using b that by (simp add: ledger_ok_def)
  obtain s t where st: "eid (?as ! (i - Suc k)) = VStr s" "length s = 64" "eid (?bs ! (j - Suc k)) = VStr t" "length t = 64"
    using id_length [OF auth] id_length [OF auth'] by (metis diff_le_self)
  have prev: "eget (?as ! (i - k)) ''prev_hash'' = VStr s" "eget (?bs ! (j - k)) ''prev_hash'' = VStr t"
    using linked_nth [OF link(1), of "i - Suc k"] linked_nth [OF link(2), of "j - Suc k"] idx st a(2) b(2) by simp_all
  have "eid (?as ! (i - k)) = eid (?bs ! (j - k)) \<or> (\<exists>m < k. events_collide (?as ! (i - m)) (?bs ! (j - m)))"
    using Suc by simp
  then show ?case
  proof
    assume "eid (?as ! (i - k)) = eid (?bs ! (j - k))"
    then have "s = t \<or> events_collide (?as ! (i - k)) (?bs ! (j - k))"
      using same_id_same_prev [OF auth auth' _ prev] st by simp
    then show ?case using st by auto
  qed (use less_SucI in blast)
qed

end
