(* ===== verification/Ledger_Demo.thy ===== *)
theory Ledger_Demo
  imports Ledger_Sync
begin

section \<open>Ledgers the properties are applied to\<close>

text \<open>
  A node that signs one vote, the ledger it appends it to, and the checks that accept it. The
  signature primitive accepts everything; the hashes are never evaluated.
\<close>

definition demo_env :: mesh_env where
  "demo_env = \<lparr>ed25519_verify = (\<lambda>key sig msg. True), ecdsa_p256_verify = (\<lambda>key sig msg. False),
     legacy_ids_blocked = True, economy_registered = False, max_event_age = 0, log2_of = (\<lambda>x. x)\<rparr>"

definition demo_host :: host where
  "demo_host = \<lparr>h_mesh = demo_env, h_now = Fin 100, h_salt = [7], h_saves = (\<lambda>_. True), h_archives = (\<lambda>_. True),
     h_logs = (\<lambda>_. True), h_spool_limit = 2, h_spool_sender_limit = 1, h_spool_ttl = 3600\<rparr>"

definition demo_key :: string where
  "demo_key = ''AAAA''"

definition demo_node :: string where
  "demo_node = the (derive_node_id demo_key False)"

definition demo_vote :: event where
  "demo_vote = [(''target_id'', VStr ''n2''), (''vote'', VInt 1), (''gate'', VStr [])]"

definition demo_append :: "int \<Rightarrow> append_args" where
  "demo_append n = \<lparr>ap_event_type = ''vote'', ap_node_id = demo_node, ap_payload = demo_vote, ap_signature = ''aa'',
     ap_sequence = n, ap_ephemeral = False, ap_public_key = demo_key, ap_public_key_algo = ''Ed25519'',
     ap_protocol_version = [], ap_timestamp = Fin 0, ap_timestamp_bucket = 0\<rparr>"

lemma demo_vote_normal: "normalize_payload ''vote'' demo_vote = Inr demo_vote"
  by code_simp

lemma demo_vote_valid:
  "validate_event_payload demo_env ''vote'' (VDict demo_vote) = Inr (True, ''ok'')"
  "validate_public_ledger_payload demo_env ''vote'' demo_vote = Inr (True, ''ok'')"
  "payload_bytes demo_vote \<le> MAX_PAYLOAD_BYTES" "demo_vote \<noteq> []"
  by code_simp+

lemma demo_vote_flag: "payload_size_flag (demo_append n) demo_vote = demo_vote"
  by (simp add: payload_size_flag_def demo_append_def demo_vote_def without_key_def)

subsection \<open>The node identifier\<close>

lemma hex_digit_space: "0 \<le> n \<Longrightarrow> n < 16 \<Longrightarrow> \<not> is_space (hex_digit n)"
  by (auto simp: hex_digit_def is_space_def of_char_of Let_def)

lemma hex_byte_space:
  assumes "c \<in> set (hex_byte (n mod 256))"
  shows "\<not> is_space c"
proof -
  have "0 \<le> n mod 256 div 16 \<and> n mod 256 div 16 < 16" "0 \<le> n mod 256 mod 16 \<and> n mod 256 mod 16 < 16"
    by presburger+
  then show ?thesis using assms hex_digit_space by (auto simp: hex_byte_def)
qed

lemma digest_space: "c \<in> set (sha256_of_bytes bs) \<Longrightarrow> \<not> is_space c"
  unfolding sha256_of_bytes_def hex_word_def set_concat by (auto dest!: hex_byte_space)

lemma no_space_strip:
  assumes "\<forall>c \<in> set s. \<not> is_space c"
  shows "py_strip s = s"
proof -
  have "dropWhile is_space t = t" if "\<forall>c \<in> set t. \<not> is_space c" for t
    using that by (cases t) simp_all
  from this [of s] this [of "rev s"] assms show ?thesis by (simp add: py_strip_def)
qed

lemma node_id_strip: "py_strip (derive_node_id_from_digest (sha256_of_bytes bs) n) = derive_node_id_from_digest (sha256_of_bytes bs) n"
  by (rule no_space_strip)
    (use digest_space in \<open>auto simp: derive_node_id_from_digest_def NODE_ID_PREFIX_def is_space_def dest!: in_set_takeD\<close>)

lemma derived_binding:
  assumes "derive_node_id key False = Some node"
  shows "verify_node_binding env (VStr node) (VStr key)"
proof -
  obtain bs where bs: "b64decode False False key = Some bs"
      "node = derive_node_id_from_digest (sha256_of_bytes bs) NODE_ID_HEX_LEN"
    using assms by (auto simp: derive_node_id_def node_digest_def)
  have "node \<noteq> []" "py_strip node = node"
    by (simp_all add: bs(2) node_id_strip) (simp add: derive_node_id_from_digest_def NODE_ID_PREFIX_def)
  then show ?thesis
    by (auto simp: verify_node_binding_def derive_node_id_candidates_def node_digest_def py_or_def py_str_def Let_def
        bs(1) bs(2) [symmetric])
qed

subsection \<open>The vote is appended\<close>

lemma demo_node_binding: "verify_node_binding demo_env (VStr demo_node) (VStr demo_key)" "demo_node \<noteq> []"
proof -
  have "b64decode False False demo_key = Some [0, 0, 0]" by code_simp
  then obtain node where "derive_node_id demo_key False = Some node"
    by (auto simp: derive_node_id_def node_digest_def)
  then have "derive_node_id demo_key False = Some demo_node" by (simp add: demo_node_def)
  then show b: "verify_node_binding demo_env (VStr demo_node) (VStr demo_key)" by (rule derived_binding)
  show "demo_node \<noteq> []" by (rule node_id_not_empty [OF b])
qed

lemma demo_algo: "parse_public_key_algo (VStr ''Ed25519'') = Inr ''Ed25519''"
  by code_simp

lemma demo_version: "validate_protocol_fields PROTOCOL_VERSION NETWORK_ID = (True, ''ok'')"
  by code_simp

lemma demo_signature: "verify_signature demo_env (VStr demo_key) (VStr ''Ed25519'') (VStr ''aa'') text = Inr True"
proof -
  have "from_hex ''aa'' = Some [170]" "b64decode False False demo_key = Some [0, 0, 0]"
    by code_simp+
  then show ?thesis by (simp add: verify_signature_def demo_algo demo_env_def)
qed

lemma demo_signed:
  "signed_over demo_env ''vote'' (VStr demo_node) n (VStr demo_key) (VStr ''Ed25519'') (VStr ''aa'') [demo_vote] = Inr True"
  by (simp add: build_signature_payload_def demo_vote_normal demo_signature)

text \<open>A ledger that takes the node's next vote\<close>

definition demo_ready :: "int \<Rightarrow> ledger \<Rightarrow> bool" where
  "demo_ready n lg \<longleftrightarrow> lg_revocations lg = [] \<and> length (lg_events lg) < 9 \<and> 0 < n \<and>
     get_or (dict_get (lg_node_sequences lg) (VStr demo_node)) 0 < n \<and>
     get_or (dict_get (lg_bindings lg) demo_key) (VStr demo_node) = VStr demo_node"

lemma demo_append_checks:
  "demo_ready n lg \<Longrightarrow> sequence_checks (demo_append n) (Node_Sequences, VStr demo_node) lg = Inr ()"
  "public_payload_checks demo_host (demo_append n) = Inr demo_vote"
  "identity_checks demo_host (demo_append n) demo_vote = Inr demo_vote"
  by (simp add: sequence_checks_def demo_append_def last_sequence_def table_get_def hashable_def demo_ready_def)
    (use demo_vote_valid demo_vote_flag in \<open>simp add: public_payload_checks_def demo_append_def demo_host_def demo_vote_normal Let_def\<close>,
     use demo_vote_valid demo_node_binding demo_algo demo_version in
       \<open>simp add: identity_checks_def demo_append_def demo_host_def demo_key_def version_of_def\<close>)

lemma demo_signature_checks:
  "demo_ready m lg \<Longrightarrow> signature_checks demo_host (demo_append n) ''vote'' [demo_vote] lg = Inr ()"
  using demo_signed
  by (simp add: signature_checks_def demo_append_def demo_host_def revocation_status_def table_get_def hashable_def
      demo_ready_def)

lemma demo_appended:
  assumes ready: "demo_ready n lg"
  obtains e lg' where "append_event demo_host (demo_append n) lg = (Inr e, lg')" "lg_events lg' = lg_events lg @ [e]"
    "lg_head lg' = eid e" "slot_of e = (Node_Sequences, VStr demo_node)" "seq_of e = n"
    "n < m \<Longrightarrow> length (lg_events lg) < 8 \<Longrightarrow> demo_ready m lg'"
proof -
  let ?s = "lg\<lparr>lg_bindings := dict_set (lg_bindings lg) demo_key (VStr demo_node)\<rparr>"
  let ?ev = "event_of_args demo_host (demo_append n) ''vote'' demo_vote (Fin 100) ?s"
  have active: "''vote'' \<in> set (ACTIVE_APPEND_EVENT_TYPES demo_env)" by code_simp
  moreover have "bind_public_key (VStr demo_key) (VStr demo_node) lg = (Inr (), ?s)"
    using demo_node_binding(2) ready unfolding demo_ready_def
    by (cases "dict_get (lg_bindings lg) demo_key") (simp_all add: bind_public_key_def demo_key_def py_or_def py_str_def)
  moreover have "demo_ready n ?s" using ready by (simp add: demo_ready_def)
  ultimately have append: "append_event demo_host (demo_append n) lg =
      commit_event demo_host (Node_Sequences, VStr demo_node) n False ?ev ?s"
    using demo_append_checks(1) [OF ready] demo_append_checks(2,3) demo_signature_checks [of n ?s]
    by (simp add: append_event_def add_event_def pbind_def reading_def demo_append_def demo_host_def Let_def
        bucketed_time_def)
  have "\<exists>t. commit_event demo_host (Node_Sequences, VStr demo_node) n False ?ev ?s = (Inr (to_dict ?ev), t) \<and>
      lg_events t = lg_events lg @ [to_dict ?ev] \<and> lg_head t = eid (to_dict ?ev) \<and> lg_revocations t = [] \<and>
      dict_get (lg_node_sequences t) (VStr demo_node) = Some n \<and> lg_bindings t = lg_bindings ?s"
    using ready unfolding demo_ready_def
    by (simp add: commit_event_def Let_def pbind_def updating_def pdone_def save_def enforce_memory_cap_def
        update_counters_for_event_def count_type_def reading_def table_get_def hashable_def link_event_def
        remember_event_def invalidate_merkle_cache_def write_wal_def new_ledger_def MAX_CHAIN_MEMORY_def
        new_entry_fields new_entry_def [symmetric])
  then obtain t where t: "append_event demo_host (demo_append n) lg = (Inr (to_dict ?ev), t)"
      "lg_events t = lg_events lg @ [to_dict ?ev]" "lg_head t = eid (to_dict ?ev)" "lg_revocations t = []"
      "dict_get (lg_node_sequences t) (VStr demo_node) = Some n" "lg_bindings t = lg_bindings ?s"
    unfolding append by blast
  have "demo_ready m t" if "n < m" "length (lg_events lg) < 8"
    using that t ready by (simp add: demo_ready_def)
  moreover have "slot_of (to_dict ?ev) = (Node_Sequences, VStr demo_node)" "seq_of (to_dict ?ev) = n"
    using append_slot(1) [OF active] new_entry_sequence [of demo_host "demo_append n"]
    by (simp_all add: slot_of_def seq_of_def new_entry_def [symmetric] new_entry_fields demo_append_def)
  ultimately show thesis using that t by blast
qed

definition demo_ledger :: ledger where
  "demo_ledger = snd (append_event demo_host (demo_append 2) (snd (append_event demo_host (demo_append 1)
     (new_ledger demo_host))))"

lemma demo_two:
  obtains a b where "lg_events demo_ledger = [a, b]" "slot_of a = slot_of b" "seq_of a = 1" "seq_of b = 2"
    "lg_head demo_ledger = eid b"
proof -
  have "demo_ready 1 (new_ledger demo_host)" by (simp add: demo_ready_def new_ledger_def dict_get_def)
  then obtain a s where a: "append_event demo_host (demo_append 1) (new_ledger demo_host) = (Inr a, s)"
      "lg_events s = [a]" "slot_of a = (Node_Sequences, VStr demo_node)" "seq_of a = 1" "demo_ready 2 s"
    by (rule demo_appended [where m = 2]) (auto simp: new_ledger_def)
  from a(5) obtain b t where b: "append_event demo_host (demo_append 2) s = (Inr b, t)"
      "lg_events t = [a, b]" "slot_of b = (Node_Sequences, VStr demo_node)" "seq_of b = 2" "lg_head t = eid b"
    by (rule demo_appended [where m = 3]) (auto simp: a(2))
  then show thesis using that a by (simp add: demo_ledger_def)
qed

end
