(* ===== verification/Ledger_Effects.thy ===== *)
theory Ledger_Effects
  imports Ledger_Demo "HOL-Library.Multiset" "HOL-Library.Sublist"
begin

section \<open>What the operations do to the events\<close>

text \<open>
  An operation that refuses has not touched the chain: the commit of an event and the rebuild after a
  fork raise or end, and never refuse. From this follow the effects of the operations on the list of
  events, and the orderings of forks that are found.
\<close>

subsection \<open>Programs that only raise\<close>

definition only_raises :: "('s, 'a) prog \<Rightarrow> bool" where
  "only_raises m \<longleftrightarrow> (\<forall>s e t. m s = (Inl e, t) \<longrightarrow> (\<exists>x. e = Raised x))"

lemma only_raises_pdone: "only_raises (pdone x)"
  by (simp add: only_raises_def pdone_def)

lemma only_raises_updating: "only_raises (updating f)"
  by (simp add: only_raises_def updating_def)

lemma only_raises_reading: "only_raises (reading (\<lambda>s. raising (f s)))"
  by (auto simp: only_raises_def reading_def raising_def split: sum.splits)

lemma only_raises_pbind: "only_raises m \<Longrightarrow> (\<And>x. only_raises (f x)) \<Longrightarrow> only_raises (pbind m f)"
  unfolding only_raises_def pbind_Inl_iff by blast

lemma only_raises_each: "(\<And>x. only_raises (f x)) \<Longrightarrow> only_raises (each f xs)"
  by (induction xs) (auto intro: only_raises_pdone only_raises_pbind)

lemma only_raises_state: "(\<And>s. only_raises (m s)) \<Longrightarrow> only_raises (\<lambda>s. m s s)"
  unfolding only_raises_def by blast

lemma only_raisesD: "only_raises m \<Longrightarrow> m s \<noteq> (Inl (Refused r), t)" "only_raises m \<Longrightarrow> m s \<noteq> (Inl Duplicate, t)"
  by (auto simp: only_raises_def)

lemmas only_raises_rules =
  only_raises_pdone only_raises_updating only_raises_reading only_raises_pbind only_raises_each

lemma raises_count_type: "only_raises (count_type e)"
  unfolding count_type_def Let_def by (intro only_raises_rules)

lemma raises_update_counters: "only_raises (update_counters_for_event e)"
  unfolding update_counters_for_event_def by (intro only_raises_rules raises_count_type)

lemma raises_rebuild_counters: "only_raises (rebuild_counters h)"
  unfolding rebuild_counters_def
  by (rule only_raises_state) (intro only_raises_rules raises_count_type)

lemma raises_apply_revocation: "only_raises (apply_revocation e)"
  unfolding apply_revocation_def by (intro only_raises_rules)

lemma raises_revoke_if: "only_raises (revoke_if e)"
  by (simp add: revoke_if_def raises_apply_revocation only_raises_pdone)

lemma raises_rebuild_revocations: "only_raises rebuild_revocations"
  unfolding rebuild_revocations_def by (rule only_raises_state) (intro only_raises_rules raises_revoke_if)

lemma raises_save: "only_raises (save h)"
proof -
  have "only_raises (pbind (updating (spill n)) (\<lambda>_. pbind (rebuild_counters h) (\<lambda>_.
      updating (\<lambda>lg. (invalidate_merkle_cache lg)\<lparr>lg_dirty := True\<rparr>))))" for n
    by (intro only_raises_rules raises_rebuild_counters)
  then have "only_raises (enforce_memory_cap h)"
    by (auto simp: only_raises_def enforce_memory_cap_def Let_def)
  then show ?thesis unfolding save_def by (intro only_raises_rules)
qed

lemma raises_rebuild_index: "only_raises (rebuild_index h i e)"
proof -
  have "only_raises (reading (\<lambda>lg. Inl (Raised x)))" for x
    by (simp add: only_raises_def reading_def)
  then show ?thesis
    unfolding rebuild_index_def Let_def
    by (cases "mget e ''event_id'' (VStr [])") (auto intro!: only_raises_rules)
qed

lemma raises_rebuild_sequence: "only_raises (rebuild_sequence e)"
  unfolding rebuild_sequence_def Let_def by (auto intro!: only_raises_rules)

lemma raises_rebuild_state: "only_raises (rebuild_state h)"
  unfolding rebuild_state_def rebuild_event_def
  by (rule only_raises_state)
    (intro only_raises_rules raises_rebuild_index raises_rebuild_sequence raises_revoke_if)

lemma raises_replace_tail: "only_raises (replace_tail h i ordered)"
  unfolding replace_tail_def
  by (intro only_raises_rules raises_rebuild_state raises_rebuild_revocations raises_rebuild_counters raises_save)

lemma raises_commit_event: "only_raises (commit_event h sl n rv ev)"
  unfolding commit_event_def Let_def
  by (intro only_raises_rules raises_update_counters raises_save) (auto intro: raises_apply_revocation only_raises_pdone)

lemma raises_accept_event: "only_raises (accept_event h e t event_id n sl)"
  unfolding accept_event_def
  by (intro only_raises_rules raises_update_counters) (auto intro: raises_apply_revocation only_raises_pdone)

subsection \<open>Annotations\<close>

text \<open>The metadata is no part of what the invariant reads.\<close>

lemma meta_lookup:
  assumes "k \<noteq> ''meta''"
  shows "mget (dict_set e ''meta'' m) k d = mget e k d" "eget (dict_set e ''meta'' m) k = eget e k"
    "map_of (dict_set e ''meta'' m) k = map_of e k"
  using assms dict_get_set_other [of k "''meta''" e m] by (simp_all add: mget_def eget_def dict_get_def)

lemma meta_keeps:
  "eid (dict_set e ''meta'' m) = eid e" "slot_of (dict_set e ''meta'' m) = slot_of e"
  "seq_of (dict_set e ''meta'' m) = seq_of e" "key_of (dict_set e ''meta'' m) = key_of e"
  "event_sequence (dict_set e ''meta'' m) = event_sequence e" "payload (dict_set e ''meta'' m) = payload e"
  "from_dict now (dict_set e ''meta'' m) = from_dict now e"
  by (simp_all add: eid_def slot_of_def seq_of_def key_of_def sget_or_def event_sequence_def payload_def from_dict_def
      read_event_def req_def meta_lookup cong: if_cong)

lemma authentic_meta: "authentic env (dict_set e ''meta'' m) \<longleftrightarrow> authentic env e"
proof -
  have "private_gate_signature_payload_variants g (dict_set e ''meta'' m) = private_gate_signature_payload_variants g e" for g
    by (rule gate_variants_payload) (simp add: meta_keeps)
  then show ?thesis
    by (simp add: authentic_def carries_signature_def payload_dict_def fork_payload_def signature_payloads_def
        meta_lookup meta_keeps)
qed

lemma linked_update:
  "eid e' = eid (es ! i) \<Longrightarrow> eget e' ''prev_hash'' = eget (es ! i) ''prev_hash'' \<Longrightarrow> i < length es \<Longrightarrow>
    prev_linked b (es[i := e']) = prev_linked b es"
  by (induction es arbitrary: b i) (auto split: nat.split)

lemma ledger_ok_annotate:
  assumes ok: "ledger_ok env lg" and i: "i < length (lg_events lg)"
  shows "ledger_ok env (lg\<lparr>lg_events := (lg_events lg)[i := dict_set (lg_events lg ! i) ''meta'' m]\<rparr>)"
proof -
  let ?es = "lg_events lg" let ?fs = "?es[i := dict_set (?es ! i) ''meta'' m]"
  have nth: "?fs ! j = (if j = i then dict_set (?es ! i) ''meta'' m else ?es ! j)" if "j < length ?es" for j
    using that by simp
  have elem: "\<exists>e \<in> set ?es. f = e \<or> f = dict_set e ''meta'' m" if "f \<in> set ?fs" for f
    using that i set_update_subset_insert [of ?es i] nth_mem [OF i] by blast
  have eids: "map eid ?fs = map eid ?es"
    by (rule nth_equalityI) (use i in \<open>auto simp: nth_list_update meta_keeps\<close>)
  have "tip b ?fs = tip b ?es" for b
    using i last_map [of ?fs eid] last_map [of ?es eid] eids by (auto simp: tip_def)
  moreover have "prev_linked b ?fs = prev_linked b ?es" for b
    by (rule linked_update) (use i in \<open>simp_all add: meta_keeps meta_lookup\<close>)
  moreover have "index_ok ?fs (lg_index lg)"
    unfolding index_ok_def
  proof (intro conjI allI impI ballI)
    fix k j assume j: "dict_get (lg_index lg) k = Some j"
    then have "j < length ?es" "eid (?es ! j) = k" using ok by (auto simp: ledger_ok_def index_ok_def)
    then show "j < length ?fs" "eid (?fs ! j) = k" using nth [of j] by (auto simp: meta_keeps)
  next
    fix f assume "f \<in> set ?fs"
    then show "dict_get (lg_index lg) (eid f) \<noteq> None"
      using elem ok by (fastforce simp: ledger_ok_def index_ok_def meta_keeps)
  qed
  moreover have "increasing ?fs"
  proof -
    have s: "slot_of (?fs ! j) = slot_of (?es ! j) \<and> seq_of (?fs ! j) = seq_of (?es ! j)" if "j < length ?es" for j
      using nth [OF that] by (simp add: meta_keeps)
    have "increasing ?es" using ok by (simp add: ledger_ok_def)
    then show ?thesis unfolding increasing_def sorted_wrt_iff_nth_less using s by simp
  qed
  moreover have "bounded ?fs (lg\<lparr>lg_events := ?fs\<rparr>)"
    unfolding bounded_def
  proof
    fix f assume "f \<in> set ?fs"
    then obtain e where e: "e \<in> set ?es" "f = e \<or> f = dict_set e ''meta'' m" using elem by blast
    have "bound_of sl (lg\<lparr>lg_events := ?fs\<rparr>) = bound_of sl lg" for sl
      by (cases "fst sl") (simp_all add: bound_of_def)
    then show "seq_of f \<le> bound_of (slot_of f) (lg\<lparr>lg_events := ?fs\<rparr>)"
      using ok e by (auto simp: ledger_ok_def bounded_def meta_keeps)
  qed
  moreover have "bound_keys ?fs (lg_bindings lg)"
    unfolding bound_keys_def
  proof
    fix f assume "f \<in> set ?fs"
    then obtain e where e: "e \<in> set ?es" "f = e \<or> f = dict_set e ''meta'' m" using elem by blast
    have "mget (dict_set e ''meta'' m) ''node_id'' (VStr []) = mget e ''node_id'' (VStr [])"
      by (simp add: meta_lookup)
    then show "dict_get (lg_bindings lg) (key_of f) = Some (mget f ''node_id'' (VStr []))"
      using ok e by (auto simp: ledger_ok_def bound_keys_def meta_keeps)
  qed
  moreover have "authentic env f" if "f \<in> set ?fs" for f
    using elem [OF that] ok authentic_meta by (auto simp: ledger_ok_def)
  ultimately show ?thesis using ok by (simp add: ledger_ok_def)
qed

lemma ok_annotate: "preserves (ledger_ok env) (annotate_event h event_id m)"
proof (rule preservesI)
  fix lg assume ok: "ledger_ok env lg"
  have p: "preserves (ledger_ok env) (pbind (save h) (\<lambda>_. pdone True))"
    by (intro preserves_rules ok_save)
  show "ledger_ok env (snd (annotate_event h event_id m lg))"
  proof (cases "dict_get (lg_index lg) (VStr event_id)")
    case (Some i)
    let ?s = "lg\<lparr>lg_events := (lg_events lg)[i := dict_set (lg_events lg ! i) ''meta'' (VDict m)]\<rparr>"
    have "ledger_ok env (snd (pbind (save h) (\<lambda>_. pdone True) ?s))" if "i < length (lg_events lg)"
      by (rule preservesD [OF p]) (rule ledger_ok_annotate [OF ok that])
    then show ?thesis using ok Some by (simp add: annotate_event_def pbind_updating)
  qed (simp add: annotate_event_def ok)
qed

subsection \<open>Forks\<close>

lemma apply_fork_refused:
  assumes "apply_fork h es hd_hash proof_count quorum lg = Some (Inl e, lg')" and "\<And>x. e \<noteq> Raised x"
  shows "lg' = lg"
proof -
  have "lg' = lg" if "replace_tail h i o' lg = (Inl e, lg')" for i o'
    using that assms(2) raises_replace_tail unfolding only_raises_def by blast
  with assms show ?thesis
    by (auto simp: apply_fork_def pbind_Inl_iff reading_def split: sum.splits option.splits prod.splits)
qed

abbreviation prev_of :: "event \<Rightarrow> pyval" where
  "prev_of e \<equiv> mget e ''prev_hash'' (VStr [])"

lemma by_prev_of_distinct:
  assumes "distinct (map prev_of es)" and "\<forall>e \<in> set es. truthy (prev_of e) \<and> hashable (prev_of e) \<and> dict_get d (prev_of e) = None"
  shows "by_prev_of es d = Inr (Some (d @ map (\<lambda>e. (prev_of e, e)) es))"
  using assms
proof (induction es arbitrary: d)
  case (Cons e es)
  have "dict_get d (prev_of e) = None" using Cons.prems(2) by simp
  then have "by_prev_of (e # es) d = by_prev_of es (d @ [(prev_of e, e)])"
    using Cons.prems(2) by (simp add: Let_def dict_has_def dict_set_new)
  also have "\<dots> = Inr (Some ((d @ [(prev_of e, e)]) @ map (\<lambda>e. (prev_of e, e)) es))"
  proof (rule Cons.IH)
    have "prev_of x \<noteq> prev_of e" if "x \<in> set es" for x
      using Cons.prems(1) imageI [OF that, of prev_of] by auto
    then show "\<forall>x \<in> set es. truthy (prev_of x) \<and> hashable (prev_of x) \<and> dict_get (d @ [(prev_of e, e)]) (prev_of x) = None"
      using Cons.prems(2) by (simp add: dict_get_None_iff)
  qed (use Cons.prems(1) in simp)
  finally show ?case by simp
qed simp

lemma dict_get_pairs:
  assumes "distinct (map f es)"
  shows "e \<in> set es \<Longrightarrow> dict_get (map (\<lambda>e. (f e, e)) es) (f e) = Some e"
    "k \<notin> f ` set es \<Longrightarrow> dict_get (map (\<lambda>e. (f e, e)) es) k = None"
  using assms by (subst dict_get_Some_iff) (auto simp: dict_get_None_iff o_def)

lemma follow_links_chain:
  assumes "prev_linked current ys" and "\<forall>e \<in> set ys. dict_get d (prev_of e) = Some e \<and> truthy (eid e) \<and> truthy (prev_of e)"
    and "\<forall>v \<in> set (current # map eid ys). hashable v" and "dict_get d (tip current ys) = None"
  shows "follow_links d current acc = Some (Inr (Some (acc @ ys)))"
  using assms
proof (induction ys arbitrary: current acc)
  case Nil
  then show ?case by (simp add: follow_links.simps tip_def)
next
  case (Cons e ys)
  then have "prev_of e = current" "mget e ''event_id'' (VStr []) = eid e"
    using mget_truthy [of e "''prev_hash''"] by (auto simp: eid_def mget_def eget_def get_or_def split: option.splits)
  moreover have "follow_links d (eid e) (acc @ [e]) = Some (Inr (Some ((acc @ [e]) @ ys)))"
    by (rule Cons.IH) (use Cons.prems in \<open>auto simp: tip_def\<close>)
  ultimately show ?case using Cons.prems by (subst follow_links.simps) simp
qed

lemma distinct_butlast_last: "distinct xs \<Longrightarrow> xs \<noteq> [] \<Longrightarrow> last xs \<notin> set (butlast xs)"
  by (induction xs rule: rev_induct) auto

lemma order_chain_finds:
  assumes chain: "prev_linked prev chain" and perm: "mset es = mset chain"
    and names: "distinct (prev # map eid chain)" "\<forall>v \<in> set (prev # map eid chain). \<exists>s. v = VStr s \<and> s \<noteq> []"
  shows "order_chain_from prev es = Some (Inr (Some chain))"
proof -
  have prevs: "map prev_of chain = butlast (prev # map eid chain)"
    using chain names(2)
  proof (induction chain arbitrary: prev)
    case (Cons e chain)
    then have "prev_of e = prev" by (auto simp: mget_def eget_def get_or_def split: option.splits)
    with Cons show ?case by (cases chain) auto
  qed simp
  have same: "set es = set chain" "length es = length chain"
    using perm by (metis set_mset_mset, metis size_mset)
  have dist: "distinct (map prev_of es)"
  proof -
    have "mset (map prev_of es) = mset (map prev_of chain)" by (simp add: perm)
    moreover have "distinct (map prev_of chain)" unfolding prevs using names(1) by (rule distinct_butlast)
    ultimately show ?thesis using mset_eq_imp_distinct_iff by blast
  qed
  have str: "truthy (prev_of e) \<and> hashable (prev_of e)" if "e \<in> set es" for e
  proof -
    have "prev_of e \<in> set (prev # map eid chain)"
      using that same prevs
      using in_set_butlastD [of "prev_of e" "prev # map eid chain"] imageI [of e "set chain" prev_of]
      by (simp only: set_map [symmetric])
    then show ?thesis using names(2) by (auto simp: hashable_def)
  qed
  have "by_prev_of es [] = Inr (Some (map (\<lambda>e. (prev_of e, e)) es))"
    using by_prev_of_distinct [OF dist, of "[]"] str by (simp add: dict_get_def)
  moreover have "follow_links (map (\<lambda>e. (prev_of e, e)) es) prev [] = Some (Inr (Some ([] @ chain)))"
  proof (rule follow_links_chain [OF chain])
    show "\<forall>e \<in> set chain. dict_get (map (\<lambda>e. (prev_of e, e)) es) (prev_of e) = Some e \<and> truthy (eid e) \<and> truthy (prev_of e)"
      using dict_get_pairs(1) [OF dist] same str names(2) by fastforce
    show "\<forall>v \<in> set (prev # map eid chain). hashable v" using names(2) by (auto simp: hashable_def)
    have "tip prev chain = last (prev # map eid chain)" by (simp add: tip_def last_map)
    then have "tip prev chain \<notin> set (map prev_of chain)"
      unfolding prevs using names(1) using distinct_butlast_last [of "prev # map eid chain"] by simp
    then show "dict_get (map (\<lambda>e. (prev_of e, e)) es) (tip prev chain) = None"
      by (intro dict_get_pairs(2) [OF dist]) (simp add: same)
  qed
  ultimately show ?thesis by (simp add: order_chain_from_def rmap_def same_number_def same)
qed

subsection \<open>Events that are added\<close>

lemma head_leaves_core: "leaves core m \<Longrightarrow> leaves lg_head m"
  by (simp add: leaves_def core_fields)

lemma leavesD: "leaves v m \<Longrightarrow> m s = (r, t) \<Longrightarrow> v t = v s"
  unfolding leaves_def by (metis snd_conv)

lemma leaves_save_head: "leaves lg_head (save h)"
proof -
  have "leaves lg_head (enforce_memory_cap h)"
    unfolding leaves_def
  proof
    fix lg :: ledger
    have "leaves lg_head (pbind (updating (spill n)) (\<lambda>_. pbind (rebuild_counters h) (\<lambda>_.
        updating (\<lambda>lg. (invalidate_merkle_cache lg)\<lparr>lg_dirty := True\<rparr>))))" for n
      by (intro leaves_rules leaves_updating head_leaves_core [OF leaves_rebuild_counters])
        (simp_all add: spill_def Let_def invalidate_merkle_cache_def)
    then show "lg_head (snd (enforce_memory_cap h lg)) = lg_head lg"
      by (simp add: enforce_memory_cap_def Let_def leaves_def)
  qed
  then show ?thesis unfolding save_def by (intro leaves_rules leaves_updating) simp_all
qed

lemma commit_event_effect:
  assumes "commit_event h sl n rv ev lg = (Inr e, lg')"
  shows "e = to_dict ev" "lg_events lg' = hot (lg_events lg @ [e])" "lg_head lg' = eid e"
proof -
  let ?start = "invalidate_merkle_cache (remember_event h (compute_hash ev)
    (link_event h sl n (compute_hash ev) (to_dict ev) (write_wal h (to_dict ev) lg)))"
  from assms obtain s1 s2 where s: "update_counters_for_event (to_dict ev) ?start = (Inr (), s1)"
      "(if rv then apply_revocation (to_dict ev) else pdone ()) s1 = (Inr (), s2)" "save h s2 = (Inr (), lg')"
      and e: "e = to_dict ev"
    by (auto simp: commit_event_def Let_def pbind_updating prog_simps)
  have "leaves core (if rv then apply_revocation (to_dict ev) else pdone ())"
    by (simp add: leaves_apply_revocation leaves_pdone)
  then have "core s2 = core s1" using s(2) by (rule leavesD)
  also have "core s1 = core ?start" by (rule leavesD [OF leaves_update_counters s(1)])
  finally have core: "core s2 = core ?start" .
  have start: "lg_events ?start = lg_events lg @ [to_dict ev]" "lg_head ?start = VStr (compute_hash ev)"
    by (simp_all add: invalidate_merkle_cache_def remember_event_def link_event_def write_wal_def)
  show "e = to_dict ev" by (rule e)
  show "lg_events lg' = hot (lg_events lg @ [e])"
    using save_events [OF s(3)] core start(1) e by (simp add: core_fields)
  show "lg_head lg' = eid e"
    using leavesD [OF leaves_save_head s(3)] core start(2) e to_dict_id [of ev] by (simp add: core_fields eid_def)
qed

lemma bind_effect: "bind_public_key key node lg = (r, lg') \<Longrightarrow> \<exists>d. lg' = lg\<lparr>lg_bindings := d\<rparr>"
  by (cases rule: bind_cases) (auto simp: Let_def intro: exI [of _ "lg_bindings lg"])

text \<open>An append that succeeds adds one event at the end; one that refuses may only have bound the key.\<close>

lemma add_event_effect:
  assumes "add_event h a t sl checks variants stamp lg = (Inr e, lg')"
  shows "lg_events lg' = hot (lg_events lg @ [e]) \<and> lg_head lg' = eid e \<and>
    (\<exists>p ts d. e = new_entry h a t p ts (lg\<lparr>lg_bindings := d\<rparr>))"
proof -
  from assms obtain p ts s where s: "bind_public_key (VStr (ap_public_key a)) (VStr (ap_node_id a)) lg = (Inr (), s)"
      "commit_event h sl (ap_sequence a) (t = ''key_revoke'') (event_of_args h a t p ts s) s = (Inr e, lg')"
    by (auto simp: add_event_def prog_simps)
  obtain d where "s = lg\<lparr>lg_bindings := d\<rparr>" using bind_effect [OF s(1)] by blast
  with commit_event_effect [OF s(2)] show ?thesis unfolding new_entry_def by auto
qed

lemma add_event_refused:
  assumes "add_event h a t sl checks variants stamp lg = (Inl (Refused reason), lg')"
  shows "\<exists>d. lg' = lg\<lparr>lg_bindings := d\<rparr>"
proof -
  have "lg = lg\<lparr>lg_bindings := lg_bindings lg\<rparr>" by simp
  then show ?thesis
    using assms bind_effect only_raisesD(1) [OF raises_commit_event]
    unfolding add_event_def pbind_Inl_iff reading_eq by blast
qed

subsection \<open>Events that are ingested\<close>

lemma leaves_ingest_seen: "leaves lg_events (ingest_seen h event_id)"
  by (simp add: leaves_def ingest_seen_def split: prod.splits)

lemma leaves_bind: "leaves lg_events (bind_public_key key node)"
  by (simp add: leaves_def bind_public_key_def Let_def)

text \<open>A program that adds \<open>e\<close>, or refuses and adds nothing\<close>

definition adds :: "event \<Rightarrow> (ledger, 'a) prog \<Rightarrow> bool" where
  "adds e m \<longleftrightarrow> (\<forall>s r t. m s = (r, t) \<longrightarrow>
     (case r of
        Inr _ \<Rightarrow> lg_events t = lg_events s @ [e]
      | Inl (Raised _) \<Rightarrow> True
      | Inl _ \<Rightarrow> lg_events t = lg_events s))"

lemma adds_pbind:
  assumes "leaves lg_events m" and "\<And>x. adds e (f x)"
  shows "adds e (pbind m f)"
  unfolding adds_def
proof (intro allI impI)
  fix s r t assume run: "pbind m f s = (r, t)"
  obtain q u where q: "m s = (q, u)" by fastforce
  then have u: "lg_events u = lg_events s" by (rule leavesD [OF assms(1)])
  show "case r of Inr _ \<Rightarrow> lg_events t = lg_events s @ [e] | Inl (Raised _) \<Rightarrow> True | Inl _ \<Rightarrow> lg_events t = lg_events s"
  proof (cases q)
    case (Inl x)
    then show ?thesis using run q u by (auto simp: pbind_def split: refusal.splits)
  next
    case (Inr x)
    then have "f x u = (r, t)" using run q by (simp add: pbind_def)
    then show ?thesis using assms(2) [of x] u unfolding adds_def by metis
  qed
qed

lemma adds_prod: "(\<And>a b. adds e (f a b)) \<Longrightarrow> adds e (case x of (a, b) \<Rightarrow> f a b)"
  by (cases x) simp

lemma adds_accept: "adds e (accept_event h e t event_id n sl)"
  unfolding adds_def
proof (intro allI impI)
  fix s r u assume run: "accept_event h e t event_id n sl s = (r, u)"
  show "case r of Inr _ \<Rightarrow> lg_events u = lg_events s @ [e] | Inl (Raised _) \<Rightarrow> True | Inl _ \<Rightarrow> lg_events u = lg_events s"
  proof (cases r)
    case (Inl x)
    then obtain y where "x = Raised y" using run raises_accept_event unfolding only_raises_def by blast
    then show ?thesis using Inl by simp
  next
    case (Inr x)
    have "leaves lg_events (pbind (update_counters_for_event e) (\<lambda>_. pbind (updating (remember_event h event_id)) (\<lambda>_.
        pbind (if t = ''key_revoke'' then apply_revocation e else pdone ()) (\<lambda>_. pdone event_id))))"
      by (intro leaves_rules leaves_updating core_events [OF leaves_update_counters])
        (auto simp: remember_event_def intro: leaves_pdone core_events [OF leaves_apply_revocation])
    then have "lg_events u = lg_events (link_event h sl n event_id e s)"
      using run unfolding accept_event_def pbind_updating by (rule leavesD)
    then show ?thesis using Inr by (simp add: link_event_def)
  qed
qed

lemma adds_ingest_event: "adds e (ingest_event h expected_prev (VDict e))"
  unfolding ingest_event_def pyval.case
  by (intro adds_pbind adds_prod adds_accept leaves_reading leaves_ingest_seen leaves_bind)

lemma ingest_event_effect:
  assumes "ingest_event h expected_prev v lg = (r, lg')"
  shows "r = Inr x \<Longrightarrow> \<exists>e. v = VDict e \<and> lg_events lg' = lg_events lg @ [e]"
    "r = Inl Duplicate \<or> r = Inl (Refused reason) \<Longrightarrow> lg_events lg' = lg_events lg"
proof -
  have no_dict: "r = Inl (Refused ''Event is not an object'') \<and> lg' = lg" if "\<nexists>e. v = VDict e"
    using assms that by (cases v) (auto simp: ingest_event_def reading_def)
  have dict: "case r of Inr _ \<Rightarrow> lg_events lg' = lg_events lg @ [e] | Inl (Raised _) \<Rightarrow> True | Inl _ \<Rightarrow> lg_events lg' = lg_events lg"
    if "v = VDict e" for e
    using adds_ingest_event assms that unfolding adds_def by blast
  show "\<exists>e. v = VDict e \<and> lg_events lg' = lg_events lg @ [e]" if "r = Inr x"
    using no_dict dict that by (cases "\<exists>e. v = VDict e") auto
  show "lg_events lg' = lg_events lg" if "r = Inl Duplicate \<or> r = Inl (Refused reason)"
    using no_dict dict that by (cases "\<exists>e. v = VDict e") auto
qed

lemma ingest_loop_effect:
  assumes "ingest_loop h vs i expected_prev rep lg = (Inr rep', lg')"
  shows "\<exists>acc. lg_events lg' = lg_events lg @ acc \<and> subseq (map VDict acc) vs \<and>
    ir_accepted rep' = ir_accepted rep + length acc \<and>
    ir_accepted rep' + ir_duplicates rep' + length (ir_rejected rep') =
      ir_accepted rep + ir_duplicates rep + length (ir_rejected rep) + length vs"
  using assms
proof (induction vs arbitrary: i expected_prev rep lg)
  case (Cons v vs)
  obtain r s where step: "ingest_event h expected_prev v lg = (r, s)" by fastforce
  note effect = ingest_event_effect [OF step]
  consider (ok) x where "r = Inr x" | (dup) "r = Inl Duplicate" | (refused) reason where "r = Inl (Refused reason)"
    using Cons.prems step by (cases r; cases "projl r") auto
  then show ?case
  proof cases
    case ok
    then obtain e where e: "v = VDict e" "lg_events s = lg_events lg @ [e]" using effect(1) by blast
    from Cons.IH Cons.prems step ok obtain acc where "lg_events lg' = lg_events s @ acc" "subseq (map VDict acc) vs"
        "ir_accepted rep' = Suc (ir_accepted rep) + length acc"
        "ir_accepted rep' + ir_duplicates rep' + length (ir_rejected rep') =
          Suc (ir_accepted rep) + ir_duplicates rep + length (ir_rejected rep) + length vs"
      by fastforce
    with e show ?thesis by (intro exI [of _ "e # acc"]) simp
  next
    case dup
    then show ?thesis using Cons.IH Cons.prems step effect(2) by fastforce
  next
    case refused
    then show ?thesis using Cons.IH Cons.prems step effect(2) by fastforce
  qed
qed auto

lemma ingest_events_effect:
  assumes "ingest_events h vs lg = (Inr rep, lg')"
  shows "\<exists>acc. lg_events lg' = (if acc = [] then lg_events lg else hot (lg_events lg @ acc)) \<and> subseq (map VDict acc) vs \<and>
    ir_accepted rep = length acc \<and> ir_accepted rep + ir_duplicates rep + length (ir_rejected rep) = length vs"
proof -
  from assms obtain s where s: "ingest_loop h vs 0 (lg_head lg) \<lparr>ir_accepted = 0, ir_duplicates = 0, ir_rejected = []\<rparr> lg = (Inr rep, s)"
      "(if 0 < ir_accepted rep then pbind (updating invalidate_merkle_cache) (\<lambda>_. pbind (save h) (\<lambda>_. pdone rep))
        else pdone rep) s = (Inr rep, lg')"
    by (auto simp: ingest_events_def prog_simps split: if_splits)
  from ingest_loop_effect [OF s(1)] obtain acc where acc: "lg_events s = lg_events lg @ acc" "subseq (map VDict acc) vs"
      "ir_accepted rep = length acc" "ir_accepted rep + ir_duplicates rep + length (ir_rejected rep) = length vs"
    by auto
  have "lg_events lg' = (if acc = [] then lg_events lg else hot (lg_events lg @ acc))"
  proof (cases acc)
    case Nil
    then show ?thesis using s(2) acc by (simp add: pdone_def)
  next
    case (Cons e es)
    then have "save h (invalidate_merkle_cache s) = (Inr (), lg')"
      using s(2) acc(3) by (auto simp: pbind_updating prog_simps)
    from save_events [OF this] show ?thesis using acc(1) Cons by (simp add: invalidate_merkle_cache_def)
  qed
  with acc show ?thesis by blast
qed

subsection \<open>Validation\<close>

lemma link_checks_iff:
  "link_checks h e prev = Inr () \<longleftrightarrow> eget e ''prev_hash'' = prev \<and> (\<exists>ev. from_dict (h_now h) e = Inr ev)"
proof
  assume "link_checks h e prev = Inr ()"
  then show "eget e ''prev_hash'' = prev \<and> (\<exists>ev. from_dict (h_now h) e = Inr ev)"
    by (auto simp: link_checks_def prog_simps req_def eget_def split: option.splits if_splits)
next
  assume r: "eget e ''prev_hash'' = prev \<and> (\<exists>ev. from_dict (h_now h) e = Inr ev)"
  then obtain ev where ev: "from_dict (h_now h) e = Inr ev" by blast
  have "req e ''prev_hash'' = Inr prev"
    using r from_dict_read [OF ev] by (auto simp: read_event_def req_def eget_def res_simps split: option.splits)
  moreover have "req e ''event_id'' = Inr (VStr (compute_hash ev))"
    using from_dict_id [OF ev] by (cases "map_of e ''event_id''") (auto simp: req_def eget_def)
  ultimately show "link_checks h e prev = Inr ()" using ev by (simp add: link_checks_def)
qed

lemma validate_from_iff:
  "validate_from h full False es prev seen_keys = Inr p \<longleftrightarrow>
     prev_linked prev es \<and> list_all (\<lambda>e. \<exists>ev. from_dict (h_now h) e = Inr ev) es \<and> p = tip prev es"
  by (induction es arbitrary: prev)
    (auto simp: tip_def prog_simps link_checks_iff eid_def)

subsection \<open>Locators\<close>

lemma locator_loop_ids:
  assumes "idx < int (length es)"
  shows "set (locator_loop es n idx k c loc) \<subseteq> set loc \<union> eid ` set es"
  using assms
proof (induction es n idx k c loc rule: locator_loop.induct)
  case (1 es n idx k c loc)
  show ?case
  proof (cases "0 \<le> idx \<and> int (length loc) < n - 1")
    case True
    then have "es ! nat idx \<in> set es" using 1(2) by (intro nth_mem) auto
    moreover have "idx - 2 ^ m < int (length es)" for m
      using 1(2) zero_le_power [of "2::int" m] by linarith
    ultimately show ?thesis using 1(1) [OF True] True by (subst locator_loop.simps) (auto simp: Let_def)
  next
    case False
    then show ?thesis by (subst locator_loop.simps) auto
  qed
qed

lemma get_locator_ids: "set (get_locator n lg) \<subseteq> insert (VStr GENESIS_HASH) (eid ` set (lg_events lg))"
  using locator_loop_ids [of "int (length (lg_events lg)) - 1" "lg_events lg" n 0 0 "[]"]
  by (auto simp: get_locator_def)

lemma find_ancestor_found:
  assumes "\<forall>v \<in> set hs. hashable v" and "VStr GENESIS_HASH \<in> set hs"
  shows "(\<exists>hsh i. find_ancestor hs limit lg = Inr (hsh, int (Suc i), take limit (drop (Suc i) (lg_events lg))) \<and>
      hsh \<in> set hs \<and> hsh \<noteq> VStr GENESIS_HASH \<and> dict_get (lg_index lg) hsh = Some i) \<or>
    find_ancestor hs limit lg = Inr (VStr GENESIS_HASH, 0, take limit (lg_events lg))"
  using assms
proof (induction hs)
  case (Cons v hs)
  show ?case
  proof (cases "v = VStr GENESIS_HASH")
    case False
    then show ?thesis
      using Cons by (cases "dict_get (lg_index lg) v") (auto simp: table_get_def)
  qed simp
qed simp

end
