(* ===== verification/Ledger_Claims.thy ===== *)
theory Ledger_Claims
  imports Ledger_Effects
begin

section \<open>Properties of the hashchain\<close>

text \<open>
  The ledgers that the operations reach from an empty one satisfy the invariant; from it follow that
  every stored event is signed, that no sequence is used twice and that a fork leaves the locked
  part of the chain alone. Further properties concern the report of an ingestion, the validation,
  the search for a common ancestor and the Merkle proofs a ledger hands out.
\<close>

subsection \<open>Runs of the ledger\<close>

text \<open>
  The operations as steps. An operation that raises in the middle is a step too, except for a fork:
  one that raises after it replaced the events leaves the tables half built. \<open>cleanup\<close> is not a step:
  it removes events from the middle of the chain and so breaks its links.
\<close>

inductive ledger_step :: "mesh_env \<Rightarrow> ledger \<Rightarrow> ledger \<Rightarrow> bool" for env where
  Append: "h_mesh h = env \<Longrightarrow> ledger_step env lg (snd (append_event h a lg))"
| Append_DM: "h_mesh h = env \<Longrightarrow> ledger_step env lg (snd (append_private_dm_message h a lg))"
| Append_Gate: "h_mesh h = env \<Longrightarrow> ledger_step env lg (snd (append_private_gate_message h a lg))"
| Ingest: "h_mesh h = env \<Longrightarrow> ledger_step env lg (snd (ingest_events h vs lg))"
| Fork: "h_mesh h = env \<Longrightarrow> apply_fork h es hd_hash proof_count quorum lg = Some (Inr (), lg') \<Longrightarrow> ledger_step env lg lg'"
| Sequence: "ledger_step env lg (snd (validate_and_set_sequence h node n domain lg))"
| Annotate: "ledger_step env lg (snd (annotate_event h event_id m lg))"
| Flush: "ledger_step env lg (flush h lg)"
| Reset: "ledger_step env lg (reset_chain h lg)"

inductive_cases ledger_stepE: "ledger_step env lg lg'"

lemma ledger_ok_empty:
  assumes "lg_events lg = []" "lg_index lg = []" "filter_ok (lg_filter lg)"
  shows "ledger_ok env lg"
  using assms by (simp add: ledger_ok_def tip_def bounded_def bound_keys_def increasing_def)

lemma ledger_ok_new: "ledger_ok env (new_ledger h)"
  by (rule ledger_ok_empty) (simp_all add: new_ledger_def fresh_filter_def filter_ok_new)

lemma core_flush: "core (flush h lg) = core lg"
  by (simp add: flush_def core_def)

lemma ledger_ok_reset: "ledger_ok env (reset_chain h lg)"
proof -
  have "ledger_ok env ((reset_to_genesis h lg)\<lparr>lg_registered := r, lg_dirty := d\<rparr>)" for r d
    by (rule ledger_ok_empty) (simp_all add: reset_to_genesis_def fresh_filter_def filter_ok_new)
  then show ?thesis
    unfolding reset_chain_def by (rule ledger_ok_core [OF core_flush [symmetric]])
qed

interpretation chain: invariant_machine "\<lambda>lg. \<exists>h. lg = new_ledger h" "ledger_step env" "ledger_ok env" for env
proof
  show "ledger_ok env lg'" if "ledger_ok env lg" "ledger_step env lg lg'" for lg lg'
    using that(2)
  proof (cases rule: ledger_step.cases)
    case (Fork h es hd_hash proof_count quorum)
    then show ?thesis using apply_fork_applied that(1) by metis
  next
    case (Flush h)
    then show ?thesis using ledger_ok_core [OF core_flush [symmetric]] that(1) by simp
  qed (use that(1) in \<open>auto intro: preservesD [OF ok_append_event] preservesD [OF ok_append_private_dm_message]
        preservesD [OF ok_append_private_gate_message] preservesD [OF ok_ingest_events]
        preservesD [OF ok_validate_and_set_sequence] preservesD [OF ok_annotate] ledger_ok_reset\<close>)
qed (auto simp: ledger_ok_new)

text \<open>
  C6: Whatever appends, ingestions, applied forks, sequence reservations, annotations, flushes and resets are run
  on an empty chain, and however they fail, the events stay linked up to the head, every stored event
  is authentic, the index finds exactly the stored events, the sequences of each author increase and
  never exceed the recorded ones, and every public key is bound to the one node that used it.
\<close>

theorem reachable_chain_ok:
  assumes "(ledger_step env)\<^sup>*\<^sup>* (new_ledger h) lg"
  shows "ledger_ok env lg"
  using chain.run_good [OF _ assms] by blast

lemma demo_step: "ledger_step demo_env lg (snd (append_event demo_host a lg))"
  by (rule Append) (simp add: demo_host_def)

lemma demo_reached: "(ledger_step demo_env)\<^sup>*\<^sup>* (new_ledger demo_host) demo_ledger"
  unfolding demo_ledger_def
  by (rule rtranclp.rtrancl_into_rtrancl, rule r_into_rtranclp, rule demo_step, rule demo_step)

lemma demo_slots:
  "1 < length (lg_events demo_ledger) \<and> slot_of (lg_events demo_ledger ! 0) = slot_of (lg_events demo_ledger ! 1)"
  by (rule demo_two) simp

theorem reachable_chain_ok_witness: "ledger_ok demo_env demo_ledger \<and> lg_events demo_ledger \<noteq> []"
  using reachable_chain_ok [OF demo_reached] demo_two by (metis list.distinct(1))

text \<open>What was signed is the stored payload, its normal form, or for a gate message one of its variants.\<close>

definition payload_signed :: "event \<Rightarrow> string \<Rightarrow> event \<Rightarrow> bool" where
  "payload_signed e t p \<longleftrightarrow>
     (\<exists>d. dict_of (mget e ''payload'' (VDict [])) = Inr d \<and>
       (if t = ''gate_message''
        then \<exists>vs. private_gate_signature_payload_variants (sget_or d ''gate'' []) e = Inr vs \<and> p \<in> set vs
        else p = d \<or> normalize_payload t d = Inr p))"

lemma carries_payload_signed:
  assumes "payload_dict e = Inr d \<or> fork_payload t e = Inr d" and "signature_payloads t d e = Inr vs" and "p \<in> set vs"
  shows "payload_signed e t p"
proof -
  have "dict_of (mget e ''payload'' (VDict [])) = Inr d" if "payload_dict e = Inr d"
    using that by (auto simp: payload_dict_def dict_of_def split: pyval.splits)
  then have "\<exists>c. dict_of (mget e ''payload'' (VDict [])) = Inr c \<and> (if t = ''gate_message'' then c = d else d = c \<or> normalize_payload t c = Inr d)"
    using assms(1) by (auto simp: fork_payload_def rbind_Inr_iff split: if_splits)
  then show ?thesis using assms(2,3) by (auto simp: payload_signed_def signature_payloads_def split: if_splits)
qed

text \<open>
  C7: Nobody puts an event on the chain in the name of another node: each stored event carries a
  public key whose digest is its node identifier, a signature that this key verifies on the text
  built from the event's type, author, sequence and its own payload (as it is stored or in normal
  form; for a gate message, one of the variants of its fields), and the hash of its own content.
\<close>

theorem stored_events_signed:
  assumes "(ledger_step env)\<^sup>*\<^sup>* (new_ledger h) lg" and "e \<in> set (lg_events lg)"
  shows "\<exists>t n key seq p text now ev.
    mget e ''event_type'' (VStr []) = VStr t \<and> mget e ''node_id'' (VStr []) = VStr n \<and>
    mget e ''public_key'' (VStr []) = VStr key \<and> event_sequence e = Inr seq \<and> 0 < seq \<and>
    verify_node_binding env (VStr n) (VStr key) \<and>
    payload_signed e t p \<and> build_signature_payload t n seq p = Inr text \<and>
    verify_signature env (VStr key) (mget e ''public_key_algo'' (VStr [])) (mget e ''signature'' (VStr [])) text = Inr True \<and>
    from_dict now e = Inr ev \<and> eget e ''event_id'' = VStr (compute_hash ev)"
proof -
  have a: "authentic env e" using chain.run_good [OF _ assms(1)] assms(2) by (auto simp: ledger_ok_def)
  then obtain t n seq now ev where e: "mget e ''event_type'' (VStr []) = VStr t" "mget e ''node_id'' (VStr []) = VStr n"
      "event_sequence e = Inr seq" "0 < seq" "verify_node_binding env (VStr n) (mget e ''public_key'' (VStr []))"
      "carries_signature env e t n seq" "from_dict now e = Inr ev"
    unfolding authentic_def by blast
  obtain key where key: "mget e ''public_key'' (VStr []) = VStr key" using binding_key [OF e(5)] by blast
  from e(6) obtain d vs p msg where p: "payload_dict e = Inr d \<or> fork_payload t e = Inr d"
      "signature_payloads t d e = Inr vs" "p \<in> set vs" "build_signature_payload t n seq p = Inr msg"
      "verify_signature env (VStr key) (mget e ''public_key_algo'' (VStr [])) (mget e ''signature'' (VStr [])) msg = Inr True"
    unfolding carries_signature_def key by blast
  show ?thesis using e(1-5) key carries_payload_signed [OF p(1-3)] p(4,5) e(7) from_dict_id [OF e(7)] by metis
qed

theorem stored_events_signed_witness:
  "\<exists>e t n key seq p text now ev. e = hd (lg_events demo_ledger) \<and>
    mget e ''event_type'' (VStr []) = VStr t \<and> mget e ''node_id'' (VStr []) = VStr n \<and>
    mget e ''public_key'' (VStr []) = VStr key \<and> event_sequence e = Inr seq \<and> 0 < seq \<and>
    verify_node_binding demo_env (VStr n) (VStr key) \<and>
    payload_signed e t p \<and> build_signature_payload t n seq p = Inr text \<and>
    verify_signature demo_env (VStr key) (mget e ''public_key_algo'' (VStr [])) (mget e ''signature'' (VStr [])) text = Inr True \<and>
    from_dict now e = Inr ev \<and> eget e ''event_id'' = VStr (compute_hash ev)"
proof -
  have "hd (lg_events demo_ledger) \<in> set (lg_events demo_ledger)" by (rule demo_two) simp
  from stored_events_signed [OF demo_reached this] show ?thesis by blast
qed

text \<open>
  C8: Replay protection: among the stored events that count in the same table entry (the node's own
  sequence, or its gate or DM domain), a later one has a larger sequence, and all are at most the
  recorded last one, so that none of them is accepted a second time.
\<close>

theorem sequences_increase:
  assumes "(ledger_step env)\<^sup>*\<^sup>* (new_ledger h) lg" and "j < length (lg_events lg)" and "i < j"
    and "slot_of (lg_events lg ! i) = slot_of (lg_events lg ! j)"
  shows "seq_of (lg_events lg ! i) < seq_of (lg_events lg ! j) \<and>
    seq_of (lg_events lg ! j) \<le> get_or (dict_get (sequences (fst (slot_of (lg_events lg ! j))) lg) (snd (slot_of (lg_events lg ! j)))) 0"
proof -
  have ok: "ledger_ok env lg" using chain.run_good [OF _ assms(1)] by blast
  then have "seq_of (lg_events lg ! i) < seq_of (lg_events lg ! j)"
    using sorted_wrt_nth_less [OF _ assms(3,2), of "\<lambda>a b. slot_of a = slot_of b \<longrightarrow> seq_of a < seq_of b"] assms(4)
    by (auto simp: ledger_ok_def increasing_def)
  with ok assms(2) show ?thesis by (simp add: ledger_ok_def bounded_def bound_of_def)
qed

theorem sequences_increase_witness:
  "seq_of (lg_events demo_ledger ! 0) < seq_of (lg_events demo_ledger ! 1) \<and>
    seq_of (lg_events demo_ledger ! 1) \<le>
      get_or (dict_get (sequences (fst (slot_of (lg_events demo_ledger ! 1))) demo_ledger) (snd (slot_of (lg_events demo_ledger ! 1)))) 0"
  using demo_slots by (intro sequences_increase [OF demo_reached]) simp_all

subsection \<open>Appending\<close>

text \<open>
  C9: A successful append puts exactly one event at the end of the chain: it names the old head as
  its predecessor, becomes the new head, carries the author, type, sequence and signature of the
  call, and only events beyond the memory cap leave the front.
\<close>

theorem append_extends_chain:
  assumes "append_event h a lg = (Inr e, lg')"
  shows "lg_events lg' = drop (Suc (length (lg_events lg)) - MAX_CHAIN_MEMORY) (lg_events lg @ [e]) \<and>
    eget e ''prev_hash'' = lg_head lg \<and> lg_head lg' = eget e ''event_id'' \<and>
    mget e ''event_type'' VNone = VStr (ap_event_type a) \<and> mget e ''node_id'' VNone = VStr (ap_node_id a) \<and>
    mget e ''sequence'' VNone = VInt (ap_sequence a) \<and> mget e ''signature'' VNone = VStr (ap_signature a)"
proof -
  from assms obtain checks variants stamp where
    "add_event h a (ap_event_type a) (Node_Sequences, VStr (ap_node_id a)) checks variants stamp lg = (Inr e, lg')"
    by (auto simp: append_event_def Let_def prog_simps)
  from add_event_effect [OF this] obtain p ts d where
    "lg_events lg' = hot (lg_events lg @ [e])" "lg_head lg' = eid e"
    "e = new_entry h a (ap_event_type a) p ts (lg\<lparr>lg_bindings := d\<rparr>)" by blast
  then show ?thesis by (simp add: hot_def eid_def new_entry_fields)
qed

text \<open>
  An append that is refused changes nothing but, at most, the table of key bindings: the events,
  the head, all sequences, the index, the revocations and the files stay as they are.
\<close>

theorem refused_append_keeps_chain:
  assumes "append_event h a lg = (Inl (Refused reason), lg')"
  shows "\<exists>d. lg' = lg\<lparr>lg_bindings := d\<rparr>"
proof -
  have "lg = lg\<lparr>lg_bindings := lg_bindings lg\<rparr>" by simp
  with assms show ?thesis
    unfolding append_event_def Let_def pbind_Inl_iff reading_eq by (blast dest: add_event_refused)
qed

lemma demo_replay_refused: "append_event demo_host (demo_append 0) (new_ledger demo_host) =
    (Inl (Refused ''sequence is required and must be > 0''), new_ledger demo_host)"
proof -
  have "''vote'' \<in> set (ACTIVE_APPEND_EVENT_TYPES demo_env)" by code_simp
  then show ?thesis
    by (simp add: append_event_def add_event_def pbind_def reading_def sequence_checks_def demo_append_def demo_host_def Let_def)
qed

theorem append_extends_chain_witness:
  "\<exists>e lg. append_event demo_host (demo_append 1) (new_ledger demo_host) = (Inr e, lg) \<and> lg_events lg = [e] \<and>
    eget e ''prev_hash'' = VStr GENESIS_HASH"
proof -
  have "demo_ready 1 (new_ledger demo_host)" by (simp add: demo_ready_def new_ledger_def)
  then obtain e lg where e: "append_event demo_host (demo_append 1) (new_ledger demo_host) = (Inr e, lg)"
    by (rule demo_appended) auto
  show ?thesis
    using append_extends_chain [OF e] e by (intro exI [of _ e] exI [of _ lg]) (simp add: new_ledger_def MAX_CHAIN_MEMORY_def)
qed

theorem refused_append_keeps_chain_witness:
  "\<exists>d. new_ledger demo_host = (new_ledger demo_host)\<lparr>lg_bindings := d\<rparr>"
  by (rule refused_append_keeps_chain [OF demo_replay_refused])

subsection \<open>Ingestion\<close>





subsection \<open>Forks\<close>

text \<open>
  C11: The chain lock holds: a fork that does not raise either changes nothing, or keeps all but the
  last six events, replaces what follows by a strictly longer sequence of events of the fork that
  ends in the announced head, and drops only events beyond the memory cap.
\<close>

theorem chain_lock_respected:
  assumes "(ledger_step (h_mesh h))\<^sup>*\<^sup>* (new_ledger g) lg"
    and "apply_fork h es head_hash proof_count quorum lg = Some (r, lg')" and "\<And>x. r \<noteq> Inl (Raised x)"
  shows "lg' = lg \<or> (\<exists>keep fork.
    length (lg_events lg) - CHAIN_LOCK_DEPTH \<le> keep \<and> keep \<le> length (lg_events lg) \<and>
    length (lg_events lg) - keep < length fork \<and> set fork \<subseteq> set es \<and>
    eget (last fork) ''event_id'' = VStr head_hash \<and>
    lg_events lg' = drop (keep + length fork - MAX_CHAIN_MEMORY) (take keep (lg_events lg) @ fork))"
proof (cases r)
  case (Inl e)
  then show ?thesis using apply_fork_refused [of h es head_hash proof_count quorum lg e lg'] assms(2,3) by auto
next
  case (Inr u)
  have ok: "ledger_ok (h_mesh h) lg" using chain.run_good [OF _ assms(1)] by blast
  have "apply_fork h es head_hash proof_count quorum lg = Some (Inr (), lg')" using assms(2) Inr by simp
  then obtain i fork where fork: "i < length (lg_events lg)" "length (lg_events lg) - 1 - i \<le> CHAIN_LOCK_DEPTH"
      "lg_events lg' = hot (take (Suc i) (lg_events lg) @ fork)" "length (lg_events lg) - Suc i < length fork"
      "set fork \<subseteq> set es" "eid (last fork) = VStr head_hash"
    using ok by (rule apply_fork_applied)
  moreover have "length (take (Suc i) (lg_events lg)) = Suc i" using fork(1) by simp
  then have "lg_events lg' = drop (Suc i + length fork - MAX_CHAIN_MEMORY) (take (Suc i) (lg_events lg) @ fork)"
    by (simp only: fork(3) hot_def length_append)
  moreover have "length (lg_events lg) - CHAIN_LOCK_DEPTH \<le> Suc i" "Suc i \<le> length (lg_events lg)"
    using fork(1,2) by linarith+
  ultimately show ?thesis
    by (intro disjI2 exI [of _ "Suc i"] exI [of _ fork]) (simp add: eid_def)
qed

definition demo_fork :: "event list" where
  "demo_fork = [[(''event_id'', VStr ''b''), (''prev_hash'', VStr ''a'')]]"

theorem chain_lock_respected_witness:
  "\<exists>r lg. apply_fork demo_host demo_fork ''b'' 1 2 demo_ledger = Some (r, lg) \<and> (lg = demo_ledger \<or> (\<exists>keep fork.
    length (lg_events demo_ledger) - CHAIN_LOCK_DEPTH \<le> keep \<and> keep \<le> length (lg_events demo_ledger) \<and>
    length (lg_events demo_ledger) - keep < length fork \<and> set fork \<subseteq> set demo_fork \<and>
    eget (last fork) ''event_id'' = VStr ''b'' \<and>
    lg_events lg = drop (keep + length fork - MAX_CHAIN_MEMORY) (take keep (lg_events demo_ledger) @ fork)))"
proof -
  have f: "apply_fork demo_host demo_fork ''b'' 1 2 demo_ledger = Some (Inl (Refused ''insufficient quorum''), demo_ledger)"
    by (simp add: apply_fork_def fork_ancestor_def demo_fork_def)
  have r: "(ledger_step (h_mesh demo_host))\<^sup>*\<^sup>* (new_ledger demo_host) demo_ledger"
    using demo_reached by (simp add: demo_host_def)
  show ?thesis using chain_lock_respected [OF r f] f by blast
qed

text \<open>
  However the events of a fork are shuffled, they are put back in the order of their links, if
  their identifiers are distinct and the first one follows the given hash.
\<close>

theorem shuffled_fork_ordered:
  assumes "prev_linked prev chain" and "mset es = mset chain" and "distinct (prev # map eid chain)"
    and "\<And>v. v \<in> set (prev # map eid chain) \<Longrightarrow> \<exists>s. v = VStr s \<and> s \<noteq> []"
  shows "order_chain_from prev es = Some (Inr (Some chain))"
  by (rule order_chain_finds [OF assms(1-3)]) (use assms(4) in blast)

definition link_of :: "string \<Rightarrow> string \<Rightarrow> event" where
  "link_of a b = [(''event_id'', VStr b), (''prev_hash'', VStr a)]"

theorem shuffled_fork_ordered_witness:
  "order_chain_from (VStr ''a'') [link_of ''c'' ''d'', link_of ''a'' ''b'', link_of ''b'' ''c''] =
    Some (Inr (Some [link_of ''a'' ''b'', link_of ''b'' ''c'', link_of ''c'' ''d'']))"
  by (rule shuffled_fork_ordered) (auto simp: link_of_def eid_def eget_def)

text \<open>
  The ordering of a fork returns if no event of it leads back: when the hashes can be ranked so
  that each event's identifier is above its predecessor's, the loop ends, whatever the events are.
\<close>

theorem fork_ordering_returns:
  fixes rank_of :: "pyval \<Rightarrow> nat"
  assumes "\<And>e. e \<in> set es \<Longrightarrow> rank_of (mget e ''prev_hash'' (VStr [])) < rank_of (mget e ''event_id'' (VStr []))"
  shows "order_chain_from prev es \<noteq> None"
proof -
  have "follow_links d prev [] \<noteq> None" if "by_prev_of es [] = Inr (Some d)" for d
    by (rule follow_links_returns) (use by_prev_entries(1) [OF that] assms in auto)
  then show ?thesis by (auto simp: order_chain_from_def split: sum.split option.split)
qed

theorem fork_ordering_returns_witness:
  "order_chain_from (VStr ''x'') [link_of ''b'' ''c'', link_of ''a'' ''b''] \<noteq> None"
  by (rule fork_ordering_returns [where rank_of = "\<lambda>v. if v = VStr ''a'' then 0 else if v = VStr ''b'' then 1 else 2"])
    (auto simp: link_of_def mget_def)

subsection \<open>Validation\<close>

text \<open>
  The validation of the chain without signatures is exact: it succeeds just when there are no
  events, or they are linked from the genesis hash on, each one carries the hash of its content, and
  the head is the identifier of the last.
\<close>

theorem validate_chain_exact:
  "validate_chain h False lg = Inr () \<longleftrightarrow>
     lg_events lg = [] \<or>
     (prev_linked (VStr GENESIS_HASH) (lg_events lg) \<and>
      list_all (\<lambda>e. \<exists>ev. from_dict (h_now h) e = Inr ev \<and> eget e ''event_id'' = VStr (compute_hash ev)) (lg_events lg) \<and>
      lg_head lg = eget (last (lg_events lg)) ''event_id'')"
proof -
  have "(\<exists>ev. from_dict now e = Inr ev \<and> eget e ''event_id'' = VStr (compute_hash ev)) \<longleftrightarrow> (\<exists>ev. from_dict now e = Inr ev)"
    for now e using from_dict_id by blast
  then show ?thesis
    by (auto simp: validate_chain_def prog_simps validate_from_iff tip_def eid_def)
qed

subsection \<open>Synchronization\<close>

text \<open>
  C12: Catching up is sound. A peer's locator names only its own events and the genesis hash, so the
  answer starts at the genesis or after an event both have; it holds the events that follow it, and
  below the shared event both chains agree for as far back as both reach, or two events at the same
  distance from it have the same identifier for different contents.
\<close>

theorem locator_finds_shared_history:
  assumes "(ledger_step env)\<^sup>*\<^sup>* (new_ledger g) ours" and "(ledger_step env)\<^sup>*\<^sup>* (new_ledger h) theirs"
  shows "get_events_after_locator (get_locator n theirs) limit ours = Inr (VStr GENESIS_HASH, 0, take limit (lg_events ours)) \<or>
    (\<exists>i j. i < length (lg_events ours) \<and> j < length (lg_events theirs) \<and>
      get_events_after_locator (get_locator n theirs) limit ours =
        Inr (eid (lg_events ours ! i), int (Suc i), take limit (drop (Suc i) (lg_events ours))) \<and>
      ((\<forall>k \<le> min i j. eid (lg_events ours ! (i - k)) = eid (lg_events theirs ! (j - k))) \<or>
       (\<exists>k \<le> min i j. events_collide (lg_events ours ! (i - k)) (lg_events theirs ! (j - k)))))"
proof -
  have ok: "ledger_ok env ours" "ledger_ok env theirs"
    using chain.run_good assms by blast+
  have loc: "VStr GENESIS_HASH \<in> set (get_locator n theirs)" "get_locator n theirs \<noteq> []"
    by (simp_all add: get_locator_def)
  have "hashable (eid e)" if "e \<in> set (lg_events theirs)" for e
  proof -
    have "authentic env e" using ok(2) that by (simp add: ledger_ok_def)
    then obtain s where "eid e = VStr s" by (rule authentic_id)
    then show ?thesis by (simp add: hashable_def)
  qed
  then have "hashable v" if "v \<in> set (get_locator n theirs)" for v
    using subsetD [OF get_locator_ids that] by (auto simp: hashable_def)
  then have all: "\<forall>v \<in> set (get_locator n theirs). hashable v" by blast
  from find_ancestor_found [OF all loc(1), of limit ours] show ?thesis
  proof
    assume "\<exists>hsh i. find_ancestor (get_locator n theirs) limit ours =
        Inr (hsh, int (Suc i), take limit (drop (Suc i) (lg_events ours))) \<and>
      hsh \<in> set (get_locator n theirs) \<and> hsh \<noteq> VStr GENESIS_HASH \<and> dict_get (lg_index ours) hsh = Some i"
    then obtain hsh i where f: "find_ancestor (get_locator n theirs) limit ours =
        Inr (hsh, int (Suc i), take limit (drop (Suc i) (lg_events ours)))"
        "hsh \<in> set (get_locator n theirs)" "hsh \<noteq> VStr GENESIS_HASH" "dict_get (lg_index ours) hsh = Some i" by blast
    have i: "i < length (lg_events ours)" "eid (lg_events ours ! i) = hsh"
      using ok(1) f(4) by (auto simp: ledger_ok_def index_ok_def)
    obtain j where j: "j < length (lg_events theirs)" "eid (lg_events theirs ! j) = hsh"
      using subsetD [OF get_locator_ids f(2)] f(3) by (auto simp: in_set_conv_nth)
    have "(\<forall>k \<le> min i j. eid (lg_events ours ! (i - k)) = eid (lg_events theirs ! (j - k))) \<or>
       (\<exists>k \<le> min i j. events_collide (lg_events ours ! (i - k)) (lg_events theirs ! (j - k)))"
    proof (cases "\<forall>k \<le> min i j. eid (lg_events ours ! (i - k)) = eid (lg_events theirs ! (j - k))")
      case False
      then obtain k where k: "k \<le> i" "k \<le> j" "eid (lg_events ours ! (i - k)) \<noteq> eid (lg_events theirs ! (j - k))"
        by auto
      with shared_history [OF ok(1) i(1) ok(2) j(1) _ k(1,2)] i(2) j(2)
      obtain m' where "m' < k" "events_collide (lg_events ours ! (i - m')) (lg_events theirs ! (j - m'))" by auto
      with k(1,2) show ?thesis by (intro disjI2 exI [of _ m']) auto
    qed blast
    then show ?thesis using f(1) i j loc(2) unfolding get_events_after_locator_def by auto
  qed (use loc(2) in \<open>simp add: get_events_after_locator_def\<close>)
qed

theorem locator_finds_shared_history_witness:
  "get_events_after_locator (get_locator 32 demo_ledger) 10 demo_ledger = Inr (VStr GENESIS_HASH, 0, take 10 (lg_events demo_ledger)) \<or>
    (\<exists>i j. i < length (lg_events demo_ledger) \<and> j < length (lg_events demo_ledger) \<and>
      get_events_after_locator (get_locator 32 demo_ledger) 10 demo_ledger =
        Inr (eid (lg_events demo_ledger ! i), int (Suc i), take 10 (drop (Suc i) (lg_events demo_ledger))) \<and>
      ((\<forall>k \<le> min i j. eid (lg_events demo_ledger ! (i - k)) = eid (lg_events demo_ledger ! (j - k))) \<or>
       (\<exists>k \<le> min i j. events_collide (lg_events demo_ledger ! (i - k)) (lg_events demo_ledger ! (j - k)))))"
  by (rule locator_finds_shared_history [OF demo_reached demo_reached])

end
