(* ===== verification/Spec2Isabelle.thy ===== *)
theory Spec2Isabelle
  imports Governance_DSL Time_Validity Market_Lifecycle Resolution_Claims Schema_Claims
    Common_Rep_Claims Upgrade_Claims Gate_Claims Mesh_Protocol_Claims Mesh_Merkle Mesh_Schema
    Ledger_Claims
begin

text \<open>
  A verification library of the Infonet of the backend: the signed hashchain that carries it, its
  wire format and its payload rules (\<open>src/backend/services/mesh\<close>), and the economy and governance
  layer above it (\<open>src/backend/services/infonet\<close>): prediction markets and their resolution, disputes, reputation,
  petitions over the governable configuration, upgrade votes, identity rotation and chain time. The
  upper layer is written as pure functions of the hashchain (a list of signed event dictionaries), an
  evaluation time and the configuration; the library models these functions as they are written and
  proves what makes them correct.

  \<^bold>\<open>How the program is put together.\<close> Producers append events to the chain; \<open>schema.py\<close> checks the
  payload of each event type. Everything else is derived from the chain: \<open>time_validity.py\<close> derives
  the time, \<open>markets/lifecycle.py\<close> the phase of a market, \<open>markets/snapshot.py\<close> freezes the
  predictors at the end of the prediction phase, \<open>markets/evidence.py\<close> and \<open>markets/resolution.py\<close>
  decide the outcome from evidence and stakes (or from one-node-one-vote in the bootstrap phase,
  \<open>bootstrap/\<close>), \<open>markets/dispute.py\<close> may reverse it, \<open>reputation/\<close> mints oracle reputation from
  correct predictions and common reputation from upreps, and \<open>governance/\<close> weighs votes on petitions
  and upgrades by decayed oracle reputation. An accepted petition changes the configuration through
  \<open>governance/dsl_executor.py\<close>, which every other component reads. \<open>identity_rotation.py\<close> links the
  identities of a node, so that a predictor cannot resolve its own market under a new name.

  \<^bold>\<open>Data.\<close> A JSON value is a \<open>pyval\<close> (theory \<open>Py_Value\<close>), an event is an association list with
  distinct string keys, a chain is a list of values in append order. A function that may raise
  returns \<open>pyexc + 'a\<close>; \<open>rbind\<close>, \<open>mapR\<close> and \<open>foldR\<close> stop at the first exception as Python does
  (theory \<open>Infonet_Prelude\<close>). Floats are exact rationals rounded to binary64 after each operation,
  with both infinities and NaN (theory \<open>Py_Float\<close>); Python integers are \<open>int\<close>. Dictionaries keep
  insertion order. SHA-256, \<open>json.dumps\<close> and \<open>repr\<close> of floats are defined on words and digits
  (theories \<open>Py_Hashlib\<close>, \<open>Py_Value\<close>) by executable functions.

  \<^bold>\<open>Theories and the code they model\<close> (paths below \<open>services/infonet\<close>):
  \<^item> \<open>Chain_Events\<close>: \<open>markets/event_selection.py\<close> and the accessors every module repeats.
  \<^item> \<open>Config\<close>: \<open>config.py\<close>, the baseline, the schema of bounds, the cross-field invariants.
  \<^item> \<open>Governance_DSL\<close>: \<open>governance/dsl_executor.py\<close>. The executor refines an abstract list of updates
    (\<open>petition_executor_refines_spec\<close>), keeps the configuration valid along every run of accepted
    petitions (\<open>governed_config_valid\<close>) and changes only what a petition names.
  \<^item> \<open>Time_Validity\<close>: \<open>time_validity.py\<close>. Majority time is independent of the order of the chain,
    robust against a minority of the sampled nodes, and the drift gate follows it.
  \<^item> \<open>Market_Snapshot\<close>, \<open>Market_Lifecycle\<close>, \<open>Market_Evidence\<close>: \<open>markets/snapshot.py\<close>,
    \<open>lifecycle.py\<close>, \<open>evidence.py\<close>. What a snapshot freezes and that it is a commitment; that a
    market never moves backwards; who the first submitter of a side is.
  \<^item> \<open>Identity_Rotation\<close>: \<open>identity_rotation.py\<close>. The search for descendants ends and computes the
    closure of the rotations; a rotation is refused exactly while stakes are open.
  \<^item> \<open>Settlement\<close>, \<open>Resolution_Stakes\<close>, \<open>Bootstrap_Votes\<close>, \<open>Market_Resolution\<close>,
    \<open>Resolution_Properties\<close>, \<open>Resolution_Claims\<close>: \<open>markets/resolution.py\<close>,
    \<open>data_unavailable.py\<close>, \<open>stalemate_burn.py\<close>, \<open>bootstrap/eligibility.py\<close>,
    \<open>bootstrap/one_vote_dedup.py\<close>. When a market may be decided, who may be paid, and where every
    stake and bond goes on every path.
  \<^item> \<open>Disputes\<close>: \<open>markets/dispute.py\<close>. The effective outcome by parity of the reversals, its
    independence of other markets, and the exact settlement.
  \<^item> \<open>Oracle_Rep\<close>, \<open>Common_Rep\<close>, \<open>Reputation_Claims\<close>, \<open>Common_Rep_Claims\<close>: \<open>reputation/\<close>. Reputation
    comes only from correct predictions, governance weight decays, the anti-gaming multipliers never
    raise a balance.
  \<^item> \<open>Event_Schema\<close>, \<open>Schema_Claims\<close>: \<open>schema.py\<close>. Completeness of the registry, what an accepted
    payload contains, when validation raises, and that an accepted petition is executable.
  \<^item> \<open>Governance_Weights\<close>, \<open>Petitions\<close>, \<open>Petition_Claims\<close>, \<open>Upgrades\<close>, \<open>Upgrade_Claims\<close>:
    \<open>governance/petition.py\<close>, \<open>challenge.py\<close>, \<open>upgrade_hash.py\<close>. Each node counts once and with a
    stated weight, nothing passes or activates without the configured support, and every petition
    is settled once its windows are over. The interfaces \<open>vote_loop\<close> and \<open>sign_loop\<close> are interpreted
    on the four vote loops and the two signature loops.
  \<^item> \<open>Gates\<close>, \<open>Gate_Shutdown\<close>, \<open>Gate_Claims\<close>: \<open>gates/\<close>. Who is a member of a gate, when a gate is
    locked, and the two tiers of closing a gate: a shutdown needs a running suspension, and one
    appeal is heard per shutdown petition.

  Below \<open>services/mesh\<close>:
  \<^item> \<open>Mesh_Protocol\<close>, \<open>Mesh_Protocol_Claims\<close>: \<open>mesh_protocol.py\<close>. The canonical form of each
    payload, a normal form unless its format is blank, and the signed context that binds a write to its endpoint,
    author, sequence and body.
  \<^item> \<open>Mesh_Crypto\<close>: the part of \<open>mesh_crypto.py\<close> the chain calls: node identifiers as key digests,
    the signed text, the signature check.
  \<^item> \<open>Mesh_Schema\<close>: \<open>mesh_schema.py\<close>, the validators and the public, gate and DM ledger policies.
  \<^item> \<open>Mesh_Merkle\<close>: \<open>mesh_merkle.py\<close>. Proofs verify, and bind the leaf unless the two proofs at hand
    exhibit a collision of SHA-256.
  \<^item> \<open>Replay_Filter\<close>, \<open>Chain_Event\<close>: the classes \<open>ReplayFilter\<close> and \<open>ChainEvent\<close> of
    \<open>mesh_hashchain.py\<close>. The Bloom filter remembers what was added over one rotation; an event
    survives its dictionary form.
  \<^item> \<open>Ledger_Prog\<close>: checks that refuse or raise, and programs over a state that keep what they wrote
    when they fail, with Hoare triples for them; \<open>Ledger_State\<close>, \<open>Ledger_Append\<close>, \<open>Ledger_Fork\<close>,
    \<open>Ledger_Sync\<close>: the class \<open>Infonet\<close>, its state with the files it writes, the three appends and
    ingestion, forks, validation and cleanup, and the queries of a synchronizing peer.
  \<^item> \<open>Ledger_Invariant\<close>, \<open>Ledger_Extend\<close>, \<open>Ledger_Fork_Proofs\<close>, \<open>Ledger_Effects\<close>,
    \<open>Ledger_Claims\<close> (and \<open>Ledger_Demo\<close>, a ledger with two events for the witnesses): every operation
    but \<open>cleanup\<close>, which breaks the links, and a fork that raises after it replaced events, keeps the invariant \<open>ledger_ok\<close>; so every stored event is
    signed by its author, sequences increase, a fork leaves the locked part alone, the report of
    an ingestion is honest, and peers that share an event share what is below it.

  Interfaces are locales, each interpreted on the definitions of the model: \<open>payout_ledger\<close> (the
  dictionaries payouts are added to), \<open>invariant_machine\<close> (runs of accepted petitions, and runs of
  the operations of the ledger),
  \<open>vote_loop\<close> and \<open>sign_loop\<close> (loops that count one ballot, or one signature, per node).

  \<^bold>\<open>Assumptions of the model.\<close> Characters are code points below 256. Negative zero is not
  distinguished from zero. Keys of a sort that are NaN are ordered last (Python leaves their place
  open). \<open>sum\<close> adds floats from left to right, as CPython 3.11 does. Float powers are correctly
  rounded. The signature primitives of the \<open>cryptography\<close> package and the flags the mesh reads from
  its environment are the record \<open>mesh_env\<close>, an argument. \<open>CONFIG\<close> is an argument \<open>cfg\<close> of every function that reads it, and may lack keys (then
  KeyError is raised). The logarithm of \<open>math.log2\<close> is a parameter \<open>lg\<close>. The order in which Python
  iterates over a set of strings is a parameter \<open>ord\<close> where a sum depends on it. No fuel is used:
  every loop is structural over a list or has a termination proof, but one: following the links of
  a fork (\<open>follow_links\<close>) need not end and is a partial function, with the proof of when it returns.
  What an operation of the ledger reads from outside (the clock, read once, the salt of a filter, the
  limits of the environment, whether a file can be written) is its argument \<open>host\<close>.

  \<^bold>\<open>Not modelled.\<close> With logic of their own, and left for later: of \<open>mesh_hashchain.py\<close> the gate
  message store, loading, quarantine and the replay of the write-ahead log, the queries of the HTTP
  layer and the count of bytes; of the infonet package \<open>partition/\<close> (checkpoints and two-tier state),
  \<open>bootstrap/ramp.py\<close>, \<open>bootstrap/filter_funnel.py\<close>, \<open>bootstrap/argon2id.py\<close> and
  \<open>privacy/function_keys/\<close>; the other modules of \<open>services/mesh\<close>. Without logic of their own:
  re-exports, the adapters, which read the chain and call the modelled functions, the cutover, which
  registers event types at import (a flag of \<open>mesh_env\<close>), and the privacy contracts, interfaces
  whose implementations raise NotImplementedError. Outside these packages: transport, key storage,
  third-party MLS and signature libraries, the HTTP routers, the fetchers of external feeds, the
  AI and telemetry services, the desktop shell and the frontend. They do I/O against services and files that are not
  in the repository, or serve data the modelled functions do not read.
\<close>

end
